(* ===== verification/Prelude.thy ===== *)
theory Prelude imports Main "HOL-Library.Signed_Division" "HOL-Library.Word" begin

text \<open>
  Shared material of the development.

  Outcomes of a Go call: it returns a value (\<open>Ok\<close>), it panics (\<open>Panic\<close>: an index
  out of range or a division by zero) or it never returns (\<open>Hang\<close>).  A component whose
  code cannot panic or loop is modelled by plain functions; the others sequence their calls
  with \<open>go_bind\<close>.  The two other pieces shared by the components are the run of a step
  function over a list of events, with the locale that lifts a one-step invariant to a run, and
  the list lemmas used by several components.
\<close>

named_theorems go_simps \<open>rewrite rules that evaluate the outcome monad\<close>
named_theorems inv_intros \<open>preservation of a component's invariant by its operations\<close>

section \<open>Outcomes\<close>

datatype 'a go = Ok 'a | Panic | Hang

fun go_bind :: "'a go \<Rightarrow> ('a \<Rightarrow> 'b go) \<Rightarrow> 'b go" where
  "go_bind (Ok a) f = f a"
| "go_bind Panic f = Panic"
| "go_bind Hang f = Hang"

fun go_concat :: "('a \<Rightarrow> 'b list go) \<Rightarrow> 'a list \<Rightarrow> 'b list go" where
  "go_concat f [] = Ok []"
| "go_concat f (x # xs) = go_bind (f x) (\<lambda>ys. go_bind (go_concat f xs) (\<lambda>zs. Ok (ys @ zs)))"

fun go_filter :: "('a \<Rightarrow> bool go) \<Rightarrow> 'a list \<Rightarrow> 'a list go" where
  "go_filter p [] = Ok []"
| "go_filter p (x # xs) =
     go_bind (p x) (\<lambda>b. go_bind (go_filter p xs) (\<lambda>ys. Ok (if b then x # ys else ys)))"

fun go_foldl :: "('s \<Rightarrow> 'a \<Rightarrow> 's go) \<Rightarrow> 's \<Rightarrow> 'a list \<Rightarrow> 's go" where
  "go_foldl f s [] = Ok s"
| "go_foldl f s (x # xs) = go_bind (f s x) (\<lambda>s'. go_foldl f s' xs)"

definition go_nth :: "'a list \<Rightarrow> int \<Rightarrow> 'a go" where
  \<comment> \<open>a slice read: out of range panics\<close>
  "go_nth xs i = (if 0 \<le> i \<and> i < int (length xs) then Ok (xs ! nat i) else Panic)"

definition go_update :: "'a list \<Rightarrow> int \<Rightarrow> 'a \<Rightarrow> 'a list go" where
  \<comment> \<open>a slice write: out of range panics\<close>
  "go_update xs i v = (if 0 \<le> i \<and> i < int (length xs) then Ok (xs[nat i := v]) else Panic)"

lemma go_nth_in [simp, go_simps]: "0 \<le> i \<Longrightarrow> i < int (length xs) \<Longrightarrow> go_nth xs i = Ok (xs ! nat i)"
  by (simp add: go_nth_def)

lemma go_update_in [simp, go_simps]:
  "0 \<le> i \<Longrightarrow> i < int (length xs) \<Longrightarrow> go_update xs i v = Ok (xs[nat i := v])"
  by (simp add: go_update_def)

lemma go_bind_Ok_iff [simp]: "go_bind m f = Ok b \<longleftrightarrow> (\<exists>a. m = Ok a \<and> f a = Ok b)"
  by (cases m) auto

lemma go_bind_not_Hang: "m \<noteq> Hang \<Longrightarrow> (\<And>a. f a \<noteq> Hang) \<Longrightarrow> go_bind m f \<noteq> Hang"
  by (cases m) auto

lemma go_concat_Ok [go_simps]:
  "(\<And>x. x \<in> set xs \<Longrightarrow> f x = Ok (h x)) \<Longrightarrow> go_concat f xs = Ok (concat (map h xs))"
  by (induction xs) auto

lemma go_filter_Ok [go_simps]:
  "(\<And>x. x \<in> set xs \<Longrightarrow> p x = Ok (h x)) \<Longrightarrow> go_filter p xs = Ok (filter h xs)"
  by (induction xs) auto

section \<open>Truncating division\<close>

text \<open>Go's \<open>/\<close> and \<open>%\<close> truncate; on a non-negative dividend they are \<open>div\<close> and
  \<open>mod\<close>.\<close>

lemma sdiv_nonneg [simp]: "0 \<le> a \<Longrightarrow> 0 < b \<Longrightarrow> a sdiv b = a div (b :: int)"
  by (cases "a = 0") (simp_all add: signed_divide_int_def)

lemma smod_nonneg [simp]: "0 \<le> a \<Longrightarrow> 0 < b \<Longrightarrow> a smod b = a mod (b :: int)"
  by (cases "a = 0") (simp_all add: signed_modulo_int_def)

lemma wrap_smod:
  \<comment> \<open>the idiom \<open>((x % w) + w) % w\<close>\<close>
  assumes "0 < (w :: int)"
  shows "(x smod w + w) smod w = x mod w"
proof (cases "0 \<le> x")
  case True
  with assms show ?thesis by (simp add: add_nonneg_nonneg)
next
  case False
  then have e: "x smod w = - ((- x) mod w)" using assms by (simp add: signed_modulo_int_def)
  have "(- x) mod w < w" using assms by simp
  then have "0 \<le> - ((- x) mod w) + w" by simp
  then show ?thesis unfolding e using assms by (simp add: mod_minus_eq)
qed

section \<open>Calls with a state and an error\<close>

text \<open>
  A service method is a function of its environment's state.  It returns a value (\<open>Val\<close>) or
  stops: with an error it returns, with a panic, or without returning.  The state it leaves is there
  in each case, since nothing is rolled back.  \<open>wp m Q E s\<close> says that from \<open>s\<close> the call
  \<open>m\<close> returns a value and a state with \<open>Q\<close> or stops in a state with \<open>E\<close>.
\<close>

datatype 'e stop = Err 'e | Panicked | Hung

datatype ('e, 'a) res = Val 'a | Stop "'e stop"

type_synonym ('s, 'e, 'a) act = "'s \<Rightarrow> ('e, 'a) res \<times> 's"

definition ret :: "'a \<Rightarrow> ('s, 'e, 'a) act" where
  "ret a s = (Val a, s)"

definition stop_with :: "'e stop \<Rightarrow> ('s, 'e, 'a) act" where
  "stop_with e s = (Stop e, s)"

definition bind_act :: "('s, 'e, 'a) act \<Rightarrow> ('a \<Rightarrow> ('s, 'e, 'b) act) \<Rightarrow> ('s, 'e, 'b) act" where
  "bind_act m f s = (case m s of (Val a, s') \<Rightarrow> f a s' | (Stop e, s') \<Rightarrow> (Stop e, s'))"

definition then_act :: "('s, 'e, unit) act \<Rightarrow> ('s, 'e, 'b) act \<Rightarrow> ('s, 'e, 'b) act" where
  "then_act m n = bind_act m (\<lambda>_. n)"

definition reject_if :: "bool \<Rightarrow> 'e \<Rightarrow> ('s, 'e, unit) act" where
  "reject_if b e = (if b then stop_with (Err e) else ret ())"

definition query :: "('s \<Rightarrow> 'a) \<Rightarrow> ('s, 'e, 'a) act" where
  "query f s = (Val (f s), s)"

definition change :: "('s \<Rightarrow> 's) \<Rightarrow> ('s, 'e, unit) act" where
  "change f s = (Val (), f s)"

definition of_go :: "'a go \<Rightarrow> ('s, 'e, 'a) act" where
  "of_go g s = (case g of Ok a \<Rightarrow> (Val a, s) | Panic \<Rightarrow> (Stop Panicked, s) | Hang \<Rightarrow> (Stop Hung, s))"

definition attempt :: "('s, 'e, 'a) act \<Rightarrow> ('s, 'e, ('e, 'a) res) act" where
  \<comment> \<open>the caller inspects the error; a panic or a loop is not caught\<close>
  "attempt m s = (case m s of (Val a, s') \<Rightarrow> (Val (Val a), s')
     | (Stop (Err e), s') \<Rightarrow> (Val (Stop (Err e)), s')
     | (Stop e, s') \<Rightarrow> (Stop e, s'))"

definition wp :: "('s, 'e, 'a) act \<Rightarrow> ('a \<Rightarrow> 's \<Rightarrow> bool) \<Rightarrow> ('e stop \<Rightarrow> 's \<Rightarrow> bool) \<Rightarrow> 's \<Rightarrow> bool" where
  "wp m Q E s = (case m s of (Val a, s') \<Rightarrow> Q a s' | (Stop e, s') \<Rightarrow> E e s')"

lemma wp_ret [simp]: "wp (ret a) Q E s = Q a s"
  by (simp add: wp_def ret_def)

lemma wp_stop [simp]: "wp (stop_with e) Q E s = E e s"
  by (simp add: wp_def stop_with_def)

lemma wp_bind [simp]: "wp (bind_act m f) Q E s = wp m (\<lambda>a. wp (f a) Q E) E s"
  by (auto simp: wp_def bind_act_def split: prod.splits res.splits)

lemma wp_then [simp]: "wp (then_act m n) Q E s = wp m (\<lambda>_. wp n Q E) E s"
  by (simp add: then_act_def)

lemma wp_reject_if [simp]: "wp (reject_if b e) Q E s = (if b then E (Err e) s else Q () s)"
  by (simp add: reject_if_def)

lemma wp_query [simp]: "wp (query f) Q E s = Q (f s) s"
  by (simp add: wp_def query_def)

lemma wp_change [simp]: "wp (change f) Q E s = Q () (f s)"
  by (simp add: wp_def change_def)

lemma wp_of_go [simp]:
  "wp (of_go g) Q E s = (case g of Ok a \<Rightarrow> Q a s | Panic \<Rightarrow> E Panicked s | Hang \<Rightarrow> E Hung s)"
  by (simp add: wp_def of_go_def split: go.splits)

lemma wp_attempt [simp]:
  "wp (attempt m) Q E s = wp m (\<lambda>a. Q (Val a)) (\<lambda>e s'. case e of Err x \<Rightarrow> Q (Stop (Err x)) s' | _ \<Rightarrow> E e s') s"
  by (auto simp: wp_def attempt_def split: prod.splits res.splits stop.splits)

lemma wp_if [simp]: "wp (if b then m else n) Q E s = (if b then wp m Q E s else wp n Q E s)"
  by simp

lemma wp_mono:
  "wp m Q E s \<Longrightarrow> (\<And>a s'. Q a s' \<Longrightarrow> Q' a s') \<Longrightarrow> (\<And>e s'. E e s' \<Longrightarrow> E' e s') \<Longrightarrow> wp m Q' E' s"
  by (auto simp: wp_def split: prod.splits res.splits)

lemma wp_conj: "wp m Q E s \<Longrightarrow> wp m Q' E' s \<Longrightarrow> wp m (\<lambda>a s'. Q a s' \<and> Q' a s') (\<lambda>e s'. E e s' \<and> E' e s') s"
  by (auto simp: wp_def split: prod.splits res.splits)

lemma wp_result: "wp m (\<lambda>a s'. P (Val a) s') (\<lambda>e s'. P (Stop e) s') s \<longleftrightarrow> P (fst (m s)) (snd (m s))"
  by (auto simp: wp_def split: prod.splits res.splits)

lemma wp_state: "wp m (\<lambda>_ s'. P s') (\<lambda>_ s'. P s') s \<longleftrightarrow> P (snd (m s))"
  by (auto simp: wp_def split: prod.splits res.splits)

lemmas act_defs = ret_def stop_with_def bind_act_def then_act_def reject_if_def query_def change_def
  of_go_def attempt_def

section \<open>What a call does to its state\<close>

definition moves :: "('s \<Rightarrow> 's \<Rightarrow> bool) \<Rightarrow> ('s, 'e, 'a) act \<Rightarrow> bool" where
  \<comment> \<open>however the call ends, its states are related\<close>
  "moves R m = (\<forall>s. R s (snd (m s)))"

definition always :: "('s \<Rightarrow> 's \<Rightarrow> bool) \<Rightarrow> ('s, 'e, 'a) act \<Rightarrow> bool" where
  \<comment> \<open>the call returns, and its states are related\<close>
  "always R m = (\<forall>s. wp m (\<lambda>_. R s) (\<lambda>_ _. False) s)"

lemma always_wp: "always R m \<Longrightarrow> wp m (\<lambda>_. R s) (\<lambda>_ _. False) s"
  by (simp add: always_def)

lemma moves_wp: "moves R m \<longleftrightarrow> (\<forall>w. wp m (\<lambda>_ w'. R w w') (\<lambda>_ w'. R w w') w)"
  by (simp add: moves_def wp_state)

locale transition =
  fixes R :: "'s \<Rightarrow> 's \<Rightarrow> bool"
  assumes refl_R: "R s s"
    and trans_R: "R s t \<Longrightarrow> R t u \<Longrightarrow> R s u"
begin

lemma moves_ret: "moves R (ret a)"
  by (simp add: moves_def ret_def refl_R)

lemma moves_stop: "moves R (stop_with x)"
  by (simp add: moves_def stop_with_def refl_R)

lemma moves_reject_if: "moves R (reject_if b x)"
  by (simp add: reject_if_def moves_ret moves_stop)

lemma moves_query: "moves R (query f)"
  by (simp add: moves_def query_def refl_R)

lemma moves_bind: "moves R m \<Longrightarrow> (\<And>a. moves R (f a)) \<Longrightarrow> moves R (bind_act m f)"
  unfolding moves_def bind_act_def
  by (auto split: prod.splits res.splits) (metis snd_conv trans_R)+

lemma moves_then: "moves R m \<Longrightarrow> moves R n \<Longrightarrow> moves R (then_act m n)"
  unfolding then_act_def by (rule moves_bind)

lemma moves_attempt: "moves R m \<Longrightarrow> moves R (attempt m)"
  unfolding moves_def attempt_def by (auto split: prod.splits res.splits stop.splits) (metis snd_conv)+

lemma moves_if: "(b \<Longrightarrow> moves R m) \<Longrightarrow> (\<not> b \<Longrightarrow> moves R n) \<Longrightarrow> moves R (if b then m else n)"
  by simp

lemma moves_case_option: "moves R m \<Longrightarrow> (\<And>a. moves R (f a)) \<Longrightarrow> moves R (case x of None \<Rightarrow> m | Some a \<Rightarrow> f a)"
  by (cases x) simp_all

lemma moves_case_res: "(\<And>a. moves R (f a)) \<Longrightarrow> (\<And>s. moves R (g s)) \<Longrightarrow> moves R (case x of Val a \<Rightarrow> f a | Stop s \<Rightarrow> g s)"
  by (cases x) simp_all

lemma moves_change: "(\<And>s. R s (f s)) \<Longrightarrow> moves R (change f)"
  by (simp add: moves_def change_def)

lemma always_ret: "always R (ret a)"
  by (simp add: always_def refl_R)

lemma always_query: "always R (query f)"
  by (simp add: always_def refl_R)

lemma always_change: "(\<And>s. R s (f s)) \<Longrightarrow> always R (change f)"
  by (simp add: always_def)

lemma always_bind:
  assumes "always R m" "\<And>a. always R (f a)"
  shows "always R (bind_act m f)"
  unfolding always_def wp_bind
proof (intro allI wp_mono [OF always_wp [OF assms(1)]])
  fix s a t
  assume "R s t"
  then show "wp (f a) (\<lambda>_. R s) (\<lambda>_ _. False) t" by (intro wp_mono [OF always_wp [OF assms(2)]]) (auto intro: trans_R)
qed simp

lemma always_then: "always R m \<Longrightarrow> always R n \<Longrightarrow> always R (then_act m n)"
  unfolding then_act_def by (rule always_bind)

lemma always_if: "(b \<Longrightarrow> always R m) \<Longrightarrow> (\<not> b \<Longrightarrow> always R n) \<Longrightarrow> always R (if b then m else n)"
  by simp

lemma always_case_option: "always R m \<Longrightarrow> (\<And>a. always R (f a)) \<Longrightarrow> always R (case x of None \<Rightarrow> m | Some a \<Rightarrow> f a)"
  by (cases x) simp_all

lemma always_moves: "always R m \<Longrightarrow> moves R m"
  unfolding moves_def wp_state [symmetric] by (auto intro: wp_mono [OF always_wp])

lemmas always_rules = always_ret always_query always_bind always_then always_if always_case_option

lemmas moves_rules = moves_ret moves_stop moves_reject_if moves_query moves_bind moves_then moves_attempt
  moves_if moves_case_option moves_case_res

end

section \<open>Two calls side by side\<close>

definition agree :: "('s \<Rightarrow> 't \<Rightarrow> bool) \<Rightarrow> ('s, 'e, 'a) act \<Rightarrow> ('t, 'e, 'a) act \<Rightarrow> bool" where
  \<comment> \<open>from related states they end in the same way, in related states\<close>
  "agree R m n = (\<forall>s t. R s t \<longrightarrow> fst (m s) = fst (n t) \<and> R (snd (m s)) (snd (n t)))"

lemma agreeD: "agree R m n \<Longrightarrow> R s t \<Longrightarrow> fst (m s) = fst (n t) \<and> R (snd (m s)) (snd (n t))"
  by (simp add: agree_def)

lemma agree_ret: "agree R (ret a) (ret a)"
  by (simp add: agree_def ret_def)

lemma agree_stop: "agree R (stop_with x) (stop_with x)"
  by (simp add: agree_def stop_with_def)

lemma agree_reject_if: "agree R (reject_if b x) (reject_if b x)"
  by (simp add: reject_if_def agree_ret agree_stop)

lemma agree_query: "(\<And>s t. R s t \<Longrightarrow> f s = g t) \<Longrightarrow> agree R (query f) (query g)"
  by (simp add: agree_def query_def)

lemma agree_change: "(\<And>s t. R s t \<Longrightarrow> R (f s) (g t)) \<Longrightarrow> agree R (change f) (change g)"
  by (simp add: agree_def change_def)

lemma agree_bind:
  assumes "agree R m n" "\<And>a. agree R (f a) (g a)"
  shows "agree R (bind_act m f) (bind_act n g)"
  unfolding agree_def
proof (intro allI impI)
  fix s t
  assume "R s t"
  then have a: "fst (m s) = fst (n t)" "R (snd (m s)) (snd (n t))" using agreeD [OF assms(1)] by auto
  show "fst (bind_act m f s) = fst (bind_act n g t) \<and> R (snd (bind_act m f s)) (snd (bind_act n g t))"
    using a agreeD [OF assms(2) a(2)] by (cases "m s"; cases "n t"; cases "fst (m s)") (simp_all add: bind_act_def)
qed

lemma agree_then: "agree R m n \<Longrightarrow> agree R f g \<Longrightarrow> agree R (then_act m f) (then_act n g)"
  unfolding then_act_def by (rule agree_bind)

lemma agree_attempt:
  assumes "agree R m n"
  shows "agree R (attempt m) (attempt n)"
  unfolding agree_def
proof (intro allI impI)
  fix s t
  assume "R s t"
  then have a: "fst (m s) = fst (n t)" "R (snd (m s)) (snd (n t))" using agreeD [OF assms] by auto
  then show "fst (attempt m s) = fst (attempt n t) \<and> R (snd (attempt m s)) (snd (attempt n t))"
    by (cases "m s"; cases "n t"; cases "fst (m s)") (auto simp: attempt_def split: stop.splits)
qed

lemma agree_if: "(b \<Longrightarrow> agree R m n) \<Longrightarrow> (\<not> b \<Longrightarrow> agree R m' n') \<Longrightarrow> agree R (if b then m else m') (if b then n else n')"
  by simp

lemma agree_case_option: "agree R m n \<Longrightarrow> (\<And>a. agree R (f a) (g a)) \<Longrightarrow>
    agree R (case x of None \<Rightarrow> m | Some a \<Rightarrow> f a) (case x of None \<Rightarrow> n | Some a \<Rightarrow> g a)"
  by (cases x) simp_all

lemma agree_case_sum: "(\<And>a. agree R (f a) (f' a)) \<Longrightarrow> (\<And>a. agree R (g a) (g' a)) \<Longrightarrow>
    agree R (case x of Inl a \<Rightarrow> f a | Inr a \<Rightarrow> g a) (case x of Inl a \<Rightarrow> f' a | Inr a \<Rightarrow> g' a)"
  by (cases x) simp_all

lemma agree_case_res: "(\<And>a. agree R (f a) (f' a)) \<Longrightarrow> (\<And>a. agree R (g a) (g' a)) \<Longrightarrow>
    agree R (case x of Val a \<Rightarrow> f a | Stop a \<Rightarrow> g a) (case x of Val a \<Rightarrow> f' a | Stop a \<Rightarrow> g' a)"
  by (cases x) simp_all

lemmas agree_rules = agree_ret agree_stop agree_reject_if agree_bind agree_then agree_attempt
  agree_if agree_case_option agree_case_sum agree_case_res

section \<open>Decimal text\<close>

fun show_nat :: "nat \<Rightarrow> string" where
  "show_nat n = (if n < 10 then [char_of (48 + n)] else show_nat (n div 10) @ [char_of (48 + n mod 10)])"

declare show_nat.simps [simp del]

definition show_int :: "int \<Rightarrow> string" where
  "show_int i = (if i < 0 then CHR ''-'' # show_nat (nat (- i)) else show_nat (nat i))"

section \<open>Runs of a step function\<close>

definition run_steps :: "('s \<Rightarrow> 'e \<Rightarrow> 's) \<Rightarrow> 's \<Rightarrow> 'e list \<Rightarrow> 's" where
  "run_steps step s es = foldl step s es"

lemma run_steps_Nil [simp]: "run_steps step s [] = s"
  by (simp add: run_steps_def)

lemma run_steps_Cons [simp]: "run_steps step s (e # es) = run_steps step (step s e) es"
  by (simp add: run_steps_def)

lemma run_steps_append [simp]: "run_steps step s (es @ fs) = run_steps step (run_steps step s es) fs"
  by (simp add: run_steps_def)

locale stepping =
  fixes step :: "'s \<Rightarrow> 'e \<Rightarrow> 's"
    and inv :: "'s \<Rightarrow> bool"
  assumes step_keeps: "inv s \<Longrightarrow> inv (step s e)"
begin

lemma run_keeps: "inv s \<Longrightarrow> inv (run_steps step s es)"
  by (induction es arbitrary: s) (auto intro: step_keeps)

lemma run_prefix_keeps: "inv s \<Longrightarrow> es = fs @ gs \<Longrightarrow> inv (run_steps step s fs)"
  by (simp add: run_keeps)

end

section \<open>Lists\<close>

lemma takeWhile_upt_all: "k < length (takeWhile P [a..<b]) \<Longrightarrow> P (a + k)"
  by (metis length_takeWhile_le nth_mem nth_upt order_less_le_trans set_takeWhileD takeWhile_nth
      length_upt less_diff_conv add.commute)

lemma takeWhile_upt_eq: "takeWhile P [a..<b] = [a..<a + length (takeWhile P [a..<b])]"
proof -
  let ?n = "length (takeWhile P [a..<b])"
  have "?n \<le> b - a" using length_takeWhile_le [of P "[a..<b]"] by simp
  moreover have "takeWhile P [a..<b] = take ?n [a..<b]" by (simp add: takeWhile_eq_take [symmetric])
  ultimately show ?thesis by (cases "b \<le> a") (simp_all add: take_upt)
qed

lemma filter_length_update:
  assumes "i < length xs"
  shows "length (filter P (xs[i := v])) + of_bool (P (xs ! i)) = length (filter P xs) + of_bool (P v)"
  using assms
proof (induction xs arbitrary: i)
  case (Cons x xs)
  then show ?case by (cases i) auto
qed simp

end
