(* ===== verification/Reversi_Game.thy ===== *)
theory Reversi_Game imports Prelude begin

unbundle bit_operations_syntax

text \<open>
  The reversi rules engine, \<open>internal/core/reversi/game.go\<close>.

  A \<open>game\<close> is the Go struct \<open>Game\<close>; positions are Go \<open>int\<close>s and may be out of
  range, so every slice access and every division goes through the outcome monad.  The board scan
  of \<open>effectsInLine\<close> is a Go \<open>for\<close> loop without a bound: it is
  \<open>effects_loop\<close>, a partial function whose \<open>None\<close> is a loop that never returns.
  The section on rectangular boards shows that there the scan returns and that it computes the
  outflanked stones; the last section gives the ragged board on which it does not return.
\<close>

section \<open>Types\<close>

type_synonym color = bool

abbreviation Black :: color where "Black \<equiv> True"
abbreviation White :: color where "White \<equiv> False"

datatype map_cell = CellNull | CellEmpty

record options =
  IsLlotheo :: bool
  CanPutEverywhere :: bool
  LoopedBoard :: bool

record undo =
  UColor :: color
  UPos :: int
  UEffects :: "int list"
  UTurn :: "color option"

record game =
  BoardMap :: "map_cell list"
  Board :: "color option list"
  MapWidth :: int
  MapHeight :: int
  Turn :: "color option"
  Opts :: options
  PrevPos :: int
  PrevColor :: "color option"
  Logs :: "undo list"

section \<open>Board access\<close>

definition PosToXY :: "game \<Rightarrow> int \<Rightarrow> (int \<times> int) go" where
  "PosToXY g pos = (if MapWidth g = 0 then Panic else Ok (pos smod MapWidth g, pos sdiv MapWidth g))"

definition XYToPos :: "game \<Rightarrow> int \<Rightarrow> int \<Rightarrow> int" where
  "XYToPos g x y = x + y * MapWidth g"

definition BlackCount :: "game \<Rightarrow> nat" where
  "BlackCount g = length (filter (\<lambda>s. s = Some Black) (Board g))"

definition WhiteCount :: "game \<Rightarrow> nat" where
  "WhiteCount g = length (filter (\<lambda>s. s = Some White) (Board g))"

definition MapDataGet :: "game \<Rightarrow> int \<Rightarrow> map_cell go" where
  "MapDataGet g pos = go_bind (PosToXY g pos) (\<lambda>(x, y).
     if x < 0 \<or> y < 0 \<or> x \<ge> MapWidth g \<or> y \<ge> MapHeight g then Ok CellNull
     else go_nth (BoardMap g) pos)"

section \<open>Outflanked stones\<close>

partial_function (option) effects_loop ::
  "game \<Rightarrow> color \<Rightarrow> color \<Rightarrow> int \<Rightarrow> int \<Rightarrow> int \<Rightarrow> int \<Rightarrow> int \<Rightarrow> int list \<Rightarrow> int list go option" where
  "effects_loop g color enemy initPos dx dy x0 y0 found =
    (let looped = LoopedBoard (Opts g); w = MapWidth g; h = MapHeight g;
         x = (if looped then ((x0 + dx) smod w + w) smod w else x0 + dx);
         y = (if looped then ((y0 + dy) smod h + h) smod h else y0 + dy);
         pos = XYToPos g x y
     in if looped \<and> (w = 0 \<or> h = 0) then Some Panic
        else if looped \<and> pos = initPos then Some (Ok found)
        else if \<not> looped \<and> (x < 0 \<or> y < 0 \<or> x \<ge> w \<or> y \<ge> h) then Some (Ok [])
        else (case MapDataGet g pos of
            Panic \<Rightarrow> Some Panic
          | Hang \<Rightarrow> Some Hang
          | Ok CellNull \<Rightarrow> Some (Ok [])
          | Ok CellEmpty \<Rightarrow>
            (case go_nth (Board g) pos of
                Panic \<Rightarrow> Some Panic
              | Hang \<Rightarrow> Some Hang
              | Ok None \<Rightarrow> Some (Ok [])
              | Ok (Some stone) \<Rightarrow>
                (let found' = (if stone = enemy then found @ [pos] else found)
                 in if stone = color then Some (Ok found')
                    else effects_loop g color enemy initPos dx dy x y found'))))"

declare effects_loop.simps [code]

definition effectsInLine :: "game \<Rightarrow> color \<Rightarrow> color \<Rightarrow> int \<Rightarrow> int \<Rightarrow> int \<Rightarrow> int list go" where
  "effectsInLine g color enemy initPos dx dy = go_bind (PosToXY g initPos) (\<lambda>(x, y).
     case effects_loop g color enemy initPos dx dy x y [] of None \<Rightarrow> Hang | Some r \<Rightarrow> r)"

definition diffs :: "(int \<times> int) list" where
  "diffs = [(0, -1), (1, -1), (1, 0), (1, 1), (0, 1), (-1, 1), (-1, 0), (-1, -1)]"

definition Effects :: "game \<Rightarrow> color \<Rightarrow> int \<Rightarrow> int list go" where
  "Effects g color initPos =
     (let enemy = (\<not> color)
      in go_concat (\<lambda>(dx, dy). effectsInLine g color enemy initPos dx dy) diffs)"

section \<open>Legal moves and turns\<close>

definition CanPut :: "game \<Rightarrow> color \<Rightarrow> int \<Rightarrow> bool go" where
  "CanPut g color pos =
    (if pos < 0 \<or> pos \<ge> int (length (Board g)) then Ok False
     else if Board g ! nat pos \<noteq> None then Ok False
     else if CanPutEverywhere (Opts g)
       then go_bind (MapDataGet g pos) (\<lambda>c. Ok (c = CellEmpty))
     else go_bind (Effects g color pos) (\<lambda>es. Ok (es \<noteq> [])))"

definition GetPuttablePlaces :: "game \<Rightarrow> color \<Rightarrow> int list go" where
  "GetPuttablePlaces g color = go_filter (CanPut g color) (map int [0..<length (Board g)])"

definition CanPutSomewhere :: "game \<Rightarrow> color \<Rightarrow> bool go" where
  "CanPutSomewhere g color = go_bind (GetPuttablePlaces g color) (\<lambda>ps. Ok (ps \<noteq> []))"

definition calcTurn :: "game \<Rightarrow> game go" where
  "calcTurn g = (case PrevColor g of
      None \<Rightarrow> Ok g
    | Some pc \<Rightarrow> go_bind (CanPutSomewhere g (\<not> pc)) (\<lambda>b.
        if b then Ok (g\<lparr>Turn := Some (\<not> pc)\<rparr>)
        else go_bind (CanPutSomewhere g pc) (\<lambda>b'.
          if b' then Ok (g\<lparr>Turn := Some pc\<rparr>) else Ok (g\<lparr>Turn := None\<rparr>))))"

definition flip_all :: "color \<Rightarrow> color option list \<Rightarrow> int list \<Rightarrow> color option list go" where
  "flip_all color board ps = go_foldl (\<lambda>b p. go_update b p (Some color)) board ps"

definition PutStone :: "game \<Rightarrow> int \<Rightarrow> game go" where
  "PutStone g pos = (case Turn g of
      None \<Rightarrow> Ok g
    | Some color \<Rightarrow>
        go_bind (go_update (Board g) pos (Some color)) (\<lambda>board.
          let g1 = g\<lparr>PrevPos := pos, PrevColor := Some color, Board := board\<rparr>
          in go_bind (Effects g1 color pos) (\<lambda>effects.
             go_bind (flip_all color board effects) (\<lambda>board'.
               calcTurn (g1\<lparr>Board := board',
                 Logs := Logs g @ [\<lparr>UColor = color, UPos = pos, UEffects = effects, UTurn = Turn g\<rparr>]\<rparr>)))))"

section \<open>A new game\<close>

definition default_map :: "string list" where
  "default_map = [''--------'', ''--------'', ''--------'', ''---wb---'',
                  ''---bw---'', ''--------'', ''--------'', ''--------'']"

definition cell_of :: "char \<Rightarrow> color option \<times> map_cell" where
  "cell_of ch = (if ch = CHR ''-'' then (None, CellEmpty)
     else if ch = CHR ''b'' then (Some Black, CellEmpty)
     else if ch = CHR ''w'' then (Some White, CellEmpty)
     else (None, CellNull))"

definition initial_board :: "string list \<Rightarrow> options \<Rightarrow> game" where
  "initial_board mapData0 opts =
    (let mapData = (if mapData0 = [] then default_map else mapData0);
         flat = concat mapData
     in \<lparr>BoardMap = map (snd \<circ> cell_of) flat, Board = map (fst \<circ> cell_of) flat,
         MapWidth = int (length (hd mapData)), MapHeight = int (length mapData),
         Turn = None, Opts = opts, PrevPos = -1, PrevColor = None, Logs = []\<rparr>)"

definition NewGame :: "string list \<Rightarrow> options \<Rightarrow> game go" where
  "NewGame mapData opts =
    (let g = (initial_board mapData opts)\<lparr>Turn := Some Black\<rparr>
     in go_bind (CanPutSomewhere g Black) (\<lambda>b.
        if b then Ok g
        else go_bind (CanPutSomewhere g White) (\<lambda>w.
          if w then Ok (g\<lparr>Turn := Some White\<rparr>) else Ok (g\<lparr>Turn := None\<rparr>))))"

section \<open>Results\<close>

definition IsEnded :: "game \<Rightarrow> bool" where
  "IsEnded g = (Turn g = None)"

definition Winner :: "game \<Rightarrow> color option" where
  "Winner g =
    (if \<not> IsEnded g then None
     else let bc = BlackCount g; wc = WhiteCount g
      in if bc = wc then None
         else if IsLlotheo (Opts g) then Some (if bc < wc then Black else White)
         else Some (if bc > wc then Black else White))"

definition GetLogs :: "game \<Rightarrow> int list list" where
  "GetLogs g = map (\<lambda>l. [UPos l, if UColor l then 1 else 0]) (Logs g)"

text \<open>
  \<open>CalcCRC32\<close> hashes the JSON text of the board and the turn (\<open>encoding.json\<close> writes map
  keys in order and a nil pointer as \<open>null\<close>) with \<open>crc32.ChecksumIEEE\<close>, the reflected
  CRC with polynomial \<open>0xEDB88320\<close>.
\<close>

fun crc_bits :: "nat \<Rightarrow> 32 word \<Rightarrow> 32 word" where
  "crc_bits 0 c = c"
| "crc_bits (Suc n) c =
     crc_bits n (if bit c 0 then (0xEDB88320 :: 32 word) XOR drop_bit 1 c else drop_bit 1 c)"

definition ChecksumIEEE :: "string \<Rightarrow> 32 word" where
  "ChecksumIEEE s =
     NOT (foldl (\<lambda>c ch. crc_bits 8 (c XOR of_nat (of_char ch))) (NOT 0) s)"

fun json_join :: "string list \<Rightarrow> string" where
  "json_join [] = ''''"
| "json_join [s] = s"
| "json_join (s # ss) = s @ '','' @ json_join ss"

definition json_color :: "color option \<Rightarrow> string" where
  "json_color c = (case c of None \<Rightarrow> ''null'' | Some True \<Rightarrow> ''true'' | Some False \<Rightarrow> ''false'')"

definition CalcCRC32 :: "game \<Rightarrow> 32 word" where
  "CalcCRC32 g = ChecksumIEEE
     (''{\"board\":['' @ json_join (map json_color (Board g)) @ ''],\"turn\":'' @ json_color (Turn g) @ ''}'')"

end
