(* ===== verification/Reversi_Rules.thy ===== *)
theory Reversi_Rules imports Reversi_Game begin

text \<open>
  The rules of reversi for the engine of \<open>Reversi_Game\<close>.

  \<open>rect\<close> is a board whose rows all have the width of the first one.  On such a board the scan of
  \<open>effectsInLine\<close> ends, nothing panics, and every operation equals a total function:
  \<open>line_flips\<close> (the enemy stones between the move and the stone or edge that ends the ray),
  \<open>flips\<close>, \<open>legal\<close> and \<open>place\<close>.  The rest states what a game does over them: who moves next,
  the stone counts, the end of the game, and the winner.
\<close>

section \<open>Rectangular boards and rays\<close>

definition rect :: "game \<Rightarrow> bool" where
  "rect g \<longleftrightarrow> 0 < MapWidth g \<and> 0 < MapHeight g
     \<and> int (length (Board g)) = MapWidth g * MapHeight g \<and> length (BoardMap g) = length (Board g)"

definition on_board :: "game \<Rightarrow> int \<Rightarrow> bool" where
  "on_board g p \<longleftrightarrow> 0 \<le> p \<and> p < int (length (Board g))"

definition ray_x :: "game \<Rightarrow> int \<Rightarrow> int \<Rightarrow> nat \<Rightarrow> int" where
  "ray_x g p dx k = (let v = p mod MapWidth g + int k * dx
     in if LoopedBoard (Opts g) then v mod MapWidth g else v)"

definition ray_y :: "game \<Rightarrow> int \<Rightarrow> int \<Rightarrow> nat \<Rightarrow> int" where
  "ray_y g p dy k = (let v = p div MapWidth g + int k * dy
     in if LoopedBoard (Opts g) then v mod MapHeight g else v)"

definition ray_pos :: "game \<Rightarrow> int \<Rightarrow> int \<Rightarrow> int \<Rightarrow> nat \<Rightarrow> int" where
  "ray_pos g p dx dy k = XYToPos g (ray_x g p dx k) (ray_y g p dy k)"

datatype ray_event = Blocked | Home | Own | Enemy_at

text \<open>What the k-th cell of a ray from \<open>p\<close> holds, for the player \<open>c\<close>.\<close>

definition ray_event :: "game \<Rightarrow> color \<Rightarrow> int \<Rightarrow> int \<Rightarrow> int \<Rightarrow> nat \<Rightarrow> ray_event" where
  "ray_event g c p dx dy k =
    (let x = ray_x g p dx k; y = ray_y g p dy k; q = ray_pos g p dx dy k
     in if LoopedBoard (Opts g) \<and> q = p then Home
        else if x < 0 \<or> y < 0 \<or> x \<ge> MapWidth g \<or> y \<ge> MapHeight g then Blocked
        else if BoardMap g ! nat q = CellNull then Blocked
        else (case Board g ! nat q of None \<Rightarrow> Blocked
              | Some s \<Rightarrow> if s = c then Own else Enemy_at))"

definition line_len :: "game \<Rightarrow> color \<Rightarrow> int \<Rightarrow> int \<Rightarrow> int \<Rightarrow> nat" where
  "line_len g c p dx dy =
     length (takeWhile (\<lambda>k. ray_event g c p dx dy k = Enemy_at) [1..<Suc (length (Board g))])"

definition line_flips :: "game \<Rightarrow> color \<Rightarrow> int \<Rightarrow> int \<Rightarrow> int \<Rightarrow> int list" where
  "line_flips g c p dx dy =
    (let n = line_len g c p dx dy
     in if ray_event g c p dx dy (Suc n) = Blocked then [] else map (ray_pos g p dx dy) [1..<Suc n])"

definition flips :: "game \<Rightarrow> color \<Rightarrow> int \<Rightarrow> int list" where
  "flips g c p = concat (map (\<lambda>(dx, dy). line_flips g c p dx dy) diffs)"

definition legal :: "game \<Rightarrow> color \<Rightarrow> int \<Rightarrow> bool" where
  "legal g c p \<longleftrightarrow> on_board g p \<and> Board g ! nat p = None
     \<and> (if CanPutEverywhere (Opts g) then BoardMap g ! nat p = CellEmpty else flips g c p \<noteq> [])"

definition can_move :: "game \<Rightarrow> color \<Rightarrow> bool" where
  "can_move g c \<longleftrightarrow> (\<exists>p \<in> set (map int [0..<length (Board g)]). legal g c p)"

section \<open>The scan ends and computes the flips\<close>

lemma pos_decompose:
  fixes w :: int
  assumes "0 \<le> x" "x < w" "0 \<le> y" "y < h"
  shows "(x + y * w) mod w = x" "(x + y * w) div w = y" "0 \<le> x + y * w" "x + y * w < w * h"
proof -
  show "(x + y * w) mod w = x" "(x + y * w) div w = y" using assms by auto
  show "0 \<le> x + y * w" using assms by simp
  have "x + y * w < w + y * w" using assms by simp
  also have "\<dots> = (y + 1) * w" by (simp add: algebra_simps)
  also have "\<dots> \<le> h * w" using assms by (intro mult_right_mono) auto
  finally show "x + y * w < w * h" by (simp add: mult.commute)
qed

lemma on_board_coords:
  assumes "rect g" "on_board g p"
  shows "0 \<le> p mod MapWidth g" "p mod MapWidth g < MapWidth g"
    "0 \<le> p div MapWidth g" "p div MapWidth g < MapHeight g"
    "p mod MapWidth g + p div MapWidth g * MapWidth g = p"
proof -
  have w: "0 < MapWidth g" "0 \<le> p" "p < MapWidth g * MapHeight g"
    using assms by (auto simp: rect_def on_board_def)
  then show "0 \<le> p mod MapWidth g" "p mod MapWidth g < MapWidth g"
    "0 \<le> p div MapWidth g" "p mod MapWidth g + p div MapWidth g * MapWidth g = p"
    by (auto simp: pos_imp_zdiv_nonneg_iff)
  have "p div MapWidth g * MapWidth g \<le> p" using w by (simp add: div_mult_mod_eq minus_mod_eq_div_mult [symmetric])
  also have "\<dots> < MapHeight g * MapWidth g" using w by (simp add: mult.commute)
  finally show "p div MapWidth g < MapHeight g" using w by simp
qed

lemma PosToXY_in: "rect g \<Longrightarrow> 0 \<le> p \<Longrightarrow> PosToXY g p = Ok (p mod MapWidth g, p div MapWidth g)"
  by (auto simp: PosToXY_def rect_def)

lemma MapDataGet_at:
  assumes "rect g" "0 \<le> x" "x < MapWidth g" "0 \<le> y" "y < MapHeight g"
  shows "MapDataGet g (XYToPos g x y) = Ok (BoardMap g ! nat (XYToPos g x y))"
  using pos_decompose [OF assms(2-5)] assms
  by (auto simp: MapDataGet_def PosToXY_in XYToPos_def rect_def)

lemma MapDataGet_in:
  assumes "rect g" "on_board g p"
  shows "MapDataGet g p = Ok (BoardMap g ! nat p)"
  using MapDataGet_at [OF assms(1) on_board_coords(1-4) [OF assms]] on_board_coords(5) [OF assms]
  by (simp add: XYToPos_def)

lemma ray_0:
  assumes "rect g" "on_board g p"
  shows "ray_x g p dx 0 = p mod MapWidth g" "ray_y g p dy 0 = p div MapWidth g"
  using on_board_coords [OF assms] by (auto simp: ray_x_def ray_y_def Let_def)

lemma ray_advance:
  fixes a d m :: int
  shows "((a + int k * d) mod m + d) mod m = (a + int (Suc k) * d) mod m"
proof -
  have e: "a + int (Suc k) * d = a + int k * d + d" by (simp add: algebra_simps)
  show ?thesis unfolding e by (simp only: mod_add_left_eq)
qed

lemma ray_x_Suc:
  "LoopedBoard (Opts g) \<Longrightarrow> (ray_x g p dx k + dx) mod MapWidth g = ray_x g p dx (Suc k)"
  "\<not> LoopedBoard (Opts g) \<Longrightarrow> ray_x g p dx k + dx = ray_x g p dx (Suc k)"
  using ray_advance [of "p mod MapWidth g" k dx "MapWidth g"]
  by (simp_all only: ray_x_def Let_def if_True if_False) (simp add: algebra_simps)

lemma ray_y_Suc:
  "LoopedBoard (Opts g) \<Longrightarrow> (ray_y g p dy k + dy) mod MapHeight g = ray_y g p dy (Suc k)"
  "\<not> LoopedBoard (Opts g) \<Longrightarrow> ray_y g p dy k + dy = ray_y g p dy (Suc k)"
  using ray_advance [of "p div MapWidth g" k dy "MapHeight g"]
  by (simp_all only: ray_y_def Let_def if_True if_False) (simp add: algebra_simps)

lemma ray_looped_in:
  assumes "rect g" "LoopedBoard (Opts g)"
  shows "0 \<le> ray_x g p dx k" "ray_x g p dx k < MapWidth g" "0 \<le> ray_y g p dy k" "ray_y g p dy k < MapHeight g"
  using assms by (auto simp: ray_x_def ray_y_def Let_def rect_def)

lemma effects_loop_step:
  assumes r: "rect g"
  shows "effects_loop g c (\<not> c) p dx dy (ray_x g p dx k) (ray_y g p dy k) found =
    (case ray_event g c p dx dy (Suc k) of
       Blocked \<Rightarrow> Some (Ok [])
     | Home \<Rightarrow> Some (Ok found)
     | Own \<Rightarrow> Some (Ok found)
     | Enemy_at \<Rightarrow> effects_loop g c (\<not> c) p dx dy (ray_x g p dx (Suc k)) (ray_y g p dy (Suc k))
                    (found @ [ray_pos g p dx dy (Suc k)]))"
proof -
  let ?x = "ray_x g p dx (Suc k)" and ?y = "ray_y g p dy (Suc k)"
  have w: "0 < MapWidth g" "0 < MapHeight g" using r by (auto simp: rect_def)
  have x: "(if LoopedBoard (Opts g) then ((ray_x g p dx k + dx) smod MapWidth g + MapWidth g) smod MapWidth g
      else ray_x g p dx k + dx) = ?x"
    using w by (simp add: wrap_smod ray_x_Suc)
  have y: "(if LoopedBoard (Opts g) then ((ray_y g p dy k + dy) smod MapHeight g + MapHeight g) smod MapHeight g
      else ray_y g p dy k + dy) = ?y"
    using w by (simp add: wrap_smod ray_y_Suc)
  show ?thesis
  proof (cases "0 \<le> ?x \<and> ?x < MapWidth g \<and> 0 \<le> ?y \<and> ?y < MapHeight g")
    case True
    then have m: "MapDataGet g (XYToPos g ?x ?y) = Ok (BoardMap g ! nat (XYToPos g ?x ?y))"
      and b: "go_nth (Board g) (XYToPos g ?x ?y) = Ok (Board g ! nat (XYToPos g ?x ?y))"
      using MapDataGet_at [OF r] pos_decompose(3,4) [of ?x "MapWidth g" ?y "MapHeight g"] r
      by (auto simp: XYToPos_def rect_def)
    show ?thesis
      apply (subst effects_loop.simps)
      unfolding Let_def x y
      using True w by (simp add: Let_def m b ray_event_def ray_pos_def split: map_cell.split option.split)
  next
    case False
    then have "\<not> LoopedBoard (Opts g)" using ray_looped_in [OF r] by blast
    with False show ?thesis
      apply (subst effects_loop.simps)
      unfolding Let_def x y by (auto simp: Let_def ray_event_def ray_pos_def)
  qed
qed

lemma ray_exits:
  assumes r: "rect g" and p: "on_board g p" and d: "(dx, dy) \<in> set diffs"
  shows "ray_event g c p dx dy (length (Board g)) \<noteq> Enemy_at"
proof (cases "LoopedBoard (Opts g)")
  case True
  have n: "int (length (Board g)) = MapWidth g * MapHeight g" using r by (simp add: rect_def)
  have "int (length (Board g)) * dx = MapHeight g * dx * MapWidth g"
    "int (length (Board g)) * dy = MapWidth g * dy * MapHeight g"
    unfolding n by (simp_all add: algebra_simps)
  then have "ray_x g p dx (length (Board g)) = p mod MapWidth g" "ray_y g p dy (length (Board g)) = p div MapWidth g"
    using on_board_coords [OF r p] True unfolding ray_x_def ray_y_def Let_def
    by (simp_all only: if_True mod_mult_self1) simp_all
  then have "ray_pos g p dx dy (length (Board g)) = p"
    using on_board_coords(5) [OF r p] by (simp add: ray_pos_def XYToPos_def)
  with True show ?thesis by (simp add: ray_event_def)
next
  case False
  have n: "int (length (Board g)) = MapWidth g * MapHeight g" "0 < MapWidth g" "0 < MapHeight g"
    using r by (auto simp: rect_def)
  then have "MapWidth g \<le> int (length (Board g))" "MapHeight g \<le> int (length (Board g))" by auto
  moreover have "dx = 1 \<or> dx = -1 \<or> (dx = 0 \<and> (dy = 1 \<or> dy = -1))"
    using d by (auto simp: diffs_def)
  ultimately show ?thesis
    using False on_board_coords [OF r p]
    by (auto simp: ray_event_def ray_x_def ray_y_def Let_def)
qed

lemma line_len_bound:
  assumes "rect g" "on_board g p" "(dx, dy) \<in> set diffs"
  shows "line_len g c p dx dy < length (Board g)"
proof -
  let ?n = "line_len g c p dx dy" and ?P = "\<lambda>k. ray_event g c p dx dy k = Enemy_at"
  have "?n \<le> length (Board g)"
    using length_takeWhile_le [of ?P "[1..<Suc (length (Board g))]"] by (simp add: line_len_def del: upt_Suc)
  moreover have "?n \<noteq> length (Board g)"
  proof
    assume e: "?n = length (Board g)"
    have "0 < length (Board g)" using assms(2) by (auto simp: on_board_def)
    then have "length (Board g) - 1 < ?n" using e by simp
    then have "?P (1 + (length (Board g) - 1))"
      unfolding line_len_def by (rule takeWhile_upt_all)
    then show False using ray_exits [OF assms, of c] \<open>0 < length (Board g)\<close> by simp
  qed
  ultimately show ?thesis by simp
qed

lemma line_len_enemy: "1 \<le> k \<Longrightarrow> k \<le> line_len g c p dx dy \<Longrightarrow> ray_event g c p dx dy k = Enemy_at"
  using takeWhile_upt_all [of "k - 1" "\<lambda>k. ray_event g c p dx dy k = Enemy_at" 1 "Suc (length (Board g))"]
  by (simp add: line_len_def)

lemma line_len_stops:
  assumes "rect g" "on_board g p" "(dx, dy) \<in> set diffs"
  shows "ray_event g c p dx dy (Suc (line_len g c p dx dy)) \<noteq> Enemy_at"
proof -
  let ?P = "\<lambda>k. ray_event g c p dx dy k = Enemy_at" and ?xs = "[1..<Suc (length (Board g))]"
  have "line_len g c p dx dy < length ?xs"
    using line_len_bound [OF assms, of c] by (simp del: upt_Suc)
  then have "\<not> ?P (?xs ! line_len g c p dx dy)"
    unfolding line_len_def by (rule nth_length_takeWhile)
  then show ?thesis using line_len_bound [OF assms, of c] by (simp del: upt_Suc)
qed

lemma effects_loop_from:
  assumes "rect g" "on_board g p" "(dx, dy) \<in> set diffs" "k \<le> line_len g c p dx dy"
  shows "effects_loop g c (\<not> c) p dx dy (ray_x g p dx k) (ray_y g p dy k) (map (ray_pos g p dx dy) [1..<Suc k])
    = Some (Ok (line_flips g c p dx dy))"
  using assms(4)
proof (induction rule: inc_induct)
  case base
  show ?case
    using line_len_stops [OF assms(1-3), of c]
    by (subst effects_loop_step [OF assms(1)]) (auto simp: line_flips_def Let_def split: ray_event.split)
next
  case (step k)
  then have "ray_event g c p dx dy (Suc k) = Enemy_at" by (intro line_len_enemy) auto
  then show ?case using step.IH by (subst effects_loop_step [OF assms(1)]) simp
qed

lemma effectsInLine_eq:
  assumes "rect g" "on_board g p" "(dx, dy) \<in> set diffs"
  shows "effectsInLine g c (\<not> c) p dx dy = Ok (line_flips g c p dx dy)"
  using effects_loop_from [OF assms, of 0] assms
  by (simp add: effectsInLine_def PosToXY_in on_board_def ray_0)


lemma Effects_eq: "rect g \<Longrightarrow> on_board g p \<Longrightarrow> Effects g c p = Ok (flips g c p)"
  unfolding Effects_def flips_def Let_def
  by (rule go_concat_Ok) (auto simp: effectsInLine_eq)

lemma line_flips_nonempty:
  assumes "rect g" "on_board g p" "(dx, dy) \<in> set diffs"
  shows "line_flips g c p dx dy \<noteq> [] \<longleftrightarrow>
    (\<exists>n \<ge> 1. (\<forall>k \<in> {1..n}. ray_event g c p dx dy k = Enemy_at) \<and> ray_event g c p dx dy (Suc n) \<in> {Own, Home})"
    (is "_ \<longleftrightarrow> (\<exists>n \<ge> 1. ?run n \<and> ?close n)")
proof
  let ?n = "line_len g c p dx dy"
  assume "line_flips g c p dx dy \<noteq> []"
  then have "ray_event g c p dx dy (Suc ?n) \<noteq> Blocked" "1 \<le> ?n"
    by (auto simp: line_flips_def Let_def split: if_splits)
  with line_len_stops [OF assms, of c] show "\<exists>n \<ge> 1. ?run n \<and> ?close n"
    using line_len_enemy [of _ g c p dx dy]
    by (intro exI [of _ ?n]) (cases "ray_event g c p dx dy (Suc ?n)"; auto)
next
  let ?n = "line_len g c p dx dy"
  assume "\<exists>n \<ge> 1. ?run n \<and> ?close n"
  then obtain n where n: "1 \<le> n" "?run n" "?close n" by blast
  have "n = ?n"
  proof (rule linorder_cases [of n ?n])
    assume "n < ?n"
    then have "ray_event g c p dx dy (Suc n) = Enemy_at" by (intro line_len_enemy) auto
    with n(3) show ?thesis by simp
  next
    assume "?n < n"
    then have "ray_event g c p dx dy (Suc ?n) = Enemy_at" using n(2) by auto
    with line_len_stops [OF assms] show ?thesis by blast
  qed
  with n show "line_flips g c p dx dy \<noteq> []" by (auto simp: line_flips_def Let_def)
qed

section \<open>Every operation on a rectangular board\<close>

lemma CanPut_eq: "rect g \<Longrightarrow> CanPut g c p = Ok (legal g c p)"
  by (auto simp: CanPut_def legal_def on_board_def Effects_eq MapDataGet_in)

lemma CanPutSomewhere_eq: "rect g \<Longrightarrow> CanPutSomewhere g c = Ok (can_move g c)"
proof -
  assume r: "rect g"
  have "GetPuttablePlaces g c = Ok (filter (legal g c) (map int [0..<length (Board g)]))"
    unfolding GetPuttablePlaces_def by (rule go_filter_Ok) (simp add: CanPut_eq r)
  then show ?thesis by (simp add: CanPutSomewhere_def can_move_def filter_empty_conv)
qed

lemma can_move_iff: "can_move g c \<longleftrightarrow> (\<exists>p. legal g c p)"
proof
  assume "\<exists>p. legal g c p"
  then obtain p where p: "legal g c p" "0 \<le> p" "p < int (length (Board g))"
    by (auto simp: legal_def on_board_def)
  then have "p \<in> set (map int [0..<length (Board g)])" by (auto simp: image_iff intro: bexI [of _ "nat p"])
  with p(1) show "can_move g c" by (auto simp only: can_move_def)
qed (auto simp: can_move_def)

text \<open>Only the board, the map, the size and the options matter for a move.\<close>

definition same_board :: "game \<Rightarrow> game \<Rightarrow> bool" where
  "same_board g g' \<longleftrightarrow> BoardMap g = BoardMap g' \<and> Board g = Board g' \<and> MapWidth g = MapWidth g'
     \<and> MapHeight g = MapHeight g' \<and> Opts g = Opts g'"

lemma same_board_rules:
  assumes "same_board g g'"
  shows "rect g = rect g'" "on_board g = on_board g'" "flips g = flips g'" "legal g = legal g'" "can_move g = can_move g'"
proof -
  have r: "ray_pos g = ray_pos g'" "ray_event g = ray_event g'"
    using assms by (auto simp: same_board_def ray_pos_def ray_event_def ray_x_def ray_y_def XYToPos_def fun_eq_iff Let_def)
  have b: "Board g = Board g'" using assms by (simp add: same_board_def)
  have "line_flips g = line_flips g'"
    unfolding fun_eq_iff line_flips_def line_len_def r b by simp
  then have f: "flips g = flips g'" by (intro ext) (simp add: flips_def)
  show "rect g = rect g'" and o: "on_board g = on_board g'" and "flips g = flips g'"
    using assms f by (auto simp: rect_def on_board_def same_board_def)
  show l: "legal g = legal g'" using assms f o by (auto simp: legal_def same_board_def fun_eq_iff)
  show "can_move g = can_move g'" using assms l by (auto simp: can_move_def same_board_def fun_eq_iff)
qed

lemma rules_Turn [simp]: "can_move (g\<lparr>Turn := t\<rparr>) = can_move g" "rect (g\<lparr>Turn := t\<rparr>) = rect g"
  by (rule same_board_rules; simp add: same_board_def)+

definition next_turn :: "game \<Rightarrow> color \<Rightarrow> color option" where
  "next_turn g c = (if can_move g (\<not> c) then Some (\<not> c) else if can_move g c then Some c else None)"

definition paint :: "color \<Rightarrow> color option list \<Rightarrow> int list \<Rightarrow> color option list" where
  "paint c b ps = foldl (\<lambda>b p. b[nat p := Some c]) b ps"

definition place :: "game \<Rightarrow> color \<Rightarrow> int \<Rightarrow> game" where
  "place g c p =
    (let g1 = g\<lparr>PrevPos := p, PrevColor := Some c, Board := paint c (Board g) (p # flips g c p),
                Logs := Logs g @ [\<lparr>UColor = c, UPos = p, UEffects = flips g c p, UTurn = Turn g\<rparr>]\<rparr>
     in g1\<lparr>Turn := next_turn g1 c\<rparr>)"

lemma length_paint [simp]: "length (paint c b ps) = length b"
  by (induction ps arbitrary: b) (simp_all add: paint_def)

lemma nth_paint:
  "i < length b \<Longrightarrow> \<forall>p \<in> set ps. 0 \<le> p \<Longrightarrow> paint c b ps ! i = (if int i \<in> set ps then Some c else b ! i)"
proof (induction ps arbitrary: b)
  case (Cons p ps)
  have "paint c b (p # ps) = paint c (b[nat p := Some c]) ps" by (simp add: paint_def)
  then show ?case using Cons by (auto simp: nth_list_update)
qed (simp add: paint_def)

lemma flip_all_Ok:
  "\<forall>p \<in> set ps. 0 \<le> p \<and> p < int (length b) \<Longrightarrow> flip_all c b ps = Ok (paint c b ps)"
  by (induction ps arbitrary: b) (simp_all add: flip_all_def paint_def)

section \<open>What is flipped\<close>

lemma ray_event_cell:
  assumes "rect g" "ray_event g c p dx dy k = Own \<or> ray_event g c p dx dy k = Enemy_at"
  shows "on_board g (ray_pos g p dx dy k)"
    "Board g ! nat (ray_pos g p dx dy k) = Some (if ray_event g c p dx dy k = Own then c else \<not> c)"
proof -
  have xy: "0 \<le> ray_x g p dx k" "ray_x g p dx k < MapWidth g" "0 \<le> ray_y g p dy k" "ray_y g p dy k < MapHeight g"
    using assms(2) by (auto simp: ray_event_def Let_def split: if_splits)
  show "on_board g (ray_pos g p dx dy k)"
    using pos_decompose(3,4) [OF xy] assms(1) by (simp add: ray_pos_def XYToPos_def on_board_def rect_def)
  show "Board g ! nat (ray_pos g p dx dy k) = Some (if ray_event g c p dx dy k = Own then c else \<not> c)"
    using assms(2) by (auto simp: ray_event_def Let_def split: if_splits option.splits)
qed

lemma line_flips_enemy:
  assumes "rect g" "q \<in> set (line_flips g c p dx dy)"
  shows "on_board g q" "Board g ! nat q = Some (\<not> c)"
proof -
  obtain k where "1 \<le> k" "k \<le> line_len g c p dx dy" and q: "q = ray_pos g p dx dy k"
    using assms(2) by (auto simp: line_flips_def Let_def split: if_splits)
  then have e: "ray_event g c p dx dy k = Enemy_at" by (intro line_len_enemy)
  then show "on_board g q" "Board g ! nat q = Some (\<not> c)"
    using ray_event_cell [OF assms(1), of c p dx dy k] q by auto
qed

lemma flips_enemy:
  assumes "rect g" "q \<in> set (flips g c p)"
  shows "on_board g q" "Board g ! nat q = Some (\<not> c)"
  using assms(2) line_flips_enemy [OF assms(1)] by (auto simp: flips_def)

lemma ray_revisits_only_home:
  assumes "rect g" "on_board g p" "(dx, dy) \<in> set diffs" "1 \<le> k" "ray_pos g p dx dy k = p"
    "0 \<le> ray_x g p dx k" "ray_x g p dx k < MapWidth g" "0 \<le> ray_y g p dy k" "ray_y g p dy k < MapHeight g"
  shows "LoopedBoard (Opts g)"
proof (rule ccontr)
  assume n: "\<not> LoopedBoard (Opts g)"
  have e: "ray_x g p dx k + ray_y g p dy k * MapWidth g = p"
    using assms(5) by (simp add: ray_pos_def XYToPos_def)
  have "ray_x g p dx k = p mod MapWidth g" "ray_y g p dy k = p div MapWidth g"
    using pos_decompose(1,2) [OF assms(6-9)] unfolding e by simp_all
  then have "int k * dx = 0" "int k * dy = 0" using n by (auto simp: ray_x_def ray_y_def Let_def)
  with assms(3,4) show False by (auto simp: diffs_def)
qed

lemma ray_event_own_cell:
  assumes "rect g" "on_board g p" "(dx, dy) \<in> set diffs" "1 \<le> k"
  shows "ray_event (g\<lparr>Board := (Board g)[nat p := v]\<rparr>) c p dx dy k = ray_event g c p dx dy k"
proof -
  let ?g = "g\<lparr>Board := (Board g)[nat p := v]\<rparr>"
  have same: "ray_x ?g p dx k = ray_x g p dx k" "ray_y ?g p dy k = ray_y g p dy k"
    "ray_pos ?g p dx dy k = ray_pos g p dx dy k"
    by (simp_all add: ray_x_def ray_y_def ray_pos_def XYToPos_def Let_def)
  show ?thesis
  proof (cases "ray_pos g p dx dy k = p")
    case True
    then show ?thesis
      using ray_revisits_only_home [OF assms True] by (auto simp: ray_event_def Let_def same)
  next
    case False
    have "nat (ray_pos g p dx dy k) \<noteq> nat p" if "0 \<le> ray_x g p dx k" "0 \<le> ray_y g p dy k"
    proof -
      have "0 \<le> ray_pos g p dx dy k" using that assms(1) by (simp add: ray_pos_def XYToPos_def rect_def)
      with False assms(2) show ?thesis by (simp add: on_board_def eq_nat_nat_iff)
    qed
    then show ?thesis by (auto simp: ray_event_def Let_def same)
  qed
qed

lemma flips_own_cell:
  assumes "rect g" "on_board g p"
  shows "flips (g\<lparr>Board := (Board g)[nat p := v]\<rparr>) c p = flips g c p"
proof -
  let ?g = "g\<lparr>Board := (Board g)[nat p := v]\<rparr>"
  have "line_flips ?g c p dx dy = line_flips g c p dx dy" if d: "(dx, dy) \<in> set diffs" for dx dy
  proof -
    note ev = ray_event_own_cell [OF assms d]
    have "line_len ?g c p dx dy = line_len g c p dx dy"
      unfolding line_len_def
      by (intro arg_cong [where f = length] takeWhile_cong) (auto simp: ev simp del: upt_Suc)
    moreover have "ray_pos ?g p dx dy = ray_pos g p dx dy"
      by (simp add: ray_x_def ray_y_def ray_pos_def XYToPos_def fun_eq_iff Let_def)
    ultimately show ?thesis using ev by (simp add: line_flips_def Let_def del: upt_Suc)
  qed
  then show ?thesis
    unfolding flips_def by (intro arg_cong [where f = concat] map_cong) auto
qed

lemma flips_not_own_cell: "rect g \<Longrightarrow> Board g ! nat p = None \<Longrightarrow> p \<notin> set (flips g c p)"
  using flips_enemy(2) by fastforce


section \<open>A move\<close>

lemma Board_place: "Board (place g c p) = paint c (Board g) (p # flips g c p)"
  by (simp add: place_def Let_def)

lemma place_fields [simp]:
  "length (Board (place g c p)) = length (Board g)" "BoardMap (place g c p) = BoardMap g"
  "MapWidth (place g c p) = MapWidth g" "MapHeight (place g c p) = MapHeight g" "Opts (place g c p) = Opts g"
  by (simp_all add: place_def Let_def)

lemma rect_place [simp, inv_intros]: "rect g \<Longrightarrow> rect (place g c p)"
  by (simp add: rect_def)

lemma PutStone_eq:
  assumes r: "rect g" and p: "on_board g p" and t: "Turn g = Some c"
  shows "PutStone g p = Ok (place g c p)"
proof -
  let ?b = "(Board g)[nat p := Some c]"
  let ?g1 = "g\<lparr>PrevPos := p, PrevColor := Some c, Board := ?b\<rparr>"
  have s: "same_board ?g1 (g\<lparr>Board := ?b\<rparr>)" by (simp add: same_board_def)
  have "rect ?g1" "on_board ?g1 p" using r p by (simp_all add: rect_def on_board_def)
  then have e: "Effects ?g1 c p = Ok (flips g c p)"
    using same_board_rules(3) [OF s] flips_own_cell [OF r p, of "Some c" c] by (simp add: Effects_eq)
  have f: "flip_all c ?b (flips g c p) = Ok (paint c ?b (flips g c p))"
    using flips_enemy(1) [OF r] by (intro flip_all_Ok) (auto simp: on_board_def)
  let ?log = "\<lparr>UColor = c, UPos = p, UEffects = flips g c p, UTurn = Some c\<rparr>"
  let ?g2 = "?g1\<lparr>Board := paint c ?b (flips g c p), Logs := Logs g @ [?log]\<rparr>"
  have r2: "rect ?g2" using r by (simp add: rect_def)
  have "calcTurn ?g2 = Ok (?g2\<lparr>Turn := next_turn ?g2 c\<rparr>)"
    using CanPutSomewhere_eq [OF r2] by (simp add: calcTurn_def next_turn_def)
  then show ?thesis
    using p t e f
    by (simp add: PutStone_def on_board_def place_def Let_def paint_def)
qed

section \<open>Stones\<close>

definition cells :: "game \<Rightarrow> color option \<Rightarrow> nat set" where
  "cells g v = {i. i < length (Board g) \<and> Board g ! i = v}"

lemma finite_cells [simp]: "finite (cells g v)"
  by (simp add: cells_def)

lemma BlackCount_cells: "BlackCount g = card (cells g (Some Black))"
  by (simp add: BlackCount_def cells_def length_filter_conv_card)

lemma WhiteCount_cells: "WhiteCount g = card (cells g (Some White))"
  by (simp add: WhiteCount_def cells_def length_filter_conv_card)

lemma place_nth:
  assumes "rect g" "on_board g p" "i < length (Board g)"
  shows "Board (place g c p) ! i = (if int i = p \<or> int i \<in> set (flips g c p) then Some c else Board g ! i)"
  using assms flips_enemy(1) [OF assms(1)] by (subst Board_place, subst nth_paint) (auto simp: on_board_def)

definition flipped :: "game \<Rightarrow> color \<Rightarrow> int \<Rightarrow> nat set" where
  "flipped g c p = nat ` set (flips g c p)"

lemma flipped_iff: "rect g \<Longrightarrow> i \<in> flipped g c p \<longleftrightarrow> int i \<in> set (flips g c p)"
  using flips_enemy(1) [of g] by (force simp: flipped_def on_board_def image_iff)

lemma flipped_sub: "rect g \<Longrightarrow> flipped g c p \<subseteq> cells g (Some (\<not> c))"
  using flips_enemy [of g] by (force simp: flipped_iff cells_def on_board_def)

lemma cells_place:
  assumes "rect g" "on_board g p" "Board g ! nat p = None"
  shows "cells (place g c p) (Some c) = insert (nat p) (cells g (Some c) \<union> flipped g c p)"
    and "cells (place g c p) (Some (\<not> c)) = cells g (Some (\<not> c)) - flipped g c p"
    and "cells (place g c p) None = cells g None - {nat p}"
proof -
  note pl = place_nth [OF assms(1,2)] 
  have np: "nat p < length (Board g)" "int (nat p) = p" using assms(2) by (auto simp: on_board_def)
  have fl: "i < length (Board g)" if "int i \<in> set (flips g c p)" for i
    using flips_enemy(1) [OF assms(1) that] by (simp add: on_board_def)
  have fe: "Board g ! i = Some (\<not> c)" if "int i \<in> set (flips g c p)" for i
    using flips_enemy(2) [OF assms(1) that] by simp
  show "cells (place g c p) (Some c) = insert (nat p) (cells g (Some c) \<union> flipped g c p)"
    using np fl by (auto simp: cells_def pl flipped_iff [OF assms(1)] split: if_splits)
  show "cells (place g c p) (Some (\<not> c)) = cells g (Some (\<not> c)) - flipped g c p"
    using np assms(3) by (auto simp: cells_def pl flipped_iff [OF assms(1)] split: if_splits)
  show "cells (place g c p) None = cells g None - {nat p}"
    using np fe by (auto simp: cells_def pl flipped_iff [OF assms(1)] split: if_splits)
qed


section \<open>Turns\<close>

text \<open>The player to move can move, and the game ends only when nobody can.\<close>

definition turn_ok :: "game \<Rightarrow> bool" where
  "turn_ok g \<longleftrightarrow> (case Turn g of Some c \<Rightarrow> can_move g c | None \<Rightarrow> \<not> can_move g Black \<and> \<not> can_move g White)"

lemma can_move_place: "can_move (place g c p) d = can_move (g\<lparr>Board := paint c (Board g) (p # flips g c p)\<rparr>) d"
  by (rule fun_cong [OF same_board_rules(5)]) (simp add: same_board_def Board_place)

lemma Turn_place: "Turn (place g c p) = next_turn (place g c p) c"
proof -
  have "same_board (place g c p) ((place g c p)\<lparr>Turn := None\<rparr>)" by (simp add: same_board_def)
  note * = same_board_rules(5) [OF this]
  have "Turn (place g c p) = next_turn ((place g c p)\<lparr>Turn := None\<rparr>) c"
  proof -
    let ?g1 = "g\<lparr>PrevPos := p, PrevColor := Some c, Board := paint c (Board g) (p # flips g c p),
      Logs := Logs g @ [\<lparr>UColor = c, UPos = p, UEffects = flips g c p, UTurn = Turn g\<rparr>]\<rparr>"
    have "same_board ?g1 ((place g c p)\<lparr>Turn := None\<rparr>)" by (simp add: same_board_def Board_place)
    from same_board_rules(5) [OF this] show ?thesis
      by (simp add: place_def Let_def next_turn_def)
  qed
  then show ?thesis by (simp add: next_turn_def * [symmetric])
qed

lemma turn_ok_place [inv_intros]: "turn_ok (place g c p)"
proof -
  have "turn_ok (place g c p) \<longleftrightarrow> (case next_turn (place g c p) c of Some d \<Rightarrow> can_move (place g c p) d
      | None \<Rightarrow> \<not> can_move (place g c p) Black \<and> \<not> can_move (place g c p) White)"
    by (simp add: turn_ok_def Turn_place)
  then show ?thesis by (cases c) (auto simp: next_turn_def split: if_splits)
qed

section \<open>The end of the game\<close>

text \<open>
  A rules engine as its client sees it: a state with a player to move, legal moves, and a measure
  (the empty cells) that every move lowers.  Every play is then bounded, and can be completed.
\<close>

locale rules_engine =
  fixes turn :: "'g \<Rightarrow> 'c option" and may :: "'g \<Rightarrow> 'c \<Rightarrow> 'm \<Rightarrow> bool"
    and put :: "'g \<Rightarrow> 'c \<Rightarrow> 'm \<Rightarrow> 'g" and room :: "'g \<Rightarrow> nat" and wf :: "'g \<Rightarrow> bool"
  assumes wf_put: "wf g \<Longrightarrow> turn g = Some c \<Longrightarrow> may g c m \<Longrightarrow> wf (put g c m)"
    and room_put: "wf g \<Longrightarrow> turn g = Some c \<Longrightarrow> may g c m \<Longrightarrow> Suc (room (put g c m)) = room g"
    and turn_moves: "wf g \<Longrightarrow> turn g = Some c \<Longrightarrow> \<exists>m. may g c m"
begin

inductive plays :: "'g \<Rightarrow> 'm list \<Rightarrow> 'g \<Rightarrow> bool" where
  stop: "plays g [] g"
| move: "turn g = Some c \<Longrightarrow> may g c m \<Longrightarrow> plays (put g c m) ms g' \<Longrightarrow> plays g (m # ms) g'"

lemma plays_room: "plays g ms g' \<Longrightarrow> wf g \<Longrightarrow> wf g' \<and> length ms + room g' = room g"
  by (induction rule: plays.induct) (use wf_put room_put in fastforce)+

lemma plays_bounded: "plays g ms g' \<Longrightarrow> wf g \<Longrightarrow> length ms \<le> room g"
  using plays_room by fastforce

lemma plays_completes: "wf g \<Longrightarrow> \<exists>ms g'. plays g ms g' \<and> turn g' = None"
proof (induction "room g" arbitrary: g rule: less_induct)
  case less
  show ?case
  proof (cases "turn g")
    case None
    then show ?thesis using stop by blast
  next
    case (Some c)
    then obtain m where m: "may g c m" using turn_moves less.prems by blast
    from room_put [OF less.prems Some m] have "room (put g c m) < room g" by simp
    from less.hyps [OF this wf_put [OF less.prems Some m]] show ?thesis
      using Some m move by blast
  qed
qed

end

definition empty_cells :: "game \<Rightarrow> nat" where
  "empty_cells g = card (cells g None)"

definition game_ok :: "game \<Rightarrow> bool" where
  "game_ok g \<longleftrightarrow> rect g \<and> turn_ok g"

interpretation rv: rules_engine Turn legal place empty_cells game_ok
proof
  fix g c p assume g: "game_ok g" and t: "Turn g = Some c"
  then show "\<exists>m. legal g c m" by (auto simp: game_ok_def turn_ok_def can_move_iff)
  assume l: "legal g c p"
  then show "game_ok (place g c p)" using g by (simp add: game_ok_def turn_ok_place)
  have "nat p \<in> cells g None" using l by (auto simp: legal_def cells_def on_board_def)
  then have "Suc (card (cells g None - {nat p})) = card (cells g None)"
    by (rule card_Suc_Diff1 [OF finite_cells])
  then show "Suc (empty_cells (place g c p)) = empty_cells g"
    using cells_place(3) [of g p c] g l by (simp add: empty_cells_def game_ok_def legal_def)
qed


section \<open>Playing with the engine's own operations\<close>

text \<open>One checked move, as the callers of the engine make it: the player to move, a legal cell.\<close>

definition move_stone :: "game \<Rightarrow> int \<Rightarrow> game option" where
  "move_stone g p = (case Turn g of None \<Rightarrow> None
     | Some c \<Rightarrow> (case CanPut g c p of Ok True \<Rightarrow>
         (case PutStone g p of Ok g' \<Rightarrow> Some g' | _ \<Rightarrow> None) | _ \<Rightarrow> None))"

fun play_all :: "game \<Rightarrow> int list \<Rightarrow> game option" where
  "play_all g [] = Some g"
| "play_all g (p # ps) = (case move_stone g p of None \<Rightarrow> None | Some g' \<Rightarrow> play_all g' ps)"

lemma move_stone_eq:
  "rect g \<Longrightarrow> move_stone g p = (case Turn g of None \<Rightarrow> None
     | Some c \<Rightarrow> if legal g c p then Some (place g c p) else None)"
  by (auto simp: move_stone_def CanPut_eq PutStone_eq legal_def split: option.split)

lemma play_all_plays: "game_ok g \<Longrightarrow> play_all g ps = Some g' \<Longrightarrow> rv.plays g ps g'"
proof (induction ps arbitrary: g)
  case (Cons p ps)
  from Cons.prems obtain c where c: "Turn g = Some c" "legal g c p" "play_all (place g c p) ps = Some g'"
    by (auto simp: move_stone_eq game_ok_def split: option.splits if_splits)
  with Cons show ?case using rv.wf_put rv.move by blast
qed (simp add: rv.stop)

lemma plays_play_all: "rv.plays g ps g' \<Longrightarrow> game_ok g \<Longrightarrow> play_all g ps = Some g'"
proof (induction rule: rv.plays.induct)
  case (move g c m ms g')
  then show ?case using rv.wf_put by (simp add: move_stone_eq game_ok_def)
qed simp

definition rectangular :: "string list \<Rightarrow> bool" where
  "rectangular rows \<longleftrightarrow> rows \<noteq> [] \<and> hd rows \<noteq> [] \<and> (\<forall>r \<in> set rows. length r = length (hd rows))"

lemma length_concat_rows: "\<forall>r \<in> set rows. length r = n \<Longrightarrow> length (concat rows) = length rows * n"
  by (induction rows) auto

lemma rect_initial:
  assumes "rows = [] \<or> rectangular rows"
  shows "rect (initial_board rows opts)"
proof (cases "rows = []")
  case True
  then show ?thesis by (simp add: rect_def initial_board_def default_map_def)
next
  case False
  with assms have a: "\<forall>r \<in> set rows. length r = length (hd rows)" and h: "hd rows \<noteq> []"
    unfolding rectangular_def by blast+
  have l: "int (length (concat rows)) = int (length (hd rows)) * int (length rows)"
    unfolding length_concat_rows [OF a] by (simp add: mult.commute)
  have h': "0 < length (hd rows)" using h by simp
  have "initial_board rows opts = \<lparr>BoardMap = map (snd \<circ> cell_of) (concat rows), Board = map (fst \<circ> cell_of) (concat rows),
      MapWidth = int (length (hd rows)), MapHeight = int (length rows),
      Turn = None, Opts = opts, PrevPos = -1, PrevColor = None, Logs = []\<rparr>"
    using False by (simp add: initial_board_def Let_def)
  then show ?thesis using l h' False unfolding rect_def by (simp only: game.simps length_map) simp
qed

lemma NewGame_ok:
  assumes "rows = [] \<or> rectangular rows"
  shows "\<exists>g. NewGame rows opts = Ok g \<and> game_ok g"
proof -
  let ?g = "(initial_board rows opts)\<lparr>Turn := Some Black\<rparr>"
  have r: "rect ?g" using rect_initial [OF assms] by (simp add: rect_def)
  note eq = CanPutSomewhere_eq [OF r]
  have "NewGame rows opts = Ok (?g\<lparr>Turn :=
      (if can_move ?g Black then Some Black else if can_move ?g White then Some White else None)\<rparr>)" (is "_ = Ok ?g'")
    using eq by (simp add: NewGame_def Let_def)
  moreover have "game_ok ?g'" using r by (simp add: game_ok_def turn_ok_def)
  ultimately show ?thesis by blast
qed

section \<open>Properties\<close>

text \<open>C23. On a rectangular board the unbounded scan of \<open>effectsInLine\<close> returns, never panics, and
  collects exactly the enemy stones of the ray up to the stone (or, on a looped board, the starting
  cell) that closes it, and nothing when the ray is not closed.\<close>

theorem effectsInLine_outflanked:
  assumes "rect g" "on_board g p" "(dx, dy) \<in> set diffs"
  shows "\<exists>n < length (Board g).
    (\<forall>k \<in> {1..n}. ray_event g c p dx dy k = Enemy_at) \<and> ray_event g c p dx dy (Suc n) \<noteq> Enemy_at
    \<and> effectsInLine g c (\<not> c) p dx dy =
        Ok (if ray_event g c p dx dy (Suc n) = Blocked then [] else map (ray_pos g p dx dy) [1..<Suc n])"
  using effectsInLine_eq [OF assms, of c] line_len_bound [OF assms, of c] line_len_stops [OF assms, of c]
  by (intro exI [of _ "line_len g c p dx dy"])
     (auto simp: line_flips_def Let_def intro: line_len_enemy simp del: upt_Suc)

definition start_game :: game where
  "start_game = (initial_board [] \<lparr>IsLlotheo = False, CanPutEverywhere = False, LoopedBoard = False\<rparr>)\<lparr>Turn := Some Black\<rparr>"

lemma start_game_rect: "rect start_game"
  using rect_initial [of "[]"] by (simp add: start_game_def rect_def)

lemma start_game_opts: "\<not> CanPutEverywhere (Opts start_game)"
  by (simp add: start_game_def initial_board_def Let_def)

lemma start_game_legal: "legal start_game Black 19"
  by code_simp

lemma start_game_ok: "game_ok start_game"
proof -
  have "Turn start_game = Some Black" by (simp add: start_game_def)
  moreover have "can_move start_game Black" using start_game_legal can_move_iff by blast
  ultimately show ?thesis using start_game_rect by (simp add: game_ok_def turn_ok_def)
qed

theorem effectsInLine_outflanked_witness:
  "\<exists>n < length (Board start_game).
    (\<forall>k \<in> {1..n}. ray_event start_game Black 19 0 1 k = Enemy_at)
    \<and> ray_event start_game Black 19 0 1 (Suc n) \<noteq> Enemy_at
    \<and> effectsInLine start_game Black White 19 0 1 =
        Ok (if ray_event start_game Black 19 0 1 (Suc n) = Blocked then []
            else map (ray_pos start_game 19 0 1) [1..<Suc n])"
  using effectsInLine_outflanked [OF start_game_rect, of 19 0 1 Black] start_game_legal
  by (simp add: legal_def diffs_def)

text \<open>\<open>CanPut\<close> is the rule of reversi: on a rectangular board, with the ordinary rules, a move is
  accepted exactly on an empty cell from which some direction runs over one or more enemy stones to
  an own stone (or back to the cell itself on a looped board).\<close>

theorem CanPut_outflanks:
  assumes "rect g" "\<not> CanPutEverywhere (Opts g)"
  shows "CanPut g c p = Ok (on_board g p \<and> Board g ! nat p = None \<and>
    (\<exists>dx dy n. (dx, dy) \<in> set diffs \<and> 1 \<le> n \<and> (\<forall>k \<in> {1..n}. ray_event g c p dx dy k = Enemy_at)
       \<and> ray_event g c p dx dy (Suc n) \<in> {Own, Home}))"
proof -
  have "flips g c p \<noteq> [] \<longleftrightarrow> (\<exists>dx dy n. (dx, dy) \<in> set diffs \<and> 1 \<le> n \<and> (\<forall>k \<in> {1..n}. ray_event g c p dx dy k = Enemy_at)
       \<and> ray_event g c p dx dy (Suc n) \<in> {Own, Home})" if p: "on_board g p"
  proof -
    have "line_flips g c p dx dy \<noteq> [] \<longleftrightarrow> (\<exists>n \<ge> 1. (\<forall>k \<in> {1..n}. ray_event g c p dx dy k = Enemy_at)
       \<and> ray_event g c p dx dy (Suc n) \<in> {Own, Home})" if d: "(dx, dy) \<in> set diffs" for dx dy
      by (rule line_flips_nonempty [OF assms(1) p d])
    then show ?thesis unfolding flips_def by (simp only: concat_eq_Nil_conv) fastforce
  qed
  with assms show ?thesis by (auto simp: CanPut_eq legal_def)
qed

theorem CanPut_outflanks_witness:
  "CanPut start_game Black 19 = Ok True \<and>
   CanPut start_game Black 19 = Ok (on_board start_game 19 \<and> Board start_game ! nat 19 = None \<and>
    (\<exists>dx dy n. (dx, dy) \<in> set diffs \<and> 1 \<le> n \<and> (\<forall>k \<in> {1..n}. ray_event start_game Black 19 dx dy k = Enemy_at)
       \<and> ray_event start_game Black 19 dx dy (Suc n) \<in> {Own, Home}))"
  using CanPut_outflanks [OF start_game_rect start_game_opts, of Black 19] CanPut_eq [OF start_game_rect] start_game_legal
  by simp


text \<open>A legal move on a rectangular board never panics or hangs; it puts one stone, turns over exactly the
  outflanked enemy stones, and leaves every other cell alone, so the mover gains one stone plus the
  flipped ones, the opponent loses the flipped ones, and at least one stone turns unless the
  variant lets a player put anywhere.\<close>

theorem PutStone_accounts:
  assumes "rect g" "Turn g = Some c" "CanPut g c p = Ok True"
  shows "\<exists>g'. PutStone g p = Ok g' \<and> rect g'
    \<and> (\<forall>i < length (Board g). Board g' ! i =
         (if int i = p \<or> int i \<in> set (flips g c p) then Some c else Board g ! i))
    \<and> card (cells g' (Some c)) = card (cells g (Some c)) + 1 + card (flipped g c p)
    \<and> card (cells g' (Some (\<not> c))) + card (flipped g c p) = card (cells g (Some (\<not> c)))
    \<and> (CanPutEverywhere (Opts g) \<or> 1 \<le> card (flipped g c p))"
proof -
  have l: "legal g c p" using assms(1,3) by (simp add: CanPut_eq)
  then have p: "on_board g p" "Board g ! nat p = None" by (auto simp: legal_def)
  note cp = cells_place [OF assms(1) p]
  have sub: "flipped g c p \<subseteq> cells g (Some (\<not> c))" by (rule flipped_sub [OF assms(1)])
  then have fin: "finite (flipped g c p)" by (rule finite_subset) simp
  have new: "nat p \<notin> cells g (Some c) \<union> flipped g c p" "cells g (Some c) \<inter> flipped g c p = {}"
    using sub p(2) by (auto simp: cells_def)
  have "card (cells (place g c p) (Some c)) = card (cells g (Some c)) + 1 + card (flipped g c p)"
    unfolding cp(1) using new fin by (simp add: card_Un_disjoint)
  moreover have "card (cells (place g c p) (Some (\<not> c))) + card (flipped g c p) = card (cells g (Some (\<not> c)))"
    unfolding cp(2) using sub fin by (simp add: card_Diff_subset card_mono)
  moreover have "CanPutEverywhere (Opts g) \<or> 1 \<le> card (flipped g c p)"
    using l fin by (auto simp: legal_def flipped_def Suc_le_eq card_gt_0_iff split: if_splits)
  ultimately show ?thesis
    using PutStone_eq [OF assms(1) p(1) assms(2)] place_nth [OF assms(1) p(1)] assms(1) by simp
qed

lemma start_game_turn: "Turn start_game = Some Black"
  by (simp add: start_game_def)

lemma start_game_CanPut: "CanPut start_game Black 19 = Ok True"
  using start_game_legal by (simp add: CanPut_eq [OF start_game_rect])

theorem PutStone_accounts_witness:
  "\<exists>g'. PutStone start_game 19 = Ok g' \<and> card (flipped start_game Black 19) = 1
    \<and> card (cells g' (Some Black)) = card (cells start_game (Some Black)) + 2"
proof -
  have f: "flips start_game Black 19 = [27]" by code_simp
  then have "card (flipped start_game Black 19) = 1" by (simp add: flipped_def)
  then show ?thesis using PutStone_accounts [OF start_game_rect start_game_turn start_game_CanPut] by auto
qed

text \<open>Turn order: after a legal move the opponent moves if the opponent can, otherwise the mover moves
  again if possible, otherwise the game is over; so the player to move always has a legal cell and a
  finished game has none for either player.\<close>

theorem PutStone_turn:
  assumes "rect g" "Turn g = Some c" "CanPut g c p = Ok True" "PutStone g p = Ok g'"
  shows "Turn g' = (if \<exists>q. CanPut g' (\<not> c) q = Ok True then Some (\<not> c)
                    else if \<exists>q. CanPut g' c q = Ok True then Some c else None)"
proof -
  have "on_board g p" using assms(1,3) by (simp add: CanPut_eq legal_def)
  then have g': "g' = place g c p" using PutStone_eq [OF assms(1) _ assms(2)] assms(4) by simp
  then have "rect g'" using assms(1) by simp
  then show ?thesis
    using Turn_place [of g c p] g' by (auto simp: next_turn_def can_move_iff CanPut_eq)
qed

theorem PutStone_turn_witness:
  "\<exists>g'. PutStone start_game 19 = Ok g' \<and> Turn g' =
     (if \<exists>q. CanPut g' White q = Ok True then Some White
      else if \<exists>q. CanPut g' Black q = Ok True then Some Black else None)"
  using PutStone_turn [OF start_game_rect start_game_turn start_game_CanPut]
    PutStone_eq [OF start_game_rect _ start_game_turn, of 19] start_game_legal
  by (simp add: legal_def)

text \<open>C24. Every game ends: from a position with a player to move, a sequence of accepted moves is never
  longer than the number of empty cells, no accepted move makes the engine panic or hang, and every
  position can be played to a finished game.\<close>

theorem game_terminates:
  assumes "game_ok g"
  shows "(\<forall>ps g'. play_all g ps = Some g' \<longrightarrow> game_ok g' \<and> length ps + empty_cells g' = empty_cells g)
    \<and> (\<exists>ps g'. play_all g ps = Some g' \<and> IsEnded g')"
proof (intro conjI allI impI)
  fix ps g' assume "play_all g ps = Some g'"
  then have "rv.plays g ps g'" by (rule play_all_plays [OF assms])
  then show "game_ok g'" "length ps + empty_cells g' = empty_cells g"
    using rv.plays_room assms by blast+
next
  obtain ps g' where "rv.plays g ps g'" "Turn g' = None" using rv.plays_completes [OF assms] by blast
  then show "\<exists>ps g'. play_all g ps = Some g' \<and> IsEnded g'"
    using plays_play_all [OF _ assms] unfolding IsEnded_def by blast
qed

theorem game_terminates_witness:
  "game_ok start_game \<and> (\<exists>ps g'. play_all start_game ps = Some g' \<and> IsEnded g')"
  using game_terminates [OF start_game_ok] start_game_ok by blast

text \<open>A game set up from no map or from a map whose rows all have one length starts: \<open>NewGame\<close> returns,
  on a rectangular board, with a player who can move (or ended because nobody can).\<close>

theorem NewGame_starts:
  assumes "rows = [] \<or> rectangular rows"
  shows "\<exists>g. NewGame rows opts = Ok g \<and> game_ok g"
  by (rule NewGame_ok [OF assms])

theorem NewGame_starts_witness:
  "rectangular [''wb'', ''--''] \<and> (\<exists>g. NewGame [''wb'', ''--''] (Opts start_game) = Ok g \<and> game_ok g)"
proof -
  have "rectangular [''wb'', ''--'']" by (simp add: rectangular_def)
  then show ?thesis using NewGame_starts by blast
qed

section \<open>Ragged boards\<close>

text \<open>
  \<open>Service.UpdateSettings\<close> stores any list of strings as the map, and \<open>NewGame\<close> takes the width
  from the first row only.
\<close>

definition looped_opts :: options where
  "looped_opts = \<lparr>IsLlotheo = False, CanPutEverywhere = False, LoopedBoard = True\<rparr>"

definition ragged :: game where
  "ragged = (initial_board [''w'', ''w-''] looped_opts)\<lparr>Turn := Some Black\<rparr>"

lemma ragged_fields:
  "Board ragged = [Some White, Some White, None]" "BoardMap ragged = [CellEmpty, CellEmpty, CellEmpty]"
  "MapWidth ragged = 1" "MapHeight ragged = 2" "Opts ragged = looped_opts"
  by (simp_all add: ragged_def initial_board_def cell_of_def Let_def)

lemma ragged_cells:
  "XYToPos ragged x y = x + y"
  "MapDataGet ragged 0 = Ok CellEmpty" "MapDataGet ragged 1 = Ok CellEmpty"
  "go_nth (Board ragged) 0 = Ok (Some White)" "go_nth (Board ragged) 1 = Ok (Some White)"
  "((y - 1) smod 2 + 2) smod 2 = (y + 1) mod (2 :: int)"
  using wrap_smod [of 2 "y - 1"]
  by (simp_all add: XYToPos_def MapDataGet_def PosToXY_def ragged_fields) presburger

text \<open>The column of the ragged board holds two enemy stones; the scan alternates between them.\<close>

definition ragged_args :: "game \<Rightarrow> color \<Rightarrow> color \<Rightarrow> int \<Rightarrow> int \<Rightarrow> int \<Rightarrow> int \<Rightarrow> int \<Rightarrow> bool" where
  "ragged_args g c e i dx dy x y \<longleftrightarrow>
     g = ragged \<and> c = Black \<and> e = White \<and> i = 2 \<and> dx = 0 \<and> dy = -1 \<and> x = 0 \<and> 0 \<le> y"

lemma ragged_scan_diverges:
  assumes "0 \<le> y"
  shows "effects_loop ragged Black White 2 0 (-1) 0 y found = None"
proof (rule ccontr)
  assume "effects_loop ragged Black White 2 0 (-1) 0 y found \<noteq> None"
  then obtain r where ret: "effects_loop ragged Black White 2 0 (-1) 0 y found = Some r" by auto
  have "\<not> ragged_args ragged Black White 2 0 (-1) 0 y"
  proof (rule effects_loop.raw_induct [where P = "\<lambda>g c e i dx dy x y f r. \<not> ragged_args g c e i dx dy x y", OF _ ret],
      goal_cases)
    case (1 L g c e i dx dy x y f r)
    show ?case
    proof
      assume a: "ragged_args g c e i dx dy x y"
      have "(y + 1) mod 2 = 0 \<or> (y + 1) mod 2 = 1" by presburger
      then have "\<exists>f'. L ragged Black White 2 0 (-1) 0 ((y + 1) mod 2) f' = Some r"
        using 1(2) a
        by (elim disjE) (auto simp: ragged_args_def Let_def ragged_fields looped_opts_def ragged_cells)
      then show False using 1(1) [of ragged Black White 2 0 "-1" 0 "(y + 1) mod 2"] by (auto simp: ragged_args_def)
    qed
  qed
  then show False using assms by (simp add: ragged_args_def)
qed

text \<open>C27. There are ragged maps on which the engine fails.  On a looped board whose second row is longer
  \<open>NewGame\<close> never returns (its scan wraps around inside the first column and never comes back to the
  starting cell), and on a plain board whose second row is shorter it panics with an index out of range.\<close>

theorem NewGame_ragged:
  "NewGame [''w'', ''w-''] looped_opts = Hang
   \<and> NewGame [''----'', ''-''] \<lparr>IsLlotheo = False, CanPutEverywhere = False, LoopedBoard = False\<rparr> = Panic"
proof -
  have "effectsInLine ragged Black White 2 0 (-1) = Hang"
    using ragged_scan_diverges [of 2 "[]"]
    by (simp add: effectsInLine_def PosToXY_def ragged_fields)
  then have "Effects ragged Black 2 = Hang" by (simp add: Effects_def diffs_def)
  then have "CanPut ragged Black 2 = Hang" by (simp add: CanPut_def ragged_fields looped_opts_def)
  moreover have "CanPut ragged Black 0 = Ok False" "CanPut ragged Black 1 = Ok False"
    by (simp_all add: CanPut_def ragged_fields)
  ultimately have "CanPutSomewhere ragged Black = Hang"
    by (simp add: CanPutSomewhere_def GetPuttablePlaces_def ragged_fields upt_rec)
  then have "NewGame [''w'', ''w-''] looped_opts = Hang"
    by (simp add: NewGame_def ragged_def [symmetric])
  moreover have "NewGame [''----'', ''-''] \<lparr>IsLlotheo = False, CanPutEverywhere = False, LoopedBoard = False\<rparr> = Panic"
    by code_simp
  ultimately show ?thesis by blast
qed

end
