(* ===== verification/Go_Text.thy ===== *)
theory Go_Text imports Prelude begin

text \<open>
  Go strings are byte sequences.  This theory holds what the components use of the standard library
  on them: the UTF-8 decoder of a \<open>range\<close> loop, \<open>[]rune(s)\<close>, \<open>string(runes)\<close> and
  \<open>utf8.ValidString\<close>, with the round trips between them.  A byte is a natural below 256, a rune a
  natural; the decoder answers a rune and its width, \<open>(0xFFFD, 1)\<close> on an invalid byte.
\<close>

definition bytes :: "string \<Rightarrow> nat list" where
  "bytes s = map of_char s"

definition text_of :: "nat list \<Rightarrow> string" where
  "text_of bs = map char_of bs"

definition between :: "nat \<Rightarrow> nat \<Rightarrow> nat \<Rightarrow> bool" where
  "between lo hi b \<longleftrightarrow> lo \<le> b \<and> b \<le> hi"

definition rune2 :: "nat \<Rightarrow> nat \<Rightarrow> nat" where
  "rune2 b0 b1 = (b0 mod 32) * 64 + b1 mod 64"

definition rune3 :: "nat \<Rightarrow> nat \<Rightarrow> nat \<Rightarrow> nat" where
  "rune3 b0 b1 b2 = (b0 mod 16) * 4096 + (b1 mod 64) * 64 + b2 mod 64"

definition rune4 :: "nat \<Rightarrow> nat \<Rightarrow> nat \<Rightarrow> nat \<Rightarrow> nat" where
  "rune4 b0 b1 b2 b3 = (b0 mod 8) * 262144 + (b1 mod 64) * 4096 + (b2 mod 64) * 64 + b3 mod 64"

definition second3 :: "nat \<Rightarrow> nat \<Rightarrow> bool" where
  "second3 b0 b1 \<longleftrightarrow> between (if b0 = 0xE0 then 0xA0 else 0x80) (if b0 = 0xED then 0x9F else 0xBF) b1"

definition second4 :: "nat \<Rightarrow> nat \<Rightarrow> bool" where
  "second4 b0 b1 \<longleftrightarrow> between (if b0 = 0xF0 then 0x90 else 0x80) (if b0 = 0xF4 then 0x8F else 0xBF) b1"

fun rune_at :: "nat list \<Rightarrow> nat \<times> nat" where
  "rune_at [] = (0xFFFD, 0)"
| "rune_at (b0 # bs) =
    (if b0 < 0x80 then (b0, 1)
     else if between 0xC2 0xDF b0 then
       (case bs of b1 # _ \<Rightarrow> if between 0x80 0xBF b1 then (rune2 b0 b1, 2) else (0xFFFD, 1)
        | _ \<Rightarrow> (0xFFFD, 1))
     else if between 0xE0 0xEF b0 then
       (case bs of b1 # b2 # _ \<Rightarrow>
          if second3 b0 b1 \<and> between 0x80 0xBF b2
          then (rune3 b0 b1 b2, 3) else (0xFFFD, 1)
        | _ \<Rightarrow> (0xFFFD, 1))
     else if between 0xF0 0xF4 b0 then
       (case bs of b1 # b2 # b3 # _ \<Rightarrow>
          if second4 b0 b1 \<and> between 0x80 0xBF b2 \<and> between 0x80 0xBF b3
          then (rune4 b0 b1 b2 b3, 4) else (0xFFFD, 1)
        | _ \<Rightarrow> (0xFFFD, 1))
     else (0xFFFD, 1))"

lemma rune_at_width [simp]: "0 < snd (rune_at (b # bs))" "snd (rune_at (b # bs)) \<le> Suc (length bs)"
  by (auto split: list.splits)

declare rune_at.simps(2) [simp del]

lemma rune_width_pos: "(r, w) = rune_at (b # bs) \<Longrightarrow> 0 < w"
  using rune_at_width(1) [of b bs] by (metis snd_conv)

function runes :: "nat list \<Rightarrow> nat list" where
  "runes [] = []"
| "runes (b # bs) = (let (r, w) = rune_at (b # bs) in r # runes (drop w (b # bs)))"
  by pat_completeness auto
termination
  by (relation "measure length") (auto dest!: rune_width_pos)

function valid_utf8 :: "nat list \<Rightarrow> bool" where
  "valid_utf8 [] = True"
| "valid_utf8 (b # bs) = (let (r, w) = rune_at (b # bs)
     in (r, w) \<noteq> (0xFFFD, 1) \<and> valid_utf8 (drop w (b # bs)))"
  by pat_completeness auto
termination
  by (relation "measure length") (auto dest!: rune_width_pos)

declare runes.simps(2) [simp del] valid_utf8.simps(2) [simp del]

definition scalar :: "nat \<Rightarrow> bool" where
  \<comment> \<open>a Unicode scalar value: no surrogate\<close>
  "scalar r \<longleftrightarrow> r < 0xD800 \<or> between 0xE000 0x10FFFF r"

definition encode_scalar :: "nat \<Rightarrow> nat list" where
  "encode_scalar r =
    (if r < 0x80 then [r]
     else if r < 0x800 then [0xC0 + r div 64, 0x80 + r mod 64]
     else if r < 0x10000 then [0xE0 + r div 4096, 0x80 + r div 64 mod 64, 0x80 + r mod 64]
     else [0xF0 + r div 262144, 0x80 + r div 4096 mod 64, 0x80 + r div 64 mod 64, 0x80 + r mod 64])"

definition encode_rune :: "nat \<Rightarrow> nat list" where
  "encode_rune r = (if scalar r then encode_scalar r else encode_scalar 0xFFFD)"

definition encode_runes :: "nat list \<Rightarrow> nat list" where
  "encode_runes rs = concat (map encode_rune rs)"

lemma encode_runes_simps [simp]:
  "encode_runes [] = []" "encode_runes (r # rs) = encode_rune r @ encode_runes rs"
  "encode_runes (rs @ rs') = encode_runes rs @ encode_runes rs'"
  by (simp_all add: encode_runes_def)

section \<open>Decoding what was encoded\<close>

lemma digits2: obtains q m where "r = 64 * q + m" "m < 64" "r div 64 = q" "r mod 64 = (m :: nat)"
  using that [of "r div 64" "r mod 64"] by simp

lemma digits3: obtains a b c where "r = 4096 * a + 64 * b + c" "b < 64" "c < 64"
  "r div 4096 = a" "r div 64 mod 64 = b" "r mod 64 = (c :: nat)"
proof -
  obtain q c where q: "r = 64 * q + c" "c < 64" "r div 64 = q" "r mod 64 = c" by (rule digits2)
  obtain a b where a: "q = 64 * a + b" "b < 64" "q div 64 = a" "q mod 64 = b" by (rule digits2)
  have "r div 4096 = a" using q(3) a(3) div_mult2_eq [of r 64 64] by simp
  with q a that show thesis by simp
qed

lemma digits4: obtains a b c d where "r = 262144 * a + 4096 * b + 64 * c + d" "b < 64" "c < 64" "d < 64"
  "r div 262144 = a" "r div 4096 mod 64 = b" "r div 64 mod 64 = c" "r mod 64 = (d :: nat)"
proof -
  obtain q c d where q: "r = 4096 * q + 64 * c + d" "c < 64" "d < 64"
    "r div 4096 = q" "r div 64 mod 64 = c" "r mod 64 = d" by (rule digits3)
  obtain a b where a: "q = 64 * a + b" "b < 64" "q div 64 = a" "q mod 64 = b" by (rule digits2)
  have "r = 262144 * a + 4096 * b + 64 * c + d" using q(1) a(1) by simp
  moreover have "r div 262144 = a" using q(4) a(3) div_mult2_eq [of r 4096 64] by simp
  moreover have "r div 4096 mod 64 = b" unfolding q(4) by (rule a(4))
  ultimately show thesis using that q(2,3,5,6) a(2) by blast
qed

lemma div_digit: "n < 64 \<Longrightarrow> (64 * x + n) div 64 = (x :: nat)"
  by simp

lemma mod_digit: "n < 64 \<Longrightarrow> (64 * x + n) mod 64 = (n :: nat)"
  by simp

lemma mod_shift: "q < m \<Longrightarrow> k mod m = 0 \<Longrightarrow> (k + q) mod m = (q :: nat)"
  by (metis add.left_neutral mod_add_left_eq mod_less)

lemma rune_at_encode2:
  assumes "0x80 \<le> r" "r < 0x800"
  shows "rune_at (encode_scalar r @ bs) = (r, 2)"
proof -
  obtain q m where q: "r = 64 * q + m" "m < 64" "r div 64 = q" "r mod 64 = m" by (rule digits2)
  have b: "2 \<le> q" "q < 32" using assms q by auto
  have "rune2 (192 + q) (128 + m) = r" unfolding rune2_def
    using b q(2) by (simp add: mod_shift q(1))
  then show ?thesis using assms b q(2) by (simp add: encode_scalar_def q(3,4) rune_at.simps(2) between_def)
qed

lemma rune_at_encode3:
  assumes "0x800 \<le> r" "r < 0x10000" "scalar r"
  shows "rune_at (encode_scalar r @ bs) = (r, 3)"
proof -
  obtain a b c where q: "r = 4096 * a + 64 * b + c" "b < 64" "c < 64"
    "r div 4096 = a" "r div 64 mod 64 = b" "r mod 64 = c" by (rule digits3)
  have a: "a < 16" using assms(2) q(1) by auto
  have lo: "a = 0 \<Longrightarrow> 32 \<le> b" using assms(1) q(1,3) by auto
  have hi: "a = 13 \<Longrightarrow> b \<le> 31" using assms(3) q(1,2,3) by (auto simp: scalar_def between_def)
  have "rune3 (224 + a) (128 + b) (128 + c) = r" unfolding rune3_def
    using a q(2,3) by (simp add: mod_shift q(1))
  then show ?thesis using assms(1,2) a lo hi q(2,3)
    by (simp add: encode_scalar_def q(4-6) rune_at.simps(2) between_def second3_def)
qed

lemma rune_at_encode4:
  assumes "0x10000 \<le> r" "scalar r"
  shows "rune_at (encode_scalar r @ bs) = (r, 4)"
proof -
  obtain a b c d where q: "r = 262144 * a + 4096 * b + 64 * c + d" "b < 64" "c < 64" "d < 64"
    "r div 262144 = a" "r div 4096 mod 64 = b" "r div 64 mod 64 = c" "r mod 64 = d" by (rule digits4)
  have r: "r \<le> 1114111" using assms by (auto simp: scalar_def between_def)
  have a: "a < 5" using r q(1) by auto
  have lo: "a = 0 \<Longrightarrow> 16 \<le> b" using assms(1) q(1,3,4) by auto
  have hi: "a = 4 \<Longrightarrow> b \<le> 15" using r q(1) by auto
  have "rune4 (240 + a) (128 + b) (128 + c) (128 + d) = r" unfolding rune4_def
    using a q(2-4) by (simp add: mod_shift q(1))
  then show ?thesis using assms(1) a lo hi q(2-4)
    by (simp add: encode_scalar_def q(5-8) rune_at.simps(2) between_def second4_def)
qed

lemma rune_at_scalar:
  assumes "scalar r"
  shows "rune_at (encode_scalar r @ bs) = (r, length (encode_scalar r))"
proof -
  have "rune_at (encode_scalar r @ bs) = (r, 1)" if "r < 0x80"
    using that by (simp add: encode_scalar_def rune_at.simps(2))
  then show ?thesis
    using assms rune_at_encode2 [of r bs] rune_at_encode3 [of r bs] rune_at_encode4 [of r bs]
    by (auto simp: encode_scalar_def)
qed

lemma encode_scalar_nonempty [simp]: "encode_scalar r \<noteq> []"
  by (simp add: encode_scalar_def)

lemma runes_encode_Cons: "scalar r \<Longrightarrow> runes (encode_scalar r @ bs) = r # runes bs"
  using rune_at_scalar [of r bs] by (cases "encode_scalar r") (auto simp: runes.simps(2))

lemma valid_encode_Cons: "scalar r \<Longrightarrow> valid_utf8 (encode_scalar r @ bs) = valid_utf8 bs"
proof -
  assume s: "scalar r"
  have "(r, length (encode_scalar r)) \<noteq> (0xFFFD, 1)" by (auto simp: encode_scalar_def)
  then show ?thesis using rune_at_scalar [OF s, of bs]
    by (cases "encode_scalar r") (auto simp: valid_utf8.simps(2))
qed

lemma scalar_FFFD [simp]: "scalar 0xFFFD"
  by (simp add: scalar_def between_def)

lemma encode_rune_scalar: "scalar r \<Longrightarrow> encode_rune r = encode_scalar r"
  by (simp add: encode_rune_def)

lemma runes_encode_runes: "\<forall>r \<in> set rs. scalar r \<Longrightarrow> runes (encode_runes rs) = rs"
  by (induction rs) (auto simp: encode_rune_scalar runes_encode_Cons)

lemma valid_encode_runes: "valid_utf8 (encode_runes rs)"
  by (induction rs) (auto simp: encode_rune_def valid_encode_Cons)

section \<open>Encoding what was decoded\<close>

lemma byte_offset: "between (k + lo) (k + hi) b \<Longrightarrow> \<exists>q. b = k + q \<and> lo \<le> q \<and> q \<le> (hi :: nat)"
  by (auto simp: between_def intro!: exI [of _ "b - k"])

lemma cont_offset: "between 0x80 0xBF b \<Longrightarrow> \<exists>m. b = 128 + m \<and> m < 64"
  using byte_offset [of 128 0 63 b] by auto

lemma encode_decoded2:
  assumes "between 0xC2 0xDF b" "between 0x80 0xBF b1"
  shows "scalar (rune2 b b1) \<and> encode_scalar (rune2 b b1) = [b, b1]"
proof -
  obtain q where q: "b = 192 + q" "2 \<le> q" "q \<le> 31" using byte_offset [of 192 2 31 b] assms(1) by auto
  obtain m where m: "b1 = 128 + m" "m < 64" using cont_offset [OF assms(2)] by blast
  have r: "rune2 b b1 = 64 * q + m" using q m by (simp add: rune2_def mod_shift)
  have "(64 * q + m) div 64 = q" "(64 * q + m) mod 64 = m" using m(2) by simp_all
  then show ?thesis unfolding r using q m by (simp add: scalar_def encode_scalar_def)
qed

lemma encode_decoded3:
  assumes "between 0xE0 0xEF b" "second3 b b1" "between 0x80 0xBF b2"
  shows "scalar (rune3 b b1 b2) \<and> encode_scalar (rune3 b b1 b2) = [b, b1, b2]"
proof -
  obtain q where q: "b = 224 + q" "q \<le> 15" using byte_offset [of 224 0 15 b] assms(1) by auto
  have "between 0x80 0xBF b1" using assms(2) by (auto simp: between_def second3_def split: if_splits)
  then obtain m where m: "b1 = 128 + m" "m < 64" using cont_offset by blast
  obtain n where n: "b2 = 128 + n" "n < 64" using cont_offset [OF assms(3)] by blast
  have lo: "q = 0 \<Longrightarrow> 32 \<le> m" and hi: "q = 13 \<Longrightarrow> m \<le> 31"
    using assms(2) q m by (auto simp: between_def second3_def)
  define r where "r = 64 * (64 * q + m) + n"
  have e: "rune3 b b1 b2 = r" using q m n by (simp add: rune3_def mod_shift r_def)
  have f: "r div 64 = 64 * q + m" "r mod 64 = n" unfolding r_def using n(2) by (rule div_digit, rule mod_digit)
  then have d: "r div 4096 = q" "r div 64 mod 64 = m" using m(2) div_mult2_eq [of r 64 64] by simp_all
  have "q = 0 \<or> 1 \<le> q" "q \<le> 12 \<or> q = 13 \<or> 14 \<le> q" by auto
  then have "0x800 \<le> r" "r < 0xD800 \<or> 0xE000 \<le> r" "r < 0x10000"
    using q(2) m(2) n(2) lo hi by (auto simp: r_def)
  then have "0x800 \<le> r" "r < 0x10000" "scalar r" by (auto simp: scalar_def between_def)
  then show ?thesis unfolding e using q m n d f by (simp add: encode_scalar_def)
qed

lemma encode_decoded4:
  assumes "between 0xF0 0xF4 b" "second4 b b1" "between 0x80 0xBF b2" "between 0x80 0xBF b3"
  shows "scalar (rune4 b b1 b2 b3) \<and> encode_scalar (rune4 b b1 b2 b3) = [b, b1, b2, b3]"
proof -
  obtain q where q: "b = 240 + q" "q \<le> 4" using byte_offset [of 240 0 4 b] assms(1) by auto
  have "between 0x80 0xBF b1" using assms(2) by (auto simp: between_def second4_def split: if_splits)
  then obtain l where l: "b1 = 128 + l" "l < 64" using cont_offset by blast
  obtain m where m: "b2 = 128 + m" "m < 64" using cont_offset [OF assms(3)] by blast
  obtain n where n: "b3 = 128 + n" "n < 64" using cont_offset [OF assms(4)] by blast
  have lo: "q = 0 \<Longrightarrow> 16 \<le> l" and hi: "q = 4 \<Longrightarrow> l \<le> 15"
    using assms(2) q l by (auto simp: between_def second4_def)
  define r where "r = 64 * (64 * (64 * q + l) + m) + n"
  have e: "rune4 b b1 b2 b3 = r" using q l m n by (simp add: rune4_def mod_shift r_def)
  have f: "r div 64 = 64 * (64 * q + l) + m" "r mod 64 = n" unfolding r_def using n(2) by (rule div_digit, rule mod_digit)
  have g: "r div 64 mod 64 = m" unfolding f(1) using m(2) by (rule mod_digit)
  have h: "r div 4096 = 64 * q + l"
    using div_mult2_eq [of r 64 64] div_digit [OF m(2), of "64 * q + l"] by (simp add: f(1) del: distrib_left)
  have d: "r div 4096 mod 64 = l" unfolding h using l(2) by (rule mod_digit)
  have d': "r div 262144 = q" using div_mult2_eq [of r 4096 64] div_digit [OF l(2), of q] by (simp add: h)
  have "q = 0 \<or> 1 \<le> q" "q \<le> 3 \<or> q = 4" using q(2) by auto
  then have "0x10000 \<le> r" "r \<le> 0x10FFFF" using l(2) m(2) n(2) lo hi by (auto simp: r_def)
  then have "0x10000 \<le> r" "scalar r" by (auto simp: scalar_def between_def)
  then show ?thesis unfolding e using q l m n d d' f g by (simp add: encode_scalar_def)
qed

lemma encode_decoded:
  assumes "rune_at (b # bs) = (r, w)" "(r, w) \<noteq> (0xFFFD, 1)"
  shows "scalar r \<and> encode_scalar r = take w (b # bs)"
proof -
  have "b < 0x80 \<Longrightarrow> scalar b \<and> encode_scalar b = [b]" by (simp add: scalar_def encode_scalar_def)
  then show ?thesis
    using assms encode_decoded2 [of b] encode_decoded3 [of b] encode_decoded4 [of b]
    by (auto simp: rune_at.simps(2) split: list.splits if_splits)
qed

lemma encode_runes_valid: "valid_utf8 bs \<Longrightarrow> encode_runes (runes bs) = bs \<and> (\<forall>r \<in> set (runes bs). scalar r)"
proof (induction bs rule: valid_utf8.induct)
  case (2 b bs)
  obtain r w where rw: "rune_at (b # bs) = (r, w)" by fastforce
  with 2 have v: "(r, w) \<noteq> (0xFFFD, 1)" "valid_utf8 (drop w (b # bs))" by (auto simp: valid_utf8.simps(2))
  have e: "scalar r" "encode_scalar r = take w (b # bs)" using encode_decoded [OF rw v(1)] by auto
  have "encode_runes (runes (drop w (b # bs))) = drop w (b # bs)
      \<and> (\<forall>r \<in> set (runes (drop w (b # bs))). scalar r)"
    using "2.IH" [OF rw [symmetric] refl] v by simp
  then show ?case using rw e by (auto simp: runes.simps(2) encode_rune_scalar)
qed simp

end
