(* ===== verification/Reversi_Row.thy ===== *)
theory Reversi_Row imports Reversi_Game Go_Text begin

text \<open>
  The \<open>reversi_game\<close> row (\<open>internal/model/reversi.go\<close>) and the pure helpers of
  \<open>internal/core/reversi/service.go\<close>: seats and colours, the choice of black, the settings and
  the replay of the stored log into an engine.

  The \<open>logs\<close> column is JSON text.  \<open>Empty\<close> is an empty byte slice, \<open>Moves\<close> is text that decodes to
  \<open>[][]int\<close>, and \<open>Garbled\<close> is text whose decoding fails, with the entries the decoder leaves behind.
  A raw setting is a JSON value or \<open>None\<close> when the bytes are no JSON; \<open>JFloat\<close> is a number that
  is not an integer, by the text Go prints for it.
\<close>

section \<open>Values\<close>

datatype json = JNull | JBool bool | JInt int | JFloat string | JStr string
  | JArr "json list" | JObj "(string \<times> json) list"

datatype logs_column = Empty | Moves "int list list" | Garbled "int list list"

datatype reversi_error = ErrGameNotFound | ErrNotPlayer | ErrAlreadyStarted | ErrAlreadyEnded
  | ErrNotStarted | ErrNotYourTurn | ErrInvalidMove | ErrInvalidSetting
  | ErrDecodeLogs | ErrBlackNotSet | ErrDB | ErrRecordNotFound | ErrRedis

record reversi_game =
  ID :: string
  StartedAt :: "int option"
  EndedAt :: "int option"
  User1ID :: string
  User2ID :: string
  User1Ready :: bool
  User2Ready :: bool
  BlackSeat :: "int option"
  IsStarted :: bool
  HasEnded :: bool
  WinnerID :: "string option"
  SurrenderedUserID :: "string option"
  TimeoutUserID :: "string option"
  TimeLimitForEachTurn :: int
  LogsColumn :: logs_column
  MapRows :: "string list"
  BW :: string
  NoIrregularRules :: bool
  Llotheo :: bool
  PutEverywhere :: bool
  Looped :: bool
  CRC32 :: "string option"

section \<open>Seats and colours\<close>

definition isPlayer :: "reversi_game \<Rightarrow> string \<Rightarrow> bool" where
  "isPlayer game userID \<longleftrightarrow> User1ID game = userID \<or> User2ID game = userID"

definition opponent :: "reversi_game \<Rightarrow> string \<Rightarrow> string" where
  "opponent game userID = (if User1ID game = userID then User2ID game else User1ID game)"

definition colorFromBool :: "bool \<Rightarrow> color" where
  "colorFromBool black = (if black then Black else White)"

definition playerColor :: "reversi_game \<Rightarrow> string \<Rightarrow> (reversi_error, color) res" where
  "playerColor game userID = (case BlackSeat game of
      None \<Rightarrow> Stop (Err ErrBlackNotSet)
    | Some b \<Rightarrow>
       (let user1IsBlack = (b = 1)
        in if userID = User1ID game then Val (colorFromBool user1IsBlack)
           else if userID = User2ID game then Val (colorFromBool (\<not> user1IsBlack))
           else Stop (Err ErrNotPlayer)))"

definition playerIDForColor :: "reversi_game \<Rightarrow> color \<Rightarrow> string" where
  "playerIDForColor game color = (case BlackSeat game of
      None \<Rightarrow> ''''
    | Some b \<Rightarrow>
       (let user1IsBlack = (b = 1)
        in if color = Black then (if user1IsBlack then User1ID game else User2ID game)
           else (if user1IsBlack then User2ID game else User1ID game)))"

definition pickBlack :: "string \<Rightarrow> string \<Rightarrow> bool \<Rightarrow> int" where
  \<comment> \<open>\<open>rune_at\<close> gives the first rune of the \<open>range\<close> loop; the last argument is the coin \<open>rand.Intn(2) == 0\<close>\<close>
  "pickBlack bw sessionID coin =
    (if bw = ''1'' then 1 else if bw = ''2'' then 2
     else if sessionID \<noteq> '''' then
       (if fst (rune_at (bytes sessionID)) mod 2 = 0 then 1 else 2)
     else if coin then 1 else 2)"

section \<open>Settings\<close>

text \<open>\<open>fmt.Sprint\<close> on a decoded JSON value.  A number is a \<open>float64\<close>: \<open>%v\<close> writes it with an exponent
  from \<open>10^6\<close> on.\<close>

definition strip_zeros :: "string \<Rightarrow> string" where
  "strip_zeros s = rev (dropWhile (\<lambda>c. c = CHR ''0'') (rev s))"

definition sprint_number :: "int \<Rightarrow> string" where
  "sprint_number i =
    (let ds = show_nat (nat \<bar>i\<bar>); e = length ds - 1; m = strip_zeros ds;
         body = (if \<bar>i\<bar> < 1000000 then ds
                 else hd m # (if tl m = [] then [] else CHR ''.'' # tl m)
                      @ ''e+'' @ (if e < 10 then ''0'' else []) @ show_nat e)
     in if i < 0 then CHR ''-'' # body else body)"

fun join_with :: "string \<Rightarrow> string list \<Rightarrow> string" where
  "join_with sep [] = ''''"
| "join_with sep [s] = s"
| "join_with sep (s # ss) = s @ sep @ join_with sep ss"

fun sprint :: "json \<Rightarrow> string" where
  "sprint JNull = ''<nil>''"
| "sprint (JBool b) = (if b then ''true'' else ''false'')"
| "sprint (JInt i) = sprint_number i"
| "sprint (JFloat s) = s"
| "sprint (JStr s) = s"
| "sprint (JArr xs) = ''['' @ join_with '' '' (map sprint xs) @ '']''"
| "sprint (JObj kvs) = ''map['' @ join_with '' '' (map (\<lambda>kv. fst kv @ '':'' @ sprint (snd kv)) kvs) @ '']''"

text \<open>\<open>json.Unmarshal\<close> into a typed variable: \<open>null\<close> leaves the zero value.\<close>

definition as_bool :: "json option \<Rightarrow> bool option" where
  "as_bool raw = (case raw of Some JNull \<Rightarrow> Some False | Some (JBool b) \<Rightarrow> Some b | _ \<Rightarrow> None)"

definition as_int :: "json option \<Rightarrow> int option" where
  "as_int raw = (case raw of Some JNull \<Rightarrow> Some 0
     | Some (JInt i) \<Rightarrow> (if - (2 ^ 63) \<le> i \<and> i < 2 ^ 63 then Some i else None) | _ \<Rightarrow> None)"

definition as_string :: "json \<Rightarrow> string option" where
  "as_string j = (case j of JNull \<Rightarrow> Some '''' | JStr s \<Rightarrow> Some s | _ \<Rightarrow> None)"

definition as_strings :: "json option \<Rightarrow> string list option" where
  "as_strings raw = (case raw of Some JNull \<Rightarrow> Some []
     | Some (JArr xs) \<Rightarrow> those (map as_string xs) | _ \<Rightarrow> None)"

definition ValidUpdateKeys :: "string list" where
  "ValidUpdateKeys = [''map'', ''bw'', ''isLlotheo'', ''canPutEverywhere'', ''loopedBoard'',
     ''timeLimitForEachTurn'', ''noIrregularRules'']"

definition IsValidUpdateKey :: "string \<Rightarrow> bool" where
  "IsValidUpdateKey key \<longleftrightarrow> List.member ValidUpdateKeys key"

definition with_setting :: "'a option \<Rightarrow> ('a \<Rightarrow> reversi_game) \<Rightarrow> reversi_game option" where
  "with_setting v f = map_option f v"

definition applySetting :: "reversi_game \<Rightarrow> string \<Rightarrow> json option \<Rightarrow> reversi_game option" where
  \<comment> \<open>\<open>None\<close> is \<open>ErrInvalidSetting\<close>\<close>
  "applySetting game key raw =
    (if key = ''map'' then with_setting (as_strings raw) (\<lambda>m. game\<lparr>MapRows := m\<rparr>)
     else if key = ''bw'' then with_setting raw (\<lambda>v. game\<lparr>BW := sprint v\<rparr>)
     else if key = ''isLlotheo'' then with_setting (as_bool raw) (\<lambda>b. game\<lparr>Llotheo := b\<rparr>)
     else if key = ''canPutEverywhere'' then with_setting (as_bool raw) (\<lambda>b. game\<lparr>PutEverywhere := b\<rparr>)
     else if key = ''loopedBoard'' then with_setting (as_bool raw) (\<lambda>b. game\<lparr>Looped := b\<rparr>)
     else if key = ''timeLimitForEachTurn'' then
       (case as_int raw of None \<Rightarrow> None
        | Some n \<Rightarrow> if n < 0 then None else Some (game\<lparr>TimeLimitForEachTurn := n\<rparr>))
     else if key = ''noIrregularRules'' then with_setting (as_bool raw) (\<lambda>b. game\<lparr>NoIrregularRules := b\<rparr>)
     else None)"

section \<open>The engine of a row\<close>

definition row_options :: "reversi_game \<Rightarrow> options" where
  "row_options game = \<lparr>IsLlotheo = Llotheo game, CanPutEverywhere = PutEverywhere game,
     LoopedBoard = Looped game\<rparr>"

definition replay_entry :: "game \<Rightarrow> int list \<Rightarrow> game go" where
  "replay_entry engine entry =
    (if length entry \<ge> 4 \<and> entry ! 2 = 0 then PutStone engine (entry ! 3)
     else if length entry = 2 then PutStone engine (entry ! 0)
     else Ok engine)"

definition EngineFromGame :: "reversi_game \<Rightarrow> (reversi_error, game) res go" where
  "EngineFromGame game = go_bind (NewGame (MapRows game) (row_options game)) (\<lambda>engine.
     case LogsColumn game of
       Empty \<Rightarrow> Ok (Val engine)
     | Garbled _ \<Rightarrow> Ok (Stop (Err ErrDecodeLogs))
     | Moves logs \<Rightarrow> go_bind (go_foldl replay_entry engine logs) (\<lambda>e. Ok (Val e)))"

definition decoded_logs :: "reversi_game \<Rightarrow> int list list" where
  \<comment> \<open>\<open>logs\<close> after \<open>_ = json.Unmarshal(game.Logs, &logs)\<close>, the error ignored\<close>
  "decoded_logs game = (case LogsColumn game of Empty \<Rightarrow> [] | Moves l \<Rightarrow> l | Garbled l \<Rightarrow> l)"

definition crc_text :: "game \<Rightarrow> string" where
  "crc_text engine = show_nat (unat (CalcCRC32 engine))"

end
