(* ===== verification/Col_Fit.thy ===== *)
theory Col_Fit imports Go_Text begin

text \<open>
  Fitting a remote string into a PostgreSQL column: \<open>internal/misc/colfit/colfit.go\<close>.

  \<open>Storable\<close>, \<open>Fits\<close>, \<open>ToStorable\<close>, \<open>TruncateRunes\<close> and \<open>Text\<close> work on Go strings
  through the UTF-8 functions of \<open>Go_Text\<close>; \<open>to_valid\<close> and \<open>drop_zero_runes\<close> are
  \<open>strings.ToValidUTF8\<close> and the \<open>strings.Map\<close> of the source.  \<open>jsonEscapesStorable\<close> is the index
  loop over the raw bytes, as a recursion on the bytes that are left.
  \<open>jsonNumbersStorable\<close> walks the tokens of \<open>encoding/json\<close> and is not modelled; its test of one
  literal, \<open>numberFitsNumeric\<close>, is.
\<close>

section \<open>Storing text\<close>

definition Storable :: "string \<Rightarrow> bool" where
  "Storable s \<longleftrightarrow> CHR 0x00 \<notin> set s \<and> valid_utf8 (bytes s)"

definition rune_count :: "string \<Rightarrow> int" where
  "rune_count s = int (length (runes (bytes s)))"

definition Fits :: "string \<Rightarrow> int \<Rightarrow> bool" where
  "Fits s limit \<longleftrightarrow> Storable s \<and> rune_count s \<le> limit"

function to_valid :: "bool \<Rightarrow> nat list \<Rightarrow> nat list" where
  \<comment> \<open>the flag: the bytes just before were invalid, and were replaced already\<close>
  "to_valid invalid [] = []"
| "to_valid invalid (b # bs) =
    (if b < 0x80 then b # to_valid False bs
     else let (r, w) = rune_at (b # bs)
          in if w = 1 then (if invalid then [] else encode_rune 0xFFFD) @ to_valid True bs
             else take w (b # bs) @ to_valid False (drop w (b # bs)))"
  by pat_completeness auto
termination
  by (relation "measure (length \<circ> snd)") (auto dest!: rune_width_pos)

declare to_valid.simps(2) [simp del]

definition drop_zero_runes :: "nat list \<Rightarrow> nat list" where
  "drop_zero_runes bs = encode_runes (filter (\<lambda>r. r \<noteq> 0) (runes bs))"

definition ToStorable :: "string \<Rightarrow> string" where
  "ToStorable s = (if Storable s then s else text_of (drop_zero_runes (to_valid False (bytes s))))"

definition TruncateRunes :: "string \<Rightarrow> int \<Rightarrow> string" where
  "TruncateRunes s limit =
    (if limit \<le> 0 then s
     else if rune_count s > limit then text_of (encode_runes (take (nat limit) (runes (bytes s))))
     else s)"

definition Text :: "string \<Rightarrow> int \<Rightarrow> string" where
  "Text raw limit = TruncateRunes (ToStorable raw) limit"

section \<open>Escapes of a JSON document\<close>

fun hex_digit :: "char \<Rightarrow> nat option" where
  "hex_digit c = (let n = of_char c in
     if 48 \<le> n \<and> n \<le> 57 then Some (n - 48)
     else if 97 \<le> n \<and> n \<le> 102 then Some (n - 97 + 10)
     else if 65 \<le> n \<and> n \<le> 70 then Some (n - 65 + 10) else None)"

fun hex_value :: "nat \<Rightarrow> string \<Rightarrow> nat option" where
  "hex_value v [] = Some v"
| "hex_value v (c # cs) = (case hex_digit c of None \<Rightarrow> None | Some d \<Rightarrow> hex_value (16 * v + d) cs)"

definition parseHex4 :: "string \<Rightarrow> nat option" where
  "parseHex4 b = (if length b \<noteq> 4 then None else hex_value 0 b)"

definition high_surrogate :: "nat \<Rightarrow> bool" where
  "high_surrogate v \<longleftrightarrow> 0xD800 \<le> v \<and> v \<le> 0xDBFF"

definition low_surrogate :: "nat \<Rightarrow> bool" where
  "low_surrogate v \<longleftrightarrow> 0xDC00 \<le> v \<and> v \<le> 0xDFFF"

fun escapes_ok :: "bool \<Rightarrow> string \<Rightarrow> bool" where
  "escapes_ok inString [] = True"
| "escapes_ok False (c # cs) = escapes_ok (c = CHR 0x22) cs"
| "escapes_ok True (c # cs) =
    (if c = CHR 0x22 then escapes_ok False cs
     else if c = CHR 0x5C then
       (case cs of [] \<Rightarrow> True
        | d # ds \<Rightarrow>
          if d \<noteq> CHR ''u'' then escapes_ok True ds
          else if length ds < 4 then True
          else (case parseHex4 (take 4 ds) of None \<Rightarrow> True
            | Some v \<Rightarrow>
              if v = 0 then False
              else if high_surrogate v then
                (let rest = drop 4 ds
                 in if length rest < 6 \<or> rest ! 0 \<noteq> CHR 0x5C \<or> rest ! 1 \<noteq> CHR ''u'' then False
                    else case parseHex4 (take 4 (drop 2 rest)) of None \<Rightarrow> False
                      | Some lo \<Rightarrow> if \<not> low_surrogate lo then False else escapes_ok True (drop 6 rest))
              else if low_surrogate v then False
              else escapes_ok True (drop 4 ds)))
     else escapes_ok True cs)"

definition jsonEscapesStorable :: "string \<Rightarrow> bool" where
  "jsonEscapesStorable raw = escapes_ok False raw"

section \<open>Numbers\<close>

definition pgNumericMaxWeight :: int where "pgNumericMaxWeight = 131072"
definition pgNumericMaxScale :: int where "pgNumericMaxScale = 16383"

definition TrimPrefix :: "string \<Rightarrow> string \<Rightarrow> string" where
  "TrimPrefix s p = (if take (length p) s = p then drop (length p) s else s)"

definition cut_at :: "char \<Rightarrow> string \<Rightarrow> string \<times> string \<times> bool" where
  \<comment> \<open>\<open>strings.Cut\<close> with a one-byte separator\<close>
  "cut_at c s = (takeWhile (\<lambda>x. x \<noteq> c) s, drop 1 (dropWhile (\<lambda>x. x \<noteq> c) s), c \<in> set s)"

definition is_digit :: "char \<Rightarrow> bool" where
  "is_digit c \<longleftrightarrow> 48 \<le> (of_char c :: nat) \<and> (of_char c :: nat) \<le> 57"

definition digits_value :: "string \<Rightarrow> int" where
  "digits_value s = foldl (\<lambda>v c. 10 * v + int (of_char c - 48)) 0 s"

definition Atoi :: "string \<Rightarrow> int option" where
  "Atoi s =
    (let neg = (s \<noteq> [] \<and> hd s = CHR ''-'');
         ds = (if s \<noteq> [] \<and> (hd s = CHR ''-'' \<or> hd s = CHR ''+'') then tl s else s);
         v = (if neg then - digits_value ds else digits_value ds)
     in if ds = [] \<or> \<not> list_all is_digit ds then None
        else if - (2 ^ 63) \<le> v \<and> v < 2 ^ 63 then Some v else None)"

definition numberFitsNumeric :: "string \<Rightarrow> bool" where
  "numberFitsNumeric s0 =
    (let s = TrimPrefix s0 ''-'';
         (m1, e1, has1) = cut_at (CHR ''e'') s;
         (mant, expPart, hasExp) = (if has1 then (m1, e1, has1) else cut_at (CHR ''E'') m1);
         (intPart0, fracPart, _) = cut_at (CHR ''.'') mant;
         intPart = dropWhile (\<lambda>c. c = CHR ''0'') intPart0
     in case (if hasExp then Atoi (TrimPrefix expPart ''+'') else Some 0) of
          None \<Rightarrow> False
        | Some ex \<Rightarrow> int (length intPart) + ex \<le> pgNumericMaxWeight
            \<and> int (length fracPart) - ex \<le> pgNumericMaxScale)"

section \<open>Lemmas\<close>

lemma bytes_text_of: "\<forall>b \<in> set bs. b < 256 \<Longrightarrow> bytes (text_of bs) = bs"
  by (auto simp: bytes_def text_of_def intro!: map_idI)

lemma encode_scalar_bytes: "scalar r \<Longrightarrow> b \<in> set (encode_scalar r) \<Longrightarrow> b < 256"
proof -
  assume "scalar r"
  then have r: "r < 0x110000" by (auto simp: scalar_def between_def)
  have "r div 262144 < 5" using r by simp
  moreover have "x mod 64 < 64" for x :: nat by simp
  ultimately show "b \<in> set (encode_scalar r) \<Longrightarrow> b < 256"
    by (auto simp: encode_scalar_def split: if_splits)
qed

lemma encode_rune_bytes: "b \<in> set (encode_rune r) \<Longrightarrow> b < 256"
  using encode_scalar_bytes encode_scalar_bytes [OF scalar_FFFD] by (auto simp: encode_rune_def split: if_splits)

lemma encode_runes_bytes: "\<forall>b \<in> set (encode_runes rs). b < 256"
  by (auto simp: encode_runes_def dest: encode_rune_bytes)

lemma encode_rune_zero: "0 \<in> set (encode_rune r) \<longleftrightarrow> r = 0"
  by (auto simp: encode_rune_def encode_scalar_def scalar_def between_def)

lemma encode_runes_zero: "0 \<in> set (encode_runes rs) \<longleftrightarrow> 0 \<in> set rs"
  by (auto simp: encode_runes_def encode_rune_zero)

lemma Storable_text:
  assumes "0 \<notin> set rs"
  shows "Storable (text_of (encode_runes rs))" and "bytes (text_of (encode_runes rs)) = encode_runes rs"
proof -
  show b: "bytes (text_of (encode_runes rs)) = encode_runes rs"
    by (rule bytes_text_of [OF encode_runes_bytes])
  have "of_char c \<in> set (bytes (text_of (encode_runes rs)))" if "c \<in> set (text_of (encode_runes rs))" for c
    using that by (simp add: bytes_def)
  then have "CHR 0x00 \<notin> set (text_of (encode_runes rs))"
    using assms b encode_runes_zero [of rs] by fastforce
  then show "Storable (text_of (encode_runes rs))" using b valid_encode_runes [of rs] by (simp add: Storable_def)
qed

lemma to_valid_scalar:
  assumes "rune_at (b # bs) = (r, w)" "(r, w) \<noteq> (0xFFFD, 1)"
  shows "valid_utf8 (take w (b # bs) @ cs) = valid_utf8 cs"
  using encode_decoded [OF assms] valid_encode_Cons [of r cs] by simp

lemma rune_at_width1: "rune_at (b # bs) = (r, 1) \<Longrightarrow> 0x80 \<le> b \<Longrightarrow> r = 0xFFFD"
  by (auto simp: rune_at.simps(2) split: list.splits if_splits)

lemma to_valid_valid: "valid_utf8 (to_valid i bs)"
proof (induction i bs rule: to_valid.induct)
  case (2 i b bs)
  obtain r w where rw: "rune_at (b # bs) = (r, w)" by fastforce
  show ?case
  proof (cases "b < 0x80")
    case True
    then show ?thesis using 2 by (simp add: to_valid.simps(2) valid_utf8.simps(2) rune_at.simps(2))
  next
    case False
    note F = this
    show ?thesis
    proof (cases "w = 1")
      case True
      then show ?thesis using F "2.IH"(2) [OF F rw [symmetric] refl] rw valid_encode_Cons [OF scalar_FFFD]
        by (simp add: to_valid.simps(2) encode_rune_def)
    next
      case W: False
      then show ?thesis
        using F "2.IH"(3) [OF F rw [symmetric] refl W] rw to_valid_scalar [OF rw]
        by (simp add: to_valid.simps(2))
    qed
  qed
qed simp

section \<open>Properties\<close>

text \<open>\<open>ToStorable\<close> always produces text the database accepts (valid UTF-8 without a zero byte), and leaves text
  the database accepts already as it is.\<close>

theorem ToStorable_storable:
  "Storable (ToStorable s) \<and> (if Storable s then ToStorable s = s else True)"
  using Storable_text(1) [of "filter (\<lambda>r. r \<noteq> 0) (runes (to_valid False (bytes s)))"]
  by (simp add: ToStorable_def drop_zero_runes_def)

lemma Storable_runes:
  "Storable s \<Longrightarrow> 0 \<notin> set (runes (bytes s)) \<and> (\<forall>r \<in> set (runes (bytes s)). scalar r)"
proof -
  assume s: "Storable s"
  then have e: "encode_runes (runes (bytes s)) = bytes s" "\<forall>r \<in> set (runes (bytes s)). scalar r"
    using encode_runes_valid [of "bytes s"] by (auto simp: Storable_def)
  have "0 \<notin> set (bytes s)"
  proof
    assume "0 \<in> set (bytes s)"
    then obtain c where "c \<in> set s" "of_char c = (0 :: nat)" by (auto simp: bytes_def)
    moreover have "char_of (0 :: nat) = CHR 0x00" by (simp add: char_of_def)
    ultimately have "CHR 0x00 \<in> set s" by (metis char_of_char)
    then show False using s by (simp add: Storable_def)
  qed
  then show ?thesis using e encode_runes_zero [of "runes (bytes s)"] by simp
qed

lemma TruncateRunes_fits:
  assumes "Storable s" "0 < limit"
  shows "Fits (TruncateRunes s limit) limit"
proof (cases "rune_count s > limit")
  case True
  let ?rs = "take (nat limit) (runes (bytes s))"
  have z: "0 \<notin> set ?rs" and sc: "\<forall>r \<in> set ?rs. scalar r"
    using Storable_runes [OF assms(1)] by (auto dest: in_set_takeD)
  have "runes (bytes (text_of (encode_runes ?rs))) = ?rs"
    using Storable_text(2) [OF z] runes_encode_runes [OF sc] by simp
  then show ?thesis using True assms Storable_text(1) [OF z]
    by (simp add: TruncateRunes_def Fits_def rune_count_def)
next
  case False
  then show ?thesis using assms by (simp add: TruncateRunes_def Fits_def)
qed

text \<open>A remote body prepared with \<open>Text\<close> always fits its column: it is storable and has at most \<open>max\<close>
  characters; and text that fits already is not changed.\<close>

theorem Text_fits:
  assumes "0 < limit"
  shows "Fits (Text raw limit) limit \<and> (if Fits raw limit then Text raw limit = raw else True)"
proof
  have "Storable (ToStorable raw)"
    using Storable_text(1) [of "filter (\<lambda>r. r \<noteq> 0) (runes (to_valid False (bytes raw)))"]
    by (simp add: ToStorable_def drop_zero_runes_def)
  then show "Fits (Text raw limit) limit" using TruncateRunes_fits [OF _ assms] by (simp add: Text_def)
  show "if Fits raw limit then Text raw limit = raw else True"
    by (simp add: Text_def ToStorable_def TruncateRunes_def Fits_def)
qed

theorem Text_fits_witness:
  "Fits (Text (text_of [0x41, 0xFF, 0xFF, 0x00, 0xE3, 0x81, 0x82, 0x42]) 3) 3
   \<and> Text (text_of [0x41, 0xFF, 0xFF, 0x00, 0xE3, 0x81, 0x82, 0x42]) 3
       = text_of [0x41, 0xEF, 0xBF, 0xBD, 0xE3, 0x81, 0x82]"
proof
  let ?s = "text_of [0x41, 0xFF, 0xFF, 0x00, 0xE3, 0x81, 0x82, 0x42]"
  show "Fits (Text ?s 3) 3" by (rule Text_fits [THEN conjunct1]) simp
  note eval = valid_utf8.simps(2) rune_at.simps(2) runes.simps(2) to_valid.simps(2) between_def second3_def
    rune3_def encode_rune_def encode_scalar_def scalar_def
  have b: "bytes ?s = [0x41, 0xFF, 0xFF, 0x00, 0xE3, 0x81, 0x82, 0x42]" by (rule bytes_text_of) simp
  have "\<not> Storable ?s" by (simp add: Storable_def b eval)
  then have t: "ToStorable ?s = text_of (encode_runes [0x41, 0xFFFD, 0x3042, 0x42])"
    by (simp add: ToStorable_def b drop_zero_runes_def eval)
  have "runes (bytes (ToStorable ?s)) = [0x41, 0xFFFD, 0x3042, 0x42]"
    unfolding t by (subst Storable_text(2), simp, rule runes_encode_runes) (simp add: scalar_def between_def)
  then show "Text ?s 3 = text_of [0x41, 0xEF, 0xBF, 0xBD, 0xE3, 0x81, 0x82]"
    by (simp add: Text_def TruncateRunes_def rune_count_def take_Cons' eval)
qed

section \<open>Escapes: the scan and the rule\<close>

text \<open>The inside of a JSON string literal: plain characters, two-character escapes and \<open>\u\<close> escapes.
  PostgreSQL refuses \<open>\u0000\<close> and a surrogate without its partner.\<close>

datatype piece = Plain char | Short char | Unicode char char char char

fun render_pieces :: "piece list \<Rightarrow> string" where
  "render_pieces [] = ''''"
| "render_pieces (Plain c # ps) = c # render_pieces ps"
| "render_pieces (Short d # ps) = CHR 0x5C # d # render_pieces ps"
| "render_pieces (Unicode a b c d # ps) = CHR 0x5C # CHR ''u'' # a # b # c # d # render_pieces ps"

definition unit_of :: "piece \<Rightarrow> nat option" where
  "unit_of p = (case p of Unicode a b c d \<Rightarrow> parseHex4 [a, b, c, d] | _ \<Rightarrow> None)"

definition well_formed :: "piece \<Rightarrow> bool" where
  "well_formed p = (case p of Plain c \<Rightarrow> c \<noteq> CHR 0x22 \<and> c \<noteq> CHR 0x5C | Short d \<Rightarrow> d \<noteq> CHR ''u''
     | Unicode a b c d \<Rightarrow> parseHex4 [a, b, c, d] \<noteq> None)"

fun jsonb_accepts :: "piece list \<Rightarrow> bool" where
  "jsonb_accepts [] = True"
| "jsonb_accepts (p # ps) = (case unit_of p of
      None \<Rightarrow> jsonb_accepts ps
    | Some v \<Rightarrow>
       if v = 0 \<or> low_surrogate v then False
       else if high_surrogate v then
         (case ps of [] \<Rightarrow> False
          | q # qs \<Rightarrow> (case unit_of q of None \<Rightarrow> False | Some lo \<Rightarrow> low_surrogate lo \<and> jsonb_accepts qs))
       else jsonb_accepts ps)"

lemma unit_Some: "unit_of p = Some v \<Longrightarrow> \<exists>a b c d. p = Unicode a b c d \<and> parseHex4 [a, b, c, d] = Some v"
  by (auto simp: unit_of_def split: piece.splits)

lemma escapes_string_end: "escapes_ok True (CHR 0x22 # cs) = escapes_ok False cs"
  by simp

lemma render_quote_not_escape:
  "case ps of [] \<Rightarrow> True | q # qs \<Rightarrow> unit_of q = None \<and> well_formed q
   \<Longrightarrow> length (render_pieces ps @ CHR 0x22 # cs) < 6 \<or> (render_pieces ps @ CHR 0x22 # cs) ! 0 \<noteq> CHR 0x5C
       \<or> (render_pieces ps @ CHR 0x22 # cs) ! 1 \<noteq> CHR ''u''"
  by (auto simp: well_formed_def unit_of_def split: list.splits piece.splits)

lemma escapes_ok_unicode:
  assumes "parseHex4 [a, b, c, d] = Some v"
  shows "escapes_ok True (CHR 0x5C # CHR ''u'' # a # b # c # d # rest) =
     (if v = 0 then False
      else if high_surrogate v then
        (if length rest < 6 \<or> rest ! 0 \<noteq> CHR 0x5C \<or> rest ! 1 \<noteq> CHR ''u'' then False
         else case parseHex4 (take 4 (drop 2 rest)) of None \<Rightarrow> False
           | Some lo \<Rightarrow> if \<not> low_surrogate lo then False else escapes_ok True (drop 6 rest))
      else if low_surrogate v then False
      else escapes_ok True rest)"
  using assms by (simp add: Let_def)

lemma escapes_ok_render:
  "\<forall>p \<in> set ps. well_formed p
   \<Longrightarrow> escapes_ok True (render_pieces ps @ CHR 0x22 # cs) = (jsonb_accepts ps \<and> escapes_ok False cs)"
proof (induction ps rule: jsonb_accepts.induct)
  case 1
  then show ?case by simp
next
  case (2 p ps)
  have wf: "well_formed p" "\<forall>p \<in> set ps. well_formed p" using 2(4) by auto
  consider "unit_of p = None" | v where "unit_of p = Some v" "v = 0 \<or> \<not> high_surrogate v"
    | v where "unit_of p = Some v" "v \<noteq> 0" "high_surrogate v" by blast
  then show ?case
  proof cases
    case 1
    with wf 2(1) show ?thesis by (cases p) (auto simp: well_formed_def unit_of_def)
  next
    case 2
    obtain a b c d where p: "p = Unicode a b c d" "parseHex4 [a, b, c, d] = Some v"
      using unit_Some [OF 2(1)] by blast
    show ?thesis using escapes_ok_unicode [OF p(2), of "render_pieces ps @ CHR 0x22 # cs"] p(1) 2 "2.IH"(3) wf
      by auto
  next
    case 3
    obtain a b c d where p: "p = Unicode a b c d" "parseHex4 [a, b, c, d] = Some v"
      using unit_Some [OF 3(1)] by blast
    note e = escapes_ok_unicode [OF p(2), of "render_pieces ps @ CHR 0x22 # cs"]
    have nl: "\<not> low_surrogate v" using 3(3) by (simp add: high_surrogate_def low_surrogate_def)
    show ?thesis
    proof (cases "case ps of [] \<Rightarrow> True | q # qs \<Rightarrow> unit_of q = None")
      case True
      then have "case ps of [] \<Rightarrow> True | q # qs \<Rightarrow> unit_of q = None \<and> well_formed q"
        using wf by (auto split: list.splits)
      from render_quote_not_escape [OF this, of cs] show ?thesis
        using True nl 3 e p(1) by (auto split: list.splits)
    next
      case False
      then obtain q qs lo where q: "ps = q # qs" "unit_of q = Some lo" by (auto split: list.splits)
      obtain a' b' c' d' where q': "q = Unicode a' b' c' d'" "parseHex4 [a', b', c', d'] = Some lo"
        using unit_Some [OF q(2)] by blast
      show ?thesis using 3 nl q q' e p(1) "2.IH"(2) wf by auto
    qed
  qed
qed

text \<open>The byte scan for escapes decides exactly the rule: on a string literal made of plain characters, short
  escapes and \<open>\u\<close> escapes, it accepts exactly when no escape is \<open>\u0000\<close>, every high surrogate is
  followed at once by a low one and no low surrogate stands alone; in particular an escaped backslash
  before a \<open>u\<close> is not taken for an escape.\<close>

theorem jsonEscapesStorable_rule:
  assumes "\<forall>p \<in> set ps. well_formed p"
  shows "jsonEscapesStorable (CHR 0x22 # render_pieces ps @ [CHR 0x22]) = jsonb_accepts ps"
  using escapes_ok_render [OF assms, of "[]"] by (simp add: jsonEscapesStorable_def)

theorem jsonEscapesStorable_rule_witness:
  "jsonEscapesStorable (CHR 0x22 # CHR 0x5C # CHR 0x5C # ''u0000'' @ [CHR 0x22])
   \<and> \<not> jsonEscapesStorable (CHR 0x22 # CHR 0x5C # ''uD83Dx'' @ [CHR 0x22])"
proof
  have "\<forall>p \<in> set [Short (CHR 0x5C), Plain (CHR ''u''), Plain (CHR ''0''), Plain (CHR ''0''), Plain (CHR ''0''),
      Plain (CHR ''0'')]. well_formed p" by (simp add: well_formed_def)
  from jsonEscapesStorable_rule [OF this]
  show "jsonEscapesStorable (CHR 0x22 # CHR 0x5C # CHR 0x5C # ''u0000'' @ [CHR 0x22])"
    by (simp add: unit_of_def)
  have h: "parseHex4 ''D83D'' = Some 0xD83D" by (simp add: parseHex4_def Let_def)
  then have "\<forall>p \<in> set [Unicode (CHR ''D'') (CHR ''8'') (CHR ''3'') (CHR ''D''), Plain (CHR ''x'')]. well_formed p"
    by (simp add: well_formed_def)
  from jsonEscapesStorable_rule [OF this] h
  show "\<not> jsonEscapesStorable (CHR 0x22 # CHR 0x5C # ''uD83Dx'' @ [CHR 0x22])"
    by (simp add: unit_of_def high_surrogate_def low_surrogate_def)
qed

end
