(* ===== verification/Reversi_Service.thy ===== *)
theory Reversi_Service imports Reversi_Row Col_Fit begin

text \<open>
  The state machine of a reversi match: \<open>Service\<close> and \<open>FederationIDCache\<close> of
  \<open>internal/core/reversi/service.go\<close> over the repository \<open>internal/repository/reversi.go\<close>.

  A method is an action on a \<open>world\<close>: the rows of \<open>reversi_game\<close>, the string keys of Redis with
  their expiry (milliseconds), what was published to the game channel and delivered to a remote
  opponent, the clock, the coin of \<open>rand.Intn\<close>, and two failure inputs: \<open>DbFaults\<close> holds, for each
  coming database statement, whether it fails (none when the list is used up), and \<open>RedisDown\<close>
  makes every Redis call fail.  What is wired into the service is the \<open>wiring\<close>: a \<open>nil\<close>
  dependency is \<open>False\<close> or \<open>None\<close>, and \<open>Users\<close> is \<open>userRepo.FindByID\<close>, a parameter.
\<close>

section \<open>World\<close>

record user =
  UserID :: string
  UserHost :: "string option"
  UserURI :: "string option"

record ap_game_state =
  GameSessionID :: string
  StateType :: string
  StateKey :: string
  StateValue :: "json option"
  StateReady :: "bool option"
  StatePos :: "int option"

datatype ap_activity =
    RenderInvite string string string string
  | RenderUpdate string string string ap_game_state
  | RenderLeave string string string string
  | RenderUndo string string ap_activity string

datatype event =
    ChangeReadyStates bool bool
  | SettingsUpdated string string "json option"
  | Canceled string
  | Started reversi_game
  | LogEvent int int bool int "string option"
  | Ended "string option" "string option" reversi_game

record wiring =
  Publisher :: bool
  TimerRedis :: bool
  FedCache :: bool
  FedRedis :: bool
  Deliverer :: bool
  Users :: "(string \<Rightarrow> user option) option"
  BaseURL :: string

record world =
  Rows :: "string \<Rightarrow> reversi_game option"
  Redis :: "string \<Rightarrow> (string \<times> int) option"
  DbFaults :: "bool list"
  RedisDown :: bool
  Events :: "(string \<times> event) list"
  Sent :: "(string \<times> string \<times> ap_activity) list"
  Now :: int
  Coin :: bool

type_synonym 'a svc = "(world, reversi_error, 'a) act"

section \<open>Repository\<close>

definition db_step :: "unit svc" where
  \<comment> \<open>one statement reaches the database: it fails or not\<close>
  "db_step w = (case DbFaults w of [] \<Rightarrow> (Val (), w)
     | f # fs \<Rightarrow> (if f then Stop (Err ErrDB) else Val (), w\<lparr>DbFaults := fs\<rparr>))"

definition FindByID :: "string \<Rightarrow> reversi_game option svc" where
  \<comment> \<open>\<open>None\<close> is the not-found error\<close>
  "FindByID gid = (if \<not> Storable gid then ret None
     else then_act db_step (query (\<lambda>w. Rows w gid)))"

definition settings_fit :: "reversi_game \<Rightarrow> bool" where
  \<comment> \<open>the columns a player fills freely: \<open>varchar(64)[]\<close>, \<open>varchar(32)\<close>, \<open>smallint\<close>\<close>
  "settings_fit game \<longleftrightarrow> (\<forall>r \<in> set (MapRows game). Fits r 64) \<and> Fits (BW game) 32
     \<and> - (2 ^ 15) \<le> TimeLimitForEachTurn game \<and> TimeLimitForEachTurn game < 2 ^ 15"

definition SaveRow :: "reversi_game \<Rightarrow> unit svc" where
  "SaveRow game = then_act db_step (then_act (reject_if (\<not> settings_fit game) ErrDB)
     (change (\<lambda>w. w\<lparr>Rows := (Rows w)(ID game \<mapsto> game)\<rparr>)))"

definition DeleteRow :: "string \<Rightarrow> unit svc" where
  "DeleteRow gid = then_act db_step (change (\<lambda>w. w\<lparr>Rows := (Rows w)(gid := None)\<rparr>))"

definition ready_guard :: "reversi_game option \<Rightarrow> bool" where
  "ready_guard r = (case r of None \<Rightarrow> False | Some g \<Rightarrow> \<not> IsStarted g \<and> \<not> HasEnded g)"

definition set_ready :: "bool \<Rightarrow> bool \<Rightarrow> reversi_game \<Rightarrow> reversi_game" where
  "set_ready user1 ready g = (if user1 then g\<lparr>User1Ready := ready\<rparr> else g\<lparr>User2Ready := ready\<rparr>)"

definition UpdateReadyState :: "string \<Rightarrow> bool \<Rightarrow> bool \<Rightarrow> reversi_game option svc" where
  "UpdateReadyState gid user1 ready = then_act db_step
     (bind_act (query (\<lambda>w. Rows w gid)) (\<lambda>r.
        if ready_guard r
        then then_act (change (\<lambda>w. w\<lparr>Rows := (Rows w)(gid := map_option (set_ready user1 ready) (Rows w gid))\<rparr>))
               (bind_act (FindByID gid) (\<lambda>r'. case r' of Some g \<Rightarrow> ret (Some g) | None \<Rightarrow> stop_with (Err ErrRecordNotFound)))
        else ret None))"

definition start_fields :: "reversi_game \<Rightarrow> reversi_game \<Rightarrow> reversi_game" where
  "start_fields game r = r\<lparr>BlackSeat := BlackSeat game, IsStarted := True, StartedAt := StartedAt game,
     CRC32 := CRC32 game\<rparr>"

definition start_guard :: "reversi_game option \<Rightarrow> bool" where
  "start_guard r = (case r of None \<Rightarrow> False | Some g \<Rightarrow> \<not> IsStarted g)"

definition MarkStarted :: "reversi_game \<Rightarrow> bool svc" where
  "MarkStarted game = then_act db_step
     (bind_act (query (\<lambda>w. Rows w (ID game))) (\<lambda>r.
        if start_guard r
        then then_act (change (\<lambda>w. w\<lparr>Rows := (Rows w)(ID game := map_option (start_fields game) (Rows w (ID game)))\<rparr>))
               (ret True)
        else ret False))"

section \<open>Redis\<close>

definition redis_get :: "string \<Rightarrow> world \<Rightarrow> string option" where
  "redis_get k w = (case Redis w k of None \<Rightarrow> None
     | Some (v, e) \<Rightarrow> if Now w < e then Some v else None)"

definition redis_set :: "string \<Rightarrow> string \<Rightarrow> int \<Rightarrow> world \<Rightarrow> world" where
  "redis_set k v ttl w = (if RedisDown w then w else w\<lparr>Redis := (Redis w)(k \<mapsto> (v, Now w + ttl))\<rparr>)"

definition redis_del :: "string \<Rightarrow> world \<Rightarrow> world" where
  "redis_del k w = (if RedisDown w then w else w\<lparr>Redis := (Redis w)(k := None)\<rparr>)"

definition FederationIDTTL :: int where "FederationIDTTL = 24 * 60 * 60 * 1000"

definition sessionToGameKey :: "string \<Rightarrow> string" where
  "sessionToGameKey sessionID = ''reversi:fed:session:'' @ sessionID"

definition gameToSessionKey :: "string \<Rightarrow> string" where
  "gameToSessionKey gameID = ''reversi:fed:game:'' @ gameID"

definition joinSentKey :: "string \<Rightarrow> string" where
  "joinSentKey federationID = ''reversi:fed:join-sent:'' @ federationID"

definition FedSet :: "wiring \<Rightarrow> string \<Rightarrow> string \<Rightarrow> world \<Rightarrow> world" where
  "FedSet e federationID gameID w = (if \<not> FedRedis e then w
     else redis_set (gameToSessionKey gameID) federationID FederationIDTTL
           (redis_set (sessionToGameKey federationID) gameID FederationIDTTL w))"

definition FedGet :: "wiring \<Rightarrow> string \<Rightarrow> world \<Rightarrow> string option" where
  "FedGet e federationID w = (if \<not> FedRedis e \<or> RedisDown w then None
     else redis_get (sessionToGameKey federationID) w)"

definition GetSessionByGame :: "wiring \<Rightarrow> string \<Rightarrow> world \<Rightarrow> string option" where
  "GetSessionByGame e gameID w = (if \<not> FedRedis e \<or> RedisDown w then None
     else case redis_get (gameToSessionKey gameID) w of None \<Rightarrow> None
       | Some v \<Rightarrow> if v = '''' then None else Some v)"

definition FedDelete :: "wiring \<Rightarrow> string \<Rightarrow> string \<Rightarrow> world \<Rightarrow> world" where
  "FedDelete e federationID gameID w = (if \<not> FedRedis e then w
     else let w1 = (if federationID \<noteq> '''' then redis_del (sessionToGameKey federationID) w else w)
      in if gameID \<noteq> '''' then redis_del (gameToSessionKey gameID) w1 else w1)"

definition IsJoinSent :: "wiring \<Rightarrow> string \<Rightarrow> world \<Rightarrow> bool" where
  "IsJoinSent e federationID w \<longleftrightarrow> FedRedis e \<and> federationID \<noteq> '''' \<and> \<not> RedisDown w
     \<and> redis_get (joinSentKey federationID) w \<noteq> None"

definition MarkJoinSent :: "wiring \<Rightarrow> string \<Rightarrow> world \<Rightarrow> world" where
  "MarkJoinSent e federationID w = (if \<not> FedRedis e \<or> federationID = '''' then w
     else redis_set (joinSentKey federationID) ''1'' FederationIDTTL w)"

definition turnTimerKey :: "string \<Rightarrow> nat \<Rightarrow> string" where
  "turnTimerKey gameID turnIndex = ''reversi:game:turnTimer:'' @ gameID @ '':'' @ show_nat turnIndex"

definition setTurnTimer :: "wiring \<Rightarrow> string \<Rightarrow> nat \<Rightarrow> int \<Rightarrow> unit svc" where
  "setTurnTimer e gameID turnIndex seconds = change (\<lambda>w.
     if \<not> TimerRedis e \<or> seconds \<le> 0 then w
     else redis_set (turnTimerKey gameID turnIndex) ''1'' (seconds * 1000) w)"

definition turnTimerExists :: "wiring \<Rightarrow> string \<Rightarrow> nat \<Rightarrow> bool svc" where
  "turnTimerExists e gameID turnIndex =
     (if \<not> TimerRedis e then ret True
      else bind_act (query RedisDown) (\<lambda>down.
        if down then stop_with (Err ErrRedis)
        else query (\<lambda>w. redis_get (turnTimerKey gameID turnIndex) w \<noteq> None)))"

section \<open>Publishing and delivery\<close>

definition publish :: "wiring \<Rightarrow> string \<Rightarrow> event \<Rightarrow> unit svc" where
  "publish e gameID ev = change (\<lambda>w. if \<not> Publisher e then w else w\<lparr>Events := Events w @ [(gameID, ev)]\<rparr>)"

definition federated :: "wiring \<Rightarrow> bool" where
  "federated e \<longleftrightarrow> Deliverer e \<and> Users e \<noteq> None \<and> FedCache e \<and> BaseURL e \<noteq> ''''"

definition find_user :: "wiring \<Rightarrow> string \<Rightarrow> user option" where
  "find_user e uid = (case Users e of None \<Rightarrow> None | Some f \<Rightarrow> f uid)"

definition local_actor :: "wiring \<Rightarrow> string \<Rightarrow> user option" where
  "local_actor e uid = (case find_user e uid of None \<Rightarrow> None
     | Some u \<Rightarrow> if UserHost u \<noteq> None then None else Some u)"

definition remote_uri :: "wiring \<Rightarrow> string \<Rightarrow> string option" where
  "remote_uri e uid = (case find_user e uid of None \<Rightarrow> None
     | Some u \<Rightarrow> if UserHost u = None then None else UserURI u)"

definition deliver_with ::
  "wiring \<Rightarrow> reversi_game \<Rightarrow> string \<Rightarrow> (string \<Rightarrow> string \<Rightarrow> string \<Rightarrow> ap_activity) \<Rightarrow> world \<Rightarrow> world" where
  \<comment> \<open>the guards the three deliver methods share; the activity is rendered from the actor's URI, the
      opponent's URI and the session\<close>
  "deliver_with e game actorUserID render w =
    (if \<not> federated e then w
     else case local_actor e actorUserID of None \<Rightarrow> w
       | Some actor \<Rightarrow> (case remote_uri e (opponent game actorUserID) of None \<Rightarrow> w
           | Some uri \<Rightarrow> (case GetSessionByGame e (ID game) w of None \<Rightarrow> w
               | Some sid \<Rightarrow> w\<lparr>Sent := Sent w @ [(UserID actor, opponent game actorUserID,
                   render (BaseURL e @ ''/users/'' @ UserID actor) uri sid)]\<rparr>)))"

definition deliverStateToOpponent :: "wiring \<Rightarrow> reversi_game \<Rightarrow> string \<Rightarrow> ap_game_state \<Rightarrow> unit svc" where
  "deliverStateToOpponent e game actorUserID state = change (deliver_with e game actorUserID
     (\<lambda>actorURI uri sid. RenderUpdate (BaseURL e) actorURI uri (state\<lparr>GameSessionID := sid\<rparr>)))"

definition deliverLeaveToOpponent :: "wiring \<Rightarrow> reversi_game \<Rightarrow> string \<Rightarrow> unit svc" where
  "deliverLeaveToOpponent e game actorUserID = change (deliver_with e game actorUserID
     (\<lambda>actorURI uri sid. RenderLeave (BaseURL e) actorURI uri sid))"

definition deliverUndoInviteToOpponent :: "wiring \<Rightarrow> reversi_game \<Rightarrow> string \<Rightarrow> unit svc" where
  "deliverUndoInviteToOpponent e game actorUserID =
     (if User1ID game \<noteq> actorUserID then deliverLeaveToOpponent e game actorUserID
      else change (deliver_with e game actorUserID
        (\<lambda>actorURI uri sid. RenderUndo (BaseURL e) actorURI (RenderInvite (BaseURL e) sid actorURI uri) uri)))"

definition cleanupFedCache :: "wiring \<Rightarrow> string \<Rightarrow> unit svc" where
  "cleanupFedCache e gameID = change (\<lambda>w. if \<not> FedCache e then w
     else case GetSessionByGame e gameID w of None \<Rightarrow> w | Some sid \<Rightarrow> FedDelete e sid gameID w)"

definition ap_state :: "string \<Rightarrow> ap_game_state" where
  "ap_state ty = \<lparr>GameSessionID = '''', StateType = ty, StateKey = '''', StateValue = None,
     StateReady = None, StatePos = None\<rparr>"

section \<open>Methods\<close>

definition GetGame :: "string \<Rightarrow> reversi_game svc" where
  "GetGame gameID = bind_act (FindByID gameID) (\<lambda>r. case r of
     None \<Rightarrow> stop_with (Err ErrGameNotFound) | Some game \<Rightarrow> ret game)"

definition of_res :: "(reversi_error, 'a) res \<Rightarrow> 'a svc" where
  "of_res r = (case r of Val a \<Rightarrow> ret a | Stop e \<Rightarrow> stop_with e)"

definition engine_of :: "reversi_game \<Rightarrow> game svc" where
  "engine_of game = bind_act (of_go (EngineFromGame game)) of_res"

definition start_session :: "wiring \<Rightarrow> reversi_game \<Rightarrow> world \<Rightarrow> string" where
  "start_session e game w = (if FedCache e then
     (case GetSessionByGame e (ID game) w of None \<Rightarrow> '''' | Some sid \<Rightarrow> sid) else '''')"

definition record_crc :: "reversi_game \<Rightarrow> (reversi_error, game) res \<Rightarrow> reversi_game" where
  \<comment> \<open>\<open>if engine, err := EngineFromGame(game); err == nil\<close>\<close>
  "record_crc game r = (case r of Val engine \<Rightarrow> game\<lparr>CRC32 := Some (crc_text engine)\<rparr> | Stop _ \<Rightarrow> game)"

definition prepare_start :: "reversi_game \<Rightarrow> string \<Rightarrow> bool \<Rightarrow> int \<Rightarrow> reversi_game go" where
  \<comment> \<open>the fields \<open>StartGame\<close> computes before it claims the start\<close>
  "prepare_start game sessionID coin now =
    (let game1 = game\<lparr>BlackSeat := Some (pickBlack (BW game) sessionID coin), IsStarted := True,
                      StartedAt := Some now\<rparr>
     in go_bind (EngineFromGame game1) (\<lambda>r. Ok (record_crc game1 r)))"

definition StartGame :: "wiring \<Rightarrow> reversi_game \<Rightarrow> unit svc" where
  "StartGame e game =
    then_act (reject_if (IsStarted game) ErrAlreadyStarted)
    (then_act (reject_if (HasEnded game) ErrAlreadyEnded)
    (bind_act (query (\<lambda>w. prepare_start game (start_session e game w) (Coin w) (Now w))) (\<lambda>prepared.
     bind_act (of_go prepared) (\<lambda>game2.
     bind_act (MarkStarted game2) (\<lambda>claimed.
       if \<not> claimed then ret ()
       else then_act (setTurnTimer e (ID game2) 0 (TimeLimitForEachTurn game2))
              (publish e (ID game2) (Started game2)))))))"

definition UpdateReady :: "wiring \<Rightarrow> string \<Rightarrow> string \<Rightarrow> bool \<Rightarrow> unit svc" where
  "UpdateReady e gameID userID ready =
    bind_act (GetGame gameID) (\<lambda>game.
    then_act (reject_if (IsStarted game) ErrAlreadyStarted)
    (then_act (reject_if (HasEnded game) ErrAlreadyEnded)
    (then_act (reject_if (\<not> isPlayer game userID) ErrNotPlayer)
    (bind_act (UpdateReadyState gameID (User1ID game = userID) ready) (\<lambda>updated.
     case updated of
       None \<Rightarrow> bind_act (GetGame gameID) (\<lambda>fresh.
          stop_with (Err (if HasEnded fresh then ErrAlreadyEnded else ErrAlreadyStarted)))
     | Some game' \<Rightarrow>
         then_act (publish e gameID (ChangeReadyStates (User1Ready game') (User2Ready game')))
         (then_act (deliverStateToOpponent e game' userID ((ap_state ''ready_states'')\<lparr>StateReady := Some ready\<rparr>))
         (if User1Ready game' \<and> User2Ready game'
          then bind_act (attempt (StartGame e game')) (\<lambda>r. case r of
              Val _ \<Rightarrow> ret ()
            | Stop err \<Rightarrow> if err = Err ErrAlreadyStarted then ret () else stop_with err)
          else ret ())))))))"

definition UpdateSettings :: "wiring \<Rightarrow> string \<Rightarrow> string \<Rightarrow> string \<Rightarrow> json option \<Rightarrow> unit svc" where
  "UpdateSettings e gameID userID key raw =
    bind_act (GetGame gameID) (\<lambda>game.
    then_act (reject_if (IsStarted game \<or> HasEnded game) ErrAlreadyStarted)
    (then_act (reject_if (\<not> isPlayer game userID) ErrNotPlayer)
    (then_act (reject_if (\<not> IsValidUpdateKey key) ErrInvalidSetting)
    (case applySetting game key raw of
       None \<Rightarrow> stop_with (Err ErrInvalidSetting)
     | Some game' \<Rightarrow>
        (let game2 = game'\<lparr>User1Ready := False, User2Ready := False\<rparr>
         in then_act (SaveRow game2)
            (then_act (publish e gameID (SettingsUpdated userID key raw))
            (then_act (publish e gameID (ChangeReadyStates False False))
            (deliverStateToOpponent e game2 userID
               ((ap_state ''settings'')\<lparr>StateKey := key, StateValue := raw\<rparr>)))))))))"

definition CancelGame :: "wiring \<Rightarrow> string \<Rightarrow> string \<Rightarrow> unit svc" where
  "CancelGame e gameID userID =
    bind_act (GetGame gameID) (\<lambda>game.
    then_act (reject_if (IsStarted game) ErrAlreadyStarted)
    (then_act (reject_if (\<not> isPlayer game userID) ErrNotPlayer)
    (then_act (deliverUndoInviteToOpponent e game userID)
    (then_act (DeleteRow gameID)
    (then_act (cleanupFedCache e gameID)
    (publish e gameID (Canceled userID)))))))"

definition logged_time :: "int list list \<Rightarrow> int" where
  "logged_time logs = sum_list (map (\<lambda>entry. case entry of [] \<Rightarrow> 0 | t # _ \<Rightarrow> t) logs)"

definition finalizeGame :: "reversi_game \<Rightarrow> game \<Rightarrow> int \<Rightarrow> reversi_game" where
  "finalizeGame game engine now =
    (let g = game\<lparr>HasEnded := True, EndedAt := Some now, CRC32 := Some (crc_text engine)\<rparr>
     in case Winner engine of None \<Rightarrow> g
        | Some winnerColor \<Rightarrow> (let winnerID = playerIDForColor g winnerColor
            in if winnerID \<noteq> '''' then g\<lparr>WinnerID := Some winnerID\<rparr> else g))"

definition moved_row :: "reversi_game \<Rightarrow> color \<Rightarrow> int \<Rightarrow> game \<Rightarrow> int \<Rightarrow> reversi_game" where
  \<comment> \<open>the row \<open>PutStone\<close> saves: the log entry, the checksum and, at the end, the result\<close>
  "moved_row game myColor pos engine' now =
    (let logs = decoded_logs game;
         timeDelta = (if logs = [] then now else now - logged_time logs);
         logs' = logs @ [[timeDelta, if myColor then 1 else 0, 0, pos]];
         game1 = game\<lparr>LogsColumn := Moves logs', CRC32 := Some (crc_text engine')\<rparr>
     in if Turn engine' = None then finalizeGame game1 engine' now else game1)"

definition admit_move :: "string \<Rightarrow> string \<Rightarrow> int \<Rightarrow> (reversi_game \<times> color \<times> game) svc" where
  \<comment> \<open>the guards of \<open>PutStone\<close>, and the move on the engine\<close>
  "admit_move gameID userID pos =
    bind_act (GetGame gameID) (\<lambda>game.
    then_act (reject_if (\<not> IsStarted game) ErrNotStarted)
    (then_act (reject_if (HasEnded game) ErrAlreadyEnded)
    (then_act (reject_if (\<not> isPlayer game userID) ErrNotPlayer)
    (bind_act (engine_of game) (\<lambda>engine.
     bind_act (of_res (playerColor game userID)) (\<lambda>myColor.
     then_act (reject_if (Turn engine \<noteq> Some myColor) ErrNotYourTurn)
    (bind_act (of_go (CanPut engine myColor pos)) (\<lambda>ok.
     then_act (reject_if (\<not> ok) ErrInvalidMove)
    (bind_act (of_go (PutStone engine pos)) (\<lambda>engine'.
     ret (game, myColor, engine')))))))))))"

definition announce_move ::
  "wiring \<Rightarrow> string \<Rightarrow> string \<Rightarrow> int \<Rightarrow> string \<Rightarrow> reversi_game \<Rightarrow> color \<Rightarrow> game \<Rightarrow> int \<Rightarrow> unit svc" where
  \<comment> \<open>what \<open>PutStone\<close> does once the row is saved\<close>
  "announce_move e gameID userID pos opID game2 myColor engine' now =
    (let over = (Turn engine' = None)
     in then_act (if over then ret ()
                  else setTurnTimer e (ID game2) (length (decoded_logs game2)) (TimeLimitForEachTurn game2))
       (then_act (publish e gameID (LogEvent pos (if myColor then 1 else 2) myColor now
                    (if opID = '''' then None else Some opID)))
       (then_act (if over then publish e gameID (Ended (WinnerID game2) None game2) else ret ())
       (then_act (deliverStateToOpponent e game2 userID ((ap_state ''putstone'')\<lparr>StatePos := Some pos\<rparr>))
       (if over then cleanupFedCache e (ID game2) else ret ())))))"

definition ServicePutStone :: "wiring \<Rightarrow> string \<Rightarrow> string \<Rightarrow> int \<Rightarrow> string \<Rightarrow> unit svc" where
  "ServicePutStone e gameID userID pos opID =
    bind_act (admit_move gameID userID pos) (\<lambda>(game, myColor, engine').
     bind_act (query Now) (\<lambda>now.
     let game2 = moved_row game myColor pos engine' now
     in then_act (SaveRow game2) (announce_move e gameID userID pos opID game2 myColor engine' now)))"

definition Surrender :: "wiring \<Rightarrow> string \<Rightarrow> string \<Rightarrow> unit svc" where
  "Surrender e gameID userID =
    bind_act (GetGame gameID) (\<lambda>game.
    then_act (reject_if (\<not> IsStarted game) ErrNotStarted)
    (then_act (reject_if (HasEnded game) ErrAlreadyEnded)
    (then_act (reject_if (\<not> isPlayer game userID) ErrNotPlayer)
    (bind_act (query Now) (\<lambda>now.
     let winnerID = opponent game userID;
         game' = game\<lparr>HasEnded := True, EndedAt := Some now, WinnerID := Some winnerID,
                      SurrenderedUserID := Some userID\<rparr>
     in then_act (SaveRow game')
        (then_act (publish e gameID (Ended (Some winnerID) (Some ''surrender'') game'))
        (then_act (deliverLeaveToOpponent e game' userID)
        (cleanupFedCache e gameID))))))))"

definition CheckTimeout :: "wiring \<Rightarrow> string \<Rightarrow> unit svc" where
  "CheckTimeout e gameID =
    bind_act (GetGame gameID) (\<lambda>game.
    if \<not> IsStarted game \<or> HasEnded game then ret ()
    else bind_act (turnTimerExists e gameID (length (decoded_logs game))) (\<lambda>exists.
    if exists then ret ()
    else bind_act (engine_of game) (\<lambda>engine.
    case Turn engine of None \<Rightarrow> ret ()
    | Some turn \<Rightarrow>
       (let loserID = playerIDForColor game turn
        in if loserID = '''' then ret ()
           else bind_act (query Now) (\<lambda>now.
             let winnerID = opponent game loserID;
                 game' = game\<lparr>HasEnded := True, EndedAt := Some now, WinnerID := Some winnerID,
                              TimeoutUserID := Some loserID\<rparr>
             in then_act (SaveRow game')
                (then_act (publish e gameID (Ended (Some winnerID) (Some ''timeout'') game'))
                (cleanupFedCache e gameID)))))))"

end
