(* ===== verification/Reversi_Lifecycle.thy ===== *)
theory Reversi_Lifecycle imports Reversi_Service Reversi_Rules "HOL-Library.Sublist" begin

text \<open>
  What the reversi service promises about its rows: the invariant of a row (\<open>row_ok\<close>), how a row may
  evolve from request to request (\<open>evolves\<close>), and the behaviour of the single methods.  Requests and
  the events of the environment (a database statement that fails, Redis going down, a key that is
  evicted, time passing) form one step function \<open>serve\<close>.
\<close>

section \<open>Rows\<close>

definition row_ok :: "reversi_game \<Rightarrow> bool" where
  "row_ok r \<longleftrightarrow> (HasEnded r \<longrightarrow> IsStarted r)
     \<and> (if IsStarted r then BlackSeat r = Some 1 \<or> BlackSeat r = Some 2 else BlackSeat r = None)
     \<and> (IsStarted r \<longleftrightarrow> StartedAt r \<noteq> None) \<and> (HasEnded r \<longleftrightarrow> EndedAt r \<noteq> None)
     \<and> (\<not> HasEnded r \<longrightarrow> WinnerID r = None \<and> SurrenderedUserID r = None \<and> TimeoutUserID r = None)
     \<and> (\<forall>u. WinnerID r = Some u \<longrightarrow> isPlayer r u)
     \<and> (\<forall>u. SurrenderedUserID r = Some u \<longrightarrow> isPlayer r u \<and> WinnerID r = Some (opponent r u) \<and> TimeoutUserID r = None)
     \<and> (\<forall>u. TimeoutUserID r = Some u \<longrightarrow> isPlayer r u \<and> WinnerID r = Some (opponent r u))
     \<and> 0 \<le> TimeLimitForEachTurn r"

definition evolves :: "reversi_game \<Rightarrow> reversi_game \<Rightarrow> bool" where
  "evolves r r' \<longleftrightarrow> User1ID r' = User1ID r \<and> User2ID r' = User2ID r
     \<and> prefix (decoded_logs r) (decoded_logs r')
     \<and> (IsStarted r \<longrightarrow> IsStarted r' \<and> BlackSeat r' = BlackSeat r \<and> MapRows r' = MapRows r
          \<and> row_options r' = row_options r \<and> StartedAt r' = StartedAt r)
     \<and> (HasEnded r \<longrightarrow> r' = r)"

definition rows_evolve :: "(string \<Rightarrow> reversi_game option) \<Rightarrow> (string \<Rightarrow> reversi_game option) \<Rightarrow> bool" where
  \<comment> \<open>a match that has started stays, and only moves forward\<close>
  "rows_evolve R R' \<longleftrightarrow> (\<forall>gid r. R gid = Some r \<and> IsStarted r \<longrightarrow> (\<exists>r'. R' gid = Some r' \<and> evolves r r'))"

definition rows_ok :: "(string \<Rightarrow> reversi_game option) \<Rightarrow> bool" where
  "rows_ok R \<longleftrightarrow> (\<forall>gid r. R gid = Some r \<longrightarrow> ID r = gid \<and> row_ok r)"

definition rows_step :: "(string \<Rightarrow> reversi_game option) \<Rightarrow> (string \<Rightarrow> reversi_game option) \<Rightarrow> bool" where
  "rows_step R R' \<longleftrightarrow> (rows_ok R \<longrightarrow> rows_ok R' \<and> rows_evolve R R')"

lemma evolves_refl [simp]: "evolves r r"
  by (simp add: evolves_def)

lemma evolves_trans: "evolves r s \<Longrightarrow> evolves s t \<Longrightarrow> evolves r t"
  by (auto simp: evolves_def intro: prefix_order.trans)

lemma rows_evolve_refl [simp]: "rows_evolve R R"
  by (simp add: rows_evolve_def)

lemma rows_step_refl [simp]: "rows_step R R"
  by (simp add: rows_step_def)

lemma rows_evolve_trans: "rows_evolve R S \<Longrightarrow> rows_evolve S T \<Longrightarrow> rows_evolve R T"
  unfolding rows_evolve_def
proof (intro allI impI)
  fix gid r
  assume RS: "\<forall>gid r. R gid = Some r \<and> IsStarted r \<longrightarrow> (\<exists>s. S gid = Some s \<and> evolves r s)"
    and ST: "\<forall>gid s. S gid = Some s \<and> IsStarted s \<longrightarrow> (\<exists>t. T gid = Some t \<and> evolves s t)"
    and r: "R gid = Some r \<and> IsStarted r"
  obtain s where s: "S gid = Some s" "evolves r s" using RS r by blast
  then have "IsStarted s" using r by (simp add: evolves_def)
  then obtain t where "T gid = Some t" "evolves s t" using ST s by blast
  then show "\<exists>t. T gid = Some t \<and> evolves r t" using s evolves_trans by blast
qed

lemma rows_step_update:
  "R gid = Some r \<Longrightarrow> (row_ok r \<Longrightarrow> ID r = gid \<Longrightarrow> ID r' = gid \<and> row_ok r' \<and> evolves r r') \<Longrightarrow> rows_step R (R(gid \<mapsto> r'))"
  by (auto simp: rows_step_def rows_ok_def rows_evolve_def split: option.splits)

lemma rows_step_delete: "R gid = Some r \<Longrightarrow> \<not> IsStarted r \<Longrightarrow> rows_step R (R(gid := None))"
  by (auto simp: rows_step_def rows_ok_def rows_evolve_def split: option.splits)

section \<open>Actions and the rows\<close>

lemma rows_redis [simp]: "Rows (redis_set k v t w) = Rows w" "Rows (redis_del k w) = Rows w"
    "Rows (FedDelete e s g w) = Rows w"
  by (simp_all add: redis_set_def redis_del_def FedDelete_def Let_def)

lemma rows_deliver [simp]: "Rows (deliver_with e game u f w) = Rows w"
  by (simp add: deliver_with_def split: option.splits)

text \<open>The actions that touch no row, for conclusions about the rows alone.\<close>

definition row_free :: "'a svc \<Rightarrow> bool" where
  "row_free m \<longleftrightarrow> (\<forall>w. Rows (snd (m w)) = Rows w)"

lemma row_free_bind [intro]: "row_free m \<Longrightarrow> (\<And>a. row_free (f a)) \<Longrightarrow> row_free (bind_act m f)"
  unfolding row_free_def bind_act_def
  by (auto split: prod.splits res.splits) (metis snd_conv)+

lemma row_free_basic [intro, simp]:
  "row_free (ret a)" "row_free (stop_with e)" "row_free (query q)" "row_free (reject_if b x)"
  "row_free (of_go g)" "row_free db_step"
  "(\<And>w. Rows (f w) = Rows w) \<Longrightarrow> row_free (change f)"
  by (auto simp: row_free_def act_defs db_step_def split: go.splits list.splits)

lemma row_free_then [intro, simp]: "row_free m \<Longrightarrow> row_free n \<Longrightarrow> row_free (then_act m n)"
  by (auto simp: then_act_def)

lemma row_free_if [intro, simp]: "row_free m \<Longrightarrow> row_free n \<Longrightarrow> row_free (if b then m else n)"
  by simp

lemma row_free_ops [simp]:
  "row_free (publish e g ev)" "row_free (setTurnTimer e g i s)" "row_free (turnTimerExists e g i)"
  "row_free (deliverStateToOpponent e r u st)" "row_free (deliverLeaveToOpponent e r u)"
  "row_free (deliverUndoInviteToOpponent e r u)" "row_free (cleanupFedCache e g)"
  by (auto simp: publish_def setTurnTimer_def turnTimerExists_def deliverStateToOpponent_def
      deliverLeaveToOpponent_def deliverUndoInviteToOpponent_def cleanupFedCache_def
      intro!: row_free_bind split: option.splits)

text \<open>\<open>keep P m w\<close>: the action leaves rows with \<open>P\<close>, however it ends.\<close>

definition keep :: "((string \<Rightarrow> reversi_game option) \<Rightarrow> bool) \<Rightarrow> 'a svc \<Rightarrow> world \<Rightarrow> bool" where
  "keep P m w \<longleftrightarrow> P (Rows (snd (m w)))"

lemma keep_free: "row_free m \<Longrightarrow> P (Rows w) \<Longrightarrow> keep P m w"
  by (simp add: keep_def row_free_def)

lemma keep_bind:
  assumes "row_free m" "P (Rows w)" "\<And>a w'. Rows w' = Rows w \<Longrightarrow> keep P (f a) w'"
  shows "keep P (bind_act m f) w"
proof -
  obtain r w' where m: "m w = (r, w')" by fastforce
  then have "Rows w' = Rows w" using assms(1) by (metis row_free_def snd_conv)
  then show ?thesis using assms(2) assms(3) [of w'] m by (cases r) (auto simp: keep_def bind_act_def)
qed

lemma keep_then:
  "row_free m \<Longrightarrow> P (Rows w) \<Longrightarrow> (\<And>w'. Rows w' = Rows w \<Longrightarrow> keep P n w') \<Longrightarrow> keep P (then_act m n) w"
  by (simp add: then_act_def keep_bind)

lemma keep_reject: "P (Rows w) \<Longrightarrow> (\<not> b \<Longrightarrow> keep P n w) \<Longrightarrow> keep P (then_act (reject_if b e) n) w"
  by (simp add: keep_def act_defs)

lemma keep_query: "keep P (f (q w)) w \<Longrightarrow> keep P (bind_act (query q) f) w"
  by (simp add: keep_def act_defs)

lemma keep_if: "(b \<Longrightarrow> keep P m w) \<Longrightarrow> (\<not> b \<Longrightarrow> keep P n w) \<Longrightarrow> keep P (if b then m else n) w"
  by simp

lemma keep_after: "keep P m w \<Longrightarrow> (\<And>a. row_free (f a)) \<Longrightarrow> keep P (bind_act m f) w"
proof -
  assume k: "keep P m w" and f: "\<And>a. row_free (f a)"
  obtain r w' where m: "m w = (r, w')" by fastforce
  then show ?thesis using k f by (cases r) (auto simp: keep_def bind_act_def row_free_def)
qed

lemma keep_then_after: "keep P m w \<Longrightarrow> row_free n \<Longrightarrow> keep P (then_act m n) w"
  by (simp add: then_act_def keep_after)

lemma GetGame_row:
  "GetGame gid w = (Val game, w') \<Longrightarrow> Rows w' = Rows w \<and> Rows w gid = Some game"
  by (auto simp: GetGame_def FindByID_def act_defs db_step_def split: if_splits list.splits option.splits)

lemma row_free_FindByID [simp]: "row_free (FindByID gid)"
  by (auto simp: FindByID_def)

lemma row_free_GetGame [simp]: "row_free (GetGame gid)"
  by (auto simp: GetGame_def intro!: row_free_bind split: option.splits)

lemma row_free_engine [simp]: "row_free (of_res r)" "row_free (engine_of game)"
  by (auto simp: of_res_def engine_of_def intro!: row_free_bind split: res.splits)

lemma keep_get:
  assumes "P (Rows w)" "\<And>game w'. Rows w' = Rows w \<Longrightarrow> Rows w gid = Some game \<Longrightarrow> keep P (f game) w'"
  shows "keep P (bind_act (GetGame gid) f) w"
proof -
  obtain r w' where m: "GetGame gid w = (r, w')" by fastforce
  moreover have "Rows w' = Rows w" using row_free_GetGame [of gid] m by (metis row_free_def snd_conv)
  ultimately show ?thesis using assms GetGame_row [of gid w _ w']
    by (cases r) (auto simp: keep_def bind_act_def)
qed

lemma keep_save: "P (Rows w) \<Longrightarrow> P ((Rows w)(ID g \<mapsto> g)) \<Longrightarrow> keep P (SaveRow g) w"
  by (auto simp: keep_def SaveRow_def db_step_def act_defs split: list.splits)

lemma keep_delete: "P (Rows w) \<Longrightarrow> P ((Rows w)(gid := None)) \<Longrightarrow> keep P (DeleteRow gid) w"
  by (auto simp: keep_def DeleteRow_def db_step_def act_defs split: list.splits)

lemma keep_mark:
  "P (Rows w) \<Longrightarrow> (\<And>r. Rows w (ID g) = Some r \<Longrightarrow> \<not> IsStarted r \<Longrightarrow> P ((Rows w)(ID g \<mapsto> start_fields g r)))
   \<Longrightarrow> keep P (MarkStarted g) w"
  by (auto simp: keep_def MarkStarted_def db_step_def act_defs start_guard_def
      split: list.splits option.splits)

lemma keep_ready:
  "P (Rows w) \<Longrightarrow> (\<And>r. Rows w gid = Some r \<Longrightarrow> \<not> IsStarted r \<Longrightarrow> \<not> HasEnded r
      \<Longrightarrow> P ((Rows w)(gid \<mapsto> set_ready u1 b r)))
   \<Longrightarrow> keep P (UpdateReadyState gid u1 b) w"
  by (auto simp: keep_def UpdateReadyState_def db_step_def act_defs ready_guard_def FindByID_def
      split: list.splits option.splits)

lemma keep_ret: "P (Rows w) \<Longrightarrow> keep P (ret a) w"
  by (simp add: keep_free)

lemma keep_stop: "P (Rows w) \<Longrightarrow> keep P (stop_with x) w"
  by (simp add: keep_free)

lemma keep_option:
  "(v = None \<Longrightarrow> keep P m w) \<Longrightarrow> (\<And>a. v = Some a \<Longrightarrow> keep P (f a) w)
   \<Longrightarrow> keep P (case v of None \<Rightarrow> m | Some a \<Rightarrow> f a) w"
  by (cases v) auto

lemmas keep_rules = keep_get keep_reject keep_query keep_if keep_ret keep_stop keep_option
  keep_then_after keep_bind

section \<open>The methods keep the rows in order\<close>

abbreviation in_order :: "'a svc \<Rightarrow> world \<Rightarrow> bool" where
  "in_order m w \<equiv> keep (rows_step (Rows w)) m w"

lemma rows_step_trans: "rows_step R S \<Longrightarrow> rows_step S T \<Longrightarrow> rows_step R T"
  using rows_evolve_trans by (auto simp: rows_step_def)

lemma isPlayer_opponent [simp]: "isPlayer r (opponent r u)"
  by (simp add: isPlayer_def opponent_def)

lemma playerIDForColor_player: "playerIDForColor r c \<noteq> '''' \<Longrightarrow> isPlayer r (playerIDForColor r c)"
  by (auto simp: playerIDForColor_def isPlayer_def Let_def split: option.splits if_splits)

lemma in_order_save:
  assumes "Rows w' = Rows w" "Rows w gid = Some game"
    and "row_ok game \<Longrightarrow> ID g = ID game \<and> row_ok g \<and> evolves game g"
  shows "keep (rows_step (Rows w)) (SaveRow g) w'"
proof (rule keep_save)
  show "rows_step (Rows w) (Rows w')" by (simp add: assms(1))
  show "rows_step (Rows w) ((Rows w')(ID g \<mapsto> g))"
  proof (cases "rows_ok (Rows w)")
    case True
    then have "ID game = gid" "row_ok game" using assms(2) by (auto simp: rows_ok_def)
    then show ?thesis using assms rows_step_update [of "Rows w" gid game g] by simp
  qed (simp add: rows_step_def)
qed

lemma Surrender_in_order: "in_order (Surrender e gid u) w"
  unfolding Surrender_def Let_def
  by (intro keep_get keep_reject keep_query keep_then_after in_order_save)
    (auto simp: row_ok_def evolves_def isPlayer_def opponent_def decoded_logs_def row_options_def)

lemma CheckTimeout_in_order: "in_order (CheckTimeout e gid) w"
proof -
  { fix game t n and w' :: world
    assume "Rows w' = Rows w" "Rows w gid = Some game" "IsStarted game" "\<not> HasEnded game"
      "playerIDForColor game t \<noteq> ''''"
    then have "keep (rows_step (Rows w)) (SaveRow (game\<lparr>HasEnded := True, EndedAt := Some n,
        WinnerID := Some (opponent game (playerIDForColor game t)),
        TimeoutUserID := Some (playerIDForColor game t)\<rparr>)) w'"
      using playerIDForColor_player [of game t]
      by (intro in_order_save)
        (auto simp: row_ok_def evolves_def isPlayer_def opponent_def decoded_logs_def row_options_def) }
  then show ?thesis
    unfolding CheckTimeout_def Let_def by (intro keep_rules) auto
qed

text \<open>The columns that no clause of \<open>row_ok\<close> reads.\<close>

lemma row_ok_columns [simp]:
  "row_ok (r\<lparr>LogsColumn := l\<rparr>) = row_ok r" "row_ok (r\<lparr>CRC32 := c\<rparr>) = row_ok r"
  "row_ok (r\<lparr>MapRows := m\<rparr>) = row_ok r" "row_ok (r\<lparr>BW := b\<rparr>) = row_ok r"
  "row_ok (r\<lparr>Llotheo := f\<rparr>) = row_ok r" "row_ok (r\<lparr>PutEverywhere := f\<rparr>) = row_ok r"
  "row_ok (r\<lparr>Looped := f\<rparr>) = row_ok r" "row_ok (r\<lparr>NoIrregularRules := f\<rparr>) = row_ok r"
  "row_ok (r\<lparr>User1Ready := f\<rparr>) = row_ok r" "row_ok (r\<lparr>User2Ready := f\<rparr>) = row_ok r"
  by (simp_all add: row_ok_def isPlayer_def opponent_def)

lemma row_ok_limit: "row_ok r \<Longrightarrow> 0 \<le> n \<Longrightarrow> row_ok (r\<lparr>TimeLimitForEachTurn := n\<rparr>)"
  by (auto simp: row_ok_def isPlayer_def opponent_def)

lemma row_ok_finish:
  "row_ok r \<Longrightarrow> IsStarted r \<Longrightarrow> \<not> HasEnded r \<Longrightarrow> (\<And>u. w = Some u \<Longrightarrow> isPlayer r u)
   \<Longrightarrow> row_ok (r\<lparr>HasEnded := True, EndedAt := Some n, CRC32 := c, WinnerID := w\<rparr>)"
  by (auto simp: row_ok_def isPlayer_def)

lemma row_ok_finalize:
  assumes "row_ok r" "IsStarted r" "\<not> HasEnded r"
  shows "row_ok (finalizeGame r engine n)"
proof -
  let ?g = "r\<lparr>HasEnded := True, EndedAt := Some n, CRC32 := Some (crc_text engine)\<rparr>"
  have w: "WinnerID r = None" using assms by (simp add: row_ok_def)
  then have "?g = ?g\<lparr>WinnerID := None\<rparr>" by simp
  moreover have "row_ok (?g\<lparr>WinnerID := None\<rparr>)" by (rule row_ok_finish [OF assms]) simp
  moreover have "row_ok (?g\<lparr>WinnerID := Some (playerIDForColor ?g c)\<rparr>)"
    if "playerIDForColor ?g c \<noteq> ''''" for c
    by (rule row_ok_finish [OF assms]) (use playerIDForColor_player [OF that] in \<open>simp add: isPlayer_def\<close>)
  ultimately show ?thesis by (simp add: finalizeGame_def Let_def split: option.splits)
qed

lemma finalize_fields [simp]:
  "ID (finalizeGame r engine n) = ID r" "User1ID (finalizeGame r engine n) = User1ID r"
  "User2ID (finalizeGame r engine n) = User2ID r" "IsStarted (finalizeGame r engine n) = IsStarted r"
  "BlackSeat (finalizeGame r engine n) = BlackSeat r" "MapRows (finalizeGame r engine n) = MapRows r"
  "row_options (finalizeGame r engine n) = row_options r"
  "StartedAt (finalizeGame r engine n) = StartedAt r" "LogsColumn (finalizeGame r engine n) = LogsColumn r"
  "decoded_logs (finalizeGame r engine n) = decoded_logs r"
  "CRC32 (finalizeGame r engine n) = Some (crc_text engine)" "HasEnded (finalizeGame r engine n)"
  "TimeLimitForEachTurn (finalizeGame r engine n) = TimeLimitForEachTurn r"
  by (simp_all add: finalizeGame_def Let_def row_options_def decoded_logs_def split: option.splits)

lemma logs_fields [simp]:
  "row_options (r\<lparr>LogsColumn := l\<rparr>) = row_options r" "row_options (r\<lparr>CRC32 := c\<rparr>) = row_options r"
  "decoded_logs (r\<lparr>LogsColumn := Moves ls\<rparr>) = ls" "decoded_logs (r\<lparr>CRC32 := c\<rparr>) = decoded_logs r"
  by (simp_all add: row_options_def decoded_logs_def)

lemma moved_row_in_order:
  assumes "Rows w' = Rows w" "Rows w gid = Some game" "IsStarted game" "\<not> HasEnded game"
  shows "keep (rows_step (Rows w)) (SaveRow (moved_row game c pos engine' n)) w'"
proof (rule in_order_save [OF assms(1,2)])
  assume ok: "row_ok game"
  let ?g = "\<lambda>ls. game\<lparr>LogsColumn := Moves ls, CRC32 := Some (crc_text engine')\<rparr>"
  have "row_ok (finalizeGame (?g ls) engine' n)" for ls by (rule row_ok_finalize) (use ok assms in simp_all)
  moreover have "evolves game (finalizeGame (?g (decoded_logs game @ [l])) engine' n)"
    "evolves game (?g (decoded_logs game @ [l]))" for l
    using assms(4) by (simp_all add: evolves_def)
  ultimately show "ID (moved_row game c pos engine' n) = ID game
      \<and> row_ok (moved_row game c pos engine' n) \<and> evolves game (moved_row game c pos engine' n)"
    using ok by (simp add: moved_row_def Let_def)
qed

lemma of_res_Val: "of_res r w = (Val a, w') \<Longrightarrow> r = Val a \<and> w' = w"
  by (auto simp: of_res_def act_defs split: res.splits)

lemma keep_of_res: "P (Rows w) \<Longrightarrow> (\<And>a. r = Val a \<Longrightarrow> keep P (f a) w) \<Longrightarrow> keep P (bind_act (of_res r) f) w"
  by (cases r) (auto simp: keep_def of_res_def act_defs)

lemma bind_Val:
  "bind_act m f w = (Val b, w') \<longleftrightarrow> (\<exists>a v. m w = (Val a, v) \<and> f a v = (Val b, w'))"
  by (auto simp: bind_act_def split: prod.splits res.splits)

lemma then_Val: "then_act m n w = (Val b, w') \<longleftrightarrow> (\<exists>v. m w = (Val (), v) \<and> n v = (Val b, w'))"
  by (simp add: then_act_def bind_Val)

lemma basic_Val [simp]:
  "ret a w = (Val b, w') \<longleftrightarrow> a = b \<and> w' = w" "stop_with x w \<noteq> (Val b, w')"
  "reject_if c err w = (Val u, w') \<longleftrightarrow> \<not> c \<and> w' = w" "query q w = (Val r, w') \<longleftrightarrow> r = q w \<and> w' = w"
  "of_go g w = (Val d, w') \<longleftrightarrow> g = Ok d \<and> w' = w" "of_res s w = (Val d, w') \<longleftrightarrow> s = Val d \<and> w' = w"
  by (auto simp: act_defs of_res_def split: go.splits res.splits)

lemma row_free_Rows: "row_free m \<Longrightarrow> m w = (r, w') \<Longrightarrow> Rows w' = Rows w"
  by (metis row_free_def snd_conv)

lemma keep_bind_Val:
  assumes "row_free m" "P (Rows w)" "\<And>a w'. m w = (Val a, w') \<Longrightarrow> Rows w' = Rows w \<Longrightarrow> keep P (f a) w'"
  shows "keep P (bind_act m f) w"
proof -
  obtain r w' where m: "m w = (r, w')" by fastforce
  with row_free_Rows [OF assms(1)] assms(2) assms(3) [of _ w'] show ?thesis
    by (cases r) (auto simp: keep_def bind_act_def)
qed

lemma row_free_admit [simp]: "row_free (admit_move gid u pos)"
  unfolding admit_move_def by (intro row_free_bind row_free_then) auto

lemma row_free_announce [simp]: "row_free (announce_move e gid u pos op g c en n)"
  by (auto simp: announce_move_def Let_def)

lemma admit_move_Val:
  "admit_move gid u pos w = (Val (game, c, engine'), w') \<Longrightarrow> Rows w' = Rows w \<and> Rows w gid = Some game
     \<and> IsStarted game \<and> \<not> HasEnded game \<and> isPlayer game u
     \<and> (\<exists>engine. EngineFromGame game = Ok (Val engine) \<and> playerColor game u = Val c
         \<and> Turn engine = Some c \<and> CanPut engine c pos = Ok True \<and> PutStone engine pos = Ok engine')"
  by (auto simp: admit_move_def engine_of_def bind_Val then_Val dest: GetGame_row)

lemma PutStone_in_order: "in_order (ServicePutStone e gid u pos op) w"
  unfolding ServicePutStone_def Let_def prod.case_eq_if
  by (intro keep_bind_Val keep_query keep_then_after)
    (auto intro!: moved_row_in_order dest!: admit_move_Val)

lemma CancelGame_in_order: "in_order (CancelGame e gid u) w"
  unfolding CancelGame_def
  by (intro keep_get keep_reject keep_then [of "deliverUndoInviteToOpponent e _ u"] keep_then_after
      keep_delete)
    (auto intro: rows_step_delete)

lemma applySetting_keeps:
  assumes "applySetting game key raw = Some g" "\<not> IsStarted game"
  shows "ID g = ID game" "row_ok game \<Longrightarrow> row_ok g" "HasEnded g = HasEnded game"
    "\<not> HasEnded game \<Longrightarrow> evolves game g" "IsStarted g = IsStarted game"
  using assms
  by (auto simp: applySetting_def with_setting_def evolves_def decoded_logs_def row_ok_limit
      split: if_splits option.splits)

lemma UpdateSettings_in_order: "in_order (UpdateSettings e gid u key raw) w"
proof -
  { fix game g and w' :: world
    assume a: "Rows w' = Rows w" "Rows w gid = Some game" "\<not> IsStarted game" "\<not> HasEnded game"
      "applySetting game key raw = Some g"
    have "keep (rows_step (Rows w)) (SaveRow (g\<lparr>User1Ready := False, User2Ready := False\<rparr>)) w'"
    proof (rule in_order_save [OF a(1,2)])
      assume "row_ok game"
      with applySetting_keeps [OF a(5,3)] a(3,4)
      show "ID (g\<lparr>User1Ready := False, User2Ready := False\<rparr>) = ID game
          \<and> row_ok (g\<lparr>User1Ready := False, User2Ready := False\<rparr>)
          \<and> evolves game (g\<lparr>User1Ready := False, User2Ready := False\<rparr>)"
        by (auto simp: evolves_def decoded_logs_def)
    qed }
  then show ?thesis
    unfolding UpdateSettings_def Let_def by (intro keep_rules) auto
qed

lemma keep_seq:
  assumes "keep (rows_step R) m w" "\<And>a w'. in_order (f a) w'"
  shows "keep (rows_step R) (bind_act m f) w"
proof -
  obtain r w' where m: "m w = (r, w')" by fastforce
  have "rows_step R (Rows w')" using assms(1) m by (simp add: keep_def)
  moreover have "rows_step (Rows w') (Rows (snd (f a w')))" for a using assms(2) by (simp add: keep_def)
  ultimately show ?thesis using m
    by (cases r) (auto simp: keep_def bind_act_def intro: rows_step_trans)
qed

lemma in_order_free: "row_free m \<Longrightarrow> in_order m w"
  by (simp add: keep_free)

lemma pickBlack_cases: "pickBlack bw sid coin = 1 \<or> pickBlack bw sid coin = 2"
  by (simp add: pickBlack_def)

lemma MarkStarted_in_order:
  assumes "BlackSeat g = Some 1 \<or> BlackSeat g = Some 2" "StartedAt g \<noteq> None" "Rows w = R"
  shows "keep (rows_step R) (MarkStarted g) w"
proof (rule keep_mark)
  show "rows_step R (Rows w)" using assms(3) by simp
  fix r assume "Rows w (ID g) = Some r" "\<not> IsStarted r"
  then show "rows_step R ((Rows w)(ID g \<mapsto> start_fields g r))"
    using assms unfolding assms(3)
    by (intro rows_step_update [of _ _ r])
      (auto simp: start_fields_def row_ok_def evolves_def isPlayer_def opponent_def decoded_logs_def)
qed

lemma record_crc_fields [simp]:
  "BlackSeat (record_crc g r) = BlackSeat g" "StartedAt (record_crc g r) = StartedAt g"
  "IsStarted (record_crc g r) = IsStarted g" "ID (record_crc g r) = ID g"
  by (simp_all add: record_crc_def split: res.split)

lemma prepare_start_Ok:
  "prepare_start game sid coin now = Ok g \<Longrightarrow> (BlackSeat g = Some 1 \<or> BlackSeat g = Some 2)
     \<and> StartedAt g = Some now \<and> IsStarted g \<and> ID g = ID game"
  using pickBlack_cases [of "BW game" sid coin] by (auto simp: prepare_start_def Let_def)

lemma StartGame_in_order: "in_order (StartGame e game) w"
  unfolding StartGame_def
  by (intro keep_reject keep_query keep_bind_Val [of "of_go _"] keep_after MarkStarted_in_order)
    (auto dest!: prepare_start_Ok)

lemma keep_attempt: "keep P m w \<Longrightarrow> keep P (attempt m) w"
  by (auto simp: keep_def attempt_def split: prod.splits res.splits stop.splits)

lemma UpdateReadyState_in_order: "Rows w = R \<Longrightarrow> keep (rows_step R) (UpdateReadyState gid u b) w"
  by (rule keep_ready)
    (auto simp: set_ready_def evolves_def decoded_logs_def intro!: rows_step_update)

lemma UpdateReady_in_order: "in_order (UpdateReady e gid u b) w"
proof -
  have s: "in_order (bind_act (attempt (StartGame e g))
      (\<lambda>r. case r of Val _ \<Rightarrow> ret () | Stop err \<Rightarrow> if err = Err ErrAlreadyStarted then ret () else stop_with err)) w" for g w
    by (intro keep_after keep_attempt StartGame_in_order) (auto split: res.splits)
  have c: "in_order (case updated of
       None \<Rightarrow> bind_act (GetGame gid) (\<lambda>fresh. stop_with (Err (if HasEnded fresh then ErrAlreadyEnded else ErrAlreadyStarted)))
     | Some game' \<Rightarrow>
         then_act (publish e gid (ChangeReadyStates (User1Ready game') (User2Ready game')))
         (then_act (deliverStateToOpponent e game' u ((ap_state ''ready_states'')\<lparr>StateReady := Some b\<rparr>))
         (if User1Ready game' \<and> User2Ready game'
          then bind_act (attempt (StartGame e game')) (\<lambda>r. case r of
              Val _ \<Rightarrow> ret ()
            | Stop err \<Rightarrow> if err = Err ErrAlreadyStarted then ret () else stop_with err)
          else ret ()))) w" for updated w
    unfolding then_act_def
    by (intro keep_option in_order_free row_free_bind keep_seq keep_if s) auto
  show ?thesis
    unfolding UpdateReady_def
    by (intro keep_get keep_reject keep_seq [OF UpdateReadyState_in_order] c) simp_all
qed

section \<open>Requests\<close>

definition new_game_row :: "string \<Rightarrow> string \<Rightarrow> string \<Rightarrow> reversi_game" where
  "new_game_row gid inviter invitee = \<lparr>ID = gid, StartedAt = None, EndedAt = None, User1ID = inviter,
     User2ID = invitee, User1Ready = False, User2Ready = False, BlackSeat = None, IsStarted = False,
     HasEnded = False, WinnerID = None, SurrenderedUserID = None, TimeoutUserID = None,
     TimeLimitForEachTurn = 90, LogsColumn = Moves [], MapRows = default_map, BW = ''random'',
     NoIrregularRules = False, Llotheo = False, PutEverywhere = False, Looped = False, CRC32 = None\<rparr>"

definition CreateRow :: "reversi_game \<Rightarrow> unit svc" where
  \<comment> \<open>a primary key that exists makes the insert fail\<close>
  "CreateRow game = then_act db_step (bind_act (query (\<lambda>w. Rows w (ID game))) (\<lambda>r. case r of
      None \<Rightarrow> change (\<lambda>w. w\<lparr>Rows := (Rows w)(ID game \<mapsto> game)\<rparr>)
    | Some _ \<Rightarrow> stop_with (Err ErrDB)))"

datatype request =
    ReqMatch string string string
  | ReqReady string string bool
  | ReqSettings string string string "json option"
  | ReqCancel string string
  | ReqPut string string int string
  | ReqSurrender string string
  | ReqTimeUp string
  | Elapse nat
  | RedisOutage bool
  | RedisEvicts string
  | DatabaseFaults "bool list"
  | CoinFlip bool

fun handle :: "wiring \<Rightarrow> request \<Rightarrow> unit svc" where
  "handle e (ReqMatch gid u1 u2) = CreateRow (new_game_row gid u1 u2)"
| "handle e (ReqReady gid u b) = UpdateReady e gid u b"
| "handle e (ReqSettings gid u key raw) = UpdateSettings e gid u key raw"
| "handle e (ReqCancel gid u) = CancelGame e gid u"
| "handle e (ReqPut gid u pos op) = ServicePutStone e gid u pos op"
| "handle e (ReqSurrender gid u) = Surrender e gid u"
| "handle e (ReqTimeUp gid) = CheckTimeout e gid"
| "handle e (Elapse n) = change (\<lambda>w. w\<lparr>Now := Now w + int n\<rparr>)"
| "handle e (RedisOutage b) = change (\<lambda>w. w\<lparr>RedisDown := b\<rparr>)"
| "handle e (RedisEvicts k) = change (\<lambda>w. w\<lparr>Redis := (Redis w)(k := None)\<rparr>)"
| "handle e (DatabaseFaults fs) = change (\<lambda>w. w\<lparr>DbFaults := fs\<rparr>)"
| "handle e (CoinFlip b) = change (\<lambda>w. w\<lparr>Coin := b\<rparr>)"

definition serve :: "wiring \<Rightarrow> world \<Rightarrow> request \<Rightarrow> world" where
  "serve e w req = snd (handle e req w)"

lemma CreateRow_in_order: "row_ok g \<Longrightarrow> in_order (CreateRow g) w"
  by (auto simp: keep_def CreateRow_def db_step_def act_defs rows_step_def rows_ok_def rows_evolve_def
      split: list.splits option.splits)

lemma row_ok_new: "row_ok (new_game_row gid u1 u2)"
  by (simp add: row_ok_def new_game_row_def)

lemma handle_in_order: "in_order (handle e req) w"
  by (cases req) (auto simp: CreateRow_in_order row_ok_new UpdateReady_in_order UpdateSettings_in_order
      CancelGame_in_order PutStone_in_order Surrender_in_order CheckTimeout_in_order in_order_free)

interpretation sv: stepping "serve e" "\<lambda>w. rows_ok (Rows w) \<and> rows_evolve R (Rows w)" for e R
  using handle_in_order rows_evolve_trans
  by unfold_locales (simp add: serve_def keep_def rows_step_def, blast)

end
