(* ===== verification/Reversi_Claims.thy ===== *)
theory Reversi_Claims imports Reversi_Lifecycle begin

text \<open>
  The properties of the reversi service: the life of a match under every sequence of requests and
  failures, the refinement of the engine by the stored log, who may act, the seats, and the turn timer.
\<close>

section \<open>The life of a match\<close>

definition idle_world :: world where
  "idle_world = \<lparr>Rows = Map.empty, Redis = Map.empty, DbFaults = [], RedisDown = False, Events = [],
     Sent = [], Now = 0, Coin = True\<rparr>"

definition plain_wiring :: wiring where
  "plain_wiring = \<lparr>Publisher = True, TimerRedis = True, FedCache = False, FedRedis = False,
     Deliverer = False, Users = None, BaseURL = ''''\<rparr>"

text \<open>C1. Whatever requests arrive in whatever order, with database statements failing, Redis going down or
  losing keys and time passing, every row stays well formed (an ended match has started, has an end time, and its
  winner, surrendered and timed-out users are its players), a match that has started is never lost,
  its players, colours, map, rules and start time never change, its log only grows, and an ended match never
  changes again.\<close>

theorem match_lifecycle:
  assumes "rows_ok (Rows (w :: world))"
  shows "rows_ok (Rows (run_steps (serve e) w reqs)) \<and> rows_evolve (Rows w) (Rows (run_steps (serve e) w reqs))"
  using sv.run_keeps [of w "Rows w" e reqs] assms by simp

definition ended_row :: reversi_game where
  "ended_row = (new_game_row ''g'' ''a'' ''b'')\<lparr>IsStarted := True, StartedAt := Some 1, BlackSeat := Some 1,
     HasEnded := True, EndedAt := Some 2, WinnerID := Some ''a'', SurrenderedUserID := Some ''b''\<rparr>"

lemma ended_row_ok: "row_ok ended_row"
  by (simp add: ended_row_def row_ok_def new_game_row_def isPlayer_def opponent_def)

theorem match_lifecycle_witness:
  "Rows (run_steps (serve plain_wiring) (idle_world\<lparr>Rows := [''g'' \<mapsto> ended_row]\<rparr>)
     [ReqSurrender ''g'' ''a'', DatabaseFaults [True], ReqCancel ''g'' ''b'', ReqPut ''g'' ''a'' 19 ''op'']) ''g''
   = Some ended_row"
proof -
  let ?w = "idle_world\<lparr>Rows := [''g'' \<mapsto> ended_row]\<rparr>"
  let ?reqs = "[ReqSurrender ''g'' ''a'', DatabaseFaults [True], ReqCancel ''g'' ''b'', ReqPut ''g'' ''a'' 19 ''op'']"
  have ok: "rows_ok (Rows ?w)" using ended_row_ok
    by (auto simp: rows_ok_def) (simp add: ended_row_def new_game_row_def)
  have e: "HasEnded ended_row" "IsStarted ended_row" by (simp_all add: ended_row_def)
  have "rows_evolve (Rows ?w) (Rows (run_steps (serve plain_wiring) ?w ?reqs))"
    using match_lifecycle [OF ok] by blast
  moreover have "Rows ?w ''g'' = Some ended_row" by simp
  ultimately show ?thesis using e unfolding rows_evolve_def evolves_def by blast
qed

section \<open>The log and the engine\<close>

lemma go_foldl_append: "go_foldl f s (xs @ ys) = go_bind (go_foldl f s xs) (\<lambda>s'. go_foldl f s' ys)"
proof (induction xs arbitrary: s)
  case (Cons x xs)
  then show ?case by (cases "f s x") auto
qed simp

lemma EngineFromGame_Val:
  "EngineFromGame game = Ok (Val engine) \<longleftrightarrow> (\<forall>l. LogsColumn game \<noteq> Garbled l) \<and>
     (\<exists>e0. NewGame (MapRows game) (row_options game) = Ok e0
        \<and> go_foldl replay_entry e0 (decoded_logs game) = Ok engine)"
  by (auto simp: EngineFromGame_def decoded_logs_def split: logs_column.splits)

lemma moved_row_fields [simp]:
  "MapRows (moved_row game c pos engine' n) = MapRows game"
  "row_options (moved_row game c pos engine' n) = row_options game"
  "ID (moved_row game c pos engine' n) = ID game"
  "\<exists>t. LogsColumn (moved_row game c pos engine' n)
     = Moves (decoded_logs game @ [[t, if c then 1 else 0, 0, pos]])"
  "CRC32 (moved_row game c pos engine' n) = Some (crc_text engine')"
  by (simp_all add: moved_row_def Let_def)

lemma EngineFromGame_moved:
  assumes "EngineFromGame game = Ok (Val engine)" "PutStone engine pos = Ok engine'"
  shows "EngineFromGame (moved_row game c pos engine' n) = Ok (Val engine')"
proof -
  obtain t where l: "LogsColumn (moved_row game c pos engine' n)
      = Moves (decoded_logs game @ [[t, if c then 1 else 0, 0, pos]])"
    using moved_row_fields(4) by blast
  then show ?thesis using assms
    by (auto simp: EngineFromGame_Val decoded_logs_def [of "moved_row game c pos engine' n"]
        go_foldl_append replay_entry_def)
qed

lemma SaveRow_Val: "SaveRow g w = (Val u, w') \<Longrightarrow> Rows w' = (Rows w)(ID g \<mapsto> g)"
  by (auto simp: SaveRow_def then_Val db_step_def change_def split: list.splits if_splits)

text \<open>C9. A move is accepted only on a running match, from the player whose turn the stored log says it is, and only
  where the rules allow it.  The row saved then replays (\<open>EngineFromGame\<close>) to exactly the board the
  engine reached by that move, its checksum is that board's, the match is ended exactly when nobody can move
  any more, and no other row is touched.\<close>

theorem PutStone_refines_engine:
  assumes "ServicePutStone e gid u pos op w = (Val (), w')" "rows_ok (Rows w)"
  shows "\<exists>game game' c engine engine'. Rows w gid = Some game \<and> Rows w' = (Rows w)(gid \<mapsto> game')
    \<and> IsStarted game \<and> \<not> HasEnded game
    \<and> EngineFromGame game = Ok (Val engine) \<and> playerColor game u = Val c \<and> Turn engine = Some c
    \<and> CanPut engine c pos = Ok True \<and> PutStone engine pos = Ok engine'
    \<and> EngineFromGame game' = Ok (Val engine') \<and> CRC32 game' = Some (crc_text engine')
    \<and> (HasEnded game' \<longleftrightarrow> Turn engine' = None)"
proof -
  obtain game c engine' w1 w2 n where a: "admit_move gid u pos w = (Val (game, c, engine'), w1)"
    and s: "SaveRow (moved_row game c pos engine' n) w1 = (Val (), w2)"
    and t: "announce_move e gid u pos op (moved_row game c pos engine' n) c engine' n w2 = (Val (), w')"
    using assms(1) by (auto simp: ServicePutStone_def bind_Val then_Val Let_def)
  note f = admit_move_Val [OF a]
  then have "ID game = gid" using assms(2) by (auto simp: rows_ok_def)
  then have "Rows w' = (Rows w)(gid \<mapsto> moved_row game c pos engine' n)"
    using f SaveRow_Val [OF s] row_free_Rows [OF row_free_announce t] by simp
  moreover have "HasEnded (moved_row game c pos engine' n) \<longleftrightarrow> Turn engine' = None"
    using f by (simp add: moved_row_def Let_def)
  ultimately show ?thesis using f EngineFromGame_moved [of game _ pos engine' c n] by fastforce
qed

definition running_row :: reversi_game where
  "running_row = (new_game_row ''g'' ''a'' ''b'')\<lparr>IsStarted := True, StartedAt := Some 1, BlackSeat := Some 1\<rparr>"

definition running_world :: world where
  "running_world = idle_world\<lparr>Rows := [''g'' \<mapsto> running_row]\<rparr>"

lemma running_row_ok: "rows_ok (Rows running_world)"
  by (auto simp: rows_ok_def running_world_def running_row_def new_game_row_def row_ok_def)

lemma running_fields:
  "ID running_row = ''g''" "IsStarted running_row" "\<not> HasEnded running_row" "isPlayer running_row ''a''"
  "playerColor running_row ''a'' = Val Black" "LogsColumn running_row = Moves []"
  "MapRows running_row = default_map" "row_options running_row = Opts start_game" "decoded_logs running_row = []"
  by (simp_all add: running_row_def new_game_row_def isPlayer_def playerColor_def colorFromBool_def
      row_options_def start_game_def initial_board_def Let_def decoded_logs_def)

lemma NewGame_default: "NewGame default_map (Opts start_game) = Ok start_game"
proof -
  have o: "Opts start_game = \<lparr>IsLlotheo = False, CanPutEverywhere = False, LoopedBoard = False\<rparr>"
    by (simp add: start_game_def initial_board_def Let_def)
  have i: "(initial_board default_map (Opts start_game))\<lparr>Turn := Some Black\<rparr> = start_game"
    unfolding o start_game_def by (simp add: initial_board_def default_map_def)
  have "CanPutSomewhere start_game Black = Ok True"
    using start_game_legal by (auto simp: CanPutSomewhere_eq [OF start_game_rect] can_move_iff)
  then show ?thesis unfolding NewGame_def Let_def i by simp
qed

lemma running_engine: "EngineFromGame running_row = Ok (Val start_game)"
  by (simp add: EngineFromGame_def running_fields NewGame_default)

lemma running_rows: "Rows running_world = [''g'' \<mapsto> running_row]" "DbFaults running_world = []"
  "Now running_world = 0"
  by (simp_all add: running_world_def idle_world_def)

lemma Storable_g: "Storable ''g''"
  by (simp add: Storable_def bytes_def valid_utf8.simps(2) rune_at.simps(2))

lemma default_fits: "settings_fit (new_game_row i a b)"
  by (simp add: settings_fit_def new_game_row_def default_map_def Fits_def Storable_def bytes_def valid_utf8.simps(2)
      rune_at.simps(2) rune_count_def runes.simps(2))

lemma settings_fit_moved: "settings_fit (moved_row game c pos engine' n) = settings_fit game"
  by (simp add: settings_fit_def moved_row_def finalizeGame_def Let_def split: option.splits)

lemma running_fits: "settings_fit running_row"
  using default_fits [of "''g''" "''a''" "''b''"] by (simp add: running_row_def settings_fit_def)

lemma running_get: "GetGame ''g'' running_world = (Val running_row, running_world)"
  using Storable_g by (simp add: GetGame_def FindByID_def bind_act_def then_act_def db_step_def query_def ret_def
      running_rows)

lemma announce_returns: "\<exists>w'. announce_move e gid u pos op g c en n w = (Val (), w')"
  by (simp add: announce_move_def Let_def act_defs publish_def setTurnTimer_def deliverStateToOpponent_def
      cleanupFedCache_def)

lemma running_move: "\<exists>w'. ServicePutStone plain_wiring ''g'' ''a'' 19 ''op'' running_world = (Val (), w')"
proof -
  obtain en where en: "PutStone start_game 19 = Ok en"
    using PutStone_eq [OF start_game_rect _ start_game_turn, of 19] start_game_legal by (auto simp: legal_def)
  have a: "admit_move ''g'' ''a'' 19 running_world = (Val (running_row, Black, en), running_world)"
    using start_game_turn start_game_CanPut en
    by (auto simp: admit_move_def engine_of_def bind_Val then_Val running_get running_fields running_engine)
  have s: "SaveRow r running_world = (Val (), running_world\<lparr>Rows := (Rows running_world)(ID r \<mapsto> r)\<rparr>)"
    if "settings_fit r" for r
    using that by (simp add: SaveRow_def act_defs db_step_def running_rows)
  show ?thesis
    using announce_returns
    by (simp add: ServicePutStone_def bind_Val a then_Val Let_def s settings_fit_moved running_fits)
qed

theorem PutStone_refines_engine_witness:
  "\<exists>w' game'. ServicePutStone plain_wiring ''g'' ''a'' 19 ''op'' running_world = (Val (), w')
     \<and> Rows w' = (Rows running_world)(''g'' \<mapsto> game')
     \<and> (\<exists>engine'. PutStone start_game 19 = Ok engine' \<and> EngineFromGame game' = Ok (Val engine'))"
proof -
  obtain w' where w: "ServicePutStone plain_wiring ''g'' ''a'' 19 ''op'' running_world = (Val (), w')"
    using running_move by blast
  have "Rows running_world ''g'' = Some running_row" by (simp add: running_world_def)
  then show ?thesis using PutStone_refines_engine [OF w running_row_ok] w running_engine by fastforce
qed

section \<open>Seats\<close>

text \<open>Seats and colours: in a match whose black side is decided, the two players hold the two colours,
  \<open>playerIDForColor\<close> inverts \<open>playerColor\<close>, and a third user has no colour.\<close>

theorem playerColor_inverse:
  assumes "BlackSeat game = Some b" "User1ID game \<noteq> User2ID game"
  shows "(isPlayer game u \<longleftrightarrow> (\<exists>c. playerColor game u = Val c))
    \<and> (playerColor game u = Val c \<longleftrightarrow> playerIDForColor game c = u)
    \<and> playerColor game (opponent game (playerIDForColor game c)) = Val (\<not> c)"
  using assms by (auto simp: playerColor_def playerIDForColor_def isPlayer_def opponent_def colorFromBool_def Let_def)

theorem playerColor_inverse_witness:
  "playerColor running_row ''a'' = Val Black \<and> playerColor running_row (opponent running_row ''a'') = Val White"
proof -
  have "BlackSeat running_row = Some 1" "User1ID running_row \<noteq> User2ID running_row"
    by (simp_all add: running_row_def new_game_row_def)
  from playerColor_inverse [OF this, of "''a''" Black] running_fields(5) show ?thesis by auto
qed

section \<open>Who may act\<close>

definition refused :: "'a svc \<Rightarrow> world \<Rightarrow> bool" where
  "refused m w \<longleftrightarrow> (\<exists>x. fst (m w) = Stop (Err x)) \<and> (\<exists>fs. snd (m w) = w\<lparr>DbFaults := fs\<rparr>)"

lemma GetGame_eq: "GetGame gid w =
    (let r = (case Rows w gid of None \<Rightarrow> Stop (Err ErrGameNotFound) | Some game \<Rightarrow> Val game)
     in if \<not> Storable gid then (Stop (Err ErrGameNotFound), w)
        else case DbFaults w of [] \<Rightarrow> (r, w)
          | f # fs \<Rightarrow> (if f then Stop (Err ErrDB) else r, w\<lparr>DbFaults := fs\<rparr>))"
  by (simp add: GetGame_def FindByID_def act_defs db_step_def split: list.split option.split)

lemma GetGame_cases:
  obtains x fs where "GetGame gid w = (Stop (Err x), w\<lparr>DbFaults := fs\<rparr>)"
  | game fs where "GetGame gid w = (Val game, w\<lparr>DbFaults := fs\<rparr>)" "Rows w gid = Some game"
proof -
  have id: "w = w\<lparr>DbFaults := DbFaults w\<rparr>" by simp
  have "(\<exists>x fs. GetGame gid w = (Stop (Err x), w\<lparr>DbFaults := fs\<rparr>))
      \<or> (\<exists>game fs. GetGame gid w = (Val game, w\<lparr>DbFaults := fs\<rparr>) \<and> Rows w gid = Some game)"
    using exI [of "\<lambda>fs. w = w\<lparr>DbFaults := fs\<rparr>", OF id]
    by (cases "Rows w gid"; cases "DbFaults w") (auto simp: GetGame_eq Let_def)
  with that show thesis by blast
qed

lemma refused_get:
  assumes "\<And>game fs. Rows w gid = Some game \<Longrightarrow> \<exists>x. f game (w\<lparr>DbFaults := fs\<rparr>) = (Stop (Err x), w\<lparr>DbFaults := fs\<rparr>)"
  shows "refused (bind_act (GetGame gid) f) w"
proof (cases rule: GetGame_cases [of gid w])
  case (1 x fs)
  then show ?thesis by (auto simp: refused_def bind_act_def)
next
  case (2 game fs)
  then show ?thesis using assms [of game fs] by (auto simp: refused_def bind_act_def)
qed

lemma refused_bind: "refused (bind_act m f) w \<Longrightarrow> refused (bind_act (bind_act m f) g) w"
  by (auto simp: refused_def bind_act_def split: prod.splits res.splits)

text \<open>Only the two players can change a match: for anybody else getting ready, changing a setting, cancelling,
  placing a stone and surrendering return an error, and leave the rows, Redis, the published events and the
  deliveries as they were.\<close>

theorem strangers_are_refused:
  assumes "Rows w gid = Some game" "\<not> isPlayer game u"
  shows "refused (UpdateReady e gid u b) w \<and> refused (UpdateSettings e gid u key raw) w
    \<and> refused (CancelGame e gid u) w \<and> refused (ServicePutStone e gid u pos op) w
    \<and> refused (Surrender e gid u) w"
proof (intro conjI)
  show "refused (UpdateReady e gid u b) w" unfolding UpdateReady_def
    by (rule refused_get) (use assms in \<open>auto simp: act_defs\<close>)
  show "refused (UpdateSettings e gid u key raw) w" unfolding UpdateSettings_def
    by (rule refused_get) (use assms in \<open>auto simp: act_defs\<close>)
  show "refused (CancelGame e gid u) w" unfolding CancelGame_def
    by (rule refused_get) (use assms in \<open>auto simp: act_defs\<close>)
  show "refused (Surrender e gid u) w" unfolding Surrender_def
    by (rule refused_get) (use assms in \<open>auto simp: act_defs\<close>)
  show "refused (ServicePutStone e gid u pos op) w" unfolding ServicePutStone_def admit_move_def
    by (rule refused_bind, rule refused_get) (use assms in \<open>auto simp: act_defs\<close>)
qed

theorem strangers_are_refused_witness:
  "refused (ServicePutStone plain_wiring ''g'' ''eve'' 19 '''') running_world
   \<and> refused (Surrender plain_wiring ''g'' ''eve'') running_world"
proof -
  have "Rows running_world ''g'' = Some running_row" "\<not> isPlayer running_row ''eve''"
    by (simp_all add: running_rows isPlayer_def running_row_def new_game_row_def)
  from strangers_are_refused [OF this] show ?thesis by blast
qed

section \<open>The turn timer\<close>

lemma CheckTimeout_eq:
  assumes "Rows w gid = Some game" "ID game = gid" "Storable gid" "DbFaults w = []"
    and "IsStarted game" "\<not> HasEnded game" "TimerRedis e"
    and "EngineFromGame game = Ok (Val engine)" "Turn engine = Some c" "playerIDForColor game c \<noteq> ''''"
    and "settings_fit game"
  shows "(if RedisDown w then CheckTimeout e gid w = (Stop (Err ErrRedis), w)
     else if redis_get (turnTimerKey gid (length (decoded_logs game))) w \<noteq> None
       then CheckTimeout e gid w = (Val (), w)
     else fst (CheckTimeout e gid w) = Val ()
       \<and> Rows (snd (CheckTimeout e gid w)) = (Rows w)(gid \<mapsto> game\<lparr>HasEnded := True, EndedAt := Some (Now w),
            WinnerID := Some (opponent game (playerIDForColor game c)),
            TimeoutUserID := Some (playerIDForColor game c)\<rparr>))
    \<and> snd (setTurnTimer e gid n 0 w) = w"
proof -
  have g: "GetGame gid w = (Val game, w)"
    using assms by (simp add: GetGame_def FindByID_def act_defs db_step_def)
  have t: "turnTimerExists e gid k w = (if RedisDown w then (Stop (Err ErrRedis), w)
      else (Val (redis_get (turnTimerKey gid k) w \<noteq> None), w))" for k
    using assms(7) by (simp add: turnTimerExists_def act_defs)
  have en: "engine_of game w = (Val engine, w)"
    using assms(8) by (simp add: engine_of_def act_defs of_res_def)
  let ?g = "game\<lparr>HasEnded := True, EndedAt := Some (Now w),
            WinnerID := Some (opponent game (playerIDForColor game c)),
            TimeoutUserID := Some (playerIDForColor game c)\<rparr>"
  have s: "SaveRow ?g w = (Val (), w\<lparr>Rows := (Rows w)(ID ?g \<mapsto> ?g)\<rparr>)"
    using assms(4,11) by (simp add: SaveRow_def act_defs db_step_def settings_fit_def)
  have f: "fst (then_act (publish e gid ev) (cleanupFedCache e gid) v) = Val ()"
    "Rows (snd (then_act (publish e gid ev) (cleanupFedCache e gid) v)) = Rows v" for ev v
    by (simp_all add: publish_def cleanupFedCache_def act_defs split: option.splits)
  show ?thesis
    using assms(2,5,6,9,10) f
    by (auto simp: CheckTimeout_def bind_act_def [of "GetGame gid"] g bind_act_def [of "turnTimerExists e gid _"] t
        bind_act_def [of "engine_of game"] en ret_def Let_def query_def bind_act_def [of "query Now"]
        then_act_def bind_act_def [of "SaveRow _"] s setTurnTimer_def change_def)
qed

text \<open>A timeout claim while the timer of the current turn is still there, or when Redis cannot be asked, changes
  no row; when the timer is gone on a running match the player to move loses to the opponent, whoever claims
  it.  The code does not look at the time limit: on a match without one (limit 0) no timer is ever
  set, so the first claim ends it at once.\<close>

theorem CheckTimeout_verdict:
  assumes "Rows w gid = Some game" "ID game = gid" "Storable gid" "DbFaults w = []"
    and "IsStarted game" "\<not> HasEnded game" "TimerRedis e"
    and "EngineFromGame game = Ok (Val engine)" "Turn engine = Some c" "playerIDForColor game c \<noteq> ''''"
    and "settings_fit game"
  shows "(if RedisDown w then CheckTimeout e gid w = (Stop (Err ErrRedis), w)
     else if redis_get (turnTimerKey gid (length (decoded_logs game))) w \<noteq> None
       then CheckTimeout e gid w = (Val (), w)
     else fst (CheckTimeout e gid w) = Val ()
       \<and> Rows (snd (CheckTimeout e gid w)) = (Rows w)(gid \<mapsto> game\<lparr>HasEnded := True, EndedAt := Some (Now w),
            WinnerID := Some (opponent game (playerIDForColor game c)),
            TimeoutUserID := Some (playerIDForColor game c)\<rparr>))
    \<and> snd (setTurnTimer e gid n 0 w) = w"
  by (rule CheckTimeout_eq [OF assms])

theorem CheckTimeout_verdict_witness:
  "fst (CheckTimeout plain_wiring ''g'' running_world) = Val ()
   \<and> map_option WinnerID (Rows (snd (CheckTimeout plain_wiring ''g'' running_world)) ''g'') = Some (Some ''b'')"
proof -
  have r: "Rows running_world ''g'' = Some running_row" "\<not> RedisDown running_world"
    "redis_get k running_world = None" for k
    by (simp_all add: running_world_def idle_world_def redis_get_def)
  have p: "playerIDForColor running_row Black = ''a''" "opponent running_row ''a'' = ''b''"
    by (simp_all add: playerIDForColor_def running_row_def new_game_row_def opponent_def)
  have t: "TimerRedis plain_wiring" by (simp add: plain_wiring_def)
  from CheckTimeout_verdict [OF r(1) running_fields(1) Storable_g running_rows(2) running_fields(2,3) t
      running_engine start_game_turn _ running_fits] r p
  show ?thesis by simp
qed

definition unlimited_row :: reversi_game where
  "unlimited_row = (new_game_row ''g'' ''a'' ''b'')\<lparr>TimeLimitForEachTurn := 0, User1Ready := True\<rparr>"

definition unlimited_started :: reversi_game where
  "unlimited_started = unlimited_row\<lparr>User2Ready := True, BlackSeat := Some 1, IsStarted := True,
     StartedAt := Some 0, CRC32 := Some (crc_text start_game)\<rparr>"

lemma GetGame_quiet: "Storable gid \<Longrightarrow> DbFaults w = [] \<Longrightarrow> Rows w gid = Some r \<Longrightarrow> GetGame gid w = (Val r, w)"
  by (simp add: GetGame_eq Let_def)

lemma FindByID_quiet: "Storable gid \<Longrightarrow> DbFaults w = [] \<Longrightarrow> FindByID gid w = (Val (Rows w gid), w)"
  by (simp add: FindByID_def act_defs db_step_def)

lemma unlimited_engine: "EngineFromGame (unlimited_row\<lparr>User2Ready := a, BlackSeat := b, IsStarted := s,
    StartedAt := t\<rparr>) = Ok (Val start_game)" "EngineFromGame unlimited_started = Ok (Val start_game)"
  using NewGame_default
  by (simp_all add: EngineFromGame_def unlimited_started_def unlimited_row_def new_game_row_def row_options_def
      start_game_def initial_board_def Let_def)

lemma unlimited_fields:
  "ID unlimited_row = ''g''" "User1ID unlimited_row = ''a''" "User2ID unlimited_row = ''b''" "User1Ready unlimited_row"
  "\<not> IsStarted unlimited_row" "\<not> HasEnded unlimited_row" "BW unlimited_row = ''random''"
  "TimeLimitForEachTurn unlimited_row = 0" "LogsColumn unlimited_row = Moves []"
  by (simp_all add: unlimited_row_def new_game_row_def)

lemma unlimited_fits: "settings_fit unlimited_started"
  using default_fits [of "''g''" "''a''" "''b''"]
  by (simp add: unlimited_started_def unlimited_row_def settings_fit_def)

lemma unlimited_start:
  assumes "Rows w = [''g'' \<mapsto> unlimited_row\<lparr>User2Ready := True\<rparr>]" "DbFaults w = []" "Now w = 0" "Coin w"
  shows "\<exists>evs. StartGame plain_wiring (unlimited_row\<lparr>User2Ready := True\<rparr>) w
    = (Val (), w\<lparr>Rows := [''g'' \<mapsto> unlimited_started], Events := evs\<rparr>)"
proof -
  let ?r = "unlimited_row\<lparr>User2Ready := True\<rparr>"
  have b: "pickBlack (BW ?r) (start_session plain_wiring ?r w) (Coin w) = 1"
    using assms(4) by (simp add: start_session_def plain_wiring_def pickBlack_def unlimited_fields)
  have m: "MarkStarted unlimited_started w = (Val True, w\<lparr>Rows := [''g'' \<mapsto> unlimited_started]\<rparr>)"
    using assms by (simp add: MarkStarted_def act_defs db_step_def unlimited_started_def start_guard_def
        start_fields_def unlimited_fields)
  have t: "setTurnTimer plain_wiring gid k 0 v = (Val (), v)" for gid k v
    by (simp add: setTurnTimer_def change_def)
  have pub: "publish plain_wiring gid ev v = (Val (), v\<lparr>Events := Events v @ [(gid, ev)]\<rparr>)" for gid ev v
    by (simp add: publish_def change_def plain_wiring_def)
  have "StartGame plain_wiring ?r w = then_act (setTurnTimer plain_wiring ''g'' 0 0)
      (publish plain_wiring ''g'' (Started unlimited_started)) (w\<lparr>Rows := [''g'' \<mapsto> unlimited_started]\<rparr>)"
    unfolding StartGame_def
    using assms(3) b m
    by (simp add: then_act_def reject_if_def ret_def bind_act_def query_def of_go_def unlimited_fields
        unlimited_engine unlimited_started_def Let_def prepare_start_def record_crc_def)
  then show ?thesis
    by (intro exI [of _ "Events w @ [(''g'', Started unlimited_started)]"]) (simp add: then_act_def bind_act_def t pub)
qed

lemma unlimited_ready:
  "\<exists>evs. UpdateReady plain_wiring ''g'' ''b'' True (idle_world\<lparr>Rows := [''g'' \<mapsto> unlimited_row]\<rparr>)
    = (Val (), idle_world\<lparr>Rows := [''g'' \<mapsto> unlimited_started], Events := evs\<rparr>)"
proof -
  let ?w0 = "idle_world\<lparr>Rows := [''g'' \<mapsto> unlimited_row]\<rparr>"
  let ?r = "unlimited_row\<lparr>User2Ready := True\<rparr>"
  let ?w1 = "idle_world\<lparr>Rows := [''g'' \<mapsto> ?r]\<rparr>"
  have d: "DbFaults idle_world = []" by (simp add: idle_world_def)
  have g: "GetGame ''g'' ?w0 = (Val unlimited_row, ?w0)" by (rule GetGame_quiet) (simp_all add: Storable_g d)
  have u: "UpdateReadyState ''g'' False True ?w0 = (Val (Some ?r), ?w1)"
    by (simp add: UpdateReadyState_def act_defs db_step_def d FindByID_quiet Storable_g ready_guard_def
        set_ready_def unlimited_fields)
  let ?w2 = "?w1\<lparr>Events := [(''g'', ChangeReadyStates True True)]\<rparr>"
  have p: "publish plain_wiring ''g'' (ChangeReadyStates True True) ?w1 = (Val (), ?w2)"
    by (simp add: publish_def change_def plain_wiring_def idle_world_def)
  have x: "deliverStateToOpponent plain_wiring ?r ''b'' st w = (Val (), w)" for st w
    by (simp add: deliverStateToOpponent_def change_def deliver_with_def federated_def plain_wiring_def)
  obtain evs where s: "StartGame plain_wiring ?r ?w2
      = (Val (), ?w2\<lparr>Rows := [''g'' \<mapsto> unlimited_started], Events := evs\<rparr>)"
    using unlimited_start [of ?w2] by (auto simp: idle_world_def)
  have "UpdateReady plain_wiring ''g'' ''b'' True ?w0
      = (Val (), ?w2\<lparr>Rows := [''g'' \<mapsto> unlimited_started], Events := evs\<rparr>)"
    unfolding UpdateReady_def
    by (simp add: then_act_def reject_if_def ret_def bind_act_def g u p x s unlimited_fields isPlayer_def
        attempt_def)
  then show ?thesis by auto
qed

text \<open>A match set to no time limit (\<open>timeLimitForEachTurn\<close> 0, which \<open>applySetting\<close> accepts) is
  lost by the player to move as soon as anybody claims a timeout, even at the very instant it starts: here the
  second player gets ready, the match starts, and a claim at the same millisecond makes the first player lose.\<close>

theorem unlimited_match_times_out:
  "map_option (\<lambda>r. (StartedAt r, EndedAt r, WinnerID r, TimeoutUserID r))
     (Rows (run_steps (serve plain_wiring) (idle_world\<lparr>Rows := [''g'' \<mapsto> unlimited_row]\<rparr>)
        [ReqReady ''g'' ''b'' True, ReqTimeUp ''g'']) ''g'')
   = Some (Some 0, Some 0, Some ''b'', Some ''a'')"
proof -
  obtain evs where "snd (UpdateReady plain_wiring ''g'' ''b'' True (idle_world\<lparr>Rows := [''g'' \<mapsto> unlimited_row]\<rparr>))
      = idle_world\<lparr>Rows := [''g'' \<mapsto> unlimited_started], Events := evs\<rparr>" (is "_ = ?w")
    using unlimited_ready by fastforce
  moreover have "Rows (snd (CheckTimeout plain_wiring ''g'' ?w)) = (Rows ?w)(''g'' \<mapsto> unlimited_started\<lparr>HasEnded := True,
      EndedAt := Some 0, WinnerID := Some ''b'', TimeoutUserID := Some ''a''\<rparr>)"
    using CheckTimeout_eq [of ?w "''g''" unlimited_started plain_wiring start_game Black]
      Storable_g unlimited_engine(2) start_game_turn unlimited_fields unlimited_fits
    by (simp add: idle_world_def plain_wiring_def redis_get_def unlimited_started_def playerIDForColor_def
        opponent_def)
  ultimately show ?thesis by (simp add: serve_def unlimited_started_def)
qed

end
