(* ===== verification/Reversi_Race.thy ===== *)
theory Reversi_Race imports Reversi_Lifecycle begin

text \<open>
  Two \<open>UpdateReady(true)\<close> calls, one per player, that run at the same time (a local websocket and the federation
  inbox), at the granularity of database statements.  A statement is atomic; between two statements
  of one call any number of statements of the other may run.  The statements are the ones of
  \<open>internal/repository/reversi.go\<close>: the guarded single-column update, the read after it, the guarded
  start.  No failing statement, no third actor; the coin and the clock of each call are arbitrary.
\<close>

datatype ready_pc =
    Reading
  | Updating
  | Rechecking
  | Rereading
  | Claiming reversi_game
  | Announcing
  | Finished "reversi_error option"

record race =
  Row :: "reversi_game option"
  Pc1 :: ready_pc
  Pc2 :: ready_pc
  Announced :: nat

definition after_read :: "reversi_game option \<Rightarrow> ready_pc" where
  "after_read r = (case r of None \<Rightarrow> Finished (Some ErrGameNotFound)
     | Some g \<Rightarrow> if IsStarted g then Finished (Some ErrAlreadyStarted)
                else if HasEnded g then Finished (Some ErrAlreadyEnded) else Updating)"

definition after_recheck :: "reversi_game option \<Rightarrow> ready_pc" where
  "after_recheck r = (case r of None \<Rightarrow> Finished (Some ErrGameNotFound)
     | Some g \<Rightarrow> Finished (Some (if HasEnded g then ErrAlreadyEnded else ErrAlreadyStarted)))"

text \<open>One statement of one call: the row and the program counter before and after, and whether \<open>started\<close> is
  published.\<close>

inductive call_step :: "string \<Rightarrow> bool \<Rightarrow> reversi_game option \<Rightarrow> ready_pc \<Rightarrow> reversi_game option \<Rightarrow> ready_pc \<Rightarrow> bool \<Rightarrow> bool"
  for sid :: string and user1 :: bool where
  read: "call_step sid user1 r Reading r (after_read r) False"
| update: "ready_guard r \<Longrightarrow> call_step sid user1 r Updating (map_option (set_ready user1 True) r) Rereading False"
| refused: "\<not> ready_guard r \<Longrightarrow> call_step sid user1 r Updating r Rechecking False"
| recheck: "call_step sid user1 r Rechecking r (after_recheck r) False"
| gone: "call_step sid user1 None Rereading None (Finished (Some ErrRecordNotFound)) False"
| waiting: "\<not> (User1Ready g \<and> User2Ready g) \<Longrightarrow> call_step sid user1 (Some g) Rereading (Some g) (Finished None) False"
| overtaken: "User1Ready g \<Longrightarrow> User2Ready g \<Longrightarrow> IsStarted g
    \<Longrightarrow> call_step sid user1 (Some g) Rereading (Some g) (Finished None) False"
| ended: "User1Ready g \<Longrightarrow> User2Ready g \<Longrightarrow> \<not> IsStarted g \<Longrightarrow> HasEnded g
    \<Longrightarrow> call_step sid user1 (Some g) Rereading (Some g) (Finished (Some ErrAlreadyEnded)) False"
| prepare: "User1Ready g \<Longrightarrow> User2Ready g \<Longrightarrow> \<not> IsStarted g \<Longrightarrow> \<not> HasEnded g
    \<Longrightarrow> prepare_start g sid coin now = Ok g'
    \<Longrightarrow> call_step sid user1 (Some g) Rereading (Some g) (Claiming g') False"
| claim: "start_guard r \<Longrightarrow> call_step sid user1 r (Claiming g) (map_option (start_fields g) r) Announcing False"
| lost: "\<not> start_guard r \<Longrightarrow> call_step sid user1 r (Claiming g) r (Finished None) False"
| announce: "call_step sid user1 r Announcing r (Finished None) True"

inductive_cases Reading_step: "call_step sid u r Reading r' pc' a"
inductive_cases Updating_step: "call_step sid u r Updating r' pc' a"
inductive_cases Rechecking_step: "call_step sid u r Rechecking r' pc' a"
inductive_cases Rereading_step: "call_step sid u r Rereading r' pc' a"
inductive_cases Claiming_step: "call_step sid u r (Claiming g) r' pc' a"
inductive_cases Announcing_step: "call_step sid u r Announcing r' pc' a"
inductive_cases Finished_step: "call_step sid u r (Finished x) r' pc' a"

inductive race_step :: "string \<Rightarrow> race \<Rightarrow> race \<Rightarrow> bool" for sid where
  first: "call_step sid True (Row s) (Pc1 s) r pc a
    \<Longrightarrow> race_step sid s (s\<lparr>Row := r, Pc1 := pc, Announced := Announced s + of_bool a\<rparr>)"
| second: "call_step sid False (Row s) (Pc2 s) r pc a
    \<Longrightarrow> race_step sid s (s\<lparr>Row := r, Pc2 := pc, Announced := Announced s + of_bool a\<rparr>)"

definition race_start :: "reversi_game \<Rightarrow> race" where
  "race_start g = \<lparr>Row = Some g, Pc1 = Reading, Pc2 = Reading, Announced = 0\<rparr>"

inductive race_reach :: "string \<Rightarrow> reversi_game \<Rightarrow> race \<Rightarrow> bool" for sid g where
  start: "race_reach sid g (race_start g)"
| step: "race_reach sid g s \<Longrightarrow> race_step sid s s' \<Longrightarrow> race_reach sid g s'"

section \<open>The invariant\<close>

definition early :: "ready_pc \<Rightarrow> bool" where
  "early pc \<longleftrightarrow> pc = Reading \<or> pc = Updating"

definition pushing :: "ready_pc \<Rightarrow> bool" where
  \<comment> \<open>on the way to start the match\<close>
  "pushing pc \<longleftrightarrow> (case pc of Rereading \<Rightarrow> True | Claiming _ \<Rightarrow> True | _ \<Rightarrow> False)"

definition sound_pc :: "ready_pc \<Rightarrow> bool" where
  "sound_pc pc \<longleftrightarrow> pc \<noteq> Rechecking \<and> (\<forall>x. pc \<noteq> Finished (Some x))"

definition ready_of :: "bool \<Rightarrow> reversi_game \<Rightarrow> bool" where
  "ready_of user1 g = (if user1 then User1Ready g else User2Ready g)"

text \<open>The invariant, seen from the call \<open>p\<close> of the player \<open>u\<close> against the other call \<open>q\<close>.\<close>

definition duel :: "reversi_game \<Rightarrow> bool \<Rightarrow> reversi_game \<Rightarrow> ready_pc \<Rightarrow> ready_pc \<Rightarrow> nat \<Rightarrow> bool" where
  "duel g0 u g p q n \<longleftrightarrow> \<not> HasEnded g \<and> MapRows g = MapRows g0 \<and> LogsColumn g = LogsColumn g0
     \<and> sound_pc p \<and> sound_pc q
     \<and> ready_of u g = (\<not> early p) \<and> ready_of (\<not> u) g = (\<not> early q)
     \<and> (IsStarted g \<or> (\<exists>c. p = Claiming c) \<or> (\<exists>c. q = Claiming c) \<longrightarrow> \<not> early p \<and> \<not> early q)
     \<and> (\<not> early p \<and> \<not> early q \<and> \<not> IsStarted g \<longrightarrow> pushing p \<or> pushing q)
     \<and> n + of_bool (p = Announcing) + of_bool (q = Announcing) = of_bool (IsStarted g)"

definition race_inv :: "reversi_game \<Rightarrow> race \<Rightarrow> bool" where
  "race_inv g0 s \<longleftrightarrow> (\<exists>g. Row s = Some g \<and> duel g0 True g (Pc1 s) (Pc2 s) (Announced s))"

lemma duel_sym: "duel g0 u g p q n \<longleftrightarrow> duel g0 (\<not> u) g q p n"
  unfolding duel_def by (auto simp: ac_simps)

lemma race_inv_start:
  "\<not> IsStarted g \<Longrightarrow> \<not> HasEnded g \<Longrightarrow> \<not> User1Ready g \<Longrightarrow> \<not> User2Ready g \<Longrightarrow> race_inv g (race_start g)"
  by (simp add: race_inv_def duel_def race_start_def early_def sound_pc_def ready_of_def)

lemma both_ready: "User1Ready g \<and> User2Ready g \<longleftrightarrow> ready_of u g \<and> ready_of (\<not> u) g"
  by (auto simp: ready_of_def)

lemma early_simps [simp]:
  "early Reading" "early Updating" "\<not> early Rechecking" "\<not> early Rereading" "\<not> early (Claiming c)"
  "\<not> early Announcing" "\<not> early (Finished x)" "pushing Rereading" "pushing (Claiming c)"
  "\<not> pushing Announcing" "\<not> pushing (Finished x)" "\<not> pushing Reading" "\<not> pushing Updating"
  "sound_pc Reading" "sound_pc Updating" "sound_pc Rereading" "sound_pc (Claiming c)" "sound_pc Announcing"
  "sound_pc (Finished x) \<longleftrightarrow> x = None" "\<not> sound_pc Rechecking"
  by (simp_all add: early_def pushing_def sound_pc_def)

lemma set_ready_fields [simp]:
  "ready_of u (set_ready v b g) = (if u = v then b else ready_of u g)"
  "IsStarted (set_ready v b g) = IsStarted g" "HasEnded (set_ready v b g) = HasEnded g"
  "MapRows (set_ready v b g) = MapRows g" "LogsColumn (set_ready v b g) = LogsColumn g"
  "ready_of u (start_fields c g) = ready_of u g" "IsStarted (start_fields c g)"
  "HasEnded (start_fields c g) = HasEnded g" "MapRows (start_fields c g) = MapRows g"
  "LogsColumn (start_fields c g) = LogsColumn g"
  by (simp_all add: set_ready_def ready_of_def start_fields_def)

lemma duel_step:
  assumes "duel g0 u g p q n" "call_step sid u (Some g) p r p' a"
  shows "\<exists>g'. r = Some g' \<and> duel g0 u g' p' q (n + of_bool a)"
  using assms(2)
proof cases
  case read
  with assms(1) show ?thesis by (auto simp: duel_def after_read_def)
next
  case update
  with assms(1) show ?thesis by (simp add: duel_def ready_guard_def)
next
  case refused
  with assms(1) show ?thesis by (auto simp: duel_def ready_guard_def)
next
  case waiting
  with assms(1) both_ready [of g u] show ?thesis by (auto simp: duel_def)
next
  case overtaken
  with assms(1) show ?thesis by (simp add: duel_def)
next
  case (prepare now c)
  with assms(1) both_ready [of g u] show ?thesis by (simp add: duel_def)
next
  case (claim c)
  with assms(1) show ?thesis by (simp add: duel_def start_guard_def)
next
  case (lost c)
  with assms(1) show ?thesis by (simp add: duel_def start_guard_def)
next
  case announce
  with assms(1) show ?thesis by (simp add: duel_def)
qed (use assms(1) in \<open>simp_all add: duel_def\<close>)

lemma race_inv_step: "race_inv g0 s \<Longrightarrow> race_step sid s s' \<Longrightarrow> race_inv g0 s'"
  using duel_step [of g0 True] duel_step [of g0 False]
  by (auto simp: race_inv_def duel_sym [of _ True] elim!: race_step.cases)

lemma race_inv_reach:
  "race_reach sid g s \<Longrightarrow> \<not> IsStarted g \<Longrightarrow> \<not> HasEnded g \<Longrightarrow> \<not> User1Ready g \<Longrightarrow> \<not> User2Ready g
   \<Longrightarrow> race_inv g s"
  by (induction rule: race_reach.induct) (auto intro: race_inv_start race_inv_step)

section \<open>Progress\<close>

fun work :: "ready_pc \<Rightarrow> nat" where
  "work Reading = 5" | "work Updating = 4" | "work Rereading = 3" | "work (Claiming g) = 2"
| "work Announcing = 1" | "work Rechecking = 1" | "work (Finished x) = 0"

definition work_left :: "race \<Rightarrow> nat" where
  "work_left s = work (Pc1 s) + work (Pc2 s)"

lemma call_step_work: "call_step sid u r p r' p' a \<Longrightarrow> work p' < work p"
  by (induction rule: call_step.induct) (auto simp: after_read_def after_recheck_def split: option.splits)

lemma race_step_work: "race_step sid s s' \<Longrightarrow> work_left s' < work_left s"
  by (auto simp: work_left_def dest: call_step_work elim!: race_step.cases)

lemma prepare_start_returns:
  assumes "LogsColumn g = Moves []" "MapRows g = [] \<or> rectangular (MapRows g)"
  shows "\<exists>g'. prepare_start g sid coin now = Ok g'"
proof -
  obtain e where "NewGame (MapRows g) (row_options g) = Ok e" using NewGame_ok [OF assms(2)] by blast
  then show ?thesis using assms(1)
    by (simp add: prepare_start_def Let_def EngineFromGame_def row_options_def)
qed

definition enabled :: "string \<Rightarrow> bool \<Rightarrow> reversi_game option \<Rightarrow> ready_pc \<Rightarrow> bool" where
  "enabled sid u r p \<longleftrightarrow> (\<exists>r' p' a. call_step sid u r p r' p' a)"

lemma enabledI: "call_step sid u r p r' p' a \<Longrightarrow> enabled sid u r p"
  unfolding enabled_def by blast

lemmas enabled_intros = call_step.intros [THEN enabledI]

lemma call_step_enabled:
  assumes "duel g0 u g p q n" "p \<noteq> Finished None" "LogsColumn g0 = Moves []"
    "MapRows g0 = [] \<or> rectangular (MapRows g0)"
  shows "enabled sid u (Some g) p"
proof (cases p)
  case Rereading
  obtain g' where "prepare_start g sid True 0 = Ok g'"
    using assms prepare_start_returns [of g sid True 0] by (auto simp: duel_def)
  then show ?thesis unfolding Rereading
    by (cases "User1Ready g \<and> User2Ready g"; cases "IsStarted g"; cases "HasEnded g")
      (auto intro: enabled_intros)
next
  case Updating
  then show ?thesis by (cases "ready_guard (Some g)") (auto intro: enabled_intros)
next
  case (Claiming c)
  then show ?thesis by (cases "start_guard (Some g)") (auto intro: enabled_intros)
next
  case (Finished x)
  with assms show ?thesis by (simp add: duel_def)
qed (auto intro: enabled_intros)

text \<open>C8. Two players who get ready at the same time: however the statements of the two calls interleave, \<open>started\<close> is
  published at most once, no state is stuck, every step uses up work (at most ten statements in all), and when
  both calls are done both returned no error, the match is started and \<open>started\<close> was published exactly once.
  No ready flag is lost.  The match is a pending one with an empty log, as \<open>Match\<close> creates it, its map is empty or rectangular,
  and no statement fails.\<close>

theorem ready_race:
  assumes "race_reach sid g s" "\<not> IsStarted g" "\<not> HasEnded g" "\<not> User1Ready g" "\<not> User2Ready g"
    and "LogsColumn g = Moves []" "MapRows g = [] \<or> rectangular (MapRows g)"
  shows "Announced s \<le> 1 \<and> (\<forall>s'. race_step sid s s' \<longrightarrow> work_left s' < work_left s)
    \<and> ((\<exists>s'. race_step sid s s') \<or>
       (Pc1 s = Finished None \<and> Pc2 s = Finished None \<and> Announced s = 1
        \<and> (\<exists>r. Row s = Some r \<and> IsStarted r \<and> User1Ready r \<and> User2Ready r)))"
proof -
  obtain r where r: "Row s = Some r" and d: "duel g True r (Pc1 s) (Pc2 s) (Announced s)"
    using race_inv_reach [OF assms(1-5)] by (auto simp: race_inv_def)
  have d': "duel g False r (Pc2 s) (Pc1 s) (Announced s)" using d duel_sym [of g True] by simp
  have "Announced s \<le> 1" using d by (auto simp: duel_def of_bool_def split: if_splits)
  moreover have "\<exists>s'. race_step sid s s'" if "Pc1 s \<noteq> Finished None \<or> Pc2 s \<noteq> Finished None"
    using that call_step_enabled [OF d _ assms(6,7)] call_step_enabled [OF d' _ assms(6,7)]
      race_step.first [of sid s] race_step.second [of sid s] unfolding r enabled_def by blast
  moreover have "IsStarted r \<and> User1Ready r \<and> User2Ready r \<and> Announced s = 1"
    if "Pc1 s = Finished None" "Pc2 s = Finished None"
    using that d by (auto simp: duel_def ready_of_def)
  ultimately show ?thesis using r race_step_work by blast
qed

lemma new_row_pending:
  "\<not> IsStarted (new_game_row a b c)" "\<not> HasEnded (new_game_row a b c)" "\<not> User1Ready (new_game_row a b c)"
  "\<not> User2Ready (new_game_row a b c)" "LogsColumn (new_game_row a b c) = Moves []"
  "rectangular (MapRows (new_game_row a b c))"
  by (simp_all add: new_game_row_def rectangular_def default_map_def)

theorem ready_race_witness:
  "\<exists>s'. race_step ''s'' ((race_start (new_game_row ''g'' ''a'' ''b''))\<lparr>Pc1 := Updating\<rparr>) s'"
proof -
  let ?g = "new_game_row ''g'' ''a'' ''b''"
  have "call_step ''s'' True (Some ?g) Reading (Some ?g) Updating False"
    using call_step.read [of "''s''" True "Some ?g"] new_row_pending by (simp add: after_read_def)
  then have "race_step ''s'' (race_start ?g) ((race_start ?g)\<lparr>Pc1 := Updating\<rparr>)"
    using race_step.first [of "''s''" "race_start ?g" "Some ?g" Updating False]
    by (simp add: race_start_def)
  then have "race_reach ''s'' ?g ((race_start ?g)\<lparr>Pc1 := Updating\<rparr>)"
    using race_reach.step race_reach.start by blast
  from ready_race [OF this new_row_pending(1-5)] new_row_pending(6)
  show ?thesis by (auto simp: race_start_def)
qed

end
