(* ===== verification/Autoscale.thy ===== *)
theory Autoscale imports Complex_Main Prelude begin

text \<open>
  The worker pool controller, \<open>internal/queue/autoscale/aimd.go\<close> with the types of \<open>action.go\<close>.

  Times are nanoseconds; \<open>lastScaleAt\<close> is \<open>None\<close> while it is Go's zero time.  The multiplier, a
  \<open>float64\<close> in the code, is a rational: on worker counts below \<open>2^53\<close> and the configured value 4.0
  the float product is exact.  \<open>Observe\<close> returns the action and the controller it leaves.
\<close>

section \<open>Controller\<close>

record aimd_config =
  Queue :: string
  MinWorkers :: int
  MaxWorkers :: int
  UpThresholdMultiplier :: rat
  SustainedIdleCycles :: int
  CooldownDuration :: int

record aimd_controller =
  cfg :: aimd_config
  lastScaleAt :: "int option"
  idleCycleCount :: int

record observed_metric =
  QueueDepth :: int
  CurrentWorkers :: int

datatype control_action = ActionNoOp | ActionScaleUp int | ActionScaleDown int

definition NewAIMDController :: "aimd_config \<Rightarrow> string + aimd_controller" where
  "NewAIMDController c =
    (if Queue c = '''' then Inl ''Queue must be non-empty''
     else if MinWorkers c < 0 then Inl ''MinWorkers must be >= 0''
     else if MaxWorkers c < 1 then Inl ''MaxWorkers must be >= 1''
     else if MinWorkers c > MaxWorkers c then Inl ''MinWorkers must be <= MaxWorkers''
     else if UpThresholdMultiplier c \<le> 0 then Inl ''UpThresholdMultiplier must be > 0''
     else if SustainedIdleCycles c < 1 then Inl ''SustainedIdleCycles must be >= 1''
     else if CooldownDuration c < 0 then Inl ''CooldownDuration must be >= 0''
     else Inr \<lparr>cfg = c, lastScaleAt = None, idleCycleCount = 0\<rparr>)"

definition cooling :: "aimd_controller \<Rightarrow> int \<Rightarrow> bool" where
  "cooling c now = (case lastScaleAt c of None \<Rightarrow> False | Some t \<Rightarrow> now - t < CooldownDuration (cfg c))"

lemma cooling_idle [simp]: "cooling (c\<lparr>idleCycleCount := n\<rparr>) t = cooling c t"
  by (simp add: cooling_def split: option.split)

definition Observe :: "aimd_controller \<Rightarrow> int \<Rightarrow> observed_metric \<Rightarrow> control_action \<times> aimd_controller" where
  "Observe c now metric =
    (if cooling c now then (ActionNoOp, c)
     else if CurrentWorkers metric < MinWorkers (cfg c) then
       (ActionScaleUp (MinWorkers (cfg c)), c\<lparr>idleCycleCount := 0, lastScaleAt := Some now\<rparr>)
     else if CurrentWorkers metric > 0
        \<and> of_int (QueueDepth metric) > of_int (CurrentWorkers metric) * UpThresholdMultiplier (cfg c) then
       (if CurrentWorkers metric \<ge> MaxWorkers (cfg c) then (ActionNoOp, c\<lparr>idleCycleCount := 0\<rparr>)
        else (let step = max (CurrentWorkers metric sdiv 4) 1;
                  target = min (CurrentWorkers metric + step) (MaxWorkers (cfg c))
              in (ActionScaleUp target, c\<lparr>idleCycleCount := 0, lastScaleAt := Some now\<rparr>)))
     else if QueueDepth metric = 0 then
       (if CurrentWorkers metric \<le> MinWorkers (cfg c) then (ActionNoOp, c\<lparr>idleCycleCount := 0\<rparr>)
        else (let n = idleCycleCount c + 1
              in if n \<ge> SustainedIdleCycles (cfg c) then
                   (let target = max (CurrentWorkers metric sdiv 2) (MinWorkers (cfg c))
                    in (ActionScaleDown target, c\<lparr>idleCycleCount := 0, lastScaleAt := Some now\<rparr>))
                 else (ActionNoOp, c\<lparr>idleCycleCount := n\<rparr>)))
     else (ActionNoOp, c\<lparr>idleCycleCount := 0\<rparr>))"

section \<open>A controller and its pool\<close>

text \<open>
  What the driver relies on: a scale-up goes strictly up and stays within the maximum, a scale-down goes
  strictly down and not below the minimum.  The driver asks at each tick and sets the pool to the target.
\<close>

definition apply_action :: "control_action \<Rightarrow> int \<Rightarrow> int" where
  "apply_action a workers = (case a of ActionNoOp \<Rightarrow> workers | ActionScaleUp t \<Rightarrow> t | ActionScaleDown t \<Rightarrow> t)"

locale pool_controller =
  fixes ask :: "'c \<Rightarrow> int \<Rightarrow> observed_metric \<Rightarrow> control_action \<times> 'c"
    and sane :: "'c \<Rightarrow> bool" and lo :: "'c \<Rightarrow> int" and hi :: "'c \<Rightarrow> int"
  assumes sane_next: "sane c \<Longrightarrow> sane (snd (ask c now m)) \<and> lo (snd (ask c now m)) = lo c \<and> hi (snd (ask c now m)) = hi c"
    and goes_up: "sane c \<Longrightarrow> fst (ask c now m) = ActionScaleUp t \<Longrightarrow> CurrentWorkers m < t \<and> lo c \<le> t \<and> t \<le> hi c"
    and goes_down: "sane c \<Longrightarrow> fst (ask c now m) = ActionScaleDown t \<Longrightarrow> t < CurrentWorkers m \<and> lo c \<le> t"
begin

definition tick :: "'c \<times> int \<Rightarrow> int \<times> int \<Rightarrow> 'c \<times> int" where
  "tick s obs = (let (c, workers) = s; (now, depth) = obs;
      (a, c') = ask c now \<lparr>QueueDepth = depth, CurrentWorkers = workers\<rparr>
     in (c', apply_action a workers))"

lemma tick_keeps:
  "sane (fst s) \<Longrightarrow> snd s \<le> hi (fst s) \<Longrightarrow>
   sane (fst (tick s obs)) \<and> hi (fst (tick s obs)) = hi (fst s) \<and> lo (fst (tick s obs)) = lo (fst s)
     \<and> snd (tick s obs) \<le> hi (fst s) \<and> (lo (fst s) \<le> snd s \<longrightarrow> lo (fst s) \<le> snd (tick s obs))"
proof -
  obtain c w now d where s: "s = (c, w)" "obs = (now, d)" by (cases s; cases obs)
  obtain a c' where a: "ask c now \<lparr>QueueDepth = d, CurrentWorkers = w\<rparr> = (a, c')" by fastforce
  assume "sane (fst s)" "snd s \<le> hi (fst s)"
  then show ?thesis
    using s a sane_next [of c now "\<lparr>QueueDepth = d, CurrentWorkers = w\<rparr>"]
      goes_up [of c now "\<lparr>QueueDepth = d, CurrentWorkers = w\<rparr>"]
      goes_down [of c now "\<lparr>QueueDepth = d, CurrentWorkers = w\<rparr>"]
    by (cases a) (fastforce simp: tick_def apply_action_def)+
qed

lemma pool_bounded:
  "sane c \<Longrightarrow> lo c \<le> w \<Longrightarrow> w \<le> hi c \<Longrightarrow>
   lo c \<le> snd (run_steps tick (c, w) obs) \<and> snd (run_steps tick (c, w) obs) \<le> hi c"
proof (induction obs arbitrary: c w)
  case (Cons ob obs)
  obtain c' w' where t: "tick (c, w) ob = (c', w')" by fastforce
  then have "sane c'" "lo c' = lo c" "hi c' = hi c" "lo c \<le> w'" "w' \<le> hi c"
    using tick_keeps [of "(c, w)" ob] Cons.prems by auto
  then show ?case using Cons.IH [of c' w'] t by simp
qed simp

end

definition config_ok :: "aimd_config \<Rightarrow> bool" where
  "config_ok c \<longleftrightarrow> 0 \<le> MinWorkers c \<and> 1 \<le> MaxWorkers c \<and> MinWorkers c \<le> MaxWorkers c
     \<and> 0 < UpThresholdMultiplier c \<and> 1 \<le> SustainedIdleCycles c \<and> 0 \<le> CooldownDuration c"

lemma NewAIMDController_ok: "NewAIMDController c = Inr k \<Longrightarrow> config_ok (cfg k) \<and> cfg k = c"
  by (auto simp: NewAIMDController_def config_ok_def split: if_splits)

lemma Observe_cfg [simp]: "cfg (snd (Observe c now m)) = cfg c"
  by (simp add: Observe_def Let_def)

lemma quarter: "0 < w \<Longrightarrow> w sdiv 4 \<le> (w :: int)"
  by simp

lemma half_less: "0 < w \<Longrightarrow> w sdiv 2 < (w :: int)"
  by simp

interpretation aimd: pool_controller Observe "\<lambda>c. config_ok (cfg c)" "\<lambda>c. MinWorkers (cfg c)" "\<lambda>c. MaxWorkers (cfg c)"
  by unfold_locales
    (auto simp: Observe_def Let_def config_ok_def split: if_splits)

section \<open>Properties\<close>

definition default_config :: aimd_config where
  "default_config = \<lparr>Queue = ''deliver'', MinWorkers = 1, MaxWorkers = 10, UpThresholdMultiplier = 4,
     SustainedIdleCycles = 5, CooldownDuration = 1000000000\<rparr>"

definition default_controller :: aimd_controller where
  "default_controller = \<lparr>cfg = default_config, lastScaleAt = None, idleCycleCount = 0\<rparr>"

lemma default_ok: "NewAIMDController default_config = Inr default_controller" "config_ok default_config"
  by (simp_all add: NewAIMDController_def default_controller_def default_config_def config_ok_def)

text \<open>A controller built by \<open>NewAIMDController\<close> scales up only to a strictly larger pool within the bounds, scales
  down only to a strictly smaller one not below the minimum, proposes nothing while cooling down, and
  outside the cool-down always brings a pool below the minimum back to it, whatever the queue depth (so a pool of
  zero workers is never stuck unless zero is the configured minimum).\<close>

theorem Observe_actions:
  assumes "NewAIMDController conf = Inr k" "cfg c = cfg k"
  shows "(case fst (Observe c now m) of
        ActionNoOp \<Rightarrow> cooling c now \<or> MinWorkers conf \<le> CurrentWorkers m
      | ActionScaleUp t \<Rightarrow> CurrentWorkers m < t \<and> MinWorkers conf \<le> t \<and> t \<le> MaxWorkers conf
      | ActionScaleDown t \<Rightarrow> t < CurrentWorkers m \<and> MinWorkers conf \<le> t)
    \<and> (if cooling c now then Observe c now m = (ActionNoOp, c) else True)"
proof -
  have k: "config_ok (cfg c)" "cfg c = conf" using NewAIMDController_ok [OF assms(1)] assms(2) by auto
  have n: "fst (Observe c now m) = ActionNoOp \<Longrightarrow> cooling c now \<or> MinWorkers conf \<le> CurrentWorkers m"
    using k(2) by (auto simp: Observe_def Let_def split: if_splits)
  have "cooling c now \<Longrightarrow> Observe c now m = (ActionNoOp, c)" by (simp add: Observe_def)
  then show ?thesis
    using n aimd.goes_up [OF k(1), of now m] aimd.goes_down [OF k(1), of now m] k(2)
    by (cases "fst (Observe c now m)") simp_all
qed

theorem Observe_actions_witness:
  "fst (Observe default_controller 0 \<lparr>QueueDepth = 0, CurrentWorkers = 0\<rparr>) = ActionScaleUp 1
   \<and> fst (Observe default_controller 0 \<lparr>QueueDepth = 100, CurrentWorkers = 8\<rparr>) = ActionScaleUp 10"
proof -
  have "cfg default_controller = cfg default_controller" by simp
  note Observe_actions [OF default_ok(1) this, of 0 "\<lparr>QueueDepth = 0, CurrentWorkers = 0\<rparr>"]
  then show ?thesis
    by (auto simp: Observe_def cooling_def default_controller_def default_config_def Let_def
        split: control_action.splits)
qed

fun decisions :: "aimd_controller \<Rightarrow> (int \<times> observed_metric) list \<Rightarrow> (int \<times> control_action) list" where
  "decisions c [] = []"
| "decisions c ((now, m) # obs) = (now, fst (Observe c now m)) # decisions (snd (Observe c now m)) obs"

definition scale_times :: "(int \<times> control_action) list \<Rightarrow> int list" where
  "scale_times ds = map fst (filter (\<lambda>d. snd d \<noteq> ActionNoOp) ds)"

lemma Observe_last:
  "lastScaleAt (snd (Observe c now m))
     = (if fst (Observe c now m) = ActionNoOp then lastScaleAt c else Some now)"
  "fst (Observe c now m) \<noteq> ActionNoOp \<Longrightarrow> \<not> cooling c now"
  by (auto simp: Observe_def Let_def)

lemma scale_times_spaced:
  "0 \<le> CooldownDuration (cfg c) \<Longrightarrow>
   sorted_wrt (\<lambda>s t. s + CooldownDuration (cfg c) \<le> t) (scale_times (decisions c obs))
   \<and> (\<forall>s. lastScaleAt c = Some s \<longrightarrow> (\<forall>t \<in> set (scale_times (decisions c obs)). s + CooldownDuration (cfg c) \<le> t))"
proof (induction obs arbitrary: c)
  case (Cons ob obs)
  obtain now m where ob: "ob = (now, m)" by fastforce
  let ?c = "snd (Observe c now m)"
  have IH: "sorted_wrt (\<lambda>s t. s + CooldownDuration (cfg c) \<le> t) (scale_times (decisions ?c obs))"
    "\<And>s. lastScaleAt ?c = Some s \<Longrightarrow> \<forall>t \<in> set (scale_times (decisions ?c obs)). s + CooldownDuration (cfg c) \<le> t"
    using Cons.IH [of ?c] Cons.prems by simp_all
  show ?case
  proof (cases "fst (Observe c now m) = ActionNoOp")
    case True
    then show ?thesis using IH Observe_last(1) [of c now m] by (simp add: ob scale_times_def)
  next
    case False
    have l: "lastScaleAt ?c = Some now" using False Observe_last(1) [of c now m] by simp
    have st: "scale_times (decisions c (ob # obs)) = now # scale_times (decisions ?c obs)"
      using False by (simp add: ob scale_times_def)
    have "s + CooldownDuration (cfg c) \<le> now" if "lastScaleAt c = Some s" for s
      using Observe_last(2) [OF False] that by (simp add: cooling_def)
    then show ?thesis using IH(1) IH(2) [OF l] Cons.prems unfolding st by fastforce
  qed
qed (simp add: scale_times_def)

text \<open>The cool-down bounds the oscillation: whatever the observations, any two scale events of one controller are at
  least \<open>CooldownDuration\<close> apart.\<close>

theorem cooldown_between_scales:
  assumes "NewAIMDController conf = Inr c"
  shows "sorted_wrt (\<lambda>s t. s + CooldownDuration conf \<le> t) (scale_times (decisions c obs))"
proof -
  have c: "cfg c = conf" "0 \<le> CooldownDuration (cfg c)"
    using NewAIMDController_ok [OF assms] by (auto simp: config_ok_def)
  show ?thesis using scale_times_spaced [OF c(2), of obs] unfolding c(1) by blast
qed

theorem cooldown_between_scales_witness:
  "sorted_wrt (\<lambda>s t. s + 1000000000 \<le> t) (scale_times (decisions default_controller
     [(0, \<lparr>QueueDepth = 50, CurrentWorkers = 1\<rparr>), (500000000, \<lparr>QueueDepth = 50, CurrentWorkers = 2\<rparr>),
      (1000000000, \<lparr>QueueDepth = 50, CurrentWorkers = 2\<rparr>)]))
   \<and> CooldownDuration default_config = 1000000000"
proof -
  have cd: "CooldownDuration default_config = 1000000000" by (simp add: default_config_def)
  show ?thesis using cooldown_between_scales [OF default_ok(1), unfolded cd] cd by blast
qed

text \<open>The pool as the driver moves it: one tick of the controller, the target applied.\<close>

definition pool_tick :: "aimd_controller \<times> int \<Rightarrow> int \<times> int \<Rightarrow> aimd_controller \<times> int" where
  "pool_tick s obs = (let m = \<lparr>QueueDepth = snd obs, CurrentWorkers = snd s\<rparr>
     in (snd (Observe (fst s) (fst obs) m), apply_action (fst (Observe (fst s) (fst obs) m)) (snd s)))"

lemma pool_tick_eq: "pool_tick = aimd.tick"
  by (auto simp: fun_eq_iff pool_tick_def aimd.tick_def Let_def split: prod.splits)

text \<open>The pool never leaves its bounds: starting between the minimum and the maximum, whatever depths are observed
  at whatever times, the number of workers the driver sets stays between them.\<close>

theorem pool_within_bounds:
  assumes "config_ok (cfg c)" "MinWorkers (cfg c) \<le> w" "w \<le> MaxWorkers (cfg c)"
  shows "MinWorkers (cfg c) \<le> snd (run_steps pool_tick (c, w) obs)
    \<and> snd (run_steps pool_tick (c, w) obs) \<le> MaxWorkers (cfg c)"
  unfolding pool_tick_eq by (rule aimd.pool_bounded [OF assms])

theorem pool_within_bounds_witness:
  "snd (run_steps pool_tick (default_controller, 1) [(0, 100), (2000000000, 100)]) \<le> 10"
proof -
  have "config_ok (cfg default_controller)" "MinWorkers (cfg default_controller) \<le> 1"
    "1 \<le> MaxWorkers (cfg default_controller)" "MaxWorkers (cfg default_controller) = 10"
    using default_ok(2) by (simp_all add: default_controller_def default_config_def)
  then show ?thesis using pool_within_bounds by metis
qed

lemma overload_tick:
  assumes "config_ok (cfg c)" "\<not> cooling c t" "0 < w \<or> 0 < MinWorkers (cfg c)" "0 \<le> w" "w < MaxWorkers (cfg c)"
    and "of_int (MaxWorkers (cfg c)) * UpThresholdMultiplier (cfg c) < of_int d"
  shows "w < snd (pool_tick (c, w) (t, d)) \<and> lastScaleAt (fst (pool_tick (c, w) (t, d))) = Some t
    \<and> 0 < snd (pool_tick (c, w) (t, d))"
proof -
  have "(of_int w :: rat) \<le> of_int (MaxWorkers (cfg c))" using assms(5) by simp
  moreover have "0 \<le> UpThresholdMultiplier (cfg c)" using assms(1) by (simp add: config_ok_def)
  ultimately have "of_int w * UpThresholdMultiplier (cfg c) < of_int d"
    using assms(6) mult_right_mono le_less_trans by blast
  then show ?thesis using assms
    by (auto simp: pool_tick_def Observe_def Let_def apply_action_def config_ok_def)
qed

lemma full_tick:
  assumes "config_ok (cfg c)" "w = MaxWorkers (cfg c)" "\<not> cooling c t"
    and "of_int (MaxWorkers (cfg c)) * UpThresholdMultiplier (cfg c) < of_int d"
  shows "pool_tick (c, w) (t, d) = (c\<lparr>idleCycleCount := 0\<rparr>, w)"
  using assms by (auto simp: pool_tick_def Observe_def Let_def apply_action_def config_ok_def)

lemma backlog_fills:
  assumes "of_int (MaxWorkers conf) * UpThresholdMultiplier conf < of_int d" "config_ok conf"
  shows "cfg c = conf \<Longrightarrow> 0 < w \<or> 0 < MinWorkers conf \<Longrightarrow> 0 \<le> w \<Longrightarrow> w \<le> MaxWorkers conf
    \<Longrightarrow> sorted_wrt (\<lambda>s t. s + CooldownDuration conf \<le> t) ts \<Longrightarrow> \<forall>t \<in> set ts. \<not> cooling c t
    \<Longrightarrow> min (MaxWorkers conf) (w + int (length ts))
        \<le> snd (run_steps pool_tick (c, w) (map (\<lambda>t. (t, d)) ts))"
proof (induction ts arbitrary: c w)
  case (Cons t ts)
  obtain c' w' where p: "pool_tick (c, w) (t, d) = (c', w')" by fastforce
  have c': "cfg c' = conf" using p Cons.prems(1) by (auto simp: pool_tick_def Let_def)
  have ok: "config_ok (cfg c)" using assms(2) Cons.prems(1) by simp
  show ?case
  proof (cases "w < MaxWorkers conf")
    case True
    have g: "w < w'" "lastScaleAt c' = Some t" "0 < w'"
      using overload_tick [OF ok, of t w d] Cons.prems True assms(1) p by auto
    have "w' \<le> MaxWorkers conf"
      using aimd.tick_keeps [of "(c, w)" "(t, d)"] ok Cons.prems(1,4) p by (simp add: pool_tick_eq)
    moreover have "\<forall>u \<in> set ts. \<not> cooling c' u" using Cons.prems(5) g(2) c' by (fastforce simp: cooling_def)
    ultimately have "min (MaxWorkers conf) (w' + int (length ts))
        \<le> snd (run_steps pool_tick (c', w') (map (\<lambda>t. (t, d)) ts))"
      using Cons.IH [of c' w'] c' g Cons.prems(5) by simp
    then show ?thesis using p g(1) by auto
  next
    case False
    then have w: "w = MaxWorkers (cfg c)" using Cons.prems by simp
    then have n: "w' = w \<and> c' = c\<lparr>idleCycleCount := 0\<rparr>"
      using full_tick [OF ok w _ , of t d] assms(1) Cons.prems p by auto
    then have "\<forall>u \<in> set ts. \<not> cooling c' u" using Cons.prems(6) by simp
    then have "min (MaxWorkers conf) (w' + int (length ts))
        \<le> snd (run_steps pool_tick (c', w') (map (\<lambda>t. (t, d)) ts))"
      using Cons.IH [of c' w'] c' n Cons.prems by simp
    then show ?thesis using p w n Cons.prems(1) by simp
  qed
qed simp

text \<open>C28. A sustained backlog gets the whole pool: when the depth stays above the threshold of the full pool and the ticks
  are at least a cool-down apart, the pool reaches its maximum after at most as many ticks as workers are
  missing, and stays there.  The only exception is a pool configured to zero workers that is at zero.\<close>

theorem backlog_fills_pool:
  assumes "of_int (MaxWorkers (cfg c)) * UpThresholdMultiplier (cfg c) < of_int d" "config_ok (cfg c)"
    and "0 < w \<or> 0 < MinWorkers (cfg c)" "0 \<le> w" "w \<le> MaxWorkers (cfg c)"
    and "sorted_wrt (\<lambda>s t. s + CooldownDuration (cfg c) \<le> t) ts" "\<forall>t \<in> set ts. \<not> cooling c t"
    and "MaxWorkers (cfg c) - w \<le> int (length ts)" "MinWorkers (cfg c) \<le> w"
  shows "snd (run_steps pool_tick (c, w) (map (\<lambda>t. (t, d)) ts)) = MaxWorkers (cfg c)"
proof -
  have "MaxWorkers (cfg c) \<le> snd (run_steps pool_tick (c, w) (map (\<lambda>t. (t, d)) ts))"
    using backlog_fills [OF assms(1,2) refl assms(3-7)] assms(8) by simp
  moreover have "snd (run_steps pool_tick (c, w) (map (\<lambda>t. (t, d)) ts)) \<le> MaxWorkers (cfg c)"
    unfolding pool_tick_eq using aimd.pool_bounded [OF assms(2,9,5)] by blast
  ultimately show ?thesis by simp
qed

theorem backlog_fills_pool_witness:
  "snd (run_steps pool_tick (default_controller, 8) (map (\<lambda>t. (t, 1000)) [0, 1000000000])) = 10"
proof -
  have c: "cfg default_controller = default_config" by (simp add: default_controller_def)
  have "of_int (MaxWorkers (cfg default_controller)) * UpThresholdMultiplier (cfg default_controller) < of_int 1000"
    "config_ok (cfg default_controller)"
    using default_ok(2) by (simp_all add: c) (simp add: default_config_def)
  from backlog_fills_pool [OF this, of 8 "[0, 1000000000]"] show ?thesis
    by (simp add: c cooling_def default_controller_def default_config_def)
qed

section \<open>Where the comments and the code differ\<close>

lemma Observe_rounds_down:
  \<comment> \<open>the comment promises a step of \<open>max(1, ceil(N * 0.25))\<close>: 2 for five workers; the code takes 1\<close>
  "fst (Observe default_controller 0 \<lparr>QueueDepth = 100, CurrentWorkers = 5\<rparr>) = ActionScaleUp 6"
  by (simp add: Observe_def cooling_def default_controller_def default_config_def Let_def)

lemma Observe_above_maximum:
  \<comment> \<open>the comment promises targets within the bounds; an idle pool of more than twice the maximum gets a target above it\<close>
  "fst (Observe (default_controller\<lparr>idleCycleCount := 4\<rparr>) 0 \<lparr>QueueDepth = 0, CurrentWorkers = 40\<rparr>) = ActionScaleDown 20
   \<and> MaxWorkers default_config = 10"
  by (simp add: Observe_def cooling_def default_controller_def default_config_def Let_def)

end
