(* ===== verification/Safe_Math.thy ===== *)
theory Safe_Math imports Prelude begin

text \<open>
  Saturating arithmetic of \<open>internal/safemath/safemath.go\<close> on \<open>int64\<close>, as 64-bit words read with \<open>sint\<close>.
  The sums wrap where Go's would; the lemmas show that the guards keep them from wrapping.  The
  \<open>float64\<close> conversions of that file are in \<open>Go_Float\<close>.
\<close>

type_synonym int64 = "64 word"

definition MaxInt64 :: int64 where "MaxInt64 = 0x7FFFFFFFFFFFFFFF"
definition MinInt64 :: int64 where "MinInt64 = 0x8000000000000000"

definition NegateInt64 :: "int64 \<Rightarrow> int64" where
  "NegateInt64 value = (if value = MinInt64 then MaxInt64 else - value)"

fun add_from :: "int64 \<Rightarrow> int64 list \<Rightarrow> int64" where
  "add_from acc [] = acc"
| "add_from acc (value # values) =
    (if 0 <s value \<and> MaxInt64 - value <s acc then MaxInt64
     else if value <s 0 \<and> acc <s MinInt64 - value then MinInt64
     else add_from (acc + value) values)"

definition AddInt64 :: "int64 list \<Rightarrow> int64" where
  "AddInt64 values = add_from 0 values"

fun exceeds_from :: "int64 \<Rightarrow> int64 \<Rightarrow> int64 list \<Rightarrow> bool" where
  "exceeds_from limit acc [] = False"
| "exceeds_from limit acc (value # values) =
    (if value <s 0 \<or> limit - acc <s value then True else exceeds_from limit (acc + value) values)"

definition SumExceedsInt64 :: "int64 \<Rightarrow> int64 list \<Rightarrow> bool" where
  "SumExceedsInt64 limit values = (if limit <s 0 then True else exceeds_from limit 0 values)"

section \<open>Lemmas\<close>

abbreviation max64 :: int where "max64 \<equiv> 2 ^ 63 - 1"
abbreviation min64 :: int where "min64 \<equiv> - (2 ^ 63)"

lemma sint_bounds: "min64 \<le> sint (v :: int64)" "sint (v :: int64) \<le> max64"
  using sint_ge [of v] sint_lt [of v] by simp_all

lemma sint_of_int: "min64 \<le> i \<Longrightarrow> i \<le> max64 \<Longrightarrow> sint (of_int i :: int64) = i"
  by transfer (simp add: signed_take_bit_int_eq_self)

lemma sint_add_in:
  "min64 \<le> sint a + sint b \<Longrightarrow> sint a + sint b \<le> max64 \<Longrightarrow> sint (a + b :: int64) = sint a + sint b"
  using sint_of_int [of "sint a + sint b"] by simp

lemma sint_sub_in:
  "min64 \<le> sint a - sint b \<Longrightarrow> sint a - sint b \<le> max64 \<Longrightarrow> sint (a - b :: int64) = sint a - sint b"
  using sint_of_int [of "sint a - sint b"] by simp

lemma sint_limits [simp]: "sint MaxInt64 = max64" "sint MinInt64 = min64"
  by (simp_all add: MaxInt64_def MinInt64_def)

text \<open>The mathematical meaning of the sums.\<close>

definition clamp :: "int \<Rightarrow> int" where
  "clamp i = max min64 (min max64 i)"

fun saturating :: "int \<Rightarrow> int list \<Rightarrow> int" where
  \<comment> \<open>add in order, stop at the first overflow\<close>
  "saturating acc [] = acc"
| "saturating acc (v # vs) =
    (if acc + v = clamp (acc + v) then saturating (acc + v) vs else clamp (acc + v))"

lemma add_from_saturating: "sint (add_from acc vs) = saturating (sint acc) (map sint vs)"
proof (induction vs arbitrary: acc)
  case (Cons v vs)
  note b = sint_bounds [of v] sint_bounds [of acc]
  have up: "0 <s v \<and> MaxInt64 - v <s acc \<longleftrightarrow> max64 < sint acc + sint v"
    using b sint_sub_in [of MaxInt64 v] by (auto simp: word_sless_alt)
  have dn: "v <s 0 \<and> acc <s MinInt64 - v \<longleftrightarrow> sint acc + sint v < min64"
    using b sint_sub_in [of MinInt64 v] by (auto simp: word_sless_alt)
  show ?case
  proof (cases "max64 < sint acc + sint v \<or> sint acc + sint v < min64")
    case True
    then show ?thesis unfolding add_from.simps up dn by (auto simp: clamp_def)
  next
    case False
    then have "sint (acc + v) = sint acc + sint v" using sint_add_in [of acc v] by simp
    then show ?thesis using False Cons.IH [of "acc + v"] unfolding add_from.simps up dn
      by (auto simp: clamp_def)
  qed
qed simp

lemma saturating_exact:
  "\<forall>n \<le> length vs. min64 \<le> acc + sum_list (take n vs) \<and> acc + sum_list (take n vs) \<le> max64
   \<Longrightarrow> saturating acc vs = acc + sum_list vs"
proof (induction vs arbitrary: acc)
  case (Cons v vs)
  have "\<forall>n \<le> length vs. min64 \<le> (acc + v) + sum_list (take n vs) \<and> (acc + v) + sum_list (take n vs) \<le> max64"
  proof (intro allI impI)
    fix n assume "n \<le> length vs"
    then show "min64 \<le> (acc + v) + sum_list (take n vs) \<and> (acc + v) + sum_list (take n vs) \<le> max64"
      using Cons.prems [rule_format, of "Suc n"] by (simp add: add.assoc)
  qed
  moreover have "acc + v = clamp (acc + v)"
    using Cons.prems [rule_format, of 1] by (simp add: clamp_def)
  ultimately show ?case using Cons.IH [of "acc + v"] by simp
qed simp

lemma saturating_nonneg:
  "\<forall>v \<in> set vs. 0 \<le> v \<Longrightarrow> 0 \<le> acc \<Longrightarrow> acc \<le> max64 \<Longrightarrow> saturating acc vs = min max64 (acc + sum_list vs)"
proof (induction vs arbitrary: acc)
  case (Cons v vs)
  have "0 \<le> sum_list vs" using Cons.prems by (intro sum_list_nonneg) simp
  then show ?case using Cons.prems Cons.IH [of "acc + v"] by (auto simp: clamp_def)
qed simp

lemma exceeds_from_iff:
  "0 \<le> sint limit \<Longrightarrow> 0 \<le> sint acc \<Longrightarrow> sint acc \<le> sint limit \<Longrightarrow>
   exceeds_from limit acc vs \<longleftrightarrow> (\<exists>v \<in> set vs. sint v < 0) \<or> sint limit < sint acc + sum_list (map sint vs)"
proof (induction vs arbitrary: acc)
  case (Cons v vs)
  note b = sint_bounds [of v] sint_bounds [of limit]
  have d: "sint (limit - acc) = sint limit - sint acc" using Cons.prems b by (intro sint_sub_in) simp_all
  show ?case
  proof (cases "v <s 0 \<or> limit - acc <s v")
    case True
    then show ?thesis
    proof (cases "sint v < 0 \<or> (\<exists>u \<in> set vs. sint u < 0)")
      case False
      then have "0 \<le> sum_list (map sint vs)" by (intro sum_list_nonneg) auto
      then show ?thesis using True False d by (auto simp: word_sless_alt)
    qed auto
  next
    case False
    then have v: "0 \<le> sint v" "sint acc + sint v \<le> sint limit" using d by (auto simp: word_sless_alt)
    then have "sint (acc + v) = sint acc + sint v" using Cons.prems b by (intro sint_add_in) simp_all
    then show ?thesis using False v Cons.IH [of "acc + v"] Cons.prems by (auto simp: word_sless_alt)
  qed
qed simp

section \<open>Properties\<close>

text \<open>\<open>AddInt64\<close> never wraps: it is the exact sum when no prefix sum leaves the \<open>int64\<close> range, it is the
  sum cut off at the maximum when nothing is negative, and in general it stops at the first overflow with
  the limit on that side.\<close>

theorem AddInt64_saturates:
  "sint (AddInt64 vs) = saturating 0 (map sint vs)
   \<and> ((\<forall>n \<le> length vs. min64 \<le> sum_list (take n (map sint vs)) \<and> sum_list (take n (map sint vs)) \<le> max64)
       \<longrightarrow> sint (AddInt64 vs) = sum_list (map sint vs))
   \<and> ((\<forall>v \<in> set vs. 0 \<le> sint v) \<longrightarrow> sint (AddInt64 vs) = min max64 (sum_list (map sint vs)))"
  using add_from_saturating [of 0 vs] saturating_exact [of "map sint vs" 0]
    saturating_nonneg [of "map sint vs" 0]
  by (simp add: AddInt64_def)

theorem AddInt64_saturates_witness:
  "AddInt64 [MaxInt64, 1, - 1] = MaxInt64 \<and> sint (AddInt64 [5, - 7]) = - 2"
proof
  have "sint (AddInt64 [MaxInt64, 1, - 1]) = sint MaxInt64"
    using AddInt64_saturates [of "[MaxInt64, 1, - 1]"] by (simp add: clamp_def)
  then show "AddInt64 [MaxInt64, 1, - 1] = MaxInt64" using signed_word_eqI by metis
  show "sint (AddInt64 [5, - 7]) = - 2" using AddInt64_saturates [of "[5, - 7]"] by (simp add: clamp_def)
qed

text \<open>\<open>SumExceedsInt64\<close> compares the mathematical sum: for a non-negative limit it answers true exactly when some
  value is negative or the true sum is above the limit, however large, and always for a negative limit.
  \<open>NegateInt64\<close> is the negation, cut off at the maximum.\<close>

theorem SumExceedsInt64_exact:
  "(SumExceedsInt64 limit vs \<longleftrightarrow>
      sint limit < 0 \<or> (\<exists>v. v \<in> set vs \<and> sint v < 0) \<or> sint limit < sum_list (map sint vs))
   \<and> sint (NegateInt64 v) = min max64 (- sint v)"
proof
  show "SumExceedsInt64 limit vs \<longleftrightarrow>
      sint limit < 0 \<or> (\<exists>v. v \<in> set vs \<and> sint v < 0) \<or> sint limit < sum_list (map sint vs)"
    using exceeds_from_iff [of limit 0 vs] by (auto simp: SumExceedsInt64_def word_sless_alt)
  have "v \<noteq> MinInt64 \<Longrightarrow> sint v \<noteq> min64" using sint_limits(2) signed_word_eqI by metis
  then show "sint (NegateInt64 v) = min max64 (- sint v)"
    using sint_bounds [of v] sint_sub_in [of 0 v] by (auto simp: NegateInt64_def)
qed

end
