(* ===== verification/Go_Float.thy ===== *)
theory Go_Float imports Prelude Complex_Main begin

text \<open>
  float64 values, and the conversions of internal/safemath/safemath.go.

  A value is a rational, a NaN or an infinity.  The result of an operation is the exact result rounded by
  \<open>rnd\<close>, an argument; \<open>ieee rnd\<close> states what the properties use of rounding: it is monotone and exact on
  integers up to \<open>2 ^ 53\<close>.  The host's \<open>int\<close> has 64 bits.
\<close>

datatype float64 = Finite rat | NaN | PosInf | NegInf

definition trunc_rat :: "rat \<Rightarrow> int" where
  "trunc_rat q = (if 0 \<le> q then \<lfloor>q\<rfloor> else \<lceil>q\<rceil>)"

fun float_le :: "float64 \<Rightarrow> float64 \<Rightarrow> bool" where
  "float_le (Finite p) (Finite q) = (p \<le> q)"
| "float_le NegInf (Finite q) = True"
| "float_le NegInf NegInf = True"
| "float_le NegInf PosInf = True"
| "float_le (Finite p) PosInf = True"
| "float_le PosInf PosInf = True"
| "float_le _ _ = False"

definition float_div :: "(rat \<Rightarrow> float64) \<Rightarrow> float64 \<Rightarrow> float64 \<Rightarrow> float64" where
  \<comment> \<open>for a divisor that is not zero\<close>
  "float_div rnd a b = (case (a, b) of
       (Finite p, Finite q) \<Rightarrow> rnd (p / q)
     | (Finite p, PosInf) \<Rightarrow> Finite 0 | (Finite p, NegInf) \<Rightarrow> Finite 0
     | (PosInf, Finite q) \<Rightarrow> if q > 0 then PosInf else NegInf
     | (NegInf, Finite q) \<Rightarrow> if q > 0 then NegInf else PosInf
     | _ \<Rightarrow> NaN)"

definition float_mul :: "(rat \<Rightarrow> float64) \<Rightarrow> float64 \<Rightarrow> float64 \<Rightarrow> float64" where
  "float_mul rnd a b = (let sign = (\<lambda>x. case x of Finite q \<Rightarrow> sgn q | PosInf \<Rightarrow> 1 | NegInf \<Rightarrow> - 1 | NaN \<Rightarrow> 0);
       inf = (\<lambda>s :: rat. if s > 0 then PosInf else if s < 0 then NegInf else NaN) in
     case (a, b) of
       (Finite p, Finite q) \<Rightarrow> rnd (p * q)
     | (NaN, _) \<Rightarrow> NaN | (_, NaN) \<Rightarrow> NaN
     | _ \<Rightarrow> inf (sign a * sign b))"

definition Float64ToInt :: "float64 \<Rightarrow> int" where
  \<comment> \<open>\<open>Float64ToInt64\<close> is the same code at 64 bits; \<open>float64(math.MaxInt)\<close> is \<open>2 ^ 63\<close>\<close>
  "Float64ToInt v = (case v of
       NaN \<Rightarrow> 0
     | PosInf \<Rightarrow> 2 ^ 63 - 1
     | NegInf \<Rightarrow> - (2 ^ 63)
     | Finite q \<Rightarrow> if q \<ge> 2 ^ 63 then 2 ^ 63 - 1 else if q \<le> - (2 ^ 63) then - (2 ^ 63) else trunc_rat q)"

definition MulFloat64 :: "(rat \<Rightarrow> float64) \<Rightarrow> float64 \<Rightarrow> int \<Rightarrow> int" where
  "MulFloat64 rnd v unit = Float64ToInt (float_mul rnd v (rnd (of_int unit)))"

definition ieee :: "(rat \<Rightarrow> float64) \<Rightarrow> bool" where
  "ieee rnd \<longleftrightarrow> (\<forall>p q. p \<le> q \<longrightarrow> float_le (rnd p) (rnd q)) \<and> (\<forall>i. \<bar>i\<bar> \<le> 2 ^ 53 \<longrightarrow> rnd (of_int i) = Finite (of_int i))"

lemma trunc_rat_mono: "p \<le> q \<Longrightarrow> trunc_rat p \<le> trunc_rat q"
  by (auto simp: trunc_rat_def intro: floor_mono ceiling_mono order_trans [of "\<lceil>p\<rceil>" 0])

lemma trunc_rat_int [simp]: "trunc_rat (of_int i) = i"
  by (simp add: trunc_rat_def)

lemma trunc_rat_range: "- (2 ^ 63) < q \<Longrightarrow> q < 2 ^ 63 \<Longrightarrow> - (2 ^ 63) \<le> trunc_rat q \<and> trunc_rat q \<le> 2 ^ 63 - 1"
proof -
  assume q: "- (2 ^ 63) < q" "q < 2 ^ 63"
  have "\<lfloor>q\<rfloor> < 2 ^ 63" using q(2) by (simp add: floor_less_iff)
  moreover have "- (2 ^ 63) < \<lceil>q\<rceil>" using q(1) by (simp add: less_ceiling_iff)
  ultimately show ?thesis using q by (auto simp: trunc_rat_def)
qed

lemma Float64ToInt_range: "- (2 ^ 63) \<le> Float64ToInt v \<and> Float64ToInt v \<le> 2 ^ 63 - 1"
  using trunc_rat_range by (cases v) (auto simp: Float64ToInt_def not_le)

lemma Float64ToInt_mono: "float_le a b \<Longrightarrow> Float64ToInt a \<le> Float64ToInt b"
proof (induction a b rule: float_le.induct)
  case (1 p q)
  then have pq: "p \<le> q" by simp
  note t = trunc_rat_range [of p] trunc_rat_range [of q] trunc_rat_mono [OF pq]
  from pq t show ?case by (auto simp: Float64ToInt_def not_le)
qed (use trunc_rat_range in \<open>auto simp: Float64ToInt_def not_le\<close>)

lemma Float64ToInt_int: "\<bar>i\<bar> \<le> 2 ^ 53 \<Longrightarrow> Float64ToInt (Finite (of_int i)) = i"
proof -
  assume "\<bar>i\<bar> \<le> 2 ^ 53"
  then have "i < 2 ^ 63" "- (2 ^ 63) < i" by simp_all
  then have "(of_int i :: rat) < 2 ^ 63" "- (2 ^ 63) < (of_int i :: rat)"
    by (metis of_int_less_iff of_int_numeral of_int_power of_int_minus)+
  then show ?thesis by (simp add: Float64ToInt_def)
qed

end
