(* ===== verification/Delivery_Breaker.thy ===== *)
theory Delivery_Breaker imports Prelude begin

text \<open>
  The circuit breaker of outbound deliveries, \<open>internal/core/deliveryhealth/breaker.go\<close>.

  All state is in Redis.  A \<open>host_state\<close> holds the keys of one host, each with its expiry in Unix
  milliseconds (a hash without a TTL has \<open>None\<close>): the failure hash (fields \<open>f o i p\<close>), the probe
  lock, the 429 hold, the last reserved slot and the reservations by job.  The Lua scripts are the
  functions \<open>*_script\<close>; a script runs atomically, so one call is one step.  A key is there up to and including
  its expiry time, as in Redis, and the node's clock and the Redis server's are the same.
  The index sorted set is \<open>Index\<close>.  A Redis error makes \<open>Check\<close> allow and the others do nothing; it
  is the argument \<open>up\<close>.
\<close>

section \<open>State\<close>

record failure_hash =
  Failures :: int
  OpenedAt :: int
  Interval :: "int option"
  NextProbe :: int

record host_state =
  Breaker :: "(failure_hash \<times> int option) option"
  Probe :: "(string \<times> int) option"
  Throttled :: "int option"
  Slot :: "(int \<times> int) option"
  Reservations :: "(string \<Rightarrow> int option) \<times> int"

definition BreakerThreshold :: int where "BreakerThreshold = 5"
definition BreakerInitialInterval :: int where "BreakerInitialInterval = 60000"
definition BreakerMaxInterval :: int where "BreakerMaxInterval = 3600000"
definition breakerHoldCap :: int where "breakerHoldCap = 300000"
definition breakerProbeWait :: int where "breakerProbeWait = 15000"
definition breakerProbeLockTTL :: int where "breakerProbeLockTTL = 300000"
definition breakerStateTTL :: int where "breakerStateTTL = 8 * 24 * 3600000"
definition breakerFailureWindow :: int where "breakerFailureWindow = 3600000"
definition ThrottleDefault :: int where "ThrottleDefault = 60000"
definition ThrottleMax :: int where "ThrottleMax = 3600000"
definition throttleSpacing :: int where "throttleSpacing = 500"

lemmas breaker_constants = BreakerThreshold_def BreakerInitialInterval_def BreakerMaxInterval_def
  breakerHoldCap_def breakerProbeWait_def breakerProbeLockTTL_def breakerStateTTL_def
  breakerFailureWindow_def ThrottleDefault_def ThrottleMax_def throttleSpacing_def

definition empty_host :: host_state where
  "empty_host = \<lparr>Breaker = None, Probe = None, Throttled = None, Slot = None, Reservations = (Map.empty, 0)\<rparr>"

section \<open>Reading keys\<close>

definition live :: "int \<Rightarrow> int \<Rightarrow> bool" where
  "live now e \<longleftrightarrow> now \<le> e"

definition hash_of :: "int \<Rightarrow> host_state \<Rightarrow> failure_hash option" where
  "hash_of now s = (case Breaker s of None \<Rightarrow> None
     | Some (h, None) \<Rightarrow> Some h | Some (h, Some e) \<Rightarrow> if live now e then Some h else None)"

definition opened :: "int \<Rightarrow> host_state \<Rightarrow> int" where
  \<comment> \<open>\<open>tonumber(HGET o or "0")\<close>\<close>
  "opened now s = (case hash_of now s of None \<Rightarrow> 0 | Some h \<Rightarrow> OpenedAt h)"

definition probe_of :: "int \<Rightarrow> host_state \<Rightarrow> (string \<times> int) option" where
  "probe_of now s = (case Probe s of None \<Rightarrow> None | Some (t, e) \<Rightarrow> if live now e then Some (t, e) else None)"

definition pttl_throttle :: "int \<Rightarrow> host_state \<Rightarrow> int" where
  "pttl_throttle now s = (case Throttled s of None \<Rightarrow> -2 | Some e \<Rightarrow> if live now e then e - now else -2)"

definition last_slot :: "int \<Rightarrow> host_state \<Rightarrow> int" where
  "last_slot now s = (case Slot s of None \<Rightarrow> 0 | Some (v, e) \<Rightarrow> if live now e then v else 0)"

definition reservations :: "int \<Rightarrow> host_state \<Rightarrow> string \<Rightarrow> int option" where
  "reservations now s = (if live now (snd (Reservations s)) then fst (Reservations s) else Map.empty)"

definition reserved :: "int \<Rightarrow> host_state \<Rightarrow> string \<Rightarrow> int" where
  "reserved now s job = (case reservations now s job of None \<Rightarrow> 0 | Some t \<Rightarrow> t)"

section \<open>Check\<close>

datatype check_kind = CheckAllow | CheckProbe | CheckOpen int | CheckProbing int | CheckThrottle int

definition throttle_slot :: "int \<Rightarrow> int \<Rightarrow> host_state \<Rightarrow> int" where
  "throttle_slot now spacing s =
    (let slot = now + pttl_throttle now s; last = last_slot now s
     in if last + spacing > slot then last + spacing else slot)"

definition my_reservation :: "int \<Rightarrow> string \<Rightarrow> host_state \<Rightarrow> int" where
  "my_reservation now job s = (if job \<noteq> '''' then reserved now s job else 0)"

definition drop_reservation :: "int \<Rightarrow> string \<Rightarrow> host_state \<Rightarrow> host_state" where
  "drop_reservation now job s = (if my_reservation now job s > 0
     then s\<lparr>Reservations := ((reservations now s)(job := None), snd (Reservations s))\<rparr> else s)"

definition take_slot :: "int \<Rightarrow> int \<Rightarrow> string \<Rightarrow> host_state \<Rightarrow> host_state" where
  "take_slot now spacing job s =
    (let slot = throttle_slot now spacing s; e = now + (slot - now + 60000); s' = s\<lparr>Slot := Some (slot, e)\<rparr>
     in if job \<noteq> '''' then s'\<lparr>Reservations := ((reservations now s)(job \<mapsto> slot), e)\<rparr> else s')"

definition half_open_check :: "int \<Rightarrow> int \<Rightarrow> string \<Rightarrow> bool \<Rightarrow> host_state \<Rightarrow> (check_kind \<times> bool) \<times> host_state" where
  "half_open_check now lockTTL token hasState s =
    (if opened now s > 0 then
       (let p = (case hash_of now s of None \<Rightarrow> 0 | Some h \<Rightarrow> NextProbe h)
        in if now < p then ((CheckOpen (p - now), True), s)
           else (case probe_of now s of
               None \<Rightarrow> ((CheckProbe, True), s\<lparr>Probe := Some (token, now + lockTTL)\<rparr>)
             | Some (t, e) \<Rightarrow> ((CheckProbing (e - now), True), s)))
     else ((CheckAllow, hasState), s))"

definition check_script ::
  "int \<Rightarrow> int \<Rightarrow> string \<Rightarrow> int \<Rightarrow> string \<Rightarrow> host_state \<Rightarrow> (check_kind \<times> bool) \<times> host_state" where
  "check_script now lockTTL token spacing job s =
    (let hasState = (hash_of now s \<noteq> None); mine = my_reservation now job s
     in if mine > now then ((CheckThrottle (mine - now), hasState), s)
        else (let s1 = drop_reservation now job s
              in if pttl_throttle now s1 > 0
                 then ((CheckThrottle (throttle_slot now spacing s1 - now), hasState), take_slot now spacing job s1)
                 else half_open_check now lockTTL token hasState s1))"

datatype breaker_decision = BreakerAllow | BreakerProbe | BreakerDelay

record check_result =
  Decision :: breaker_decision
  Delay :: int
  HasState :: bool
  ProbeToken :: string

definition check_outcome :: "(int \<Rightarrow> int) \<Rightarrow> string \<Rightarrow> check_kind \<times> bool \<Rightarrow> check_result" where
  \<comment> \<open>\<open>jitter\<close> is \<open>b.jitter\<close>; durations in milliseconds\<close>
  "check_outcome jitter token r =
    (let allow = \<lparr>Decision = BreakerAllow, Delay = 0, HasState = snd r, ProbeToken = ''''\<rparr>
     in case fst r of
          CheckAllow \<Rightarrow> allow
        | CheckProbe \<Rightarrow> allow\<lparr>Decision := BreakerProbe, ProbeToken := token\<rparr>
        | CheckOpen ms \<Rightarrow> (let wait = min ms breakerHoldCap
            in allow\<lparr>Decision := BreakerDelay, Delay := wait + jitter (wait sdiv 10)\<rparr>)
        | CheckProbing ms \<Rightarrow> (let wait = min (max ms 1000) breakerProbeWait
            in allow\<lparr>Decision := BreakerDelay, Delay := wait + jitter (wait sdiv 2)\<rparr>)
        | CheckThrottle ms \<Rightarrow>
            allow\<lparr>Decision := BreakerDelay, Delay := min (max ms 1) breakerHoldCap\<rparr>)"

definition Check :: "bool \<Rightarrow> (int \<Rightarrow> int) \<Rightarrow> string \<Rightarrow> string \<Rightarrow> string \<Rightarrow> int \<Rightarrow> host_state \<Rightarrow> check_result \<times> host_state" where
  "Check up jitter token host job now s =
    (if host = '''' \<or> \<not> up then (\<lparr>Decision = BreakerAllow, Delay = 0, HasState = False, ProbeToken = ''''\<rparr>, s)
     else let (r, s') = check_script now breakerProbeLockTTL token throttleSpacing job s
          in (check_outcome jitter token r, s'))"

section \<open>Outcomes of a delivery\<close>

datatype index_op = IndexKeep | IndexTouch | IndexTouchTrim | IndexRemove

definition counted :: "int \<Rightarrow> host_state \<Rightarrow> failure_hash" where
  \<comment> \<open>the hash after \<open>HINCRBY f 1\<close>\<close>
  "counted now s = (let h = (case hash_of now s of
        None \<Rightarrow> \<lparr>Failures = 0, OpenedAt = 0, Interval = None, NextProbe = 0\<rparr> | Some h \<Rightarrow> h)
     in h\<lparr>Failures := Failures h + 1\<rparr>)"

definition owns_probe :: "int \<Rightarrow> string \<Rightarrow> host_state \<Rightarrow> bool" where
  "owns_probe now token s \<longleftrightarrow> token \<noteq> '''' \<and> map_option fst (probe_of now s) = Some token"

definition failure_script ::
  "int \<Rightarrow> int \<Rightarrow> int \<Rightarrow> int \<Rightarrow> int \<Rightarrow> int \<Rightarrow> string \<Rightarrow> host_state \<Rightarrow> (bool \<times> int) \<times> index_op \<times> host_state" where
  "failure_script now threshold initial maxInterval stateTTL failureWindow token s =
    (let h = counted now s
     in if OpenedAt h > 0 then
          (if owns_probe now token s then
             (let i = min ((case Interval h of None \<Rightarrow> initial | Some i \<Rightarrow> i) * 2) maxInterval
              in ((True, i), IndexTouch, s\<lparr>Breaker := Some (h\<lparr>Interval := Some i, NextProbe := now + i\<rparr>, Some (now + stateTTL)),
                                    Probe := None\<rparr>))
           else ((True, max (NextProbe h - now) 0), IndexKeep, s\<lparr>Breaker := Some (h, Some (now + stateTTL))\<rparr>))
        else if Failures h \<ge> threshold then
          ((True, initial), IndexTouchTrim,
           s\<lparr>Breaker := Some (h\<lparr>OpenedAt := now, Interval := Some initial, NextProbe := now + initial\<rparr>, Some (now + stateTTL))\<rparr>)
        else ((False, 0), IndexKeep, s\<lparr>Breaker := Some (h, Some (now + failureWindow))\<rparr>))"

definition RecordFailure :: "bool \<Rightarrow> string \<Rightarrow> string \<Rightarrow> int \<Rightarrow> host_state \<Rightarrow> (bool \<times> int) \<times> index_op \<times> host_state" where
  "RecordFailure up host token now s =
    (if host = '''' \<or> \<not> up then ((False, 0), IndexKeep, s)
     else failure_script now BreakerThreshold BreakerInitialInterval BreakerMaxInterval breakerStateTTL
            breakerFailureWindow token s)"

definition ReleaseProbe :: "bool \<Rightarrow> string \<Rightarrow> string \<Rightarrow> int \<Rightarrow> host_state \<Rightarrow> host_state" where
  "ReleaseProbe up host token now s =
    (if host = '''' \<or> token = '''' \<or> \<not> up then s
     else if map_option fst (probe_of now s) = Some token then s\<lparr>Probe := None\<rparr> else s)"

definition HoldFor :: "(int \<Rightarrow> int) \<Rightarrow> int \<Rightarrow> int" where
  "HoldFor jitter untilProbe = (let wait = min (max untilProbe 1000) breakerHoldCap in wait + jitter (wait sdiv 10))"

definition close_script :: "bool \<Rightarrow> int \<Rightarrow> host_state \<Rightarrow> index_op \<times> host_state" where
  "close_script all now s =
    (let s1 = s\<lparr>Breaker := None, Probe := None\<rparr>;
         s2 = (if all then s1\<lparr>Throttled := None, Slot := None, Reservations := (Map.empty, 0)\<rparr> else s1);
         throttle_exists = (case Throttled s2 of None \<Rightarrow> False | Some e \<Rightarrow> live now e);
         slot_exists = (case Slot s2 of None \<Rightarrow> False | Some (v, e) \<Rightarrow> live now e)
     in (if \<not> throttle_exists \<and> \<not> slot_exists then IndexRemove else IndexKeep, s2))"

definition RecordSuccess :: "bool \<Rightarrow> string \<Rightarrow> int \<Rightarrow> host_state \<Rightarrow> index_op \<times> host_state" where
  "RecordSuccess up host now s = (if host = '''' \<or> \<not> up then (IndexKeep, s) else close_script False now s)"

definition Close :: "bool \<Rightarrow> string \<Rightarrow> int \<Rightarrow> host_state \<Rightarrow> index_op \<times> host_state" where
  "Close up host now s = (if host = '''' \<or> \<not> up then (IndexKeep, s) else close_script True now s)"

definition Throttle :: "bool \<Rightarrow> string \<Rightarrow> int \<Rightarrow> int \<Rightarrow> host_state \<Rightarrow> index_op \<times> host_state" where
  "Throttle up host retryAfter now s =
    (if host = '''' \<or> \<not> up then (IndexKeep, s)
     else let r = min (if retryAfter \<le> 0 then ThrottleDefault else retryAfter) ThrottleMax
          in (IndexTouchTrim, s\<lparr>Throttled := Some (now + r)\<rparr>))"

text \<open>The index of touched hosts: scores are the time of the last touch.\<close>

definition index_apply :: "index_op \<Rightarrow> int \<Rightarrow> string \<Rightarrow> (string \<Rightarrow> int option) \<Rightarrow> (string \<Rightarrow> int option)" where
  "index_apply op now host idx = (case op of
      IndexKeep \<Rightarrow> idx
    | IndexRemove \<Rightarrow> idx(host := None)
    | IndexTouch \<Rightarrow> idx(host \<mapsto> now)
    | IndexTouchTrim \<Rightarrow> (\<lambda>h. case (idx(host \<mapsto> now)) h of None \<Rightarrow> None
         | Some sc \<Rightarrow> if sc \<le> now - breakerStateTTL then None else Some sc))"

section \<open>What admins see\<close>

record breaker_view =
  Host :: string
  Open :: bool
  ConsecutiveFailures :: int
  OpenedTime :: "int option"
  NextProbeAt :: "int option"
  ProbeIntervalSec :: int
  ThrottledUntil :: "int option"
  ReservedUntil :: "int option"

definition msField :: "int \<Rightarrow> int option" where
  "msField n = (if n \<le> 0 then None else Some n)"

definition breaker_state :: "string \<Rightarrow> int \<Rightarrow> host_state \<Rightarrow> breaker_view \<times> bool" where
  "breaker_state host now s =
    (let h = hash_of now s; d = pttl_throttle now s;
         opn = (case h of None \<Rightarrow> None | Some h \<Rightarrow> msField (OpenedAt h));
         st = \<lparr>Host = host, Open = (opn \<noteq> None),
           ConsecutiveFailures = (case h of None \<Rightarrow> 0 | Some h \<Rightarrow> Failures h),
           OpenedTime = opn,
           NextProbeAt = (if opn = None then None else case h of None \<Rightarrow> None | Some h \<Rightarrow> msField (NextProbe h)),
           ProbeIntervalSec = (if opn = None then 0 else case h of None \<Rightarrow> 0
              | Some h \<Rightarrow> (case Interval h of None \<Rightarrow> 0 | Some i \<Rightarrow> i sdiv 1000)),
           ThrottledUntil = (if d > 0 then Some (now + d) else None),
           ReservedUntil = (case msField (last_slot now s) of None \<Rightarrow> None
              | Some r \<Rightarrow> if r > now then Some r else None)\<rparr>
     in (st, Open st \<or> ThrottledUntil st \<noteq> None \<or> ReservedUntil st \<noteq> None))"

definition List :: "(string \<Rightarrow> host_state) \<Rightarrow> int \<Rightarrow> string list \<Rightarrow> breaker_view list \<times> string list" where
  \<comment> \<open>the hosts of the index, newest first; the views, and the stale hosts that are dropped from it\<close>
  "List states now hosts =
    (map (\<lambda>h. fst (breaker_state h now (states h))) (filter (\<lambda>h. snd (breaker_state h now (states h))) hosts),
     filter (\<lambda>h. \<not> snd (breaker_state h now (states h))) hosts)"

section \<open>Runs on one host\<close>

datatype breaker_event = Advance nat | RedisUp bool | DoCheck string string | DoFailure string
  | DoSuccess | DoRelease string | DoClose | DoThrottle int

record host_run =
  Clock :: int
  Up :: bool
  HState :: host_state

definition breaker_step :: "string \<Rightarrow> (int \<Rightarrow> int) \<Rightarrow> host_run \<Rightarrow> breaker_event \<Rightarrow> host_run" where
  "breaker_step host jitter r ev = (case ev of
      Advance n \<Rightarrow> r\<lparr>Clock := Clock r + int n\<rparr>
    | RedisUp b \<Rightarrow> r\<lparr>Up := b\<rparr>
    | DoCheck token job \<Rightarrow> r\<lparr>HState := snd (Check (Up r) jitter token host job (Clock r) (HState r))\<rparr>
    | DoFailure token \<Rightarrow> r\<lparr>HState := snd (snd (RecordFailure (Up r) host token (Clock r) (HState r)))\<rparr>
    | DoSuccess \<Rightarrow> r\<lparr>HState := snd (RecordSuccess (Up r) host (Clock r) (HState r))\<rparr>
    | DoRelease token \<Rightarrow> r\<lparr>HState := ReleaseProbe (Up r) host token (Clock r) (HState r)\<rparr>
    | DoClose \<Rightarrow> r\<lparr>HState := snd (Close (Up r) host (Clock r) (HState r))\<rparr>
    | DoThrottle d \<Rightarrow> r\<lparr>HState := snd (Throttle (Up r) host d (Clock r) (HState r))\<rparr>)"

definition hash_ok :: "failure_hash \<Rightarrow> bool" where
  "hash_ok h \<longleftrightarrow> 0 < Failures h \<and> 0 \<le> OpenedAt h
     \<and> (if OpenedAt h = 0 then Failures h < BreakerThreshold
        else BreakerThreshold \<le> Failures h \<and> (\<exists>i. Interval h = Some i
          \<and> (\<exists>n. i = min (BreakerInitialInterval * 2 ^ n) BreakerMaxInterval)))"

definition queue_ok :: "host_state \<Rightarrow> bool" where
  "queue_ok s \<longleftrightarrow> (\<forall>v e. Slot s = Some (v, e) \<longrightarrow> e = v + 60000)
     \<and> (\<forall>j t. fst (Reservations s) j = Some t \<longrightarrow> (\<exists>v. Slot s = Some (v, v + 60000) \<and> t \<le> v))
     \<and> (\<forall>j k t u. fst (Reservations s) j = Some t \<and> fst (Reservations s) k = Some u \<and> j \<noteq> k
          \<longrightarrow> throttleSpacing \<le> \<bar>t - u\<bar>)"

definition host_inv :: "host_state \<Rightarrow> bool" where
  "host_inv s \<longleftrightarrow> (\<forall>h e. Breaker s = Some (h, e) \<longrightarrow> hash_ok h) \<and> queue_ok s"

definition breaker_inv :: "host_run \<Rightarrow> bool" where
  "breaker_inv r \<longleftrightarrow> 0 < Clock r \<and> host_inv (HState r)"

section \<open>The invariant\<close>

lemmas script_defs = check_script_def failure_script_def close_script_def Check_def RecordFailure_def
  RecordSuccess_def Close_def Throttle_def ReleaseProbe_def

lemma hash_of_breaker: "hash_of now s = Some h \<Longrightarrow> \<exists>e. Breaker s = Some (h, e)"
  by (auto simp: hash_of_def split: option.splits if_splits)

lemma hash_of_update [simp]:
  "hash_of now (s\<lparr>Reservations := r\<rparr>) = hash_of now s" "hash_of now (s\<lparr>Slot := sl\<rparr>) = hash_of now s"
  "hash_of now (s\<lparr>Probe := p\<rparr>) = hash_of now s" "hash_of now (s\<lparr>Throttled := t\<rparr>) = hash_of now s"
  "pttl_throttle now (s\<lparr>Reservations := r\<rparr>) = pttl_throttle now s"
  "opened now (s\<lparr>Reservations := r\<rparr>) = opened now s" "probe_of now (s\<lparr>Reservations := r\<rparr>) = probe_of now s"
  "last_slot now (s\<lparr>Reservations := r\<rparr>) = last_slot now s"
  "throttle_slot now sp (s\<lparr>Reservations := r\<rparr>) = throttle_slot now sp s"
  by (simp_all add: hash_of_def pttl_throttle_def opened_def probe_of_def last_slot_def throttle_slot_def)

lemma interval_doubles:
  "i = min (BreakerInitialInterval * 2 ^ n) BreakerMaxInterval
   \<Longrightarrow> min (i * 2) BreakerMaxInterval = min (BreakerInitialInterval * 2 ^ Suc n) BreakerMaxInterval"
  by (auto simp: breaker_constants min_def)

lemma hash_ok_open_more:
  "hash_ok h \<Longrightarrow> OpenedAt h > 0 \<Longrightarrow> hash_ok (h\<lparr>Failures := Failures h + 1\<rparr>)"
  by (auto simp: hash_ok_def)

lemma hash_ok_doubled:
  "hash_ok h \<Longrightarrow> OpenedAt h > 0 \<Longrightarrow> Interval h = Some i \<Longrightarrow>
   hash_ok (h\<lparr>Failures := Failures h + 1, Interval := Some (min (i * 2) BreakerMaxInterval), NextProbe := p\<rparr>)"
proof -
  assume h: "hash_ok h" "OpenedAt h > 0" "Interval h = Some i"
  then obtain n where "i = min (BreakerInitialInterval * 2 ^ n) BreakerMaxInterval" by (auto simp: hash_ok_def)
  from interval_doubles [OF this] h show ?thesis by (auto simp: hash_ok_def simp del: power_Suc)
qed

lemma hash_ok_opens:
  "BreakerThreshold \<le> f \<Longrightarrow> 0 < now \<Longrightarrow>
   hash_ok (h\<lparr>Failures := f, OpenedAt := now, Interval := Some BreakerInitialInterval, NextProbe := p\<rparr>)"
  by (auto simp: hash_ok_def breaker_constants intro: exI [of _ 0])

lemma counted_cases:
  assumes "\<forall>h e. Breaker s = Some (h, e) \<longrightarrow> hash_ok h"
  shows "(OpenedAt (counted now s) = 0 \<and> 0 < Failures (counted now s))
    \<or> (\<exists>h i. hash_ok h \<and> OpenedAt h > 0 \<and> Interval h = Some i \<and> counted now s = h\<lparr>Failures := Failures h + 1\<rparr>)"
proof (cases "hash_of now s")
  case None
  then show ?thesis by (simp add: counted_def)
next
  case (Some h)
  then have "hash_ok h" using assms hash_of_breaker by blast
  then have "OpenedAt h = 0 \<and> 0 < Failures h \<or> OpenedAt h > 0 \<and> hash_ok h \<and> (\<exists>i. Interval h = Some i)"
    by (auto simp: hash_ok_def split: if_splits)
  moreover have "counted now s = h\<lparr>Failures := Failures h + 1\<rparr>" using Some by (simp add: counted_def)
  ultimately show ?thesis by auto
qed

lemma failure_breaker:
  assumes "host \<noteq> ''''"
  shows "\<exists>e. Breaker (snd (snd (RecordFailure True host token now s))) =
    Some (let h = counted now s in
      if OpenedAt h > 0 then
        (if owns_probe now token s then
           (let i = min ((case Interval h of None \<Rightarrow> BreakerInitialInterval | Some i \<Rightarrow> i) * 2) BreakerMaxInterval
            in h\<lparr>Interval := Some i, NextProbe := now + i\<rparr>) else h)
      else if Failures h \<ge> BreakerThreshold
        then h\<lparr>OpenedAt := now, Interval := Some BreakerInitialInterval, NextProbe := now + BreakerInitialInterval\<rparr>
      else h, Some e)"
  using assms by (simp add: RecordFailure_def failure_script_def Let_def)

lemma failure_hash_ok:
  assumes "\<forall>h e. Breaker s = Some (h, e) \<longrightarrow> hash_ok h" "0 < now" "host \<noteq> ''''"
    and "Breaker (snd (snd (RecordFailure True host token now s))) = Some (h, e)"
  shows "hash_ok h"
  using counted_cases [OF assms(1), of now]
proof
  assume c: "OpenedAt (counted now s) = 0 \<and> 0 < Failures (counted now s)"
  then show ?thesis
    using failure_breaker [OF assms(3), of token now s] assms(2,4)
      hash_ok_opens [where f = "Failures (counted now s)" and now = now and h = "counted now s"
        and p = "now + BreakerInitialInterval"]
    by (auto simp: Let_def hash_ok_def [of "counted now s"] split: if_splits)
next
  assume "\<exists>k i. hash_ok k \<and> OpenedAt k > 0 \<and> Interval k = Some i \<and> counted now s = k\<lparr>Failures := Failures k + 1\<rparr>"
  then obtain k i where k: "hash_ok k" "OpenedAt k > 0" "Interval k = Some i"
    and c: "counted now s = k\<lparr>Failures := Failures k + 1\<rparr>" by blast
  show ?thesis
    using failure_breaker [OF assms(3), of token now s] assms(4) k c
      hash_ok_open_more [OF k(1,2)] hash_ok_doubled [OF k, of "now + min (i * 2) BreakerMaxInterval"]
    by (auto simp: Let_def split: if_splits)
qed

lemma queue_ok_frame [simp]:
  "queue_ok (s\<lparr>Probe := p\<rparr>) = queue_ok s" "queue_ok (s\<lparr>Breaker := b\<rparr>) = queue_ok s"
  "queue_ok (s\<lparr>Throttled := t\<rparr>) = queue_ok s"
  by (simp_all add: queue_ok_def)

lemma queue_ok_drop: "queue_ok s \<Longrightarrow> queue_ok (s\<lparr>Reservations := ((reservations now s)(job := None), e)\<rparr>)"
  by (auto simp: queue_ok_def reservations_def split: if_splits)

lemma throttle_slot_after:
  assumes "queue_ok s" "pttl_throttle now s > 0" "reservations now s j = Some t"
  shows "t + throttleSpacing \<le> throttle_slot now throttleSpacing s"
proof -
  have "fst (Reservations s) j = Some t" using assms(3) by (simp add: reservations_def split: if_splits)
  then obtain v where v: "Slot s = Some (v, v + 60000)" "t \<le> v"
    using assms(1) unfolding queue_ok_def by blast
  show ?thesis
    using v assms(2) by (auto simp: throttle_slot_def last_slot_def Let_def live_def throttleSpacing_def)
qed

lemma throttle_slot_later:
  "queue_ok s \<Longrightarrow> pttl_throttle now s > 0 \<Longrightarrow> Slot s = Some (v, v + 60000) \<Longrightarrow> v \<le> throttle_slot now throttleSpacing s"
  by (auto simp: throttle_slot_def last_slot_def Let_def live_def throttleSpacing_def)

lemma reservations_sub: "reservations now s j = Some t \<Longrightarrow> fst (Reservations s) j = Some t"
  by (simp add: reservations_def split: if_splits)

lemma queue_okI:
  assumes "\<And>v e. Slot s = Some (v, e) \<Longrightarrow> e = v + 60000"
    and "\<And>j t. fst (Reservations s) j = Some t \<Longrightarrow> \<exists>v. Slot s = Some (v, v + 60000) \<and> t \<le> v"
    and "\<And>j k t u. fst (Reservations s) j = Some t \<Longrightarrow> fst (Reservations s) k = Some u \<Longrightarrow> j \<noteq> k
      \<Longrightarrow> throttleSpacing \<le> \<bar>t - u\<bar>"
  shows "queue_ok s"
  using assms unfolding queue_ok_def by blast

lemma queue_ok_take:
  assumes "queue_ok s" "pttl_throttle now s > 0"
  shows "queue_ok (take_slot now throttleSpacing job s)"
proof -
  let ?slot = "throttle_slot now throttleSpacing s"
  let ?s = "take_slot now throttleSpacing job s"
  have old: "t \<le> ?slot" if r: "fst (Reservations s) j = Some t" for j t
  proof -
    obtain v where "Slot s = Some (v, v + 60000)" "t \<le> v" using r assms(1) unfolding queue_ok_def by blast
    then show ?thesis using throttle_slot_later [OF assms, of v] by simp
  qed
  have spaced: "\<And>j k t u. fst (Reservations s) j = Some t \<Longrightarrow> fst (Reservations s) k = Some u \<Longrightarrow> j \<noteq> k
      \<Longrightarrow> throttleSpacing \<le> \<bar>t - u\<bar>" using assms(1) unfolding queue_ok_def by blast
  have slot: "Slot ?s = Some (?slot, ?slot + 60000)" by (simp add: take_slot_def Let_def)
  have res: "fst (Reservations ?s) = (if job = '''' then fst (Reservations s) else (reservations now s)(job \<mapsto> ?slot))"
    by (simp add: take_slot_def Let_def)
  show ?thesis
  proof (rule queue_okI)
    show "Slot ?s = Some (v, e) \<Longrightarrow> e = v + 60000" for v e using slot by simp
    show "fst (Reservations ?s) j = Some t \<Longrightarrow> \<exists>v. Slot ?s = Some (v, v + 60000) \<and> t \<le> v" for j t
      using slot res old [of j t] reservations_sub [of now s j t] by (auto split: if_splits)
    show "throttleSpacing \<le> \<bar>t - u\<bar>"
      if "fst (Reservations ?s) j = Some t" "fst (Reservations ?s) k = Some u" "j \<noteq> k" for j k t u
      using that res spaced [of j t k u] reservations_sub [of now s j t] reservations_sub [of now s k u]
        throttle_slot_after [OF assms, of j t] throttle_slot_after [OF assms, of k u]
      by (auto split: if_splits)
  qed
qed

lemma drop_reservation_fields [simp]:
  "Breaker (drop_reservation now job s) = Breaker s" "Probe (drop_reservation now job s) = Probe s"
  "Slot (drop_reservation now job s) = Slot s" "Throttled (drop_reservation now job s) = Throttled s"
  "hash_of now (drop_reservation now job s) = hash_of now s"
  "opened now (drop_reservation now job s) = opened now s"
  "probe_of now (drop_reservation now job s) = probe_of now s"
  "pttl_throttle now (drop_reservation now job s) = pttl_throttle now s"
  by (simp_all add: drop_reservation_def)

lemma queue_ok_drop_reservation: "queue_ok s \<Longrightarrow> queue_ok (drop_reservation now job s)"
  by (simp add: drop_reservation_def queue_ok_drop)

lemma half_open_frame [simp]:
  "queue_ok (snd (half_open_check now ttl token b s)) = queue_ok s"
  "Breaker (snd (half_open_check now ttl token b s)) = Breaker s"
  by (simp_all add: half_open_check_def Let_def split: option.splits)

lemma take_slot_frame [simp]: "Breaker (take_slot now sp job s) = Breaker s"
  by (simp add: take_slot_def Let_def)

lemma check_breaker [simp]: "Breaker (snd (check_script now ttl token sp job s)) = Breaker s"
  by (simp add: check_script_def Let_def)

lemma Check_state: "snd (Check up jitter token host job now s) = s
    \<or> snd (Check up jitter token host job now s) = snd (check_script now breakerProbeLockTTL token throttleSpacing job s)"
  by (simp add: Check_def split: prod.split)

lemma queue_ok_check: "queue_ok s \<Longrightarrow> queue_ok (snd (check_script now ttl token throttleSpacing job s))"
  using queue_ok_take queue_ok_drop_reservation by (simp add: check_script_def Let_def)

lemma failure_frame [simp]:
  "Slot (snd (snd (RecordFailure up host token now s))) = Slot s"
  "Reservations (snd (snd (RecordFailure up host token now s))) = Reservations s"
  by (simp_all add: RecordFailure_def failure_script_def Let_def)

lemma queue_ok_failure: "queue_ok s \<Longrightarrow> queue_ok (snd (snd (RecordFailure up host token now s)))"
  by (simp add: queue_ok_def)

lemma queue_ok_close: "queue_ok s \<Longrightarrow> queue_ok (snd (close_script all now s))"
  by (simp add: close_script_def Let_def queue_ok_def)

lemma host_inv_check: "host_inv s \<Longrightarrow> host_inv (snd (Check up jitter token host job now s))"
  using Check_state [of up jitter token host job now s] queue_ok_check by (auto simp: host_inv_def)

lemma host_inv_failure:
  assumes "host_inv s" "0 < now"
  shows "host_inv (snd (snd (RecordFailure up host token now s)))"
proof (cases "host = '''' \<or> \<not> up")
  case True
  then show ?thesis using assms by (simp add: RecordFailure_def)
next
  case False
  then have h: "host \<noteq> ''''" "up = True" by simp_all
  show ?thesis unfolding host_inv_def
    using failure_hash_ok [OF _ assms(2) h(1), of s token] queue_ok_failure [of s up host token now] assms(1) h(2)
    unfolding host_inv_def by blast
qed

lemma host_inv_close: "host_inv s \<Longrightarrow> host_inv (snd (close_script all now s))"
  using queue_ok_close [of s all now] by (auto simp: host_inv_def) (simp add: close_script_def Let_def split: if_splits)

lemma host_inv_frame [simp]: "host_inv (s\<lparr>Probe := p\<rparr>) = host_inv s" "host_inv (s\<lparr>Throttled := t\<rparr>) = host_inv s"
  by (simp_all add: host_inv_def)

lemma host_inv_rest:
  "host_inv s \<Longrightarrow> host_inv (snd (RecordSuccess up host now s))" "host_inv s \<Longrightarrow> host_inv (snd (Close up host now s))"
  "host_inv s \<Longrightarrow> host_inv (ReleaseProbe up host token now s)" "host_inv s \<Longrightarrow> host_inv (snd (Throttle up host d now s))"
  by (simp_all add: RecordSuccess_def Close_def ReleaseProbe_def Throttle_def Let_def host_inv_close)

lemma breaker_inv_step:
  assumes "breaker_inv r"
  shows "breaker_inv (breaker_step host jitter r ev)"
  using assms host_inv_check host_inv_failure host_inv_rest
  by (cases ev) (simp_all add: breaker_inv_def breaker_step_def)

interpretation br: stepping "breaker_step host jitter" breaker_inv for host jitter
  by unfold_locales (rule breaker_inv_step)

section \<open>Properties\<close>

definition fresh_run :: host_run where
  "fresh_run = \<lparr>Clock = 1000000, Up = True, HState = empty_host\<rparr>"

lemma fresh_inv: "breaker_inv fresh_run"
  by (simp add: breaker_inv_def fresh_run_def host_inv_def queue_ok_def empty_host_def)

definition no_jitter :: "int \<Rightarrow> int" where "no_jitter m = 0"

text \<open>C4. Under every sequence of checks, failures, successes, releases, closes, 429s, Redis outages and passing time,
  the breaker is open only after at least five counted failures, an open breaker has a probe interval
  of one minute doubled some number of times and capped at one hour, and the send times reserved for
  jobs held by a 429 are all different and at least 500 ms apart.\<close>

theorem breaker_runs:
  assumes "breaker_inv r"
  shows "(\<forall>h. hash_of now (HState (run_steps (breaker_step host jitter) r evs)) = Some h \<longrightarrow>
        (if OpenedAt h = 0 then Failures h < 5
         else 5 \<le> Failures h \<and> (\<exists>n. Interval h = Some (min (60000 * 2 ^ n) 3600000))))
    \<and> (\<forall>j k t u. reservations now (HState (run_steps (breaker_step host jitter) r evs)) j = Some t
        \<and> reservations now (HState (run_steps (breaker_step host jitter) r evs)) k = Some u \<and> j \<noteq> k
        \<longrightarrow> 500 \<le> \<bar>t - u\<bar>)"
proof -
  let ?s = "HState (run_steps (breaker_step host jitter) r evs)"
  have i: "host_inv ?s" using br.run_keeps [OF assms] by (simp add: breaker_inv_def)
  have "hash_ok h" if "hash_of now ?s = Some h" for h using i hash_of_breaker [OF that] by (auto simp: host_inv_def)
  then have "\<forall>h. hash_of now ?s = Some h \<longrightarrow> (if OpenedAt h = 0 then Failures h < 5
         else 5 \<le> Failures h \<and> (\<exists>n. Interval h = Some (min (60000 * 2 ^ n) 3600000)))"
    by (auto simp: hash_ok_def breaker_constants split: if_splits)
  moreover have "queue_ok ?s" using i by (simp add: host_inv_def)
  then have "\<forall>j k t u. reservations now ?s j = Some t \<and> reservations now ?s k = Some u \<and> j \<noteq> k
        \<longrightarrow> 500 \<le> \<bar>t - u\<bar>"
    using reservations_sub [of now ?s] unfolding queue_ok_def throttleSpacing_def by blast
  ultimately show ?thesis by blast
qed

theorem breaker_runs_witness:
  "let s = HState (run_steps (breaker_step ''h'' no_jitter) fresh_run
       [DoThrottle 1000, DoCheck ''t'' ''a'', DoCheck ''t'' ''b''])
   in reservations 1000000 s ''a'' = Some 1001000 \<and> reservations 1000000 s ''b'' = Some 1001500 \<and> 500 \<le> \<bar>1001000 - (1001500 :: int)\<bar>"
proof -
  let ?s = "HState (run_steps (breaker_step ''h'' no_jitter) fresh_run
       [DoThrottle 1000, DoCheck ''t'' ''a'', DoCheck ''t'' ''b''])"
  note eval = breaker_step_def fresh_run_def Throttle_def Check_def check_script_def Let_def empty_host_def
    my_reservation_def reserved_def reservations_def live_def drop_reservation_def pttl_throttle_def take_slot_def
    throttle_slot_def last_slot_def breaker_constants
  have a: "reservations 1000000 ?s ''a'' = Some 1001000" by (simp add: eval)
  have b: "reservations 1000000 ?s ''b'' = Some 1001500" by (simp add: eval)
  have "''a'' \<noteq> ''b''" by simp
  then have "500 \<le> \<bar>1001000 - (1001500 :: int)\<bar>"
    using breaker_runs [OF fresh_inv, THEN conjunct2, rule_format, of 1000000] a b by blast
  then show ?thesis using a b by (simp only: Let_def)
qed

text \<open>What one failure does: below five failures it only counts; the fifth opens the breaker for one minute; while
  open, the failure of the delivery that holds the probe doubles the interval (up to an hour), schedules
  the next probe and frees the slot; any other failure, with no token or with the token of an earlier
  probe, changes neither the interval nor the next probe time nor the slot.\<close>

theorem RecordFailure_effect:
  assumes "host \<noteq> ''''"
  shows "RecordFailure True host token now s =
    (let h = counted now s in
     if OpenedAt h \<le> 0 then
       (if Failures h < 5 then ((False, 0), IndexKeep, s\<lparr>Breaker := Some (h, Some (now + 3600000))\<rparr>)
        else ((True, 60000), IndexTouchTrim,
              s\<lparr>Breaker := Some (h\<lparr>OpenedAt := now, Interval := Some 60000, NextProbe := now + 60000\<rparr>,
                                 Some (now + 691200000))\<rparr>))
     else if owns_probe now token s then
       (let i = min (2 * (case Interval h of None \<Rightarrow> 60000 | Some i \<Rightarrow> i)) 3600000
        in ((True, i), IndexTouch, s\<lparr>Breaker := Some (h\<lparr>Interval := Some i, NextProbe := now + i\<rparr>, Some (now + 691200000)),
                                 Probe := None\<rparr>))
     else ((True, max (NextProbe h - now) 0), IndexKeep, s\<lparr>Breaker := Some (h, Some (now + 691200000))\<rparr>))"
  using assms by (auto simp: RecordFailure_def failure_script_def Let_def breaker_constants mult.commute)

theorem RecordFailure_effect_witness:
  "fst (RecordFailure True ''h'' '''' 1000 (empty_host\<lparr>Breaker :=
      Some (\<lparr>Failures = 4, OpenedAt = 0, Interval = None, NextProbe = 0\<rparr>, Some 5000)\<rparr>)) = (True, 60000)"
  using RecordFailure_effect [of "''h''" "''''" 1000 "empty_host\<lparr>Breaker :=
      Some (\<lparr>Failures = 4, OpenedAt = 0, Interval = None, NextProbe = 0\<rparr>, Some 5000)\<rparr>"]
  by (simp add: counted_def hash_of_def live_def)

text \<open>The events that do not end the probe with token \<open>t\<close>.\<close>

fun spares :: "string \<Rightarrow> breaker_event \<Rightarrow> bool" where
  "spares t (DoFailure u) = (u \<noteq> t)"
| "spares t (DoRelease u) = (u \<noteq> t)"
| "spares t DoSuccess = False"
| "spares t DoClose = False"
| "spares t ev = True"

definition slot_held :: "string \<Rightarrow> int \<Rightarrow> host_run \<Rightarrow> bool" where
  "slot_held t e r \<longleftrightarrow> Probe (HState r) = Some (t, e) \<or> e < Clock r"

lemma check_keeps_probe:
  "Probe s = Some (t, e) \<Longrightarrow> now \<le> e \<Longrightarrow> Probe (snd (Check up jitter token host job now s)) = Some (t, e)"
proof -
  assume p: "Probe s = Some (t, e)" "now \<le> e"
  then have "probe_of now s = Some (t, e)" by (simp add: probe_of_def live_def)
  then have "Probe (snd (half_open_check now ttl token b (drop_reservation now job s))) = Some (t, e)" for ttl b
    using p by (simp add: half_open_check_def Let_def)
  moreover have "Probe (take_slot now sp job (drop_reservation now job s)) = Some (t, e)" for sp
    using p by (simp add: take_slot_def Let_def)
  ultimately show ?thesis
    using Check_state [of up jitter token host job now s] p by (auto simp: check_script_def Let_def)
qed

lemma slot_held_step:
  assumes "slot_held t e r" "spares t ev"
  shows "slot_held t e (breaker_step host jitter r ev)"
proof (cases "e < Clock r")
  case True
  then show ?thesis by (cases ev) (auto simp: slot_held_def breaker_step_def)
next
  case False
  then have p: "Probe (HState r) = Some (t, e)" "Clock r \<le> e" using assms(1) by (auto simp: slot_held_def)
  then have "probe_of (Clock r) (HState r) = Some (t, e)" by (simp add: probe_of_def live_def)
  then have "u \<noteq> t \<Longrightarrow> \<not> owns_probe (Clock r) u (HState r)" for u by (simp add: owns_probe_def)
  then show ?thesis using assms(2) p check_keeps_probe [OF p]
    by (cases ev) (auto simp: slot_held_def breaker_step_def RecordFailure_def failure_script_def Let_def
        ReleaseProbe_def Throttle_def probe_of_def live_def)
qed

lemma slot_held_run:
  "slot_held t e r \<Longrightarrow> list_all (spares t) evs \<Longrightarrow> slot_held t e (run_steps (breaker_step host jitter) r evs)"
  by (induction evs arbitrary: r) (auto intro: slot_held_step)

lemma check_outcome_probe: "Decision (check_outcome jitter token r) = BreakerProbe \<longleftrightarrow> fst r = CheckProbe"
  by (simp add: check_outcome_def Let_def split: check_kind.split)

lemma Check_probe:
  assumes "Decision (fst (Check up jitter token host job now s)) = BreakerProbe"
  shows "probe_of now s = None \<and> ProbeToken (fst (Check up jitter token host job now s)) = token
    \<and> Probe (snd (Check up jitter token host job now s)) = Some (token, now + breakerProbeLockTTL)"
proof -
  have u: "host \<noteq> ''''" "up" using assms by (auto simp: Check_def split: if_splits)
  then have k: "fst (fst (check_script now breakerProbeLockTTL token throttleSpacing job s)) = CheckProbe"
    using assms check_outcome_probe by (simp add: Check_def split: prod.splits)
  then have c: "check_script now breakerProbeLockTTL token throttleSpacing job s
      = half_open_check now breakerProbeLockTTL token (hash_of now s \<noteq> None) (drop_reservation now job s)"
    by (auto simp: check_script_def Let_def split: if_splits)
  then show ?thesis using k u
    by (auto simp: Check_def half_open_check_def Let_def check_outcome_def split: if_splits option.splits)
qed

text \<open>C17. The half-open slot is exclusive: once a check has let a probe through, no other check for that host lets one
  through within the five minutes of the lock, whatever happens in between, unless the probe itself
  succeeds, fails or is released with its own token, or an admin closes the breaker.\<close>

theorem single_probe:
  assumes "Decision (fst (Check (Up r) jitter t host job (Clock r) (HState r))) = BreakerProbe"
    and "list_all (spares t) evs"
    and "r' = run_steps (breaker_step host jitter) (breaker_step host jitter r (DoCheck t job)) evs"
    and "Clock r' \<le> Clock r + 300000"
  shows "Decision (fst (Check (Up r') jitter t' host job' (Clock r') (HState r'))) \<noteq> BreakerProbe"
proof
  assume p: "Decision (fst (Check (Up r') jitter t' host job' (Clock r') (HState r'))) = BreakerProbe"
  have "slot_held t (Clock r + 300000) (breaker_step host jitter r (DoCheck t job))"
    using Check_probe [OF assms(1)] by (simp add: slot_held_def breaker_step_def breakerProbeLockTTL_def)
  then have "slot_held t (Clock r + 300000) r'" unfolding assms(3) using assms(2) by (rule slot_held_run)
  then have "probe_of (Clock r') (HState r') \<noteq> None" using assms(4) by (auto simp: slot_held_def probe_of_def live_def)
  then show False using Check_probe [OF p] by simp
qed

definition due_run :: host_run where
  "due_run = fresh_run\<lparr>HState := empty_host\<lparr>Breaker :=
     Some (\<lparr>Failures = 5, OpenedAt = 900000, Interval = Some 60000, NextProbe = 960000\<rparr>, None)\<rparr>\<rparr>"

lemma due_probe: "Decision (fst (Check (Up due_run) no_jitter ''t'' ''h'' '''' (Clock due_run) (HState due_run))) = BreakerProbe"
  by (simp add: due_run_def fresh_run_def empty_host_def Check_def check_script_def Let_def my_reservation_def
      drop_reservation_def pttl_throttle_def half_open_check_def opened_def hash_of_def probe_of_def check_outcome_def)

theorem single_probe_witness:
  "Decision (fst (Check True no_jitter ''u'' ''h'' '''' 1100000
     (HState (run_steps (breaker_step ''h'' no_jitter) (breaker_step ''h'' no_jitter due_run (DoCheck ''t'' ''''))
        [DoFailure ''old'', Advance 100000])))) \<noteq> BreakerProbe"
proof -
  let ?r = "run_steps (breaker_step ''h'' no_jitter) (breaker_step ''h'' no_jitter due_run (DoCheck ''t'' ''''))
        [DoFailure ''old'', Advance 100000]"
  have c: "Clock ?r = 1100000" "Up ?r" by (simp_all add: breaker_step_def due_run_def fresh_run_def)
  have "list_all (spares ''t'') [DoFailure ''old'', Advance 100000]" by simp
  moreover have "Clock ?r \<le> Clock due_run + 300000" unfolding c(1) by (simp add: due_run_def fresh_run_def)
  ultimately have "Decision (fst (Check (Up ?r) no_jitter ''u'' ''h'' '''' (Clock ?r) (HState ?r))) \<noteq> BreakerProbe"
    using single_probe [OF due_probe _ refl] by blast
  then show ?thesis using c by simp
qed

definition good_jitter :: "(int \<Rightarrow> int) \<Rightarrow> bool" where
  "good_jitter j \<longleftrightarrow> (\<forall>m. if m \<le> 0 then j m = 0 else 0 \<le> j m \<and> j m < m)"

lemma jitter_bounds: "good_jitter j \<Longrightarrow> 0 \<le> j m \<and> j m \<le> max m 0"
  by (auto simp: good_jitter_def split: if_splits dest!: spec [of _ m])

lemma check_open_positive: "fst (fst (check_script now ttl token sp job s)) = CheckOpen ms \<Longrightarrow> 0 < ms"
  by (auto simp: check_script_def half_open_check_def Let_def split: if_splits option.splits)

lemma outcome_delay:
  assumes "good_jitter j" "Decision (check_outcome j token r) = BreakerDelay" "\<And>ms. fst r = CheckOpen ms \<Longrightarrow> 0 < ms"
  shows "1 \<le> Delay (check_outcome j token r) \<and> Delay (check_outcome j token r) \<le> 330000"
proof (cases "fst r")
  case (CheckOpen ms)
  define wait where "wait = min ms 300000"
  have "0 < wait" "wait \<le> 300000" using assms(3) [OF CheckOpen] by (simp_all add: wait_def)
  moreover from this have "wait div 10 \<le> 30000" by linarith
  ultimately show ?thesis using CheckOpen jitter_bounds [OF assms(1), of "wait div 10"]
    by (simp add: check_outcome_def Let_def breaker_constants flip: wait_def)
next
  case (CheckProbing ms)
  define wait where "wait = min (max ms 1000) 15000"
  have "1000 \<le> wait" "wait \<le> 15000" by (simp_all add: wait_def)
  moreover from this have "wait div 2 \<le> 15000" by linarith
  ultimately show ?thesis using CheckProbing jitter_bounds [OF assms(1), of "wait div 2"]
    by (simp add: check_outcome_def Let_def breaker_constants flip: wait_def)
next
  case (CheckThrottle ms)
  then show ?thesis by (simp add: check_outcome_def Let_def breaker_constants)
qed (use assms(2) in \<open>simp_all add: check_outcome_def\<close>)

text \<open>A held delivery always wakes again soon: with a jitter as \<open>NewBreaker\<close> makes it, a check delays by at
  least one millisecond and at most 330 seconds, and a job that failed while the breaker is open by at
  least one second and at most 330 seconds; a host without failures, 429 or reservation is always
  allowed.\<close>

theorem hold_bounds:
  assumes "good_jitter j" "0 \<le> now"
  shows "(if Decision (fst (Check up j token host job now s)) = BreakerDelay
       then 1 \<le> Delay (fst (Check up j token host job now s)) \<and> Delay (fst (Check up j token host job now s)) \<le> 330000
       else True)
    \<and> 1000 \<le> HoldFor j untilProbe \<and> HoldFor j untilProbe \<le> 330000
    \<and> Decision (fst (Check up j token host job now empty_host)) = BreakerAllow"
proof (intro conjI)
  let ?c = "check_script now breakerProbeLockTTL token throttleSpacing job s"
  show "if Decision (fst (Check up j token host job now s)) = BreakerDelay
       then 1 \<le> Delay (fst (Check up j token host job now s)) \<and> Delay (fst (Check up j token host job now s)) \<le> 330000
       else True"
    using outcome_delay [OF assms(1), of token "fst ?c"] check_open_positive
    by (fastforce simp: Check_def split: prod.splits)
  define wait where "wait = min (max untilProbe 1000) 300000"
  have w: "1000 \<le> wait" "wait \<le> 300000" by (simp_all add: wait_def)
  have d: "wait div 10 \<le> 30000" using w by linarith
  have "HoldFor j untilProbe = wait + j (wait sdiv 10)" by (simp add: HoldFor_def Let_def wait_def breaker_constants)
  then show "1000 \<le> HoldFor j untilProbe" "HoldFor j untilProbe \<le> 330000"
    using w d jitter_bounds [OF assms(1), of "wait div 10"] by simp_all
  show "Decision (fst (Check up j token host job now empty_host)) = BreakerAllow"
    using assms(2) by (simp add: Check_def check_script_def Let_def empty_host_def my_reservation_def reserved_def reservations_def
        drop_reservation_def pttl_throttle_def half_open_check_def opened_def hash_of_def check_outcome_def)
qed

theorem hold_bounds_witness:
  "good_jitter no_jitter \<and> HoldFor no_jitter 7200000 \<le> 330000 \<and> 1000 \<le> HoldFor no_jitter 0"
proof -
  have "good_jitter no_jitter" by (simp add: good_jitter_def no_jitter_def)
  then show ?thesis using hold_bounds [of no_jitter 0] by blast
qed

end
