(* ===== verification/Note_Visibility.thy ===== *)
theory Note_Visibility imports Prelude Complex_Main begin

text \<open>
  Who may read a note: core/note/visibility.go and core/note/hide_embed.go.

  A note has one of four visibilities, kept as the strings the code stores.  \<open>CanSeeNoteFunc\<close>
  is the gate of the read paths, \<open>canSeeNoteForStream\<close> the stricter gate of the realtime push,
  \<open>HideEmbedDecision\<close> blanks an embedded renote or reply, \<open>HideNoteByPrefsDecision\<close> blanks a
  top-level note for its author's preferences, and \<open>AnonymousPublicationAllowed\<close> is the gate of
  the server-rendered pages.  \<open>ClampVisibilityForReply\<close> narrows a reply to its target.

  A viewer is \<open>None\<close> when the request is anonymous (a nil pointer).  The follow lookup is a
  parameter: a repository answers with an error or a truth value, and a nil predicate is
  \<open>None\<close>.  Times are milliseconds as integers and the code's seconds (float64) are exact
  rationals: for a 64-bit count of milliseconds below \<open>2 ^ 53\<close> and a window below \<open>2 ^ 43\<close>
  seconds the float comparison has the same outcome, since the quotient by 1000 is rounded
  monotonically and an integer bound is representable.
\<close>

section \<open>Data\<close>

type_synonym user_id = string

definition NoteVisibilityPublic :: string where "NoteVisibilityPublic = ''public''"
definition NoteVisibilityHome :: string where "NoteVisibilityHome = ''home''"
definition NoteVisibilityFollowers :: string where "NoteVisibilityFollowers = ''followers''"
definition NoteVisibilitySpecified :: string where "NoteVisibilitySpecified = ''specified''"

lemmas visibility_names = NoteVisibilityPublic_def NoteVisibilityHome_def
  NoteVisibilityFollowers_def NoteVisibilitySpecified_def

record account =
  accountID :: user_id
  accountRequireSignin :: bool
  accountHiddenBefore :: "int option"
  accountFollowersOnlyBefore :: "int option"

record note_row =
  noteUserID :: user_id
  noteVisibility :: string
  noteReplyUserID :: "user_id option"
  noteMentions :: "user_id list"
  noteVisibleUserIDs :: "user_id list"
  noteUser :: "account option"

record embed_facts =
  AuthorID :: user_id
  FactsVisibility :: string
  VisibleUserIDs :: "user_id list"
  ReplyTargetAuthorID :: user_id
  FactsMentions :: "user_id list"
  RequireSigninToViewContents :: bool
  MakeNotesHiddenBefore :: "int option"
  MakeNotesFollowersOnlyBefore :: "int option"
  CreatedAtMs :: int
  AuthorPrefsKnown :: bool

type_synonym follow_predicate = "(user_id \<Rightarrow> user_id \<Rightarrow> bool) option"
type_synonym follow_repository = "(user_id \<Rightarrow> user_id \<Rightarrow> string + bool) option"

section \<open>The read gate and the push gate\<close>

definition followsFunc :: "follow_repository \<Rightarrow> follow_predicate" where
  "followsFunc followingChecker = (case followingChecker of
       None \<Rightarrow> None
     | Some lookup \<Rightarrow> Some (\<lambda>viewerID authorID. case lookup viewerID authorID of Inl err \<Rightarrow> False | Inr ok \<Rightarrow> ok))"

definition CanSeeNoteFunc :: "account option \<Rightarrow> note_row option \<Rightarrow> follow_predicate \<Rightarrow> bool" where
  "CanSeeNoteFunc viewer n follows = (case n of
       None \<Rightarrow> False
     | Some n \<Rightarrow>
         if noteVisibility n = NoteVisibilityPublic \<or> noteVisibility n = NoteVisibilityHome then True
         else (case viewer of
             None \<Rightarrow> False
           | Some viewer \<Rightarrow>
               if accountID viewer = noteUserID n then True
               else if noteVisibility n = NoteVisibilityFollowers then
                 (if noteReplyUserID n = Some (accountID viewer) then True
                  else if accountID viewer \<in> set (noteMentions n) then True
                  else (case follows of
                      None \<Rightarrow> False
                    | Some follows \<Rightarrow> follows (accountID viewer) (noteUserID n)))
               else if noteVisibility n = NoteVisibilitySpecified then
                 accountID viewer \<in> set (noteVisibleUserIDs n)
               else False))"

definition CanSeeNote :: "account option \<Rightarrow> note_row option \<Rightarrow> follow_repository \<Rightarrow> bool" where
  "CanSeeNote viewer n followingChecker = CanSeeNoteFunc viewer n (followsFunc followingChecker)"

definition canSeeNoteForStream :: "account option \<Rightarrow> note_row option \<Rightarrow> follow_repository \<Rightarrow> bool" where
  "canSeeNoteForStream viewer n followingChecker = (case n of
       None \<Rightarrow> False
     | Some n \<Rightarrow>
         if noteVisibility n = NoteVisibilityPublic \<or> noteVisibility n = NoteVisibilityHome then True
         else if noteVisibility n = NoteVisibilityFollowers then
           (case viewer of
              None \<Rightarrow> False
            | Some viewer \<Rightarrow>
                if accountID viewer = noteUserID n then True
                else (case followingChecker of
                    None \<Rightarrow> False
                  | Some lookup \<Rightarrow> (case lookup (accountID viewer) (noteUserID n) of
                        Inl err \<Rightarrow> False
                      | Inr ok \<Rightarrow> ok)))
         else if noteVisibility n = NoteVisibilitySpecified then
           (case viewer of
              None \<Rightarrow> False
            | Some viewer \<Rightarrow>
                if accountID viewer = noteUserID n then True
                else accountID viewer \<in> set (noteVisibleUserIDs n))
         else False)"

definition ClampVisibilityForReply :: "string \<Rightarrow> string \<Rightarrow> string" where
  "ClampVisibilityForReply replyTargetVisibility visibility =
     (if replyTargetVisibility = NoteVisibilityHome then
        (if visibility = NoteVisibilityPublic then NoteVisibilityHome else visibility)
      else if replyTargetVisibility = NoteVisibilityFollowers then
        (if visibility = NoteVisibilityPublic \<or> visibility = NoteVisibilityHome then NoteVisibilityFollowers
         else visibility)
      else if replyTargetVisibility = NoteVisibilitySpecified then
        (if visibility \<noteq> NoteVisibilitySpecified then NoteVisibilitySpecified else visibility)
      else visibility)"

section \<open>Hiding decisions\<close>

definition noFacts :: embed_facts where
  \<comment> \<open>the zero value of the struct\<close>
  "noFacts = \<lparr> AuthorID = '''', FactsVisibility = '''', VisibleUserIDs = [], ReplyTargetAuthorID = '''',
     FactsMentions = [], RequireSigninToViewContents = False, MakeNotesHiddenBefore = None,
     MakeNotesFollowersOnlyBefore = None, CreatedAtMs = 0, AuthorPrefsKnown = False \<rparr>"

definition FactsFromModel :: "note_row option \<Rightarrow> int \<Rightarrow> embed_facts" where
  "FactsFromModel n createdAtMs = (case n of
       None \<Rightarrow> noFacts
     | Some n \<Rightarrow>
         (let f = noFacts \<lparr> AuthorID := noteUserID n, FactsVisibility := noteVisibility n,
                    VisibleUserIDs := noteVisibleUserIDs n, FactsMentions := noteMentions n,
                    CreatedAtMs := createdAtMs \<rparr>
          in case noteUser n of
               None \<Rightarrow> f
             | Some u \<Rightarrow> f \<lparr> AuthorPrefsKnown := True,
                 RequireSigninToViewContents := accountRequireSignin u,
                 MakeNotesHiddenBefore := accountHiddenBefore u,
                 MakeNotesFollowersOnlyBefore := accountFollowersOnlyBefore u \<rparr>))"

definition ShouldHideNoteByTime :: "int option \<Rightarrow> int \<Rightarrow> int \<Rightarrow> bool" where
  "ShouldHideNoteByTime hiddenBefore createdAtMs nowMs = (case hiddenBefore of
       None \<Rightarrow> False
     | Some v \<Rightarrow>
         if v \<le> 0 then
           (let elapsedSeconds = (of_int (nowMs - createdAtMs) :: rat) / 1000
            in elapsedSeconds \<ge> of_int (- v))
         else
           (let createdAtSeconds = (of_int createdAtMs :: rat) / 1000
            in createdAtSeconds \<le> of_int v))"

definition viewerIsFollowersRecipient :: "user_id \<Rightarrow> embed_facts \<Rightarrow> (user_id \<Rightarrow> bool) option \<Rightarrow> bool" where
  "viewerIsFollowersRecipient viewerID f follows =
     (if viewerID = '''' then False
      else if ReplyTargetAuthorID f \<noteq> '''' \<and> viewerID = ReplyTargetAuthorID f then True
      else if viewerID \<in> set (FactsMentions f) then True
      else (case follows of None \<Rightarrow> False | Some follows \<Rightarrow> follows (AuthorID f)))"

definition viewer_id :: "account option \<Rightarrow> user_id" where
  "viewer_id viewer = (case viewer of None \<Rightarrow> '''' | Some u \<Rightarrow> accountID u)"

definition treat_visibility :: "embed_facts \<Rightarrow> int \<Rightarrow> string" where
  "treat_visibility f nowMs =
     (let vis = FactsVisibility f in
      if vis = NoteVisibilityPublic \<or> vis = NoteVisibilityHome then
        (if AuthorPrefsKnown f \<and> ShouldHideNoteByTime (MakeNotesFollowersOnlyBefore f) (CreatedAtMs f) nowMs
         then NoteVisibilityFollowers else vis)
      else vis)"

definition HideEmbedDecision ::
  "account option \<Rightarrow> embed_facts \<Rightarrow> (user_id \<Rightarrow> bool) option \<Rightarrow> int \<Rightarrow> bool" where
  "HideEmbedDecision viewer f follows nowMs =
     (let vis = treat_visibility f nowMs; viewerID = viewer_id viewer in
      if viewer \<noteq> None \<and> viewerID = AuthorID f then False
      else if AuthorPrefsKnown f \<and> RequireSigninToViewContents f \<and> viewer = None then True
      else if AuthorPrefsKnown f \<and> ShouldHideNoteByTime (MakeNotesHiddenBefore f) (CreatedAtMs f) nowMs then True
      else if vis = NoteVisibilitySpecified then
        (if viewer = None then True else viewerID \<notin> set (VisibleUserIDs f))
      else if vis = NoteVisibilityFollowers then \<not> viewerIsFollowersRecipient viewerID f follows
      else False)"

definition HideNoteByPrefsDecision ::
  "account option \<Rightarrow> embed_facts \<Rightarrow> (user_id \<Rightarrow> bool) option \<Rightarrow> int \<Rightarrow> bool" where
  "HideNoteByPrefsDecision viewer f follows nowMs =
     (let viewerID = viewer_id viewer in
      if viewer \<noteq> None \<and> viewerID = AuthorID f then False
      else if FactsVisibility f = NoteVisibilitySpecified
              \<and> (viewer = None \<or> viewerID \<notin> set (VisibleUserIDs f)) then True
      else if \<not> AuthorPrefsKnown f then False
      else if RequireSigninToViewContents f \<and> viewer = None then True
      else if ShouldHideNoteByTime (MakeNotesHiddenBefore f) (CreatedAtMs f) nowMs then True
      else if (FactsVisibility f = NoteVisibilityPublic \<or> FactsVisibility f = NoteVisibilityHome)
              \<and> ShouldHideNoteByTime (MakeNotesFollowersOnlyBefore f) (CreatedAtMs f) nowMs
        then \<not> viewerIsFollowersRecipient viewerID f follows
      else False)"

definition PinnedNoteBypassesAuthorPrefs :: "account option \<Rightarrow> embed_facts \<Rightarrow> bool \<Rightarrow> bool" where
  "PinnedNoteBypassesAuthorPrefs viewer f pinned =
     (if \<not> pinned \<or> (FactsVisibility f \<noteq> NoteVisibilityPublic \<and> FactsVisibility f \<noteq> NoteVisibilityHome) then False
      else if viewer = None then AuthorPrefsKnown f \<and> \<not> RequireSigninToViewContents f
      else True)"

definition HidePinnedNoteByPrefsDecision ::
  "account option \<Rightarrow> embed_facts \<Rightarrow> (user_id \<Rightarrow> bool) option \<Rightarrow> int \<Rightarrow> bool \<Rightarrow> bool" where
  "HidePinnedNoteByPrefsDecision viewer f follows nowMs pinned =
     (if PinnedNoteBypassesAuthorPrefs viewer f pinned then False
      else HideNoteByPrefsDecision viewer f follows nowMs)"

definition AnonymousPublicationAllowed :: "embed_facts \<Rightarrow> bool \<Rightarrow> int \<Rightarrow> bool" where
  "AnonymousPublicationAllowed f pinned nowMs =
     (if FactsVisibility f \<noteq> NoteVisibilityPublic \<and> FactsVisibility f \<noteq> NoteVisibilityHome then False
      else if pinned \<and> \<not> AuthorPrefsKnown f then False
      else \<not> HidePinnedNoteByPrefsDecision None f None nowMs pinned)"

definition ShouldDowngradeVisibility :: "embed_facts \<Rightarrow> int \<Rightarrow> bool" where
  "ShouldDowngradeVisibility f nowMs =
     (if \<not> AuthorPrefsKnown f then False
      else if FactsVisibility f \<noteq> NoteVisibilityPublic \<and> FactsVisibility f \<noteq> NoteVisibilityHome then False
      else ShouldHideNoteByTime (MakeNotesFollowersOnlyBefore f) (CreatedAtMs f) nowMs)"

section \<open>The contract of a hiding decision\<close>

text \<open>
  Three entry points decide whether a note is blanked.  They share a contract: an author always sees the
  own note, a viewer who follows more authors sees at least as much, and what is hidden stays hidden
  as time passes.
\<close>

definition knows_more :: "(user_id \<Rightarrow> bool) option \<Rightarrow> (user_id \<Rightarrow> bool) option \<Rightarrow> bool" where
  "knows_more wide narrow \<longleftrightarrow> (\<forall>p a. narrow = Some p \<longrightarrow> p a \<longrightarrow> (\<exists>q. wide = Some q \<and> q a))"

locale hiding_policy =
  fixes hide :: "account option \<Rightarrow> embed_facts \<Rightarrow> (user_id \<Rightarrow> bool) option \<Rightarrow> int \<Rightarrow> bool"
  assumes author_sees: "accountID u = AuthorID f \<Longrightarrow> \<not> hide (Some u) f follows now"
    and follows_help: "knows_more wide narrow \<Longrightarrow> hide v f wide now \<Longrightarrow> hide v f narrow now"
    and time_hides: "now \<le> later \<Longrightarrow> hide v f follows now \<Longrightarrow> hide v f follows later"
begin

lemma hidden_for_less:
  "hide v f wide now \<Longrightarrow> knows_more wide narrow \<Longrightarrow> now \<le> later \<Longrightarrow> hide v f narrow later"
  using follows_help time_hides by blast

lemma author_always_sees: "\<exists>u. v = Some u \<and> accountID u = AuthorID f \<Longrightarrow> \<not> hide v f follows now"
  using author_sees by blast

end

lemma ShouldHideNoteByTime_mono:
  "ShouldHideNoteByTime b c now \<Longrightarrow> now \<le> later \<Longrightarrow> ShouldHideNoteByTime b c later"
proof -
  assume h: "ShouldHideNoteByTime b c now" and "now \<le> later"
  then have "(of_int (now - c) :: rat) / 1000 \<le> of_int (later - c) / 1000"
    by (intro divide_right_mono) simp_all
  with h show ?thesis
    by (auto simp: ShouldHideNoteByTime_def Let_def split: option.splits if_splits intro: order_trans)
qed

lemma viewerIsFollowersRecipient_mono:
  "knows_more wide narrow \<Longrightarrow> viewerIsFollowersRecipient v f narrow \<Longrightarrow> viewerIsFollowersRecipient v f wide"
  by (auto simp: viewerIsFollowersRecipient_def knows_more_def split: option.splits if_splits)

lemma HideEmbedDecision_follows:
  "knows_more wide narrow \<Longrightarrow> HideEmbedDecision v f wide now \<Longrightarrow> HideEmbedDecision v f narrow now"
  using viewerIsFollowersRecipient_mono [of wide narrow "viewer_id v" f]
  by (auto simp: HideEmbedDecision_def Let_def split: if_splits)

lemma treat_visibility_later:
  "now \<le> later \<Longrightarrow> treat_visibility f later = treat_visibility f now
     \<or> (treat_visibility f now \<in> {NoteVisibilityPublic, NoteVisibilityHome}
        \<and> treat_visibility f later = NoteVisibilityFollowers)"
  using ShouldHideNoteByTime_mono [of "MakeNotesFollowersOnlyBefore f" "CreatedAtMs f" now later]
  by (auto simp: treat_visibility_def Let_def)

lemma HideEmbedDecision_later:
  assumes "now \<le> later" "HideEmbedDecision v f follows now"
  shows "HideEmbedDecision v f follows later"
proof -
  have "treat_visibility f now \<in> {NoteVisibilityPublic, NoteVisibilityHome} \<Longrightarrow>
    treat_visibility f now \<noteq> NoteVisibilitySpecified \<and> treat_visibility f now \<noteq> NoteVisibilityFollowers"
    by (auto simp: visibility_names)
  with assms treat_visibility_later [of now later f]
    ShouldHideNoteByTime_mono [of "MakeNotesHiddenBefore f" "CreatedAtMs f" now later]
  show ?thesis by (auto simp: HideEmbedDecision_def Let_def split: if_splits)
qed

lemma HideNoteByPrefsDecision_follows:
  "knows_more wide narrow \<Longrightarrow> HideNoteByPrefsDecision v f wide now \<Longrightarrow> HideNoteByPrefsDecision v f narrow now"
  using viewerIsFollowersRecipient_mono [of wide narrow "viewer_id v" f]
  by (auto simp: HideNoteByPrefsDecision_def Let_def split: if_splits)

lemma HideNoteByPrefsDecision_later:
  "now \<le> later \<Longrightarrow> HideNoteByPrefsDecision v f follows now \<Longrightarrow> HideNoteByPrefsDecision v f follows later"
  using ShouldHideNoteByTime_mono [of "MakeNotesHiddenBefore f" "CreatedAtMs f" now later]
    ShouldHideNoteByTime_mono [of "MakeNotesFollowersOnlyBefore f" "CreatedAtMs f" now later]
  by (auto simp: HideNoteByPrefsDecision_def Let_def split: if_splits)

interpretation embed: hiding_policy HideEmbedDecision
proof unfold_locales
  show "accountID u = AuthorID f \<Longrightarrow> \<not> HideEmbedDecision (Some u) f follows now" for u f follows now
    by (simp add: HideEmbedDecision_def viewer_id_def Let_def)
qed (fact HideEmbedDecision_follows HideEmbedDecision_later)+

interpretation prefs: hiding_policy HideNoteByPrefsDecision
proof unfold_locales
  show "accountID u = AuthorID f \<Longrightarrow> \<not> HideNoteByPrefsDecision (Some u) f follows now" for u f follows now
    by (simp add: HideNoteByPrefsDecision_def viewer_id_def Let_def)
qed (fact HideNoteByPrefsDecision_follows HideNoteByPrefsDecision_later)+

interpretation pinned: hiding_policy "\<lambda>v f follows now. HidePinnedNoteByPrefsDecision v f follows now p"
  by unfold_locales
    (auto simp: HidePinnedNoteByPrefsDecision_def prefs.author_sees prefs.follows_help prefs.time_hides
       intro: prefs.follows_help prefs.time_hides split: if_splits)

section \<open>Widths\<close>

datatype visibility_width = Direct | FollowersOnly | Unlisted | Everyone

instantiation visibility_width :: linorder
begin

definition width_rank :: "visibility_width \<Rightarrow> nat" where
  "width_rank w = (case w of Direct \<Rightarrow> 0 | FollowersOnly \<Rightarrow> 1 | Unlisted \<Rightarrow> 2 | Everyone \<Rightarrow> 3)"

definition less_eq_visibility_width :: "visibility_width \<Rightarrow> visibility_width \<Rightarrow> bool" where
  "less_eq_visibility_width v w \<longleftrightarrow> width_rank v \<le> width_rank w"

definition less_visibility_width :: "visibility_width \<Rightarrow> visibility_width \<Rightarrow> bool" where
  "less_visibility_width v w \<longleftrightarrow> width_rank v < width_rank w"

instance
  by standard (auto simp: less_eq_visibility_width_def less_visibility_width_def width_rank_def
      split: visibility_width.splits)

end

definition width_of :: "string \<Rightarrow> visibility_width option" where
  "width_of v = (if v = NoteVisibilityPublic then Some Everyone
     else if v = NoteVisibilityHome then Some Unlisted
     else if v = NoteVisibilityFollowers then Some FollowersOnly
     else if v = NoteVisibilitySpecified then Some Direct else None)"

lemmas width_defs = less_eq_visibility_width_def less_visibility_width_def width_rank_def min_def

lemma width_of_Some:
  "width_of v = Some w \<Longrightarrow> v = (case w of Everyone \<Rightarrow> NoteVisibilityPublic | Unlisted \<Rightarrow> NoteVisibilityHome
     | FollowersOnly \<Rightarrow> NoteVisibilityFollowers | Direct \<Rightarrow> NoteVisibilitySpecified)"
  by (auto simp: width_of_def split: if_splits)

section \<open>Properties\<close>

text \<open>A reply is never wider than the note it replies to: on the four visibilities the clamp is
  the minimum in the order specified, followers, home, public.\<close>

theorem ClampVisibilityForReply_narrows:
  assumes "width_of t = Some a" and "width_of v = Some b"
  shows "width_of (ClampVisibilityForReply t v) = Some (min a b)"
  using width_of_Some [OF assms(1)] width_of_Some [OF assms(2)]
  by (cases a; cases b) (simp_all add: ClampVisibilityForReply_def width_of_def visibility_names width_defs)

theorem ClampVisibilityForReply_narrows_witness:
  "width_of (ClampVisibilityForReply ''followers'' ''public'') = Some FollowersOnly"
proof -
  have "width_of ''followers'' = Some FollowersOnly" "width_of ''public'' = Some Everyone"
    by (simp_all add: width_of_def visibility_names)
  from ClampVisibilityForReply_narrows [OF this] show ?thesis by (simp add: width_defs)
qed

text \<open>The gate of the realtime push is the read gate without its two relaxations: the read gate
  admits exactly whom the push gate admits and, on a followers note, the author replied to and
  the mentioned users (and, on a visibility that is none of the four, its author).  Both fail closed when the follow
  lookup fails.\<close>

theorem stream_gate_is_read_gate_without_mentions:
  "CanSeeNote v n repo \<longleftrightarrow> canSeeNoteForStream v n repo
     \<or> (\<exists>u m. v = Some u \<and> n = Some m \<and> noteVisibility m = NoteVisibilityFollowers
          \<and> (noteReplyUserID m = Some (accountID u) \<or> accountID u \<in> set (noteMentions m)))
     \<or> (\<exists>u m. v = Some u \<and> n = Some m \<and> width_of (noteVisibility m) = None \<and> accountID u = noteUserID m)"
proof (cases n)
  case (Some m)
  show ?thesis
  proof (cases v)
    case (Some u)
    note unfold = CanSeeNote_def CanSeeNoteFunc_def canSeeNoteForStream_def followsFunc_def
    show ?thesis
    proof (cases "noteVisibility m = NoteVisibilityFollowers")
      case True
      have "NoteVisibilityFollowers \<notin> {NoteVisibilityPublic, NoteVisibilityHome}" by (simp add: visibility_names)
      then show ?thesis using True Some \<open>n = Some m\<close>
        by (cases repo) (auto simp: unfold width_of_def split: sum.split)
    next
      case False
      then show ?thesis using Some \<open>n = Some m\<close> by (simp add: unfold width_of_def)
    qed
  qed (simp add: CanSeeNote_def CanSeeNoteFunc_def canSeeNoteForStream_def Some)
qed (simp add: CanSeeNote_def CanSeeNoteFunc_def canSeeNoteForStream_def)

definition facts_of :: "note_row \<Rightarrow> int \<Rightarrow> user_id \<Rightarrow> embed_facts" where
  \<comment> \<open>what the callers of \<open>HideEmbedDecision\<close> build: the facts of the row, with the author replied to\<close>
  "facts_of n ms replied = (FactsFromModel (Some n) ms)\<lparr>ReplyTargetAuthorID := replied\<rparr>"

definition seen_by :: "account option \<Rightarrow> follow_predicate \<Rightarrow> (user_id \<Rightarrow> bool) option" where
  "seen_by v follows = map_option (\<lambda>p. p (viewer_id v)) follows"

lemma facts_of_simps [simp]:
  "AuthorID (facts_of n ms r) = noteUserID n" "FactsVisibility (facts_of n ms r) = noteVisibility n"
  "VisibleUserIDs (facts_of n ms r) = noteVisibleUserIDs n" "FactsMentions (facts_of n ms r) = noteMentions n"
  "ReplyTargetAuthorID (facts_of n ms r) = r" "AuthorPrefsKnown (facts_of n ms r) \<longleftrightarrow> noteUser n \<noteq> None"
  by (auto simp: facts_of_def FactsFromModel_def noFacts_def Let_def split: option.splits)

lemma recipient_is_reader:
  assumes "viewerIsFollowersRecipient (accountID u) (facts_of n ms r) (seen_by (Some u) g)"
    and "r = '''' \<or> noteReplyUserID n = Some r"
  shows "noteReplyUserID n = Some (accountID u) \<or> accountID u \<in> set (noteMentions n)
     \<or> (\<exists>p. g = Some p \<and> p (accountID u) (noteUserID n))"
  using assms by (auto simp: viewerIsFollowersRecipient_def seen_by_def viewer_id_def split: option.splits if_splits)

lemma reader_is_recipient:
  assumes "noteReplyUserID n = Some (accountID u) \<or> accountID u \<in> set (noteMentions n)
     \<or> (\<exists>p. g = Some p \<and> p (accountID u) (noteUserID n))"
    and "accountID u \<noteq> ''''" and "noteReplyUserID n = (if r = '''' then None else Some r)"
  shows "viewerIsFollowersRecipient (accountID u) (facts_of n ms r) (seen_by (Some u) g)"
  using assms by (auto simp: viewerIsFollowersRecipient_def seen_by_def viewer_id_def split: option.splits if_splits)

lemma readable_iff:
  assumes "noteVisibility n \<in> {NoteVisibilityFollowers, NoteVisibilitySpecified}"
  shows "CanSeeNoteFunc v (Some n) g \<longleftrightarrow> (\<exists>u. v = Some u \<and> (accountID u = noteUserID n
     \<or> (noteVisibility n = NoteVisibilitySpecified \<and> accountID u \<in> set (noteVisibleUserIDs n))
     \<or> (noteVisibility n = NoteVisibilityFollowers \<and> (noteReplyUserID n = Some (accountID u)
          \<or> accountID u \<in> set (noteMentions n) \<or> (\<exists>p. g = Some p \<and> p (accountID u) (noteUserID n))))))"
  using assms by (auto simp: CanSeeNoteFunc_def visibility_names split: option.splits)

lemma treat_visibility_narrow:
  "FactsVisibility f \<in> {NoteVisibilityFollowers, NoteVisibilitySpecified}
   \<Longrightarrow> treat_visibility f now = FactsVisibility f"
  by (auto simp: treat_visibility_def visibility_names Let_def)

lemma treat_visibility_no_prefs: "\<not> AuthorPrefsKnown f \<Longrightarrow> treat_visibility f now = FactsVisibility f"
  by (simp add: treat_visibility_def Let_def)

lemma embed_shown_readable:
  assumes "width_of (noteVisibility n) \<noteq> None" and "r = '''' \<or> noteReplyUserID n = Some r"
    and "\<not> HideEmbedDecision v (facts_of n ms r) (seen_by v g) now"
  shows "CanSeeNoteFunc v (Some n) g"
proof (cases "noteVisibility n \<in> {NoteVisibilityFollowers, NoteVisibilitySpecified}")
  case False
  with assms(1) show ?thesis by (auto simp: CanSeeNoteFunc_def width_of_def split: if_splits)
next
  case True
  have "treat_visibility (facts_of n ms r) now = noteVisibility n"
    using treat_visibility_narrow [of "facts_of n ms r" now] True by simp
  then show ?thesis using assms(3) True recipient_is_reader [OF _ assms(2), of _ ms g]
    unfolding readable_iff [OF True]
    by (cases v) (auto simp: HideEmbedDecision_def viewer_id_def Let_def visibility_names
        viewerIsFollowersRecipient_def [of "''''"] split: if_splits)
qed

lemma embed_hidden_unreadable:
  assumes "noteUser n = None" and "noteReplyUserID n = (if r = '''' then None else Some r)"
    and "\<And>u. v = Some u \<Longrightarrow> accountID u \<noteq> ''''" and "HideEmbedDecision v (facts_of n ms r) (seen_by v g) now"
  shows "\<not> CanSeeNoteFunc v (Some n) g"
proof -
  have t: "treat_visibility (facts_of n ms r) now = noteVisibility n"
    using treat_visibility_no_prefs [of "facts_of n ms r" now] assms(1) by simp
  then have k: "noteVisibility n \<in> {NoteVisibilityFollowers, NoteVisibilitySpecified}"
    using assms(1,4) by (auto simp: HideEmbedDecision_def Let_def split: if_splits)
  show ?thesis
    using assms(1,3,4) t k reader_is_recipient [OF _ _ assms(2), of _ g ms] unfolding readable_iff [OF k]
    by (cases v) (auto simp: HideEmbedDecision_def viewer_id_def Let_def visibility_names split: if_splits)
qed

text \<open>C34. An embedded note is never shown to somebody the read gate refuses, whatever the author's
  preferences and the clock; without author preferences, and with the replied author filled in, the two
  gates agree exactly.  (An unknown visibility is outside: the read gate refuses it, the embed shows it; the column
  is an enum of the four.)\<close>

theorem embed_gate_within_read_gate:
  assumes "width_of (noteVisibility n) \<noteq> None" and "\<And>u. v = Some u \<Longrightarrow> accountID u \<noteq> ''''"
    and "r = '''' \<or> noteReplyUserID n = Some r"
  shows "(\<not> HideEmbedDecision v (facts_of n ms r) (seen_by v g) now \<longrightarrow> CanSeeNoteFunc v (Some n) g)
     \<and> (noteUser n = None \<and> (noteReplyUserID n = (if r = '''' then None else Some r)) \<longrightarrow>
          HideEmbedDecision v (facts_of n ms r) (seen_by v g) now = (\<not> CanSeeNoteFunc v (Some n) g))"
  using embed_shown_readable [OF assms(1,3)] embed_hidden_unreadable [OF _ _ assms(2)] by blast

definition reply_note :: note_row where
  "reply_note = \<lparr>noteUserID = ''a'', noteVisibility = ''followers'', noteReplyUserID = Some ''b'',
     noteMentions = [], noteVisibleUserIDs = [], noteUser = None\<rparr>"

definition reader :: account where
  "reader = \<lparr>accountID = ''b'', accountRequireSignin = False, accountHiddenBefore = None,
     accountFollowersOnlyBefore = None\<rparr>"

theorem embed_gate_within_read_gate_witness:
  "\<not> HideEmbedDecision (Some reader) (facts_of reply_note 0 ''b'') None 5 \<and> CanSeeNoteFunc (Some reader) (Some reply_note) None"
proof -
  have "width_of (noteVisibility reply_note) \<noteq> None" "\<And>u. Some reader = Some u \<Longrightarrow> accountID u \<noteq> ''''"
    "''b'' = '''' \<or> noteReplyUserID reply_note = Some ''b''"
    by (auto simp: reply_note_def reader_def width_of_def visibility_names)
  note t = embed_gate_within_read_gate [where v = "Some reader", OF this, where ms = 0 and g = None and now = 5]
  have "CanSeeNoteFunc (Some reader) (Some reply_note) None"
    by (simp add: CanSeeNoteFunc_def reply_note_def reader_def visibility_names)
  moreover have "noteUser reply_note = None" "noteReplyUserID reply_note = Some ''b''"
    by (simp_all add: reply_note_def)
  ultimately show ?thesis using t by (simp add: seen_by_def)
qed

text \<open>What is hidden from a viewer stays hidden later, and from a viewer who follows fewer
  authors; the author of a note sees it always.  This holds for embeds and for top-level notes, pinned
  or not.\<close>

theorem hidden_stays_hidden:
  assumes "knows_more wide narrow" and "now \<le> later"
  shows "(HideEmbedDecision v f wide now \<longrightarrow> HideEmbedDecision v f narrow later)
     \<and> (HidePinnedNoteByPrefsDecision v f wide now p \<longrightarrow> HidePinnedNoteByPrefsDecision v f narrow later p)
     \<and> (accountID u = AuthorID f \<longrightarrow> \<not> HideEmbedDecision (Some u) f wide now
          \<and> \<not> HidePinnedNoteByPrefsDecision (Some u) f wide now p)"
  using embed.hidden_for_less [OF _ assms, of v f] pinned.hidden_for_less [OF _ assms, of v f p]
    embed.author_sees [of u f wide now] pinned.author_sees [of u f wide now p] by blast

definition old_facts :: embed_facts where
  "old_facts = noFacts\<lparr>AuthorID := ''a'', FactsVisibility := ''public'', AuthorPrefsKnown := True,
     MakeNotesHiddenBefore := Some (- 60)\<rparr>"

theorem hidden_stays_hidden_witness:
  "\<not> HideEmbedDecision None old_facts None 59999 \<and> HideEmbedDecision None old_facts None 70000"
proof -
  have "HideEmbedDecision None old_facts None 60000" "\<not> HideEmbedDecision None old_facts None 59999"
    by (simp_all add: HideEmbedDecision_def old_facts_def noFacts_def treat_visibility_def
        ShouldHideNoteByTime_def viewer_id_def visibility_names)
  with hidden_stays_hidden [of None None 60000 70000 None old_facts] show ?thesis by (simp add: knows_more_def)
qed

text \<open>The server-rendered pages publish a note exactly when it is public or home and, for a pinned
  note, its author is known not to require sign-in (the time windows are waived), for any other, the
  embed gate would show it to an anonymous viewer.\<close>

theorem AnonymousPublicationAllowed_iff:
  "AnonymousPublicationAllowed f pinned now \<longleftrightarrow>
     (FactsVisibility f = NoteVisibilityPublic \<or> FactsVisibility f = NoteVisibilityHome)
     \<and> (if pinned then AuthorPrefsKnown f \<and> \<not> RequireSigninToViewContents f
        else \<not> HideEmbedDecision None f None now)"
  by (auto simp: AnonymousPublicationAllowed_def HidePinnedNoteByPrefsDecision_def HideNoteByPrefsDecision_def
      PinnedNoteBypassesAuthorPrefs_def HideEmbedDecision_def treat_visibility_def viewerIsFollowersRecipient_def
      viewer_id_def Let_def visibility_names)

end
