(* ===== verification/Role_Cond.thy ===== *)
theory Role_Cond imports Safe_Math begin

text \<open>
  Conditional roles: core/role/cond_formula.go and the privilege guards of
  core/role/role_service.go.

  A formula is evaluated on an account (\<open>evalCondAt\<close>).  Two static guards keep privileges out of
  reach: \<open>condSatisfiable\<close> decides from the formula alone whether an account anybody can register could
  satisfy it, or its negation, and \<open>RoleGrantsPrivilegeIndirectly\<close> whether assigning a role could give
  a privilege through a formula that mentions it.  The properties are the soundness of both guards for the evaluator,
  and the one way around the first: a duration that overflows.

  A time is a number of nanoseconds.  The generator that reads the creation time from an account's id is an
  argument, as are the decoders of the JSON columns (a formula, the policies): every statement
  holds for any of them.  Durations are 64-bit words, since the evaluator multiplies them.
\<close>

section \<open>Formulas\<close>

datatype cond_type =
    CondTypeAnd | CondTypeOr | CondTypeNot | CondTypeRoleAssignedTo | CondTypeIsLocal | CondTypeIsRemote
  | CondTypeIsSuspended | CondTypeIsLocked | CondTypeIsBot | CondTypeIsCat | CondTypeIsExplorable
  | CondTypeCreatedLessThan | CondTypeCreatedMoreThan
  | CondTypeFollowersLessThanOrEq | CondTypeFollowersMoreThanOrEq
  | CondTypeFollowingLessThanOrEq | CondTypeFollowingMoreThanOrEq
  | CondTypeNotesLessThanOrEq | CondTypeNotesMoreThanOrEq
  | CondTypeUnknown string

datatype cond_formula =
  CondFormula (CondType: cond_type) (CondValues: "cond_formula list") (CondValue: "cond_formula option")
    (CondRoleID: string) (CondSec: "64 word") (CondNumValue: int)

record role_user =
  RoleUserID :: string
  RoleUserHost :: "string option"
  IsSuspended :: bool
  IsLocked :: bool
  IsBot :: bool
  IsCat :: bool
  IsExplorable :: bool
  FollowersCount :: int
  FollowingCount :: int
  NotesCount :: int

type_synonym id_generator = "(string \<Rightarrow> int option) option"

definition second :: "64 word" where "second = 1000000000"

definition age_limit :: "int \<Rightarrow> 64 word \<Rightarrow> int" where
  \<comment> \<open>\<open>now.Add(-time.Duration(sec) * time.Second)\<close>\<close>
  "age_limit now sec = now + sint (- sec * second)"

fun evalCondAt :: "role_user \<Rightarrow> string list \<Rightarrow> cond_formula \<Rightarrow> id_generator \<Rightarrow> int \<Rightarrow> bool"
  and evalAll :: "role_user \<Rightarrow> string list \<Rightarrow> cond_formula list \<Rightarrow> id_generator \<Rightarrow> int \<Rightarrow> bool"
  and evalAny :: "role_user \<Rightarrow> string list \<Rightarrow> cond_formula list \<Rightarrow> id_generator \<Rightarrow> int \<Rightarrow> bool" where
  "evalCondAt user assigned (CondFormula ty vs v rid sec num) idGen now = (case ty of
       CondTypeAnd \<Rightarrow> evalAll user assigned vs idGen now
     | CondTypeOr \<Rightarrow> evalAny user assigned vs idGen now
     | CondTypeNot \<Rightarrow> (case v of None \<Rightarrow> False | Some g \<Rightarrow> \<not> evalCondAt user assigned g idGen now)
     | CondTypeRoleAssignedTo \<Rightarrow> rid \<in> set assigned
     | CondTypeIsLocal \<Rightarrow> RoleUserHost user = None
     | CondTypeIsRemote \<Rightarrow> RoleUserHost user \<noteq> None
     | CondTypeIsSuspended \<Rightarrow> IsSuspended user
     | CondTypeIsLocked \<Rightarrow> IsLocked user
     | CondTypeIsBot \<Rightarrow> IsBot user
     | CondTypeIsCat \<Rightarrow> IsCat user
     | CondTypeIsExplorable \<Rightarrow> IsExplorable user
     | CondTypeCreatedLessThan \<Rightarrow> (case idGen of None \<Rightarrow> False | Some parse \<Rightarrow>
         (case parse (RoleUserID user) of None \<Rightarrow> False | Some t \<Rightarrow> t > age_limit now sec))
     | CondTypeCreatedMoreThan \<Rightarrow> (case idGen of None \<Rightarrow> False | Some parse \<Rightarrow>
         (case parse (RoleUserID user) of None \<Rightarrow> False | Some t \<Rightarrow> t < age_limit now sec))
     | CondTypeFollowersLessThanOrEq \<Rightarrow> FollowersCount user \<le> num
     | CondTypeFollowersMoreThanOrEq \<Rightarrow> FollowersCount user \<ge> num
     | CondTypeFollowingLessThanOrEq \<Rightarrow> FollowingCount user \<le> num
     | CondTypeFollowingMoreThanOrEq \<Rightarrow> FollowingCount user \<ge> num
     | CondTypeNotesLessThanOrEq \<Rightarrow> NotesCount user \<le> num
     | CondTypeNotesMoreThanOrEq \<Rightarrow> NotesCount user \<ge> num
     | CondTypeUnknown s \<Rightarrow> False)"
| "evalAll user assigned [] idGen now = True"
| "evalAll user assigned (v # vs) idGen now =
     (if \<not> evalCondAt user assigned v idGen now then False else evalAll user assigned vs idGen now)"
| "evalAny user assigned [] idGen now = False"
| "evalAny user assigned (v # vs) idGen now =
     (if evalCondAt user assigned v idGen now then True else evalAny user assigned vs idGen now)"

definition EvalCond :: "role_user option \<Rightarrow> string list \<Rightarrow> cond_formula \<Rightarrow> id_generator \<Rightarrow> int \<Rightarrow> bool" where
  "EvalCond user assigned formula idGen now = (case user of
       None \<Rightarrow> False | Some user \<Rightarrow> evalCondAt user assigned formula idGen now)"

section \<open>The satisfiability guard\<close>

record condSatisfiability =
  satPositive :: bool
  satNegative :: bool

definition condLeafAgeBased :: "cond_formula \<Rightarrow> condSatisfiability \<times> bool" where
  "condLeafAgeBased f = (if CondType f \<noteq> CondTypeCreatedLessThan
     then (\<lparr>satPositive = False, satNegative = False\<rparr>, False)
     else (\<lparr>satPositive = (0 <s CondSec f), satNegative = True\<rparr>, True))"

definition condLeafSatisfiability :: "cond_type \<Rightarrow> condSatisfiability option" where
  "condLeafSatisfiability ty =
     (let both = Some \<lparr>satPositive = True, satNegative = True\<rparr>;
          negation = Some \<lparr>satPositive = False, satNegative = True\<rparr> in
      case ty of
        CondTypeIsLocal \<Rightarrow> Some \<lparr>satPositive = True, satNegative = False\<rparr>
      | CondTypeCreatedMoreThan \<Rightarrow> both
      | CondTypeIsRemote \<Rightarrow> negation
      | CondTypeIsSuspended \<Rightarrow> negation
      | CondTypeIsLocked \<Rightarrow> both | CondTypeIsBot \<Rightarrow> both | CondTypeIsCat \<Rightarrow> both | CondTypeIsExplorable \<Rightarrow> both
      | CondTypeFollowersLessThanOrEq \<Rightarrow> both | CondTypeFollowersMoreThanOrEq \<Rightarrow> both
      | CondTypeFollowingLessThanOrEq \<Rightarrow> both | CondTypeFollowingMoreThanOrEq \<Rightarrow> both
      | CondTypeNotesLessThanOrEq \<Rightarrow> both | CondTypeNotesMoreThanOrEq \<Rightarrow> both
      | CondTypeRoleAssignedTo \<Rightarrow> negation
      | _ \<Rightarrow> None)"

definition leaf_satisfiable :: "cond_formula \<Rightarrow> bool \<Rightarrow> bool" where
  "leaf_satisfiable f negated =
     (case condLeafAgeBased f of
        (sat, True) \<Rightarrow> if negated then satNegative sat else satPositive sat
      | (_, False) \<Rightarrow> (case condLeafSatisfiability (CondType f) of
            None \<Rightarrow> True
          | Some sat \<Rightarrow> if negated then satNegative sat else satPositive sat))"

fun condSatisfiable :: "cond_formula \<Rightarrow> bool \<Rightarrow> bool"
  and foldOperands :: "cond_formula list \<Rightarrow> bool \<Rightarrow> bool \<Rightarrow> bool" where
  "condSatisfiable (CondFormula ty vs v rid sec num) negated = (case ty of
       CondTypeNot \<Rightarrow> (case v of None \<Rightarrow> negated | Some g \<Rightarrow> condSatisfiable g (\<not> negated))
     | CondTypeAnd \<Rightarrow> if vs = [] then \<not> negated else foldOperands vs negated negated
     | CondTypeOr \<Rightarrow> if vs = [] then negated else foldOperands vs negated (\<not> negated)
     | _ \<Rightarrow> leaf_satisfiable (CondFormula ty vs v rid sec num) negated)"
| "foldOperands [] negated anyWins = (\<not> anyWins)"
| "foldOperands (v # vs) negated anyWins =
     (if anyWins then (if condSatisfiable v negated then True else foldOperands vs negated anyWins)
      else (if \<not> condSatisfiable v negated then False else foldOperands vs negated anyWins))"

definition CondDependsOnUserControlledValue :: "cond_formula \<Rightarrow> bool" where
  "CondDependsOnUserControlledValue f = condSatisfiable f False"

fun CondReferencedRoleIDs :: "cond_formula \<Rightarrow> string list"
  and referenced_in :: "cond_formula list \<Rightarrow> string list" where
  "CondReferencedRoleIDs (CondFormula ty vs v rid sec num) =
     (if ty = CondTypeRoleAssignedTo \<and> rid \<noteq> '''' then [rid] else [])
     @ (case v of None \<Rightarrow> [] | Some g \<Rightarrow> CondReferencedRoleIDs g) @ referenced_in vs"
| "referenced_in [] = []"
| "referenced_in (v # vs) = CondReferencedRoleIDs v @ referenced_in vs"

section \<open>Roles\<close>

datatype policy_value = PolicyBool bool | PolicyOther

record policy_override =
  UseDefault :: bool
  PolicyValue :: policy_value

record role_row =
  RoleID :: string
  RoleTarget :: string
  RoleCondFormula :: string
  RolePolicies :: string
  RoleIsModerator :: bool
  RoleIsAdministrator :: bool
  RoleIsPublic :: bool
  RoleIsExplorable :: bool

definition RoleTargetConditional :: string where "RoleTargetConditional = ''conditional''"

definition privilegedPolicyKeys :: "string set" where
  "privilegedPolicyKeys = {''canManageCustomEmojis'', ''canManageAvatarDecorations''}"

type_synonym policy_decoder = "string \<Rightarrow> (string \<times> policy_override option) list option"
type_synonym formula_decoder = "string \<Rightarrow> cond_formula option"

definition grantsPrivilegedPolicy :: "policy_decoder \<Rightarrow> string \<Rightarrow> bool" where
  \<comment> \<open>the loop over the decoded map returns true at an entry, so its order does not matter\<close>
  "grantsPrivilegedPolicy decode policies =
     (if policies = [] then False
      else case decode policies of
          None \<Rightarrow> True
        | Some entries \<Rightarrow> list_ex (\<lambda>(key, raw).
            if key \<notin> privilegedPolicyKeys then False
            else case raw of None \<Rightarrow> True
              | Some ov \<Rightarrow> if UseDefault ov then False else PolicyValue ov = PolicyBool True) entries)"

definition checkConditionalPrivilege ::
  "formula_decoder \<Rightarrow> policy_decoder \<Rightarrow> string \<Rightarrow> string \<Rightarrow> string \<Rightarrow> bool \<Rightarrow> bool \<Rightarrow> bool" where
  \<comment> \<open>true is a nil error, false is \<open>ErrSelfGrantablePrivilege\<close>\<close>
  "checkConditionalPrivilege decodeF decodeP target condFormula policies isModerator isAdministrator =
     (if target \<noteq> RoleTargetConditional then True
      else if \<not> isModerator \<and> \<not> isAdministrator \<and> \<not> grantsPrivilegedPolicy decodeP policies then True
      else if condFormula = [] then True
      else (case decodeF condFormula of
          None \<Rightarrow> False
        | Some f \<Rightarrow> \<not> CondDependsOnUserControlledValue f))"

definition grants_privilege :: "policy_decoder \<Rightarrow> role_row \<Rightarrow> bool" where
  "grants_privilege decodeP r \<longleftrightarrow>
     RoleIsAdministrator r \<or> RoleIsModerator r \<or> grantsPrivilegedPolicy decodeP (RolePolicies r)"

fun scan_grants :: "formula_decoder \<Rightarrow> policy_decoder \<Rightarrow> string \<Rightarrow> role_row option list \<Rightarrow> bool" where
  "scan_grants decodeF decodeP roleID [] = False"
| "scan_grants decodeF decodeP roleID (None # rs) = scan_grants decodeF decodeP roleID rs"
| "scan_grants decodeF decodeP roleID (Some r # rs) =
     (if RoleTarget r \<noteq> RoleTargetConditional then scan_grants decodeF decodeP roleID rs
      else if \<not> grants_privilege decodeP r then scan_grants decodeF decodeP roleID rs
      else if RoleCondFormula r = [] then scan_grants decodeF decodeP roleID rs
      else (case decodeF (RoleCondFormula r) of
          None \<Rightarrow> True
        | Some f \<Rightarrow> if roleID \<in> set (CondReferencedRoleIDs f) then True
                   else scan_grants decodeF decodeP roleID rs))"

definition RoleGrantsPrivilegeIndirectly ::
  "formula_decoder \<Rightarrow> policy_decoder \<Rightarrow> (role_row option list) option \<Rightarrow> string \<Rightarrow> bool \<times> bool" where
  \<comment> \<open>the answer and whether an error is returned; the role list is \<open>None\<close> when it cannot be read\<close>
  "RoleGrantsPrivilegeIndirectly decodeF decodeP roles roleID =
     (if roleID = [] then (False, False)
      else case roles of None \<Rightarrow> (True, True) | Some rs \<Rightarrow> (scan_grants decodeF decodeP roleID rs, False))"

record role_env =
  EnvRoles :: "(role_row option list) option"
  EnvUsers :: "(string \<Rightarrow> role_user option) option"
  EnvIdGen :: id_generator

definition matched_roles ::
  "formula_decoder \<Rightarrow> role_user \<Rightarrow> string list \<Rightarrow> id_generator \<Rightarrow> int \<Rightarrow> role_row option list \<Rightarrow> role_row list" where
  "matched_roles decodeF user assigned idGen now rs =
     [r. Some r \<leftarrow> rs, RoleTarget r = RoleTargetConditional,
         (case decodeF (RoleCondFormula r) of None \<Rightarrow> False
          | Some f \<Rightarrow> EvalCond (Some user) assigned f idGen now)]"

definition evaluateConditionalRoles ::
  "formula_decoder \<Rightarrow> role_env \<Rightarrow> int \<Rightarrow> string \<Rightarrow> string list \<Rightarrow> role_row list" where
  \<comment> \<open>\<open>assigned\<close> holds the ids of the roles assigned to the user\<close>
  "evaluateConditionalRoles decodeF env now userID assigned = (case EnvUsers env of
       None \<Rightarrow> []
     | Some lookup \<Rightarrow> (case EnvRoles env of
           None \<Rightarrow> []
         | Some rs \<Rightarrow>
             if \<not> list_ex (\<lambda>ro. case ro of None \<Rightarrow> False | Some r \<Rightarrow> RoleTarget r = RoleTargetConditional) rs then []
             else (case lookup userID of
                 None \<Rightarrow> []
               | Some user \<Rightarrow> matched_roles decodeF user assigned (EnvIdGen env) now rs)))"

section \<open>Loops as quantifiers\<close>

lemma evalAll_iff: "evalAll user assigned vs idGen now \<longleftrightarrow> (\<forall>v\<in>set vs. evalCondAt user assigned v idGen now)"
  by (induction vs) auto

lemma evalAny_iff: "evalAny user assigned vs idGen now \<longleftrightarrow> (\<exists>v\<in>set vs. evalCondAt user assigned v idGen now)"
  by (induction vs) auto

lemma foldOperands_iff:
  "foldOperands vs negated anyWins \<longleftrightarrow>
     (if anyWins then \<exists>v\<in>set vs. condSatisfiable v negated else \<forall>v\<in>set vs. condSatisfiable v negated)"
  by (induction vs) auto

lemma referenced_in_iff: "r \<in> set (referenced_in vs) \<longleftrightarrow> (\<exists>v\<in>set vs. r \<in> set (CondReferencedRoleIDs v))"
  by (induction vs) auto

lemmas cond_loops = evalAll_iff evalAny_iff foldOperands_iff referenced_in_iff

section \<open>Soundness of the satisfiability guard\<close>

text \<open>Anybody can register an account of this kind: local, not suspended, created no later than now and without
  any role a formula refers to.\<close>

definition registrable :: "role_user \<Rightarrow> id_generator \<Rightarrow> int \<Rightarrow> bool" where
  "registrable user idGen now \<longleftrightarrow> RoleUserHost user = None \<and> \<not> IsSuspended user
     \<and> (\<forall>parse t. idGen = Some parse \<and> parse (RoleUserID user) = Some t \<longrightarrow> t \<le> now)"

definition unreferenced :: "string list \<Rightarrow> cond_formula \<Rightarrow> bool" where
  "unreferenced assigned f \<longleftrightarrow> (\<forall>r\<in>set assigned. r \<noteq> '''' \<and> r \<notin> set (CondReferencedRoleIDs f))"

fun ages_fit :: "cond_formula \<Rightarrow> bool"
  and all_ages_fit :: "cond_formula list \<Rightarrow> bool" where
  "ages_fit (CondFormula ty vs v rid sec num) \<longleftrightarrow>
     (ty = CondTypeCreatedLessThan \<longrightarrow> - 9223372036 \<le> sint sec)
     \<and> (case v of None \<Rightarrow> True | Some g \<Rightarrow> ages_fit g) \<and> all_ages_fit vs"
| "all_ages_fit [] \<longleftrightarrow> True"
| "all_ages_fit (v # vs) \<longleftrightarrow> ages_fit v \<and> all_ages_fit vs"

lemma all_ages_fit_iff: "all_ages_fit vs \<longleftrightarrow> (\<forall>v\<in>set vs. ages_fit v)"
  by (induction vs) auto

lemma sint_second: "- 9223372036 \<le> k \<Longrightarrow> k \<le> 9223372036 \<Longrightarrow> sint ((word_of_int k :: 64 word) * second) = k * 1000000000"
proof -
  assume k: "- 9223372036 \<le> k" "k \<le> 9223372036"
  have "(word_of_int k :: 64 word) * second = word_of_int (k * 1000000000)" by (simp add: second_def)
  moreover have "sint (word_of_int (k * 1000000000) :: 64 word) = k * 1000000000"
    using k by (intro sint_of_int) simp_all
  ultimately show ?thesis by simp
qed

lemma age_limit_not_past:
  assumes "\<not> 0 <s sec" and "- 9223372036 \<le> sint sec"
  shows "now \<le> age_limit now sec"
proof -
  have "sint sec \<le> 0" using assms(1) by (simp add: word_sless_alt)
  moreover have "- sec = word_of_int (- sint sec)" by simp
  ultimately show ?thesis using assms(2) sint_second [of "- sint sec"] by (simp add: age_limit_def)
qed

lemma leaf_sound:
  assumes "ty \<notin> {CondTypeAnd, CondTypeOr, CondTypeNot}" and "registrable user idGen now"
    and "unreferenced assigned (CondFormula ty vs v rid sec num)" and "ages_fit (CondFormula ty vs v rid sec num)"
    and "\<not> leaf_satisfiable (CondFormula ty vs v rid sec num) negated"
  shows "evalCondAt user assigned (CondFormula ty vs v rid sec num) idGen now = negated"
proof (cases "ty = CondTypeCreatedLessThan")
  case True
  then have "\<not> negated" "\<not> 0 <s sec" "- 9223372036 \<le> sint sec" using assms(4,5)
    by (auto simp: leaf_satisfiable_def condLeafAgeBased_def split: if_splits)
  with True assms(2) age_limit_not_past [of sec now] show ?thesis
    by (fastforce simp: registrable_def split: option.splits)
next
  case False
  then have "(case condLeafSatisfiability ty of None \<Rightarrow> True
     | Some sat \<Rightarrow> if negated then satNegative sat else satPositive sat) = False"
    using assms(5) by (simp add: leaf_satisfiable_def condLeafAgeBased_def)
  then have "ty = CondTypeIsLocal \<and> negated
     \<or> ty \<in> {CondTypeIsRemote, CondTypeIsSuspended, CondTypeRoleAssignedTo} \<and> \<not> negated"
    by (cases negated; cases ty) (simp_all add: condLeafSatisfiability_def)
  then show ?thesis using assms(2,3) by (auto simp: registrable_def unreferenced_def)
qed

lemma unreferenced_parts:
  "unreferenced assigned (CondFormula ty vs v rid sec num) \<Longrightarrow> w \<in> set vs \<or> v = Some w \<Longrightarrow> unreferenced assigned w"
  by (auto simp: unreferenced_def referenced_in_iff)

lemma guard_sound:
  "\<not> condSatisfiable f negated \<Longrightarrow> registrable user idGen now \<Longrightarrow> unreferenced assigned f \<Longrightarrow> ages_fit f
   \<Longrightarrow> evalCondAt user assigned f idGen now = negated"
proof (induction f arbitrary: negated)
  case (CondFormula ty vs v rid sec num)
  note part = unreferenced_parts [OF CondFormula.prems(3)]
  show ?case
  proof (cases "ty \<in> {CondTypeAnd, CondTypeOr, CondTypeNot}")
    case False
    with CondFormula.prems have "\<not> leaf_satisfiable (CondFormula ty vs v rid sec num) negated" by (cases ty) auto
    with leaf_sound [OF False] CondFormula.prems show ?thesis by blast
  next
    case True
    have list: "\<not> condSatisfiable w n \<Longrightarrow> evalCondAt user assigned w idGen now = n" if "w \<in> set vs" for w n
      using CondFormula.IH(1) [of w n] that CondFormula.prems(2,4) part by (auto simp: all_ages_fit_iff)
    have single: "\<not> condSatisfiable w n \<Longrightarrow> evalCondAt user assigned w idGen now = n" if "v = Some w" for w n
      using CondFormula.IH(2) [of w n] that CondFormula.prems(2,4) part by auto
    from True consider "ty = CondTypeAnd" | "ty = CondTypeOr" | "ty = CondTypeNot" by blast
    then show ?thesis
    proof cases
      case 1
      then show ?thesis using CondFormula.prems(1) list [of _ True] list [of _ False]
        by (cases negated) (simp_all add: cond_loops split: if_splits, blast+)
    next
      case 2
      then show ?thesis using CondFormula.prems(1) list [of _ True] list [of _ False]
        by (cases negated) (simp_all add: cond_loops split: if_splits, blast+)
    next
      case 3
      then show ?thesis using CondFormula.prems(1) single by (cases v) auto
    qed
  qed
qed

section \<open>Formulas that do not mention a role\<close>

lemma eval_unmentioned:
  "roleID \<notin> set (CondReferencedRoleIDs f) \<Longrightarrow> roleID \<noteq> '''' \<Longrightarrow>
   evalCondAt user (roleID # assigned) f idGen now = evalCondAt user assigned f idGen now"
proof (induction f)
  case (CondFormula ty vs v rid sec num)
  have "evalCondAt user (roleID # assigned) w idGen now = evalCondAt user assigned w idGen now"
    if "w \<in> set vs \<or> v = Some w" for w
    using that CondFormula by (auto simp: referenced_in_iff)
  then show ?case using CondFormula.prems
    by (cases ty) (auto simp: evalAll_iff evalAny_iff split: option.splits if_splits)
qed

lemma scan_grants_iff:
  "scan_grants decodeF decodeP roleID rs \<longleftrightarrow> (\<exists>r. Some r \<in> set rs \<and> RoleTarget r = RoleTargetConditional
     \<and> grants_privilege decodeP r \<and> RoleCondFormula r \<noteq> []
     \<and> (case decodeF (RoleCondFormula r) of None \<Rightarrow> True | Some f \<Rightarrow> roleID \<in> set (CondReferencedRoleIDs f)))"
proof (induction rs)
  case (Cons ro rs)
  show ?case
  proof (cases ro)
    case (Some r)
    with Cons.IH show ?thesis by (cases "decodeF (RoleCondFormula r)") auto
  qed (use Cons.IH in auto)
qed simp

lemma matched_iff:
  "r \<in> set (matched_roles decodeF user assigned idGen now rs) \<longleftrightarrow> Some r \<in> set rs \<and> RoleTarget r = RoleTargetConditional
     \<and> (\<exists>f. decodeF (RoleCondFormula r) = Some f \<and> evalCondAt user assigned f idGen now)"
  by (auto simp: matched_roles_def EvalCond_def split: option.splits if_splits)

lemma matched_same:
  assumes "\<not> scan_grants decodeF decodeP roleID rs" and "decodeF [] = None" and "roleID \<noteq> ''''"
  shows "filter (grants_privilege decodeP) (matched_roles decodeF user (roleID # assigned) idGen now rs)
     = filter (grants_privilege decodeP) (matched_roles decodeF user assigned idGen now rs)"
proof -
  have same: "(case decodeF (RoleCondFormula r) of None \<Rightarrow> False | Some f \<Rightarrow> EvalCond (Some user) (roleID # assigned) f idGen now)
      = (case decodeF (RoleCondFormula r) of None \<Rightarrow> False | Some f \<Rightarrow> EvalCond (Some user) assigned f idGen now)"
    if "Some r \<in> set rs" "RoleTarget r = RoleTargetConditional" "grants_privilege decodeP r" for r
  proof (cases "decodeF (RoleCondFormula r)")
    case (Some f)
    with assms(2) have "RoleCondFormula r \<noteq> []" by auto
    with assms(1) that Some have "roleID \<notin> set (CondReferencedRoleIDs f)" by (auto simp: scan_grants_iff)
    from eval_unmentioned [OF this assms(3)] Some show ?thesis by (simp add: EvalCond_def)
  qed simp
  then show ?thesis unfolding matched_roles_def
    by (induction rs) (auto split: option.splits)
qed

section \<open>Properties\<close>

text \<open>C20. The guard of conditional roles is sound for formulas whose \<open>createdLessThan\<close> durations do not overflow: when it finds a formula (or, with the flag set, its
  negation) out of reach, no account that anybody can register satisfies it, at any time; so a conditional role that
  \<open>checkConditionalPrivilege\<close> lets through with a privilege matches no such account.  Without that
  hypothesis it is false of the code, as \<open>overflowing_age_matches_everybody\<close> shows.\<close>

theorem privilege_guard_sound:
  assumes "registrable user idGen now" and "unreferenced assigned f" and "ages_fit f"
  shows "(\<not> condSatisfiable f negated \<longrightarrow> evalCondAt user assigned f idGen now = negated)
     \<and> (checkConditionalPrivilege decodeF decodeP RoleTargetConditional cond policies isMod isAdmin
        \<and> (isMod \<or> isAdmin \<or> grantsPrivilegedPolicy decodeP policies) \<and> cond \<noteq> [] \<and> decodeF cond = Some f
        \<longrightarrow> \<not> EvalCond (Some user) assigned f idGen now)"
  using guard_sound [OF _ assms, of negated] guard_sound [OF _ assms, of False]
  by (auto simp: checkConditionalPrivilege_def CondDependsOnUserControlledValue_def EvalCond_def split: if_splits)

definition new_user :: role_user where
  "new_user = \<lparr>RoleUserID = ''9a'', RoleUserHost = None, IsSuspended = False, IsLocked = False, IsBot = False, IsCat = True,
     IsExplorable = True, FollowersCount = 0, FollowingCount = 0, NotesCount = 0\<rparr>"

definition leaf :: "cond_type \<Rightarrow> cond_formula" where
  "leaf ty = CondFormula ty [] None '''' 0 0"

definition staff_and_local :: cond_formula where
  "staff_and_local = CondFormula CondTypeAnd
     [leaf CondTypeIsLocal, CondFormula CondTypeRoleAssignedTo [] None ''staff'' 0 0] None '''' 0 0"

theorem privilege_guard_sound_witness:
  "\<not> condSatisfiable staff_and_local False \<and> \<not> evalCondAt new_user [''other''] staff_and_local (Some (\<lambda>_. Some 5)) 7"
proof -
  have "registrable new_user (Some (\<lambda>_. Some 5)) 7" "unreferenced [''other''] staff_and_local" "ages_fit staff_and_local"
    by (simp_all add: registrable_def unreferenced_def new_user_def staff_and_local_def leaf_def)
  note t = privilege_guard_sound [OF this, of False]
  have "\<not> condSatisfiable staff_and_local False"
    by (simp add: staff_and_local_def leaf_def leaf_satisfiable_def condLeafAgeBased_def condLeafSatisfiability_def)
  with t show ?thesis by blast
qed

text \<open>C29. The guard for indirect grants is sound: when it says that assigning a role gives no privilege through a
  formula, the privileged conditional roles a user matches are the same with the role as without it.
  The hypothesis on the decoder is that empty bytes are no JSON.\<close>

theorem indirect_guard_sound:
  assumes "RoleGrantsPrivilegeIndirectly decodeF decodeP (EnvRoles env) roleID = (False, e)" and "roleID \<noteq> ''''"
    and "decodeF [] = None"
  shows "filter (grants_privilege decodeP) (evaluateConditionalRoles decodeF env now userID (roleID # assigned))
     = filter (grants_privilege decodeP) (evaluateConditionalRoles decodeF env now userID assigned)"
  using assms matched_same [of decodeF decodeP roleID _ _ assigned]
  by (auto simp: RoleGrantsPrivilegeIndirectly_def evaluateConditionalRoles_def split: option.splits)

definition boss_role :: role_row where
  "boss_role = \<lparr>RoleID = ''boss'', RoleTarget = ''conditional'', RoleCondFormula = ''x'', RolePolicies = '''',
     RoleIsModerator = False, RoleIsAdministrator = True, RoleIsPublic = False, RoleIsExplorable = False\<rparr>"

definition staff_decoder :: formula_decoder where
  "staff_decoder s = (if s = ''x'' then Some staff_and_local else None)"

definition staff_env :: role_env where
  "staff_env = \<lparr>EnvRoles = Some [Some boss_role], EnvUsers = Some (\<lambda>_. Some new_user), EnvIdGen = None\<rparr>"

theorem indirect_guard_sound_witness:
  "RoleGrantsPrivilegeIndirectly staff_decoder (\<lambda>_. None) (EnvRoles staff_env) ''staff'' = (True, False)
   \<and> filter (grants_privilege (\<lambda>_. None)) (evaluateConditionalRoles staff_decoder staff_env 0 ''u'' [''member'', ''staff''])
     = [boss_role]"
proof -
  have d: "RoleGrantsPrivilegeIndirectly staff_decoder (\<lambda>_. None) (EnvRoles staff_env) ''member'' = (False, False)"
    "''member'' \<noteq> ''''" "staff_decoder [] = None"
    by (simp_all add: RoleGrantsPrivilegeIndirectly_def staff_env_def boss_role_def grants_privilege_def
        RoleTargetConditional_def staff_decoder_def staff_and_local_def leaf_def)
  have e: "filter (grants_privilege (\<lambda>_. None)) (evaluateConditionalRoles staff_decoder staff_env 0 ''u'' [''staff'']) = [boss_role]"
    by (simp add: evaluateConditionalRoles_def staff_env_def boss_role_def grants_privilege_def matched_roles_def
        EvalCond_def new_user_def RoleTargetConditional_def staff_decoder_def staff_and_local_def leaf_def)
  have "RoleGrantsPrivilegeIndirectly staff_decoder (\<lambda>_. None) (EnvRoles staff_env) ''staff'' = (True, False)"
    by (simp add: RoleGrantsPrivilegeIndirectly_def staff_env_def boss_role_def grants_privilege_def
        RoleTargetConditional_def staff_decoder_def staff_and_local_def leaf_def)
  then show ?thesis using indirect_guard_sound [OF d, of 0 "''u''" "[''staff'']"] e by argo
qed

definition overflowing_age :: cond_formula where
  "overflowing_age = CondFormula CondTypeCreatedLessThan [] None '''' (- 9223372037) 0"

text \<open>C30. The hypothesis on durations is needed: a \<open>createdLessThan\<close> of -9223372037 seconds is out of reach
  for the guard (its \<open>sec\<close> is not positive), but the product with a second wraps to about 292 years
  before now, and every account created since matches.\<close>

theorem overflowing_age_matches_everybody:
  assumes "idGen = Some parse" and "parse (RoleUserID user) = Some t" and "now - 9223372036000000000 \<le> t"
  shows "\<not> CondDependsOnUserControlledValue overflowing_age \<and> evalCondAt user assigned overflowing_age idGen now"
proof -
  have "sint (- (- 9223372037) * second) = - 9223372036709551616"
    by (simp add: second_def)
  then have "age_limit now (- 9223372037) < t" using assms(3) by (simp add: age_limit_def)
  moreover have "\<not> 0 <s (- 9223372037 :: 64 word)" by (simp add: word_sless_alt)
  ultimately show ?thesis using assms(1,2)
    by (simp add: overflowing_age_def CondDependsOnUserControlledValue_def leaf_satisfiable_def condLeafAgeBased_def)
qed

theorem overflowing_age_matches_everybody_witness:
  "evalCondAt new_user [] overflowing_age (Some (\<lambda>_. Some 5)) 7"
  using overflowing_age_matches_everybody [of "Some (\<lambda>_. Some 5)" "\<lambda>_. Some 5" new_user 5 7] by simp

end
