(* ===== verification/Role_Policy.thy ===== *)
theory Role_Policy imports Role_Cond Go_Text Go_Float "HOL-Library.Char_ord" "HOL-Library.List_Lexorder" begin

text \<open>
  Effective policies: the aggregation of core/role/role_service.go and the replacements of
  core/role/plugin_policy.go.

  A policy value is a Go \<open>any\<close>: \<open>policy_val\<close> lists the dynamic types the code distinguishes.  A
  float64 is an exact rational, a NaN or an infinity; comparing a float with an integer limit is exact while
  the limit is below \<open>2 ^ 53\<close>.  The host's \<open>int\<close> has 64 bits.  Text is compared bytewise, as
  \<open>sort.Strings\<close> does.  The decoder of a role's policies column is an argument.
\<close>

section \<open>Values\<close>

datatype policy_val = PNil | PBool bool | PInt int | PInt64 int | PFloat float64 | PString string
  | PStrings "string list" | PAnys "policy_val list" | PObject

definition PolicyOptOutNotificationTypes :: string where
  "PolicyOptOutNotificationTypes = ''optOutNotificationTypes''"

definition fractionalPolicyKeys :: "string set" where
  "fractionalPolicyKeys = {''maxFileSizeMb'', ''driveCapacityMb''}"

record role_policy_override =
  OverrideUseDefault :: bool
  OverridePriority :: int
  OverrideValue :: policy_val

record policy_entry =
  EntryPriority :: int
  EntryValue :: policy_val
  EntryExplicit :: bool

record role_policy_input =
  InputRoleID :: string
  InputOverrides :: "string \<rightharpoonup> role_policy_override"
  InputReplacements :: "string \<rightharpoonup> policy_entry"

definition rolePolicyEntry :: "(string \<rightharpoonup> role_policy_override) \<Rightarrow> string \<Rightarrow> policy_val \<Rightarrow> policy_entry" where
  "rolePolicyEntry overrides key baseVal = (case overrides key of
       None \<Rightarrow> \<lparr>EntryPriority = 0, EntryValue = baseVal, EntryExplicit = False\<rparr>
     | Some p \<Rightarrow>
         if OverrideUseDefault p
         then \<lparr>EntryPriority = OverridePriority p, EntryValue = baseVal, EntryExplicit = False\<rparr>
         else \<lparr>EntryPriority = OverridePriority p, EntryValue = OverrideValue p, EntryExplicit = True\<rparr>)"

definition input_entry :: "role_policy_input \<Rightarrow> string \<Rightarrow> policy_val \<Rightarrow> policy_entry" where
  "input_entry inp key baseVal = (case InputReplacements inp key of
       Some replacement \<Rightarrow> replacement
     | None \<Rightarrow> rolePolicyEntry (InputOverrides inp) key baseVal)"

definition newRolePolicyInputs ::
  "(string \<Rightarrow> string \<rightharpoonup> role_policy_override) \<Rightarrow> role_row option list \<Rightarrow> role_policy_input list" where
  \<comment> \<open>\<open>parse\<close> is \<open>parseRolePolicies\<close>, which reads the JSON column\<close>
  "newRolePolicyInputs parse roles = map (\<lambda>ro. case ro of
       None \<Rightarrow> \<lparr>InputRoleID = '''', InputOverrides = Map.empty, InputReplacements = Map.empty\<rparr>
     | Some r \<Rightarrow>
         if RolePolicies r = [] then \<lparr>InputRoleID = RoleID r, InputOverrides = Map.empty, InputReplacements = Map.empty\<rparr>
         else \<lparr>InputRoleID = RoleID r, InputOverrides = parse (RolePolicies r), InputReplacements = Map.empty\<rparr>) roles"

section \<open>Numbers\<close>

definition safelyConvertFloatToHostInt :: "float64 \<Rightarrow> int \<times> bool" where
  "safelyConvertFloatToHostInt v = (case v of
       Finite q \<Rightarrow> (let min = - (2 ^ 63); maxExclusive = - min in
         if q < min \<or> q \<ge> maxExclusive then (0, False) else (trunc_rat q, True))
     | _ \<Rightarrow> (0, False))"

datatype int_base_numeric = Integer (intValue: int) | Fraction (floatValue: rat)

definition normalized :: "int_base_numeric \<Rightarrow> policy_val" where
  "normalized n = (case n of Integer i \<Rightarrow> PInt i | Fraction q \<Rightarrow> PFloat (Finite q))"

definition intBaseNumber :: "policy_val \<Rightarrow> int_base_numeric option" where
  "intBaseNumber v = (case v of
       PInt i \<Rightarrow> Some (Integer i)
     | PInt64 i \<Rightarrow> Some (Integer i)
     | PFloat f \<Rightarrow> (case f of
           Finite q \<Rightarrow> (case safelyConvertFloatToHostInt f of
               (i, ok) \<Rightarrow> if \<not> ok then None
                 else if q = of_int (trunc_rat q) then Some (Integer i) else Some (Fraction q))
         | _ \<Rightarrow> None)
     | _ \<Rightarrow> None)"

definition compareIntToFraction :: "int \<Rightarrow> rat \<Rightarrow> int" where
  "compareIntToFraction i f = (let truncated = trunc_rat f in
     if f > 0 then (if i \<le> truncated then - 1 else 1)
     else if i < truncated then - 1 else 1)"

definition greaterThan :: "int_base_numeric \<Rightarrow> int_base_numeric \<Rightarrow> bool" where
  "greaterThan n other = (case (n, other) of
       (Integer i, Integer j) \<Rightarrow> i > j
     | (Fraction p, Fraction q) \<Rightarrow> p > q
     | (Integer i, Fraction q) \<Rightarrow> compareIntToFraction i q > 0
     | (Fraction p, Integer j) \<Rightarrow> compareIntToFraction j p < 0)"

fun max_from :: "int_base_numeric option \<Rightarrow> policy_val list \<Rightarrow> int_base_numeric option" where
  "max_from best [] = best"
| "max_from best (v # vs) = (case intBaseNumber v of
       None \<Rightarrow> max_from best vs
     | Some candidate \<Rightarrow> (case best of
           None \<Rightarrow> max_from (Some candidate) vs
         | Some b \<Rightarrow> max_from (Some (if greaterThan candidate b then candidate else b)) vs))"

definition maxNumber :: "policy_val list \<Rightarrow> policy_val \<Rightarrow> policy_val" where
  "maxNumber values base = (case max_from None values of None \<Rightarrow> base | Some best \<Rightarrow> normalized best)"

section \<open>Sets of strings\<close>

definition is_space :: "nat \<Rightarrow> bool" where
  \<comment> \<open>\<open>unicode.IsSpace\<close>\<close>
  "is_space r \<longleftrightarrow> between 9 13 r \<or> r \<in> {0x20, 0x85, 0xA0, 0x1680, 0x2028, 0x2029, 0x202F, 0x205F, 0x3000}
     \<or> between 0x2000 0x200A r"

definition TrimSpace :: "string \<Rightarrow> string" where
  \<comment> \<open>\<open>strings.TrimSpace\<close> on valid UTF-8, which decoded JSON and literals are\<close>
  "TrimSpace s = text_of (encode_runes (rev (dropWhile is_space (rev (dropWhile is_space (runes (bytes s)))))))"

definition normalizeStringSlice :: "policy_val \<Rightarrow> string list option" where
  "normalizeStringSlice raw = (let clean = (\<lambda>ss. filter (\<lambda>s. s \<noteq> '''') (map TrimSpace ss)) in case raw of
       PStrings v \<Rightarrow> Some (clean v)
     | PAnys v \<Rightarrow> Some (clean (concat (map (\<lambda>e. case e of PString s \<Rightarrow> [s] | _ \<Rightarrow> []) v)))
     | _ \<Rightarrow> None)"

definition slice_of :: "policy_val \<Rightarrow> string list" where
  \<comment> \<open>ranging over a nil slice\<close>
  "slice_of v = (case normalizeStringSlice v of None \<Rightarrow> [] | Some ss \<Rightarrow> ss)"

definition aggregateStringSetUnion :: "policy_val list \<Rightarrow> policy_val \<Rightarrow> policy_val" where
  "aggregateStringSetUnion values baseVal = (let keys = remdups (concat (map slice_of values)) in
     if keys = [] then baseVal else PStrings (sort keys))"

fun intersect_from :: "string list option \<Rightarrow> policy_val list \<Rightarrow> string list option" where
  "intersect_from acc [] = acc"
| "intersect_from acc (v # vs) = (case normalizeStringSlice v of
       None \<Rightarrow> intersect_from acc vs
     | Some ns \<Rightarrow> (let cur = remdups ns in case acc of
           None \<Rightarrow> intersect_from (Some cur) vs
         | Some a \<Rightarrow> intersect_from (Some (filter (\<lambda>k. k \<in> set cur) a)) vs))"

definition aggregateStringSetIntersection :: "policy_val list \<Rightarrow> policy_val \<Rightarrow> policy_val" where
  "aggregateStringSetIntersection values baseVal = (case intersect_from None values of
       None \<Rightarrow> baseVal | Some acc \<Rightarrow> PStrings (sort acc))"

fun chat_from :: "bool \<Rightarrow> policy_val list \<Rightarrow> string" where
  "chat_from hasReadonly [] = (if hasReadonly then ''readonly'' else ''unavailable'')"
| "chat_from hasReadonly (v # vs) =
     (if v = PString ''available'' then ''available''
      else chat_from (hasReadonly \<or> v = PString ''readonly'') vs)"

definition aggregateChatAvailability :: "policy_val list \<Rightarrow> policy_val" where
  "aggregateChatAvailability values = PString (chat_from False values)"

section \<open>The cascade\<close>

definition aggregatesByIntersection :: "string \<Rightarrow> bool" where
  "aggregatesByIntersection key = (key = PolicyOptOutNotificationTypes)"

definition aggregatePolicyValues :: "string \<Rightarrow> policy_val \<Rightarrow> policy_val list \<Rightarrow> policy_val" where
  "aggregatePolicyValues key baseVal values =
     (if values = [] then baseVal
      else case baseVal of
          PBool b \<Rightarrow> PBool (list_ex (\<lambda>v. v = PBool True) values)
        | PInt i \<Rightarrow> maxNumber values baseVal
        | PFloat f \<Rightarrow> if key \<in> fractionalPolicyKeys then maxNumber values baseVal else baseVal
        | PString s \<Rightarrow> if key = ''chatAvailability'' then aggregateChatAvailability values else baseVal
        | PStrings ss \<Rightarrow>
            if aggregatesByIntersection key then aggregateStringSetIntersection values baseVal
            else aggregateStringSetUnion values baseVal
        | _ \<Rightarrow> baseVal)"

definition hasPriority :: "policy_entry list \<Rightarrow> int \<Rightarrow> bool" where
  "hasPriority entries prio = list_ex (\<lambda>e. EntryPriority e = prio) entries"

definition filterByPriority :: "policy_entry list \<Rightarrow> int \<Rightarrow> bool \<Rightarrow> policy_val list" where
  "filterByPriority entries prio onlyExplicit =
     map EntryValue (filter (\<lambda>e. EntryPriority e = prio \<and> \<not> (onlyExplicit \<and> \<not> EntryExplicit e)) entries)"

definition computePolicy :: "string \<Rightarrow> policy_val \<Rightarrow> role_policy_input list \<Rightarrow> policy_entry list \<Rightarrow> policy_val" where
  "computePolicy key baseVal inputs extra =
     (let collected = map (\<lambda>inp. input_entry inp key baseVal) inputs @ extra;
          onlyExplicit = aggregatesByIntersection key in
      if hasPriority collected 2 then aggregatePolicyValues key baseVal (filterByPriority collected 2 onlyExplicit)
      else if hasPriority collected 1 then aggregatePolicyValues key baseVal (filterByPriority collected 1 onlyExplicit)
      else aggregatePolicyValues key baseVal
        (map EntryValue (filter (\<lambda>e. \<not> (onlyExplicit \<and> \<not> EntryExplicit e)) collected)))"

section \<open>Base values and caps\<close>

definition isFiniteAndInRange :: "float64 \<Rightarrow> rat \<Rightarrow> rat \<Rightarrow> bool" where
  "isFiniteAndInRange v lo hi = (case v of Finite q \<Rightarrow> q \<ge> lo \<and> q < hi | _ \<Rightarrow> False)"

definition trunc_float :: "float64 \<Rightarrow> int" where
  "trunc_float v = (case v of Finite q \<Rightarrow> trunc_rat q | _ \<Rightarrow> 0)"

definition coerceToBaseType :: "policy_val \<Rightarrow> policy_val \<Rightarrow> policy_val" where
  "coerceToBaseType base override = (case base of
       PInt b \<Rightarrow> (case override of
           PInt i \<Rightarrow> PInt i
         | PFloat f \<Rightarrow> if \<not> isFiniteAndInRange f (- (2 ^ 63)) (2 ^ 63) then base else PInt (trunc_float f)
         | _ \<Rightarrow> override)
     | PInt64 b \<Rightarrow> (case override of
           PInt64 i \<Rightarrow> PInt64 i
         | PInt i \<Rightarrow> PInt64 i
         | PFloat f \<Rightarrow> if \<not> isFiniteAndInRange f (- (2 ^ 63)) (2 ^ 63) then base else PInt64 (trunc_float f)
         | _ \<Rightarrow> override)
     | PFloat b \<Rightarrow> (case override of
           PFloat f \<Rightarrow> (case f of Finite q \<Rightarrow> PFloat f | _ \<Rightarrow> base)
         | PInt i \<Rightarrow> PFloat (Finite (of_int i))
         | _ \<Rightarrow> override)
     | PStrings b \<Rightarrow> (case override of
           PStrings s \<Rightarrow> PStrings s
         | _ \<Rightarrow> (case normalizeStringSlice override of
               None \<Rightarrow> base
             | Some ss \<Rightarrow> if ss = [] then base else PStrings ss))
     | _ \<Rightarrow> override)"

definition coerceBasePolicy :: "string \<Rightarrow> policy_val \<Rightarrow> policy_val \<Rightarrow> policy_val" where
  "coerceBasePolicy key base override = (case override of
       PFloat (Finite q) \<Rightarrow>
         if key \<in> fractionalPolicyKeys \<and> q \<noteq> of_int (trunc_rat q) then override else coerceToBaseType base override
     | _ \<Rightarrow> coerceToBaseType base override)"

definition float_above :: "float64 \<Rightarrow> int \<Rightarrow> bool" where
  "float_above f limit = (case f of Finite q \<Rightarrow> q > of_int limit | PosInf \<Rightarrow> True | _ \<Rightarrow> False)"

definition float_nonpos :: "float64 \<Rightarrow> bool" where
  "float_nonpos f = (case f of Finite q \<Rightarrow> q \<le> 0 | NegInf \<Rightarrow> True | _ \<Rightarrow> False)"

definition policyAboveCap :: "policy_val \<Rightarrow> int \<Rightarrow> bool" where
  "policyAboveCap v limit = (case v of
       PInt x \<Rightarrow> x > limit | PInt64 x \<Rightarrow> x > limit | PFloat x \<Rightarrow> float_above x limit | _ \<Rightarrow> False)"

definition policyUnlimitedOrAboveCap :: "policy_val \<Rightarrow> int \<Rightarrow> bool" where
  "policyUnlimitedOrAboveCap v limit = (case v of
       PInt x \<Rightarrow> x \<le> 0 \<or> x > limit | PInt64 x \<Rightarrow> x \<le> 0 \<or> x > limit
     | PFloat x \<Rightarrow> float_nonpos x \<or> float_above x limit | _ \<Rightarrow> False)"

type_synonym policy_map = "string \<rightharpoonup> policy_val"

definition capServerMaxFileSize :: "int \<Rightarrow> policy_map \<Rightarrow> policy_map" where
  "capServerMaxFileSize serverMaxFileSizeMb policies =
     (if serverMaxFileSizeMb \<le> 0 then policies
      else case policies ''maxFileSizeMb'' of
          None \<Rightarrow> policies
        | Some v \<Rightarrow> if policyAboveCap v serverMaxFileSizeMb
            then policies(''maxFileSizeMb'' \<mapsto> PInt serverMaxFileSizeMb) else policies)"

definition capIntPolicy :: "policy_map \<Rightarrow> string \<Rightarrow> int \<Rightarrow> policy_map" where
  "capIntPolicy policies key limit =
     (if limit \<le> 0 then policies
      else case policies key of
          None \<Rightarrow> policies
        | Some v \<Rightarrow> if policyUnlimitedOrAboveCap v limit then policies(key \<mapsto> PInt limit) else policies)"

record chunked_meta =
  ChunkedUploadMaxSessionsPerUser :: int
  ChunkedUploadMaxPendingMbPerUser :: int

definition capChunkedUpload :: "chunked_meta option \<Rightarrow> policy_map \<Rightarrow> policy_map" where
  \<comment> \<open>\<open>None\<close>: no repository, a failed fetch or no row\<close>
  "capChunkedUpload meta policies = (case meta of
       None \<Rightarrow> policies
     | Some m \<Rightarrow> capIntPolicy
         (capIntPolicy policies ''chunkedUploadMaxConcurrentSessions'' (ChunkedUploadMaxSessionsPerUser m))
         ''chunkedUploadMaxPendingMb'' (ChunkedUploadMaxPendingMbPerUser m))"

definition applyServerCaps :: "int \<Rightarrow> chunked_meta option \<Rightarrow> policy_map \<Rightarrow> policy_map" where
  "applyServerCaps serverMaxFileSizeMb meta policies =
     capChunkedUpload meta (capServerMaxFileSize serverMaxFileSizeMb policies)"

section \<open>Replacements by a provider\<close>

record policy_contribution =
  ContributionKey :: string
  ReplaceRoleID :: string
  ContributionUseDefault :: bool
  ContributionValue :: policy_val

record replacement_state =
  Accepted :: "string \<Rightarrow> string \<rightharpoonup> policy_entry"
  Conflicted :: "string \<Rightarrow> string \<Rightarrow> bool"

definition put2 :: "('a \<Rightarrow> 'b \<Rightarrow> 'c) \<Rightarrow> 'a \<Rightarrow> 'b \<Rightarrow> 'c \<Rightarrow> 'a \<Rightarrow> 'b \<Rightarrow> 'c" where
  \<comment> \<open>a write into a map of maps\<close>
  "put2 f a b c = f(a := (f a)(b := c))"

definition replacement_entry ::
  "(string \<Rightarrow> string \<rightharpoonup> role_policy_override) \<Rightarrow> policy_val \<Rightarrow> policy_contribution \<Rightarrow> policy_entry" where
  "replacement_entry overridesByRole baseVal c =
     (let entry = rolePolicyEntry (overridesByRole (ReplaceRoleID c)) (ContributionKey c) baseVal
      in if \<not> ContributionUseDefault c then entry\<lparr>EntryValue := ContributionValue c, EntryExplicit := True\<rparr>
         else entry\<lparr>EntryValue := baseVal, EntryExplicit := False\<rparr>)"

definition collectPolicyReplacement ::
  "(string \<Rightarrow> string \<rightharpoonup> role_policy_override) \<Rightarrow> (string \<Rightarrow> policy_val) \<Rightarrow> policy_contribution
   \<Rightarrow> replacement_state \<Rightarrow> replacement_state" where
  "collectPolicyReplacement overridesByRole baseVal c st =
     (let key = ContributionKey c; role = ReplaceRoleID c in
      if Conflicted st key role then st
      else if Accepted st key role \<noteq> None then
        st\<lparr>Accepted := put2 (Accepted st) key role None, Conflicted := put2 (Conflicted st) key role True\<rparr>
      else st\<lparr>Accepted := put2 (Accepted st) key role (Some (replacement_entry overridesByRole (baseVal key) c))\<rparr>)"

definition applyPolicyReplacements ::
  "role_policy_input list \<Rightarrow> (string \<Rightarrow> string \<rightharpoonup> policy_entry) \<Rightarrow> role_policy_input list" where
  "applyPolicyReplacements inputs replacements = map (\<lambda>inp.
     if InputRoleID inp = '''' then inp
     else (let attached = (\<lambda>key. replacements key (InputRoleID inp)) in
       if attached \<noteq> Map.empty then inp\<lparr>InputReplacements := attached\<rparr> else inp)) inputs"

section \<open>The maximum\<close>

definition value_of :: "int_base_numeric \<Rightarrow> rat" where
  "value_of n = (case n of Integer i \<Rightarrow> of_int i | Fraction q \<Rightarrow> q)"

definition proper :: "int_base_numeric \<Rightarrow> bool" where
  "proper n \<longleftrightarrow> (\<forall>q. n = Fraction q \<longrightarrow> q \<notin> \<int>)"

lemma trunc_rat_Ints: "q \<in> \<int> \<Longrightarrow> q = of_int (trunc_rat q)"
  by (auto simp: trunc_rat_def elim: Ints_cases)

lemma intBaseNumber_proper: "intBaseNumber v = Some n \<Longrightarrow> proper n"
  by (auto simp: intBaseNumber_def proper_def trunc_rat_Ints split: policy_val.splits float64.splits prod.splits if_splits)

lemma compareIntToFraction_exact:
  assumes "q \<notin> \<int>"
  shows "0 < compareIntToFraction i q \<longleftrightarrow> q < of_int i" "compareIntToFraction i q < 0 \<longleftrightarrow> of_int i < q"
proof -
  have ne: "q \<noteq> of_int j" for j using assms by auto
  have "q > 0 \<Longrightarrow> i \<le> trunc_rat q \<longleftrightarrow> of_int i \<le> q" by (simp add: trunc_rat_def le_floor_iff)
  moreover have "\<not> q > 0 \<Longrightarrow> i < trunc_rat q \<longleftrightarrow> of_int i < q"
    using ne [of 0] by (simp add: trunc_rat_def less_ceiling_iff)
  ultimately show "0 < compareIntToFraction i q \<longleftrightarrow> q < of_int i" "compareIntToFraction i q < 0 \<longleftrightarrow> of_int i < q"
    using ne [of i] by (auto simp: compareIntToFraction_def Let_def)
qed

lemma greaterThan_exact: "proper n \<Longrightarrow> proper m \<Longrightarrow> greaterThan n m \<longleftrightarrow> value_of m < value_of n"
  by (cases n; cases m) (auto simp: greaterThan_def value_of_def proper_def compareIntToFraction_exact)

lemma value_of_inject: "proper n \<Longrightarrow> proper m \<Longrightarrow> value_of n = value_of m \<Longrightarrow> n = m"
  by (cases n; cases m) (auto simp: value_of_def proper_def)

definition candidates :: "int_base_numeric option \<Rightarrow> policy_val set \<Rightarrow> int_base_numeric set" where
  "candidates best vs = set_option best \<union> {c. \<exists>v\<in>vs. intBaseNumber v = Some c}"

definition is_max :: "int_base_numeric set \<Rightarrow> int_base_numeric option \<Rightarrow> bool" where
  "is_max C r = (case r of None \<Rightarrow> C = {} | Some m \<Rightarrow> m \<in> C \<and> (\<forall>c\<in>C. value_of c \<le> value_of m))"

lemma is_max_unique:
  assumes "is_max C r" "is_max C s" "\<And>c. c \<in> C \<Longrightarrow> proper c"
  shows "r = s"
  using assms value_of_inject by (cases r; cases s) (force simp: is_max_def intro: order_antisym)+

lemma is_max_drop:
  assumes "is_max (candidates (Some big) V) r" and "value_of small \<le> value_of big"
  shows "is_max (insert small (candidates (Some big) V)) r"
  using assms by (cases r) (auto simp: is_max_def candidates_def intro: order_trans)

lemma max_from_is_max:
  "(\<And>b. best = Some b \<Longrightarrow> proper b) \<Longrightarrow> is_max (candidates best (set vs)) (max_from best vs)"
proof (induction vs arbitrary: best)
  case Nil
  then show ?case by (cases best) (auto simp: is_max_def candidates_def)
next
  case (Cons v vs)
  show ?case
  proof (cases "intBaseNumber v")
    case None
    then have "candidates best (set (v # vs)) = candidates best (set vs)" by (auto simp: candidates_def)
    with Cons None show ?thesis by simp
  next
    case (Some c)
    note pc = intBaseNumber_proper [OF Some]
    show ?thesis
    proof (cases best)
      case None
      have "candidates None (set (v # vs)) = candidates (Some c) (set vs)" using Some by (auto simp: candidates_def)
      with Cons.IH [of "Some c"] pc Some None show ?thesis by simp
    next
      case (Some b)
      then have pb: "proper b" using Cons.prems by simp
      let ?w = "if greaterThan c b then c else b" and ?l = "if greaterThan c b then b else c"
      have "candidates best (set (v # vs)) = insert ?l (candidates (Some ?w) (set vs))"
        using Some \<open>intBaseNumber v = Some c\<close> by (auto simp: candidates_def)
      moreover have "value_of ?l \<le> value_of ?w" using greaterThan_exact [OF pc pb] by auto
      moreover have "is_max (candidates (Some ?w) (set vs)) (max_from (Some ?w) vs)"
        using Cons.IH [of "Some ?w"] pb pc by simp
      ultimately show ?thesis using is_max_drop [of ?w "set vs" _ ?l] Some \<open>intBaseNumber v = Some c\<close> by simp
    qed
  qed
qed

lemma max_from_set: "set vs = set ws \<Longrightarrow> max_from None vs = max_from None ws"
  using is_max_unique [OF max_from_is_max [of None vs] _] max_from_is_max [of None ws] intBaseNumber_proper
  by (force simp: candidates_def)

section \<open>Sets\<close>

lemma intersect_from_spec:
  "case intersect_from acc vs of
     None \<Rightarrow> acc = None \<and> (\<forall>v\<in>set vs. normalizeStringSlice v = None)
   | Some a \<Rightarrow> ((acc \<noteq> None) \<or> (\<exists>v\<in>set vs. normalizeStringSlice v \<noteq> None))
       \<and> ((\<forall>b. acc = Some b \<longrightarrow> distinct b) \<longrightarrow> distinct a)
       \<and> set a = {k. (\<forall>b. acc = Some b \<longrightarrow> k \<in> set b) \<and> (\<forall>v\<in>set vs. \<forall>ns. normalizeStringSlice v = Some ns \<longrightarrow> k \<in> set ns)
             \<and> (acc = None \<longrightarrow> (\<exists>v\<in>set vs. \<exists>ns. normalizeStringSlice v = Some ns \<and> k \<in> set ns))}"
proof (induction vs arbitrary: acc)
  case Nil
  show ?case by (cases acc) auto
next
  case (Cons v vs)
  show ?case
  proof (cases "normalizeStringSlice v")
    case None
    with Cons.IH [of acc] show ?thesis by (auto split: option.splits)
  next
    case (Some ns)
    let ?next = "case acc of None \<Rightarrow> remdups ns | Some a \<Rightarrow> filter (\<lambda>k. k \<in> set ns) a"
    have "intersect_from acc (v # vs) = intersect_from (Some ?next) vs"
      using Some by (auto simp: Let_def split: option.splits)
    with Cons.IH [of "Some ?next"] Some show ?thesis by (cases acc) (auto split: option.splits)
  qed
qed

lemma intersection_set:
  assumes "set vs = set ws"
  shows "aggregateStringSetIntersection vs base = aggregateStringSetIntersection ws base"
proof -
  note v = intersect_from_spec [of None vs] and w = intersect_from_spec [of None ws]
  show ?thesis
  proof (cases "intersect_from None vs")
    case None
    with v w assms have "intersect_from None ws = None" by (cases "intersect_from None ws") auto
    with None show ?thesis by (simp add: aggregateStringSetIntersection_def)
  next
    case (Some a)
    with v w assms obtain b where b: "intersect_from None ws = Some b" by (cases "intersect_from None ws") auto
    have "distinct a" "distinct b" "set a = set b" using v w Some b assms by auto
    then have "sort a = sort b"
      using sorted_list_of_set_sort_remdups [of a] sorted_list_of_set_sort_remdups [of b] by (simp add: distinct_remdups_id)
    with Some b show ?thesis by (simp add: aggregateStringSetIntersection_def)
  qed
qed

lemma union_set:
  assumes "set vs = set ws"
  shows "aggregateStringSetUnion vs base = aggregateStringSetUnion ws base"
proof -
  let ?c = "\<lambda>xs. concat (map slice_of xs)"
  have e: "set (?c vs) = set (?c ws)" using assms by simp
  then have "sort (remdups (?c vs)) = sort (remdups (?c ws))"
    using sorted_list_of_set_sort_remdups [of "?c vs"] sorted_list_of_set_sort_remdups [of "?c ws"] by simp
  moreover have "remdups (?c vs) = [] \<longleftrightarrow> remdups (?c ws) = []" using e by (metis set_empty set_remdups)
  ultimately show ?thesis by (simp add: aggregateStringSetUnion_def Let_def)
qed

lemma chat_from_iff: "chat_from ro vs = (if PString ''available'' \<in> set vs then ''available''
    else if ro \<or> PString ''readonly'' \<in> set vs then ''readonly'' else ''unavailable'')"
  by (induction vs arbitrary: ro) auto

lemma aggregate_set:
  assumes "set vs = set ws"
  shows "aggregatePolicyValues key base vs = aggregatePolicyValues key base ws"
proof -
  have "vs = [] \<longleftrightarrow> ws = []" using assms by (metis set_empty)
  moreover have "maxNumber vs b = maxNumber ws b" for b using max_from_set [OF assms] by (simp add: maxNumber_def)
  moreover have "aggregateChatAvailability vs = aggregateChatAvailability ws"
    using assms by (simp add: aggregateChatAvailability_def chat_from_iff)
  moreover have "list_ex P vs = list_ex P ws" for P using assms by (simp add: list_ex_iff)
  ultimately show ?thesis using union_set [OF assms] intersection_set [OF assms]
    by (cases base) (auto simp: aggregatePolicyValues_def)
qed

section \<open>Properties of the cascade\<close>

definition contributions :: "string \<Rightarrow> policy_val \<Rightarrow> role_policy_input list \<Rightarrow> policy_entry list \<Rightarrow> policy_entry set" where
  "contributions key baseVal inputs extra = (\<lambda>inp. input_entry inp key baseVal) ` set inputs \<union> set extra"

definition deciding :: "policy_entry set \<Rightarrow> policy_entry set" where
  "deciding E = (if \<exists>e\<in>E. EntryPriority e = 2 then {e \<in> E. EntryPriority e = 2}
     else if \<exists>e\<in>E. EntryPriority e = 1 then {e \<in> E. EntryPriority e = 1} else E)"

definition deciding_values :: "string \<Rightarrow> policy_val \<Rightarrow> role_policy_input list \<Rightarrow> policy_entry list \<Rightarrow> policy_val set" where
  "deciding_values key baseVal inputs extra = EntryValue `
     {e \<in> deciding (contributions key baseVal inputs extra). \<not> (aggregatesByIntersection key \<and> \<not> EntryExplicit e)}"

definition group_values :: "policy_entry list \<Rightarrow> bool \<Rightarrow> policy_val list" where
  "group_values c onlyExplicit = (if hasPriority c 2 then filterByPriority c 2 onlyExplicit
     else if hasPriority c 1 then filterByPriority c 1 onlyExplicit
     else map EntryValue (filter (\<lambda>e. \<not> (onlyExplicit \<and> \<not> EntryExplicit e)) c))"

lemma set_group_values:
  "set (group_values c x) = EntryValue ` {e \<in> deciding (set c). \<not> (x \<and> \<not> EntryExplicit e)}"
  by (auto simp: group_values_def hasPriority_def list_ex_iff filterByPriority_def deciding_def)

lemma computePolicy_deciding:
  obtains vs where "computePolicy key baseVal inputs extra = aggregatePolicyValues key baseVal vs"
    and "set vs = deciding_values key baseVal inputs extra"
proof -
  let ?c = "map (\<lambda>inp. input_entry inp key baseVal) inputs @ extra" and ?o = "aggregatesByIntersection key"
  have "set ?c = contributions key baseVal inputs extra" by (simp add: contributions_def)
  then have "set (group_values ?c ?o) = deciding_values key baseVal inputs extra"
    by (simp only: set_group_values deciding_values_def)
  moreover have "computePolicy key baseVal inputs extra = aggregatePolicyValues key baseVal (group_values ?c ?o)"
    by (simp add: computePolicy_def group_values_def Let_def)
  ultimately show ?thesis using that by blast
qed

text \<open>C31. The effective value of a policy does not depend on the order, or the repetition, in which roles and provider
  contributions are listed: equal sets of inputs and of contributions give the same value, for every
  type of policy.\<close>

theorem computePolicy_order_irrelevant:
  assumes "set inputs = set inputs'" and "set extra = set extra'"
  shows "computePolicy key baseVal inputs extra = computePolicy key baseVal inputs' extra'"
proof -
  obtain vs where v: "computePolicy key baseVal inputs extra = aggregatePolicyValues key baseVal vs"
      "set vs = deciding_values key baseVal inputs extra" by (rule computePolicy_deciding)
  obtain ws where w: "computePolicy key baseVal inputs' extra' = aggregatePolicyValues key baseVal ws"
      "set ws = deciding_values key baseVal inputs' extra'" by (rule computePolicy_deciding)
  have "set vs = set ws" using v(2) w(2) assms by (simp add: deciding_values_def contributions_def)
  then show ?thesis using v(1) w(1) aggregate_set by metis
qed

definition role_with :: "string \<Rightarrow> int \<Rightarrow> policy_val \<Rightarrow> role_policy_input" where
  "role_with key prio v = \<lparr>InputRoleID = ''r'',
     InputOverrides = [key \<mapsto> \<lparr>OverrideUseDefault = False, OverridePriority = prio, OverrideValue = v\<rparr>],
     InputReplacements = Map.empty\<rparr>"

definition plain_role :: role_policy_input where
  "plain_role = \<lparr>InputRoleID = ''p'', InputOverrides = Map.empty, InputReplacements = Map.empty\<rparr>"

theorem computePolicy_order_irrelevant_witness:
  "computePolicy ''pinLimit'' (PInt 5) [role_with ''pinLimit'' 0 (PFloat (Finite 7)), plain_role] []
   = computePolicy ''pinLimit'' (PInt 5) [plain_role, role_with ''pinLimit'' 0 (PFloat (Finite 7)), plain_role] []"
  by (rule computePolicy_order_irrelevant) auto

lemma aggregate_bool: "vs \<noteq> [] \<Longrightarrow> aggregatePolicyValues key (PBool b) vs = PBool (PBool True \<in> set vs)"
  by (auto simp: aggregatePolicyValues_def list_ex_iff)

lemma aggregate_int:
  "aggregatePolicyValues key (PInt b) vs = (case max_from None vs of None \<Rightarrow> PInt b | Some m \<Rightarrow> normalized m)"
  by (cases vs) (auto simp: aggregatePolicyValues_def maxNumber_def)

text \<open>Only the highest declared priority group decides (2, then 1, then everybody), and there the most
  permissive value wins: a boolean policy is true exactly when somebody in the group sets true, an
  integer policy is the greatest number the group offers (compared exactly, fractions included), or the base
  value when it offers none.\<close>

theorem computePolicy_permissive:
  assumes "contributions key baseVal inputs extra \<noteq> {}" and "key \<noteq> PolicyOptOutNotificationTypes"
  shows "(baseVal = PBool b \<longrightarrow> computePolicy key baseVal inputs extra =
            PBool (\<exists>e\<in>deciding (contributions key baseVal inputs extra). EntryValue e = PBool True))
     \<and> (baseVal = PInt i \<longrightarrow> (let N = {c. \<exists>e\<in>deciding (contributions key baseVal inputs extra).
                                  intBaseNumber (EntryValue e) = Some c} in
          if N = {} then computePolicy key baseVal inputs extra = baseVal
          else \<exists>m\<in>N. computePolicy key baseVal inputs extra = normalized m \<and> (\<forall>c\<in>N. value_of c \<le> value_of m)))"
proof -
  let ?E = "contributions key baseVal inputs extra"
  obtain vs where v: "computePolicy key baseVal inputs extra = aggregatePolicyValues key baseVal vs"
      and s: "set vs = deciding_values key baseVal inputs extra" by (rule computePolicy_deciding)
  have vals: "set vs = EntryValue ` deciding ?E"
    using s assms(2) by (auto simp: deciding_values_def aggregatesByIntersection_def)
  have "deciding ?E \<noteq> {}" using assms(1) by (auto simp: deciding_def)
  then have ne: "vs \<noteq> []" using vals by auto
  let ?N = "{c. \<exists>e\<in>deciding ?E. intBaseNumber (EntryValue e) = Some c}"
  have "candidates None (set vs) = ?N" by (auto simp: candidates_def vals)
  with max_from_is_max [of None vs] have "is_max ?N (max_from None vs)" by simp
  then have "baseVal = PInt i \<Longrightarrow> if ?N = {} then computePolicy key baseVal inputs extra = baseVal
      else \<exists>m\<in>?N. computePolicy key baseVal inputs extra = normalized m \<and> (\<forall>c\<in>?N. value_of c \<le> value_of m)"
    unfolding v by (cases "max_from None vs") (auto simp: aggregate_int is_max_def)
  moreover have "baseVal = PBool b \<Longrightarrow> computePolicy key baseVal inputs extra =
      PBool (\<exists>e\<in>deciding ?E. EntryValue e = PBool True)"
    unfolding v using ne vals by (auto simp: aggregate_bool intro!: image_eqI [of "PBool True"])
  ultimately show ?thesis unfolding Let_def by blast
qed

theorem computePolicy_permissive_witness:
  "computePolicy ''canInvite'' (PBool False) [role_with ''canInvite'' 0 (PBool True), role_with ''canInvite'' 1 (PBool False)] []
     = PBool False"
proof -
  let ?ins = "[role_with ''canInvite'' 0 (PBool True), role_with ''canInvite'' 1 (PBool False)]"
  have c: "contributions ''canInvite'' (PBool False) ?ins [] =
      {\<lparr>EntryPriority = 0, EntryValue = PBool True, EntryExplicit = True\<rparr>,
       \<lparr>EntryPriority = 1, EntryValue = PBool False, EntryExplicit = True\<rparr>}"
    by (simp add: contributions_def input_entry_def role_with_def rolePolicyEntry_def)
  then have d: "deciding (contributions ''canInvite'' (PBool False) ?ins []) =
      {\<lparr>EntryPriority = 1, EntryValue = PBool False, EntryExplicit = True\<rparr>}"
    unfolding c deciding_def by auto
  have "contributions ''canInvite'' (PBool False) ?ins [] \<noteq> {}" "''canInvite'' \<noteq> PolicyOptOutNotificationTypes"
    using c by (simp_all add: PolicyOptOutNotificationTypes_def)
  from computePolicy_permissive [OF this, of False 0] show ?thesis unfolding d by simp
qed

section \<open>Opt-outs, replacements and caps\<close>

definition explicit_slices :: "policy_val \<Rightarrow> role_policy_input list \<Rightarrow> policy_entry list \<Rightarrow> string list set" where
  "explicit_slices baseVal inputs extra = {ns. \<exists>e\<in>deciding (contributions PolicyOptOutNotificationTypes baseVal inputs extra).
     EntryExplicit e \<and> normalizeStringSlice (EntryValue e) = Some ns}"

lemma deciding_values_unset:
  assumes "aggregatesByIntersection key" and "EntryPriority (input_entry inp key baseVal) = 0"
    and "\<not> EntryExplicit (input_entry inp key baseVal)"
  shows "deciding_values key baseVal (inp # inputs) extra = deciding_values key baseVal inputs extra"
  using assms by (auto simp: deciding_values_def deciding_def contributions_def)

lemma sort_distinct: "distinct xs \<Longrightarrow> sorted (sort xs) \<and> distinct (sort xs) \<and> set (sort xs) = set (xs :: string list)"
  by simp

text \<open>Opting out of notification types needs every role that says something: the result is the intersection, sorted, of
  the lists set explicitly in the deciding group (the base value when there is none), and a role that does not set the
  policy changes nothing.\<close>

theorem optOut_unanimous:
  assumes "InputReplacements inp PolicyOptOutNotificationTypes = None"
    and "InputOverrides inp PolicyOptOutNotificationTypes = None" and "baseVal = PStrings b"
  shows "(let S = explicit_slices baseVal inputs extra in
          if S = {} then computePolicy PolicyOptOutNotificationTypes baseVal inputs extra = baseVal
          else \<exists>r. computePolicy PolicyOptOutNotificationTypes baseVal inputs extra = PStrings r
                 \<and> sorted r \<and> distinct r \<and> set r = (\<Inter>ns\<in>S. set ns))
     \<and> computePolicy PolicyOptOutNotificationTypes baseVal (inp # inputs) extra
         = computePolicy PolicyOptOutNotificationTypes baseVal inputs extra"
proof -
  let ?k = PolicyOptOutNotificationTypes
  obtain vs where v: "computePolicy ?k baseVal inputs extra = aggregatePolicyValues ?k baseVal vs"
      "set vs = deciding_values ?k baseVal inputs extra" by (rule computePolicy_deciding)
  obtain ws where w: "computePolicy ?k baseVal (inp # inputs) extra = aggregatePolicyValues ?k baseVal ws"
      "set ws = deciding_values ?k baseVal (inp # inputs) extra" by (rule computePolicy_deciding)
  have agg: "aggregatesByIntersection ?k" by (simp add: aggregatesByIntersection_def)
  have "set ws = set vs"
    using v(2) w(2) assms(1,2) deciding_values_unset [OF agg, of inp baseVal inputs extra]
    by (simp add: input_entry_def rolePolicyEntry_def)
  then have same: "computePolicy ?k baseVal (inp # inputs) extra = computePolicy ?k baseVal inputs extra"
    using v(1) w(1) aggregate_set by metis
  let ?S = "explicit_slices baseVal inputs extra"
  have S: "?S = {ns. \<exists>x\<in>set vs. normalizeStringSlice x = Some ns}"
    using v(2) agg by (auto simp: explicit_slices_def deciding_values_def)
  have a: "aggregatePolicyValues ?k baseVal vs = aggregateStringSetIntersection vs baseVal"
    using assms(3) agg by (simp add: aggregatePolicyValues_def aggregateStringSetIntersection_def)
  note spec = intersect_from_spec [of None vs]
  show ?thesis
  proof (cases "intersect_from None vs")
    case None
    with spec have "?S = {}" by (auto simp: S)
    with None v(1) a same show ?thesis by (simp add: aggregateStringSetIntersection_def)
  next
    case (Some r)
    with spec have ne: "?S \<noteq> {}" and "distinct r"
      and r: "set r = {k. (\<forall>v\<in>set vs. \<forall>ns. normalizeStringSlice v = Some ns \<longrightarrow> k \<in> set ns)
        \<and> (\<exists>v\<in>set vs. \<exists>ns. normalizeStringSlice v = Some ns \<and> k \<in> set ns)}" by (auto simp: S)
    moreover have "set r = (\<Inter>ns\<in>?S. set ns)" using ne unfolding r S by blast
    ultimately show ?thesis using Some v(1) a same by (auto simp: aggregateStringSetIntersection_def)
  qed
qed

theorem optOut_unanimous_witness:
  "computePolicy PolicyOptOutNotificationTypes (PStrings [])
     [plain_role, role_with PolicyOptOutNotificationTypes 0 (PStrings [])] [] = PStrings []"
proof -
  have p: "InputReplacements plain_role PolicyOptOutNotificationTypes = None"
    "InputOverrides plain_role PolicyOptOutNotificationTypes = None"
    by (simp_all add: plain_role_def)
  have "computePolicy PolicyOptOutNotificationTypes (PStrings []) [role_with PolicyOptOutNotificationTypes 0 (PStrings [])] []
      = PStrings []"
    by (simp add: computePolicy_def role_with_def input_entry_def rolePolicyEntry_def hasPriority_def
        aggregatesByIntersection_def aggregatePolicyValues_def aggregateStringSetIntersection_def normalizeStringSlice_def)
  with optOut_unanimous [OF p refl, of "[]" "[role_with PolicyOptOutNotificationTypes 0 (PStrings [])]" "[]"]
  show ?thesis by simp
qed

definition no_replacements :: replacement_state where
  "no_replacements = \<lparr>Accepted = (\<lambda>_. Map.empty), Conflicted = (\<lambda>_ _. False)\<rparr>"

definition claims :: "string \<Rightarrow> string \<Rightarrow> policy_contribution list \<Rightarrow> nat" where
  "claims key role cs = length (filter (\<lambda>c. ContributionKey c = key \<and> ReplaceRoleID c = role) cs)"

lemma put2_apply: "put2 f a b c x y = (if x = a \<and> y = b then c else f x y)"
  by (simp add: put2_def)

lemma replacement_entry_priority:
  "EntryPriority (replacement_entry ov baseVal c) = EntryPriority (rolePolicyEntry (ov (ReplaceRoleID c)) (ContributionKey c) baseVal)"
  by (simp add: replacement_entry_def Let_def)

lemma collect_elsewhere:
  "\<not> (ContributionKey c = key \<and> ReplaceRoleID c = role) \<Longrightarrow>
   Accepted (collectPolicyReplacement ov base c st) key role = Accepted st key role
     \<and> Conflicted (collectPolicyReplacement ov base c st) key role = Conflicted st key role"
  by (auto simp: collectPolicyReplacement_def put2_apply Let_def)

text \<open>Replacements of one role's value for one policy: it is replaced exactly when one contribution claims it, and
  contested (neither value is used) from the second claim on, whatever the order; an accepted replacement keeps the priority
  the role declared.\<close>

theorem replacements_need_a_single_claim:
  "(let st = fold (collectPolicyReplacement overridesByRole baseVal) cs no_replacements in
     (Accepted st key role = None \<longleftrightarrow> claims key role cs \<noteq> 1)
     \<and> (Conflicted st key role \<longleftrightarrow> claims key role cs > 1)
     \<and> (\<forall>e. Accepted st key role = Some e \<longrightarrow>
          EntryPriority e = EntryPriority (rolePolicyEntry (overridesByRole role) key (baseVal key))))"
proof (induction cs rule: rev_induct)
  case Nil
  show ?case by (simp add: no_replacements_def claims_def)
next
  case (snoc c cs)
  define st where "st = fold (collectPolicyReplacement overridesByRole baseVal) cs no_replacements"
  have IH: "Accepted st key role = None \<longleftrightarrow> claims key role cs \<noteq> 1" "Conflicted st key role \<longleftrightarrow> claims key role cs > 1"
    "\<And>e. Accepted st key role = Some e \<Longrightarrow>
       EntryPriority e = EntryPriority (rolePolicyEntry (overridesByRole role) key (baseVal key))"
    using snoc by (simp_all add: st_def Let_def)
  have f: "fold (collectPolicyReplacement overridesByRole baseVal) (cs @ [c]) no_replacements
      = collectPolicyReplacement overridesByRole baseVal c st" by (simp add: st_def)
  show ?case
  proof (cases "ContributionKey c = key \<and> ReplaceRoleID c = role")
    case False
    note e = conjunct1 [OF collect_elsewhere [OF this, of overridesByRole baseVal st]]
      conjunct2 [OF collect_elsewhere [OF this, of overridesByRole baseVal st]]    have n: "claims key role (cs @ [c]) = claims key role cs" using False by (simp add: claims_def)
    show ?thesis unfolding f Let_def e n using IH by blast
  next
    case True
    then have k: "key = ContributionKey c" "role = ReplaceRoleID c"
      and n: "claims key role (cs @ [c]) = Suc (claims key role cs)" by (auto simp: claims_def)
    consider "claims key role cs = 0" | "claims key role cs = 1" | "claims key role cs > 1" by linarith
    then show ?thesis
    proof cases
      case 1
      with IH(1,2) have "Accepted st key role = None" "\<not> Conflicted st key role" by simp_all
      with 1 show ?thesis unfolding f Let_def n unfolding k by (simp add: collectPolicyReplacement_def put2_apply replacement_entry_priority Let_def)
    next
      case 2
      with IH(1,2) have "Accepted st key role \<noteq> None" "\<not> Conflicted st key role" by simp_all
      with 2 show ?thesis unfolding f Let_def n unfolding k by (simp add: collectPolicyReplacement_def put2_apply replacement_entry_priority Let_def)
    next
      case 3
      with IH(1,2) have "Accepted st key role = None" "Conflicted st key role" by simp_all
      with 3 show ?thesis unfolding f Let_def n unfolding k by (simp add: collectPolicyReplacement_def put2_apply replacement_entry_priority Let_def)
    qed
  qed
qed

definition claim :: policy_contribution where
  "claim = \<lparr>ContributionKey = ''k'', ReplaceRoleID = ''r'', ContributionUseDefault = False, ContributionValue = PInt 3\<rparr>"

theorem replacements_need_a_single_claim_witness:
  "Accepted (fold (collectPolicyReplacement (\<lambda>_. Map.empty) (\<lambda>_. PInt 1)) [claim, claim] no_replacements) ''k'' ''r'' = None"
  using replacements_need_a_single_claim [of "\<lambda>_. Map.empty" "\<lambda>_. PInt 1" "[claim, claim]" "''k''" "''r''"]
  by (simp add: claims_def claim_def Let_def)

text \<open>The caps: after them a numeric file size is at most the server's, and the numeric
  limits of chunked uploads are positive and at most the instance's.\<close>

definition numeric_in :: "policy_val option \<Rightarrow> (rat \<Rightarrow> bool) \<Rightarrow> bool" where
  "numeric_in v P = (case v of Some (PInt i) \<Rightarrow> P (of_int i) | Some (PInt64 i) \<Rightarrow> P (of_int i)
     | Some (PFloat (Finite q)) \<Rightarrow> P q | _ \<Rightarrow> True)"

lemma capIntPolicy_bounds:
  "0 < limit \<Longrightarrow> numeric_in (capIntPolicy p key limit key) (\<lambda>q. 0 < q \<and> q \<le> of_int limit)"
  "key \<noteq> other \<Longrightarrow> capIntPolicy p key limit other = p other"
  by (auto simp: capIntPolicy_def numeric_in_def policyUnlimitedOrAboveCap_def float_nonpos_def float_above_def
      split: option.splits policy_val.splits float64.splits)

lemma capServerMaxFileSize_bounds:
  "0 < limit \<Longrightarrow> numeric_in (capServerMaxFileSize limit p ''maxFileSizeMb'') (\<lambda>q. q \<le> of_int limit)"
  "other \<noteq> ''maxFileSizeMb'' \<Longrightarrow> capServerMaxFileSize limit p other = p other"
  by (auto simp: capServerMaxFileSize_def numeric_in_def policyAboveCap_def float_above_def
      split: option.splits policy_val.splits float64.splits)

end
