(* ===== verification/Misc_Id.thy ===== *)
theory Misc_Id imports Col_Fit "HOL-Library.Char_ord" "HOL-Library.List_Lexorder" begin

text \<open>
  Identifiers that carry their creation time: misc/id/id.go and misc/id/cursor.go.

  A time is a number of nanoseconds since the Unix epoch.  The generators aid, aidx, meid and objectid are
  modelled with their counter as state and their random part as an argument; ulid is a third-party library and is not
  modelled.  \<open>strconv.FormatInt\<close> and \<open>strconv.ParseInt\<close> are written out.  Ids are compared
  bytewise.
\<close>

section \<open>Times and digits\<close>

definition time2000 :: int where "time2000 = 946684800000"
definition aidMaxTimeMillis :: int where "aidMaxTimeMillis = time2000 + 36*36*36*36*36*36*36*36 - 1"
definition meidMinTimeMillis :: int where "meidMinTimeMillis = - (2 ^ 47)"
definition meidMaxTimeMillis :: int where "meidMaxTimeMillis = 2 ^ 47 - 1"
definition objectIDMaxTimeSecond :: int where "objectIDMaxTimeSecond = 2 ^ 32 - 1"
definition meidOffset :: int where "meidOffset = 0x800000000000"

definition UnixMilli :: "int \<Rightarrow> int" where "UnixMilli t = t div 1000000"
definition UnixSec :: "int \<Rightarrow> int" where "UnixSec t = t div 1000000000"
definition of_milli :: "int \<Rightarrow> int" where "of_milli ms = ms * 1000000"
definition of_sec :: "int \<Rightarrow> int" where "of_sec s = s * 1000000000"

definition clampUnixMillis :: "int \<Rightarrow> int \<Rightarrow> int \<Rightarrow> int" where
  "clampUnixMillis t lo hi = (if t < of_milli lo then lo else if t > of_milli hi then hi else UnixMilli t)"

definition clampUnixSeconds :: "int \<Rightarrow> int \<Rightarrow> int \<Rightarrow> int" where
  "clampUnixSeconds t lo hi = (if t < of_sec lo then lo else if t > of_sec hi then hi else UnixSec t)"

definition digit_char :: "nat \<Rightarrow> char" where
  "digit_char d = (if d < 10 then char_of (48 + d) else char_of (87 + d))"

definition digit_val :: "char \<Rightarrow> nat option" where
  "digit_val c = (let n = of_char c :: nat in
     if between 48 57 n then Some (n - 48)
     else if between 97 122 n then Some (n - 87)
     else if between 65 90 n then Some (n - 55) else None)"

fun format_nat :: "nat \<Rightarrow> nat \<Rightarrow> string" where
  "format_nat b n = (if n < b \<or> b < 2 then [digit_char n] else format_nat b (n div b) @ [digit_char (n mod b)])"

declare format_nat.simps [simp del]

definition FormatInt :: "int \<Rightarrow> nat \<Rightarrow> string" where
  "FormatInt i b = (if i < 0 then CHR ''-'' # format_nat b (nat (- i)) else format_nat b (nat i))"

fun parse_digits :: "nat \<Rightarrow> nat \<Rightarrow> string \<Rightarrow> nat option" where
  "parse_digits b acc [] = Some acc"
| "parse_digits b acc (c # cs) = (case digit_val c of
     None \<Rightarrow> None | Some d \<Rightarrow> if d < b then parse_digits b (acc * b + d) cs else None)"

definition ParseInt :: "string \<Rightarrow> nat \<Rightarrow> int option" where
  \<comment> \<open>\<open>strconv.ParseInt(s, b, 64)\<close>; \<open>None\<close> is an error\<close>
  "ParseInt s b = (let (neg, ds) = (if s \<noteq> [] \<and> hd s = CHR ''-'' then (True, tl s)
        else if s \<noteq> [] \<and> hd s = CHR ''+'' then (False, tl s) else (False, s)) in
     if ds = [] then None
     else case parse_digits b 0 ds of
         None \<Rightarrow> None
       | Some n \<Rightarrow> if neg then (if int n > 2 ^ 63 then None else Some (- int n))
                 else (if int n > 2 ^ 63 - 1 then None else Some (int n)))"

function padLeft :: "string \<Rightarrow> nat \<Rightarrow> char \<Rightarrow> string" where
  "padLeft s len pad = (if length s < len then padLeft (pad # s) len pad else s)"
  by pat_completeness auto
termination by (relation "measure (\<lambda>(s, len, pad). len - length s)") auto

declare padLeft.simps [simp del]

definition suffix_of :: "nat \<Rightarrow> string \<Rightarrow> string" where
  \<comment> \<open>\<open>s[len(s)-n:]\<close>\<close>
  "suffix_of n s = drop (length s - n) s"

section \<open>Generators\<close>

definition time_part36 :: "int \<Rightarrow> string" where
  "time_part36 t = padLeft (FormatInt (clampUnixMillis t time2000 aidMaxTimeMillis - time2000) 36) 8 CHR ''0''"

definition AidxCutoffPrefix :: "int \<Rightarrow> string" where
  "AidxCutoffPrefix t = time_part36 t @ ''00000000''"

definition aidGenerate :: "16 word \<Rightarrow> int \<Rightarrow> string \<times> 16 word" where
  "aidGenerate counter t = (let c = counter + 1 in
     (time_part36 t @ suffix_of 2 (padLeft (format_nat 36 (unat c)) 2 CHR ''0''), c))"

definition aidxGenerate :: "string \<Rightarrow> 32 word \<Rightarrow> int \<Rightarrow> string \<times> 32 word" where
  "aidxGenerate nodeID counter t = (let c = counter + 1 in
     (time_part36 t @ nodeID @ suffix_of 4 (padLeft (format_nat 36 (unat c)) 4 CHR ''0''), c))"

definition aidParseTime :: "string \<Rightarrow> int option" where
  \<comment> \<open>the same code for aid and aidx\<close>
  "aidParseTime s = (if length s < 8 then None
     else case ParseInt (take 8 s) 36 of None \<Rightarrow> None | Some ms \<Rightarrow> Some (of_milli (ms + time2000)))"

definition meidGenerate :: "string \<Rightarrow> int \<Rightarrow> string" where
  "meidGenerate random t =
     padLeft (FormatInt (clampUnixMillis t meidMinTimeMillis meidMaxTimeMillis + meidOffset) 16) 12 CHR ''0'' @ random"

definition meidParseTime :: "string \<Rightarrow> int option" where
  "meidParseTime s = (if length s < 12 then None
     else case ParseInt (take 12 s) 16 of None \<Rightarrow> None | Some ms \<Rightarrow> Some (of_milli (ms - meidOffset)))"

definition objectIDGenerate :: "string \<Rightarrow> int \<Rightarrow> string" where
  "objectIDGenerate random t =
     padLeft (FormatInt (clampUnixSeconds t 0 objectIDMaxTimeSecond) 16) 8 CHR ''0'' @ random"

definition objectIDParseTime :: "string \<Rightarrow> int option" where
  "objectIDParseTime s = (if length s < 8 then None
     else case ParseInt (take 8 s) 16 of None \<Rightarrow> None | Some sec \<Rightarrow> Some (of_sec sec))"

definition NormalizeCursor :: "string \<Rightarrow> string \<Rightarrow> int option \<Rightarrow> int option \<Rightarrow> string \<times> string \<times> bool" where
  "NormalizeCursor sinceID untilID sinceDate untilDate =
     (let sinceID = (case sinceDate of None \<Rightarrow> sinceID
            | Some d \<Rightarrow> if sinceID = '''' then AidxCutoffPrefix (of_milli d) else sinceID);
          untilID = (case untilDate of None \<Rightarrow> untilID
            | Some d \<Rightarrow> if untilID = '''' then AidxCutoffPrefix (of_milli d) else untilID)
      in if \<not> Storable sinceID \<or> \<not> Storable untilID then ('''', '''', False)
         else (sinceID, untilID, True))"

section \<open>Fixed-width digits\<close>

fun fixed_digits :: "nat \<Rightarrow> nat \<Rightarrow> nat \<Rightarrow> nat list" where
  "fixed_digits b 0 n = []"
| "fixed_digits b (Suc w) n = fixed_digits b w (n div b) @ [n mod b]"

lemma length_fixed_digits [simp]: "length (fixed_digits b w n) = w"
  by (induction w arbitrary: n) auto

lemma fixed_digits_zero [simp]: "fixed_digits b w 0 = replicate w 0"
  by (induction w) (auto simp: replicate_append_same)

lemma fixed_digits_below: "0 < b \<Longrightarrow> d \<in> set (fixed_digits b w n) \<Longrightarrow> d < b"
  by (induction w arbitrary: n) auto

lemma padLeft_eq: "padLeft s len pad = replicate (len - length s) pad @ s"
proof (induction s len pad rule: padLeft.induct)
  case (1 s len pad)
  show ?case
  proof (cases "length s < len")
    case True
    then have "len - length s = Suc (len - length (pad # s))" by simp
    with 1 True show ?thesis by (simp add: padLeft.simps [of s] replicate_app_Cons_same)
  qed (simp add: padLeft.simps [of s])
qed

lemma digit_char_zero: "digit_char 0 = CHR ''0''"
  by code_simp

lemma format_suffix:
  assumes "2 \<le> b"
  shows "suffix_of w (padLeft (format_nat b n) w CHR ''0'') = map digit_char (fixed_digits b w n)"
proof (induction w arbitrary: n)
  case 0
  then show ?case by (simp add: suffix_of_def)
next
  case (Suc w)
  show ?case
  proof (cases "n < b")
    case True
    then have "format_nat b n = [digit_char n]" by (simp add: format_nat.simps)
    with True show ?thesis
      by (simp add: padLeft_eq suffix_of_def digit_char_zero map_replicate)
  next
    case False
    then have f: "format_nat b n = format_nat b (n div b) @ [digit_char (n mod b)]"
      using assms by (subst format_nat.simps) simp
    have "suffix_of (Suc w) (padLeft (format_nat b n) (Suc w) CHR ''0'')
        = suffix_of w (padLeft (format_nat b (n div b)) w CHR ''0'') @ [digit_char (n mod b)]"
      by (auto simp: f padLeft_eq suffix_of_def)
    then show ?thesis by (simp add: Suc)
  qed
qed

lemma format_length: "2 \<le> b \<Longrightarrow> n < b ^ w \<Longrightarrow> 0 < w \<Longrightarrow> length (format_nat b n) \<le> w"
proof (induction w arbitrary: n)
  case (Suc w)
  show ?case
  proof (cases "n < b")
    case True
    then show ?thesis by (simp add: format_nat.simps)
  next
    case False
    have "n div b < b ^ w" using Suc.prems by (simp add: less_mult_imp_div_less mult.commute)
    moreover have "0 < w" using False Suc.prems by (cases w) auto
    ultimately have "length (format_nat b (n div b)) \<le> w" using Suc by blast
    moreover have "format_nat b n = format_nat b (n div b) @ [digit_char (n mod b)]"
      using False Suc.prems by (subst format_nat.simps) simp
    ultimately show ?thesis by simp
  qed
qed simp

lemma format_fixed:
  assumes "2 \<le> b" "n < b ^ w" "0 < w"
  shows "padLeft (format_nat b n) w CHR ''0'' = map digit_char (fixed_digits b w n)"
  using format_suffix [OF assms(1), of w n] format_length [OF assms]
  by (simp add: suffix_of_def padLeft_eq)

section \<open>Reading and comparing digits\<close>

lemma of_char_digit: "d < 36 \<Longrightarrow> of_char (digit_char d) = (if d < 10 then 48 + d else 87 + d :: nat)"
  by (simp add: digit_char_def)

lemma digit_val_char: "d < 36 \<Longrightarrow> digit_val (digit_char d) = Some d"
  by (auto simp: digit_val_def of_char_digit between_def Let_def)

lemma digit_char_less: "d < 36 \<Longrightarrow> e < 36 \<Longrightarrow> digit_char d < digit_char e \<longleftrightarrow> d < e"
  by (simp add: less_char_def of_char_digit)

lemma digit_char_inject: "d < 36 \<Longrightarrow> e < 36 \<Longrightarrow> digit_char d = digit_char e \<longleftrightarrow> d = e"
  using digit_val_char by (metis option.inject)

lemma digit_val_signs: "digit_val (CHR ''-'') = None" "digit_val (CHR ''+'') = None"
  by code_simp+

lemma digit_char_no_sign: "d < 36 \<Longrightarrow> digit_char d \<noteq> CHR ''-'' \<and> digit_char d \<noteq> CHR ''+''"
  using digit_val_char [of d] digit_val_signs by (metis option.distinct(1))

definition digits_value :: "nat \<Rightarrow> nat \<Rightarrow> nat list \<Rightarrow> nat" where
  "digits_value b acc ds = foldl (\<lambda>a d. a * b + d) acc ds"

lemma parse_digits_map:
  "(\<And>d. d \<in> set ds \<Longrightarrow> d < b) \<Longrightarrow> b \<le> 36 \<Longrightarrow> parse_digits b acc (map digit_char ds) = Some (digits_value b acc ds)"
proof (induction ds arbitrary: acc)
  case (Cons d ds)
  then have "d < b" by simp
  with Cons.prems(2) have "digit_val (digit_char d) = Some d" by (intro digit_val_char) linarith
  with Cons \<open>d < b\<close> show ?case by (simp add: digits_value_def)
qed (simp add: digits_value_def)

lemma digits_value_fixed: "n < b ^ w \<Longrightarrow> digits_value b 0 (fixed_digits b w n) = n"
proof (induction w arbitrary: n)
  case (Suc w)
  then have "n div b < b ^ w" by (simp add: less_mult_imp_div_less mult.commute)
  from Suc.IH [OF this] show ?case by (simp add: digits_value_def mult.commute)
qed (simp add: digits_value_def)

lemma ParseInt_fixed:
  assumes "2 \<le> b" "b \<le> 36" "n < b ^ w" "0 < w" "int n \<le> 2 ^ 63 - 1"
  shows "ParseInt (map digit_char (fixed_digits b w n)) b = Some (int n)"
proof -
  let ?ds = "fixed_digits b w n"
  have below: "d < b" if "d \<in> set ?ds" for d using fixed_digits_below [OF _ that] assms(1) by simp
  have ne: "?ds \<noteq> []" using assms(4) by (metis length_fixed_digits length_0_conv less_numeral_extra(3))
  then have "hd ?ds < 36" using below [of "hd ?ds"] assms(2) by simp
  from digit_char_no_sign [OF this] have "hd (map digit_char ?ds) \<noteq> CHR ''-'' \<and> hd (map digit_char ?ds) \<noteq> CHR ''+''"
    using ne by (simp add: hd_map)
  moreover have "parse_digits b 0 (map digit_char ?ds) = Some n"
    using parse_digits_map [OF below assms(2)] digits_value_fixed [OF assms(3)] by simp
  ultimately show ?thesis using ne assms(5) by (simp add: ParseInt_def)
qed

lemma map_digit_less:
  "length ds = length es \<Longrightarrow> (\<And>d. d \<in> set ds \<union> set es \<Longrightarrow> d < 36) \<Longrightarrow>
   map digit_char ds < map digit_char es \<longleftrightarrow> ds < es"
proof (induction ds es rule: list_induct2)
  case (Cons d ds e es)
  then have "d < 36" "e < 36" by simp_all
  with Cons digit_char_less [of d e] digit_char_inject [of d e] show ?case by simp
qed simp

lemma append_less_same_length:
  "length xs = length ys \<Longrightarrow> xs @ us < ys @ vs \<longleftrightarrow> xs < ys \<or> xs = ys \<and> us < (vs :: 'a :: order list)"
  by (induction xs ys rule: list_induct2) auto

lemma fixed_digits_less:
  "m < b ^ w \<Longrightarrow> n < b ^ w \<Longrightarrow> fixed_digits b w m < fixed_digits b w n \<longleftrightarrow> m < n"
proof (induction w arbitrary: m n)
  case (Suc w)
  then have "m div b < b ^ w" "n div b < b ^ w" by (simp_all add: less_mult_imp_div_less mult.commute)
  note IH = Suc.IH [OF this]
  have "fixed_digits b w (m div b) = fixed_digits b w (n div b) \<longleftrightarrow> m div b = n div b"
    using digits_value_fixed \<open>m div b < b ^ w\<close> \<open>n div b < b ^ w\<close> by metis
  then have "fixed_digits b (Suc w) m < fixed_digits b (Suc w) n \<longleftrightarrow>
      m div b < n div b \<or> m div b = n div b \<and> m mod b < n mod b"
    using IH by (simp add: append_less_same_length)
  also have "\<dots> \<longleftrightarrow> m < n"
    by (metis div_le_mono div_mult_mod_eq leD nat_neq_iff nat_add_left_cancel_less nat_less_le)
  finally show ?case .
qed simp

lemmas digits_less = fixed_digits_less map_digit_less

section \<open>The time part\<close>

definition aid_ms :: "int \<Rightarrow> nat" where
  "aid_ms t = nat (clampUnixMillis t time2000 aidMaxTimeMillis - time2000)"

lemma clampUnixMillis_range: "lo \<le> hi \<Longrightarrow> lo \<le> clampUnixMillis t lo hi \<and> clampUnixMillis t lo hi \<le> hi"
  by (auto simp: clampUnixMillis_def of_milli_def UnixMilli_def)

lemma clampUnixMillis_mono: "t \<le> u \<Longrightarrow> lo \<le> hi \<Longrightarrow> clampUnixMillis t lo hi \<le> clampUnixMillis u lo hi"
  using clampUnixMillis_range [of lo hi]
  by (auto simp: clampUnixMillis_def of_milli_def UnixMilli_def intro: zdiv_mono1)

lemma aid_ms_range: "aid_ms t < 36 ^ 8" "clampUnixMillis t time2000 aidMaxTimeMillis - time2000 = int (aid_ms t)"
  using clampUnixMillis_range [of time2000 aidMaxTimeMillis t]
  by (simp_all add: aid_ms_def aidMaxTimeMillis_def nat_less_iff)

lemma time_part36_eq: "time_part36 t = map digit_char (fixed_digits 36 8 (aid_ms t))"
  using aid_ms_range [of t] format_fixed [of 36 "aid_ms t" 8] by (simp add: time_part36_def FormatInt_def)

lemma length_time_part36 [simp]: "length (time_part36 t) = 8"
  by (simp add: time_part36_eq)

lemma time_part36_less: "time_part36 t < time_part36 u \<longleftrightarrow> aid_ms t < aid_ms u"
proof -
  have "map digit_char (fixed_digits 36 8 (aid_ms t)) < map digit_char (fixed_digits 36 8 (aid_ms u))
      \<longleftrightarrow> fixed_digits 36 8 (aid_ms t) < fixed_digits 36 8 (aid_ms u)"
    by (rule map_digit_less) (auto dest: fixed_digits_below [rotated])
  then show ?thesis using fixed_digits_less [OF aid_ms_range(1) aid_ms_range(1)] by (simp add: time_part36_eq)
qed

lemma time_part36_parse: "ParseInt (take 8 (time_part36 t @ rest)) 36 = Some (int (aid_ms t))"
  using ParseInt_fixed [of 36 "aid_ms t" 8] aid_ms_range(1) [of t] by (simp add: time_part36_eq)

lemma hex_part_parse:
  assumes "0 \<le> i" "i < 16 ^ w" "0 < w" "w \<le> 12"
  shows "length (padLeft (FormatInt i 16) w CHR ''0'') = w"
    and "ParseInt (take w (padLeft (FormatInt i 16) w CHR ''0'' @ rest)) 16 = Some i"
proof -
  have n: "nat i < 16 ^ w" using assms(1,2) by (simp add: nat_less_iff)
  then have e: "padLeft (FormatInt i 16) w CHR ''0'' = map digit_char (fixed_digits 16 w (nat i))"
    using assms by (simp add: FormatInt_def format_fixed)
  then show "length (padLeft (FormatInt i 16) w CHR ''0'') = w" by simp
  have "(16 :: int) ^ w \<le> 16 ^ 12" using assms(4) by (intro power_increasing) simp_all
  then have "int (nat i) \<le> 2 ^ 63 - 1" using assms(1,2) by simp
  then show "ParseInt (take w (padLeft (FormatInt i 16) w CHR ''0'' @ rest)) 16 = Some i"
    using ParseInt_fixed [of 16 "nat i" w] n assms e by simp
qed

section \<open>Properties\<close>

text \<open>C32. Reading an id gives back the time it was made for, cut to the generator's resolution and range: for aid, aidx
  and meid the millisecond, for objectid the second, whatever the counter and the random part.\<close>

theorem id_time_roundtrip:
  "aidParseTime (fst (aidGenerate c16 t)) = Some (of_milli (clampUnixMillis t time2000 aidMaxTimeMillis))
   \<and> aidParseTime (fst (aidxGenerate nodeID c32 t)) = Some (of_milli (clampUnixMillis t time2000 aidMaxTimeMillis))
   \<and> meidParseTime (meidGenerate random t) = Some (of_milli (clampUnixMillis t meidMinTimeMillis meidMaxTimeMillis))
   \<and> objectIDParseTime (objectIDGenerate random t) = Some (of_sec (clampUnixSeconds t 0 objectIDMaxTimeSecond))"
proof -
  have aid: "aidParseTime (time_part36 t @ rest) = Some (of_milli (clampUnixMillis t time2000 aidMaxTimeMillis))" for rest
    using time_part36_parse [of t rest] aid_ms_range(2) [of t]
    by (simp add: aidParseTime_def del: take_append) (simp add: algebra_simps)
  let ?m = "clampUnixMillis t meidMinTimeMillis meidMaxTimeMillis + meidOffset"
  have "0 \<le> ?m" "?m < 16 ^ 12"
    using clampUnixMillis_range [of meidMinTimeMillis meidMaxTimeMillis t]
    by (simp_all add: meidMinTimeMillis_def meidMaxTimeMillis_def meidOffset_def)
  note m = hex_part_parse [OF this, simplified]
  let ?s = "clampUnixSeconds t 0 objectIDMaxTimeSecond"
  have "0 \<le> ?s" "?s < 16 ^ 8"
    by (auto simp: clampUnixSeconds_def objectIDMaxTimeSecond_def of_sec_def UnixSec_def)
  note s = hex_part_parse [OF this, simplified]
  have "meidParseTime (meidGenerate random t) = Some (of_milli (clampUnixMillis t meidMinTimeMillis meidMaxTimeMillis))"
    using m by (simp add: meidParseTime_def meidGenerate_def)
  moreover have "objectIDParseTime (objectIDGenerate random t) = Some (of_sec ?s)"
    using s by (simp add: objectIDParseTime_def objectIDGenerate_def)
  ultimately show ?thesis using aid by (simp add: aidGenerate_def aidxGenerate_def Let_def)
qed

lemma ms_less:
  assumes "time2000 \<le> UnixMilli t" "UnixMilli u \<le> aidMaxTimeMillis" "UnixMilli t < UnixMilli u"
  shows "aid_ms t < aid_ms u"
proof -
  have "of_milli time2000 \<le> t" using assms(1) by (simp add: UnixMilli_def of_milli_def time2000_def)
  moreover have "t < u"
  proof (rule ccontr)
    assume "\<not> t < u"
    then have "UnixMilli u \<le> UnixMilli t" by (simp add: UnixMilli_def zdiv_mono1)
    with assms(3) show False by simp
  qed
  ultimately show ?thesis using assms
    by (auto simp: aid_ms_def clampUnixMillis_def of_milli_def UnixMilli_def)
qed

definition aid_range :: "int \<Rightarrow> bool" where
  "aid_range t \<longleftrightarrow> time2000 \<le> UnixMilli t \<and> UnixMilli t \<le> aidMaxTimeMillis"

lemma aid_ms_in_range: "aid_range t \<Longrightarrow> aid_ms t = nat (UnixMilli t - time2000)"
  by (auto simp: aid_range_def aid_ms_def clampUnixMillis_def of_milli_def UnixMilli_def)

lemma replicate_zero_least: "(\<And>c. c \<in> set s \<Longrightarrow> CHR ''0'' \<le> c) \<Longrightarrow> replicate (length s) CHR ''0'' \<le> s"
  by (induction s) (auto simp: order_le_less)

lemma digit_char_least: "d < 36 \<Longrightarrow> CHR ''0'' \<le> digit_char d"
  using digit_char_less [of d 0] by (simp add: digit_char_zero flip: not_less)

definition base36 :: "string \<Rightarrow> bool" where
  \<comment> \<open>what \<open>randomBase36\<close> returns\<close>
  "base36 s \<longleftrightarrow> set s \<subseteq> digit_char ` {..<36}"

lemma aidx_tail:
  assumes "base36 nodeID" "length nodeID = 4"
  shows "''00000000'' \<le> nodeID @ suffix_of 4 (padLeft (format_nat 36 n) 4 CHR ''0'')"
proof -
  let ?s = "nodeID @ suffix_of 4 (padLeft (format_nat 36 n) 4 CHR ''0'')"
  have s: "suffix_of 4 (padLeft (format_nat 36 n) 4 CHR ''0'') = map digit_char (fixed_digits 36 4 n)"
    by (rule format_suffix) simp
  have "CHR ''0'' \<le> c" if "c \<in> set ?s" for c
    using that assms(1) digit_char_least fixed_digits_below [of 36 _ 4 n] unfolding s base36_def by auto
  then have "replicate (length ?s) CHR ''0'' \<le> ?s" by (rule replicate_zero_least)
  moreover have "length ?s = 8" using assms(2) by (simp add: s)
  moreover have "replicate 8 CHR ''0'' = ''00000000''" by code_simp
  ultimately show ?thesis by (simp only:)
qed

text \<open>Ids sort by the millisecond they were made in, whichever generators made them, and the cursor made from a time
  is a lower bound: an aidx id is at or above the cursor of a time exactly when its
  millisecond is not before that of the time.  So \<open>NormalizeCursor\<close> splits the ids at the
  given date.\<close>

theorem ids_sorted_by_time:
  assumes "aid_range t" and "aid_range u" and "base36 nodeID" and "length nodeID = 4"
  shows "(UnixMilli t < UnixMilli u \<longrightarrow>
            fst (aidxGenerate nodeID c t) < fst (aidxGenerate nodeID' c' u)
            \<and> fst (aidGenerate d t) < fst (aidGenerate d' u))
     \<and> (AidxCutoffPrefix u \<le> fst (aidxGenerate nodeID c t) \<longleftrightarrow> UnixMilli u \<le> UnixMilli t)"
proof -
  have ms: "aid_ms t < aid_ms u \<longleftrightarrow> UnixMilli t < UnixMilli u" "aid_ms u < aid_ms t \<longleftrightarrow> UnixMilli u < UnixMilli t"
    using assms(1,2) by (auto simp: aid_ms_in_range aid_range_def)
  have less: "aid_ms x < aid_ms y \<Longrightarrow> time_part36 x @ r < time_part36 y @ r'" for x y r r'
    by (simp add: append_less_same_length time_part36_less)
  have "aid_ms t = aid_ms u \<Longrightarrow> AidxCutoffPrefix u \<le> fst (aidxGenerate nodeID c t)"
    using aidx_tail [OF assms(3,4), of "unat (c + 1)"]
    by (simp add: AidxCutoffPrefix_def aidxGenerate_def Let_def time_part36_eq append_less_same_length order_le_less)
  moreover have "aid_ms u < aid_ms t \<Longrightarrow> AidxCutoffPrefix u \<le> fst (aidxGenerate nodeID c t)"
    using less by (simp add: AidxCutoffPrefix_def aidxGenerate_def Let_def order_le_less)
  moreover have "aid_ms t < aid_ms u \<Longrightarrow> \<not> AidxCutoffPrefix u \<le> fst (aidxGenerate nodeID c t)"
    using less by (simp add: AidxCutoffPrefix_def aidxGenerate_def Let_def not_le)
  ultimately have "AidxCutoffPrefix u \<le> fst (aidxGenerate nodeID c t) \<longleftrightarrow> \<not> aid_ms t < aid_ms u"
    by (metis linorder_neqE_nat)
  then show ?thesis using ms less by (simp add: aidGenerate_def aidxGenerate_def Let_def not_less)
qed

theorem ids_sorted_by_time_witness:
  "fst (aidxGenerate ''0000'' 0 (of_milli 946684800001)) < fst (aidxGenerate ''zzzz'' 7 (of_milli 946684800002))
   \<and> AidxCutoffPrefix (of_milli 946684800001) \<le> fst (aidxGenerate ''0000'' 0 (of_milli 946684800001))"
proof -
  have r: "aid_range (of_milli 946684800001)" "aid_range (of_milli 946684800002)"
    by (simp_all add: aid_range_def time2000_def aidMaxTimeMillis_def UnixMilli_def of_milli_def)
  have b: "base36 ''0000''" using digit_char_zero by (auto simp: base36_def intro!: image_eqI [of _ _ 0])
  have "UnixMilli (of_milli 946684800001) < UnixMilli (of_milli 946684800002)"
    by (simp add: UnixMilli_def of_milli_def)
  then show ?thesis
    using ids_sorted_by_time [OF r b, of 0 "''zzzz''" 7] ids_sorted_by_time [OF r(1) r(1) b, of 0] by simp
qed

text \<open>The cursor handed to the repository can be stored, and ids given win over dates.\<close>

lemma NormalizeCursor_ok:
  "NormalizeCursor s u sd ud = (s', u', True) \<Longrightarrow> Storable s' \<and> Storable u' \<and> (s \<noteq> '''' \<longrightarrow> s' = s) \<and> (u \<noteq> '''' \<longrightarrow> u' = u)"
  by (auto simp: NormalizeCursor_def Let_def split: option.splits if_splits)

end
