(* ===== verification/Rate_Limit.thy ===== *)
theory Rate_Limit imports Role_Policy begin

text \<open>
  Rate limiting: server/middleware/ratelimit.go.

  A bucket is a Redis sorted set whose members are the microseconds of the requests (member and score are
  the same number), kept as a sorted list with the time its key expires.  \<open>bucket_check\<close> is the
  pipeline of \<open>RedisRateLimitStore.Check\<close>; \<open>Middleware\<close> walks the actors of a request over any
  store, as the code does over its interface, and \<open>RedisCheck\<close> is the store on Redis, with the
  delays between the commands and the failures of Redis as lists of events.  Durations are nanoseconds.
\<close>

record limit_info =
  Remaining :: int
  ResetMs :: int

record endpoint_limit =
  Duration :: int
  MaxRequests :: int
  MinInterval :: int
  UserBucketOnly :: bool

record rate_actor =
  actorKey :: string
  actorFactor :: float64

section \<open>Buckets\<close>

definition micros :: "int \<Rightarrow> int" where
  "micros duration = duration sdiv 1000"

definition ttl_micros :: "int \<Rightarrow> int" where
  \<comment> \<open>\<open>PEXPIRE\<close> takes milliseconds; the client rounds a shorter duration up to one\<close>
  "ttl_micros duration = (if 0 < duration \<and> duration < 1000000 then 1000 else duration sdiv 1000000 * 1000)"

definition zadd :: "int \<Rightarrow> int list \<Rightarrow> int list" where
  \<comment> \<open>a member that is there keeps its place: its score is the same\<close>
  "zadd x z = (if x \<in> set z then z else insort x z)"

definition pruned_entries :: "int \<Rightarrow> int \<Rightarrow> int list \<times> int \<Rightarrow> int list" where
  \<comment> \<open>what an expired key and \<open>ZREMRANGEBYSCORE 0 windowStart\<close> leave\<close>
  "pruned_entries now windowStart bucket =
     filter (\<lambda>x. \<not> (0 \<le> x \<and> x \<le> windowStart)) (if now < snd bucket then fst bucket else [])"

definition bucket_check :: "int \<Rightarrow> int \<Rightarrow> int \<Rightarrow> int list \<times> int \<Rightarrow> limit_info \<times> (int list \<times> int)" where
  \<comment> \<open>for a positive maximum, as the callers pass\<close>
  "bucket_check now duration maxr bucket =
     (let windowStart = now - micros duration;
          pruned = pruned_entries now windowStart bucket;
          count = int (length pruned);
          added = zadd now pruned;
          n = length added;
          oldest = hd added;
          atMax = (if nat maxr \<le> n then Some (added ! (n - nat maxr)) else None);
          trimmed = drop (n - nat maxr) added;
          remaining = (if count < maxr then maxr - count else 0);
          resetMicro = (case atMax of Some m \<Rightarrow> m | None \<Rightarrow> oldest) + micros duration
      in (\<lparr>Remaining = remaining, ResetMs = resetMicro sdiv 1000\<rparr>, (trimmed, now + ttl_micros duration)))"

record redis_store =
  Buckets :: "string \<Rightarrow> int list \<times> int"
  NowMicro :: int
  Delays :: "nat list"
  Outages :: "bool list"

definition next_of :: "'a \<Rightarrow> 'a list \<Rightarrow> 'a" where
  "next_of d xs = (case xs of [] \<Rightarrow> d | x # _ \<Rightarrow> x)"

definition RedisCheck :: "redis_store \<Rightarrow> string \<Rightarrow> int \<Rightarrow> int \<Rightarrow> limit_info option \<times> redis_store" where
  \<comment> \<open>\<open>None\<close> is the error of a failed pipeline\<close>
  "RedisCheck st key duration maxr =
     (let now = NowMicro st + int (next_of 0 (Delays st));
          st = st\<lparr>NowMicro := now, Delays := tl (Delays st)\<rparr>;
          down = next_of False (Outages st);
          st = st\<lparr>Outages := tl (Outages st)\<rparr> in
      if down then (None, st)
      else (let (info, b) = bucket_check now duration maxr (Buckets st key)
            in (Some info, st\<lparr>Buckets := (Buckets st)(key := b)\<rparr>)))"

section \<open>Factors\<close>

definition userFactor :: "(rat \<Rightarrow> float64) \<Rightarrow> (string \<Rightarrow> policy_map) option \<Rightarrow> string \<Rightarrow> float64" where
  \<comment> \<open>\<open>rnd\<close> converts an integer to a float\<close>
  "userFactor rnd policyProvider userID = (case policyProvider of
       None \<Rightarrow> Finite 1
     | Some get \<Rightarrow> (case get userID ''rateLimitFactor'' of
           Some (PFloat (Finite q)) \<Rightarrow> if q > 0 then Finite q else Finite 1
         | Some (PFloat PosInf) \<Rightarrow> PosInf
         | Some (PInt v) \<Rightarrow> if v > 0 then rnd (of_int v) else Finite 1
         | _ \<Rightarrow> Finite 1))"

definition scaledMax :: "(rat \<Rightarrow> float64) \<Rightarrow> int \<Rightarrow> float64 \<Rightarrow> int" where
  "scaledMax rnd base factor =
     (if float_le factor (Finite 0) \<or> factor = Finite 1 \<or> factor = NaN then base
      else (let scaled = Float64ToInt (float_div rnd (rnd (of_int base)) factor) in
            if scaled < 1 then 1 else scaled))"

definition scaledMinInterval :: "(rat \<Rightarrow> float64) \<Rightarrow> int \<Rightarrow> float64 \<Rightarrow> int" where
  \<comment> \<open>the conversion of the product to an integer is in range, by the test before it\<close>
  "scaledMinInterval rnd base factor =
     (if float_le factor (Finite 0) \<or> factor = Finite 1 \<or> factor = NaN then base
      else if float_le (float_div rnd (Finite (2 ^ 63)) (rnd (of_int base))) factor then base
      else Float64ToInt (float_mul rnd (rnd (of_int base)) factor))"

section \<open>The middleware\<close>

record request =
  RequestUser :: "string option"
  InternalCall :: bool
  IPBucket :: string
  Endpoint :: string

record limiter =
  EnableIPRateLimit :: bool
  Limits :: "string \<rightharpoonup> endpoint_limit"
  PolicyProvider :: "(string \<Rightarrow> policy_map) option"
  Disabled :: bool

definition resolveActors :: "(rat \<Rightarrow> float64) \<Rightarrow> limiter \<Rightarrow> request \<Rightarrow> rate_actor list" where
  \<comment> \<open>\<open>IPBucket\<close> is \<open>ipHash(c.RealIP())\<close>\<close>
  "resolveActors rnd rl c = (case RequestUser c of
       Some userID \<Rightarrow>
         \<lparr>actorKey = userID, actorFactor = userFactor rnd (PolicyProvider rl) userID\<rparr> #
         (if EnableIPRateLimit rl \<and> \<not> InternalCall c
          then [\<lparr>actorKey = IPBucket c, actorFactor = Finite 1\<rparr>] else [])
     | None \<Rightarrow>
         if \<not> EnableIPRateLimit rl \<or> InternalCall c then []
         else [\<lparr>actorKey = IPBucket c, actorFactor = Finite 1\<rparr>])"

definition ipBucketPrefix :: string where "ipBucketPrefix = ''ip-''"

definition dropIPActors :: "rate_actor list \<Rightarrow> rate_actor list" where
  "dropIPActors actors = filter (\<lambda>a. take 3 (actorKey a) \<noteq> ipBucketPrefix) actors"

datatype verdict = Pass "int option" | Reject limit_info

type_synonym 's checker = "'s \<Rightarrow> string \<Rightarrow> int \<Rightarrow> int \<Rightarrow> limit_info option \<times> 's"

datatype actor_verdict = ActorOk "int option" | ActorReject limit_info

definition check_interval ::
  "(rat \<Rightarrow> float64) \<Rightarrow> 's checker \<Rightarrow> endpoint_limit \<Rightarrow> string \<Rightarrow> rate_actor \<Rightarrow> 's \<Rightarrow> limit_info option option \<times> 's" where
  \<comment> \<open>\<open>None\<close>: no interval to check\<close>
  "check_interval rnd chk limit endpoint a st =
     (if MinInterval limit > 0
      then (let (info, st') = chk st (actorKey a @ '':'' @ endpoint @ '':min'')
              (scaledMinInterval rnd (MinInterval limit) (actorFactor a)) 1
            in (Some info, st'))
      else (None, st))"

definition check_actor ::
  "(rat \<Rightarrow> float64) \<Rightarrow> 's checker \<Rightarrow> endpoint_limit \<Rightarrow> string \<Rightarrow> rate_actor \<Rightarrow> 's \<Rightarrow> actor_verdict \<times> 's" where
  \<comment> \<open>one turn of the loop: the remaining requests of the bucket, if it was counted\<close>
  "check_actor rnd chk limit endpoint a st =
     (let effectiveMax = scaledMax rnd (MaxRequests limit) (actorFactor a);
          (first, st1) = check_interval rnd chk limit endpoint a st;
          window = (\<lambda>s. if Duration limit > 0 \<and> effectiveMax > 0 then
             (let (info, s') = chk s (actorKey a @ '':'' @ endpoint) (Duration limit) effectiveMax in
              case info of None \<Rightarrow> (ActorOk None, s')
              | Some i \<Rightarrow> if Remaining i = 0 then (ActorReject i, s') else (ActorOk (Some (Remaining i)), s'))
             else (ActorOk None, s))
      in case first of
           None \<Rightarrow> window st1
         | Some None \<Rightarrow> (ActorOk None, st1)
         | Some (Some i) \<Rightarrow> if Remaining i = 0 then (ActorReject i, st1) else window st1)"

fun check_actors ::
  "(rat \<Rightarrow> float64) \<Rightarrow> 's checker \<Rightarrow> endpoint_limit \<Rightarrow> string \<Rightarrow> int \<Rightarrow> rate_actor list \<Rightarrow> 's \<Rightarrow> verdict \<times> 's" where
  "check_actors rnd chk limit endpoint minRemaining [] st =
     (Pass (if minRemaining \<ge> 0 then Some minRemaining else None), st)"
| "check_actors rnd chk limit endpoint minRemaining (a # as) st =
     (case check_actor rnd chk limit endpoint a st of
        (ActorReject i, st') \<Rightarrow> (Reject i, st')
      | (ActorOk None, st') \<Rightarrow> check_actors rnd chk limit endpoint minRemaining as st'
      | (ActorOk (Some r), st') \<Rightarrow>
          check_actors rnd chk limit endpoint
            (if minRemaining < 0 \<or> r < minRemaining then r else minRemaining) as st')"

definition Middleware :: "(rat \<Rightarrow> float64) \<Rightarrow> 's checker \<Rightarrow> limiter \<Rightarrow> request \<Rightarrow> 's \<Rightarrow> verdict \<times> 's" where
  "Middleware rnd chk rl c st =
     (if Disabled rl then (Pass None, st)
      else case Limits rl (Endpoint c) of
          None \<Rightarrow> (Pass None, st)
        | Some limit \<Rightarrow>
            (let actors = resolveActors rnd rl c;
                 actors = (if UserBucketOnly limit then dropIPActors actors else actors) in
             if actors = [] then (Pass None, st)
             else check_actors rnd chk limit (Endpoint c) (- 1) actors st))"

definition retryAfterSec :: "limit_info \<Rightarrow> int \<Rightarrow> int" where
  \<comment> \<open>the header of \<open>rejectRequest\<close>, at the given Unix millisecond\<close>
  "retryAfterSec info nowMs = (let s = (ResetMs info - nowMs + 999) sdiv 1000 in if s < 0 then 0 else s)"

section \<open>The window\<close>

definition newest :: "nat \<Rightarrow> 'a list \<Rightarrow> 'a list" where
  "newest n xs = drop (length xs - n) xs"

definition later :: "int \<Rightarrow> int list \<Rightarrow> nat" where
  "later w ts = length (filter (\<lambda>x. w < x) ts)"

lemma length_newest [simp]: "length (newest n xs) = min n (length xs)"
  by (simp add: newest_def)

lemma newest_snoc: "newest (Suc n) (xs @ [x]) = newest n xs @ [x]"
  by (simp add: newest_def)

lemma newest_newest: "newest m (newest n xs) = newest (min m n) xs"
proof -
  have "length xs - (length xs - n) - m + (length xs - n) = length xs - min m n"
    by (cases "m \<le> n"; cases "n \<le> length xs") simp_all
  then show ?thesis unfolding newest_def drop_drop length_drop by (rule arg_cong)
qed

lemma sorted_above: "sorted_wrt (<) (x # xs) \<Longrightarrow> w < x \<Longrightarrow> filter (\<lambda>y. w < y) (x # xs) = x # (xs :: int list)"
  by (force simp: filter_id_conv)

lemma later_le [simp]: "later w ts \<le> length ts"
  by (simp add: later_def)

lemma later_Nil [simp]: "later w [] = 0"
  by (simp add: later_def)

lemma later_antimono: "v \<le> w \<Longrightarrow> later w ts \<le> later v ts"
  unfolding later_def by (induction ts) auto

lemma later_drop: "sorted_wrt (<) ts \<Longrightarrow> later w (drop j ts) = min (later w ts) (length ts - j)"
proof (induction ts arbitrary: j)
  case (Cons x xs)
  show ?case
  proof (cases j)
    case 0
    then show ?thesis using later_le [of w "x # xs"] by simp
  next
    case (Suc i)
    have "w < x \<Longrightarrow> later w xs = length xs" using sorted_above [OF Cons.prems, of w] by (simp add: later_def)
    with Cons.IH [of i] Cons.prems Suc show ?thesis by (auto simp: later_def)
  qed
qed simp

lemma filter_later: "sorted_wrt (<) ts \<Longrightarrow> filter (\<lambda>x. w < x) ts = newest (later w ts) ts"
proof (induction ts)
  case (Cons x xs)
  show ?case
  proof (cases "w < x")
    case True
    from sorted_above [OF Cons.prems this] show ?thesis by (simp add: newest_def later_def)
  next
    case False
    then have "filter (\<lambda>x. w < x) (x # xs) = newest (later w xs) xs" "later w (x # xs) = later w xs"
      using Cons by (simp_all add: later_def)
    moreover have "Suc (length xs) - later w xs = Suc (length xs - later w xs)" by (simp add: Suc_diff_le)
    ultimately show ?thesis by (simp add: newest_def)
  qed
qed (simp add: newest_def)

lemma filter_newest:
  "sorted_wrt (<) ts \<Longrightarrow> filter (\<lambda>x. w < x) (newest k ts) = newest (min (later w ts) k) ts"
proof -
  assume s: "sorted_wrt (<) ts"
  then have "sorted_wrt (<) (newest k ts)" by (simp add: newest_def sorted_wrt_drop)
  from filter_later [OF this, of w] have "filter (\<lambda>x. w < x) (newest k ts) = newest (min (later w (newest k ts)) k) ts"
    by (simp add: newest_newest)
  moreover have "min (later w (newest k ts)) k = min (later w ts) k"
    using later_drop [OF s, of w "length ts - k"] later_le [of w ts] by (cases "k \<le> length ts") (simp_all add: newest_def)
  ultimately show ?thesis by simp
qed

text \<open>After the requests \<open>ts\<close> a bucket holds the newest of those in the last window, at most the maximum.\<close>

definition holds :: "int \<Rightarrow> nat \<Rightarrow> int list \<Rightarrow> int list \<times> int \<Rightarrow> bool" where
  "holds d m ts b \<longleftrightarrow> (if ts = [] then fst b = []
     else fst b = newest (min m (later (last ts - micros d) ts)) ts \<and> snd b = last ts + micros d)"

definition whole_millis :: "int \<Rightarrow> bool" where
  "whole_millis d \<longleftrightarrow> 0 < d \<and> 1000000 dvd d"

lemma whole_millis_ttl: "whole_millis d \<Longrightarrow> ttl_micros d = micros d \<and> 0 < micros d"
  by (auto simp: whole_millis_def ttl_micros_def micros_def elim!: dvdE)

lemma sorted_last: "sorted_wrt (<) ts \<Longrightarrow> x \<in> set ts \<Longrightarrow> x \<le> (last ts :: int)"
  by (induction ts) (auto dest: bspec [OF _ last_in_set])

lemma pruned_bucket:
  assumes "holds d m ts b" and "whole_millis d" and "sorted_wrt (<) (ts @ [t])" and "\<And>x. x \<in> set ts \<Longrightarrow> 0 \<le> x"
  shows "pruned_entries t (t - micros d) b = newest (min m (later (t - micros d) ts)) ts"
proof (cases "ts = []")
  case True
  then show ?thesis using assms(1) by (simp add: holds_def newest_def pruned_entries_def)
next
  case False
  let ?w = "t - micros d"
  have s: "sorted_wrt (<) ts" and lt: "last ts < t" using assms(3) False by (auto simp: sorted_wrt_append)
  have b: "fst b = newest (min m (later (last ts - micros d) ts)) ts" "snd b = last ts + micros d"
    using assms(1) False by (simp_all add: holds_def)
  show ?thesis
  proof (cases "t < snd b")
    case True
    have "set (fst b) \<subseteq> set ts" by (simp add: b newest_def set_drop_subset)
    then have "filter (\<lambda>x. \<not> (0 \<le> x \<and> x \<le> ?w)) (fst b) = filter (\<lambda>x. ?w < x) (fst b)"
      using assms(4) by (intro filter_cong) auto
    also have "\<dots> = newest (min (later ?w ts) (min m (later (last ts - micros d) ts))) ts"
      unfolding b(1) by (rule filter_newest [OF s])
    also have "min (later ?w ts) (min m (later (last ts - micros d) ts)) = min m (later ?w ts)"
      using later_antimono [of "last ts - micros d" ?w ts] lt by simp
    finally show ?thesis using True by (simp add: pruned_entries_def)
  next
    case False
    then have "later ?w ts = 0" using sorted_last [OF s] b(2) by (fastforce simp: later_def filter_empty_conv)
    with False show ?thesis by (simp add: newest_def pruned_entries_def)
  qed
qed

lemma bucket_check_step:
  assumes "holds d m ts b" and "whole_millis d" and "sorted_wrt (<) (ts @ [t])" and "\<And>x. x \<in> set ts \<Longrightarrow> 0 \<le> x"
    and "0 < m"
  shows "0 < Remaining (fst (bucket_check t d (int m) b)) \<longleftrightarrow> later (t - micros d) ts < m"
    and "holds d m (ts @ [t]) (snd (bucket_check t d (int m) b))"
proof -
  let ?c = "min m (later (t - micros d) ts)"
  note pruned = pruned_bucket [OF assms(1-4)]
  note ttl = whole_millis_ttl [OF assms(2)]
  have "?c \<le> length ts" using later_le [of "t - micros d" ts] by linarith
  then have len: "length (newest ?c ts) = ?c" unfolding length_newest by (rule min_absorb1)
  have below: "x < t" if "x \<in> set (newest ?c ts)" for x
    using that assms(3) set_drop_subset [of _ ts] by (auto simp: newest_def sorted_wrt_append)
  have "sorted (newest ?c ts)" using assms(3)
    by (auto simp: newest_def sorted_wrt_append intro: sorted_wrt_mono_rel [of _ "(<)"] sorted_wrt_drop)
  then have added: "zadd t (newest ?c ts) = newest (Suc ?c) (ts @ [t])"
    using below by (auto simp: zadd_def newest_snoc insort_is_Cons sorted_insort_is_snoc less_imp_le)
  show "0 < Remaining (fst (bucket_check t d (int m) b)) \<longleftrightarrow> later (t - micros d) ts < m"
  proof -
    have "length (pruned_entries t (t - micros d) b) = ?c" using pruned len by (simp del: length_newest)
    then show ?thesis by (auto simp: bucket_check_def Let_def)
  qed
  have l: "later (t - micros d) (ts @ [t]) = Suc (later (t - micros d) ts)" using ttl by (simp add: later_def)
  have "fst (snd (bucket_check t d (int m) b)) = newest m (zadd t (pruned_entries t (t - micros d) b))"
    by (simp add: bucket_check_def Let_def newest_def)
  also have "\<dots> = newest m (newest (Suc ?c) (ts @ [t]))" by (simp only: pruned added)
  also have "\<dots> = newest (min m (Suc (later (t - micros d) ts))) (ts @ [t])"
    by (simp add: newest_newest min_def)
  finally show "holds d m (ts @ [t]) (snd (bucket_check t d (int m) b))"
    using ttl l by (simp add: holds_def bucket_check_def Let_def)
qed

fun bucket_run :: "int \<Rightarrow> int \<Rightarrow> int list \<times> int \<Rightarrow> int list \<Rightarrow> int list" where
  \<comment> \<open>the times of the admitted requests\<close>
  "bucket_run d maxr b [] = []"
| "bucket_run d maxr b (t # ts) = (let (info, b') = bucket_check t d maxr b in
     (if 0 < Remaining info then [t] else []) @ bucket_run d maxr b' ts)"

lemma bucket_run_admits:
  assumes "holds d m done b" and "whole_millis d" and "sorted_wrt (<) (done @ ts)"
    and "\<And>x. x \<in> set (done @ ts) \<Longrightarrow> 0 \<le> x" and "0 < m"
  shows "bucket_run d (int m) b ts = [t. (t, p) \<leftarrow> zip ts (map (\<lambda>k. done @ take k ts) [0..<length ts]),
     later (t - micros d) p < m]"
  using assms
proof (induction ts arbitrary: "done" b)
  case (Cons t ts)
  obtain info b' where c: "bucket_check t d (int m) b = (info, b')" by (rule prod.exhaust)
  have s: "sorted_wrt (<) (done @ [t])" using Cons.prems(3) by (auto simp: sorted_wrt_append)
  have p: "\<And>x. x \<in> set done \<Longrightarrow> 0 \<le> x" using Cons.prems(4) by simp
  note step = bucket_check_step [OF Cons.prems(1,2) s p Cons.prems(5), unfolded c fst_conv snd_conv]
  have "bucket_run d (int m) b' ts = [t. (t, p) \<leftarrow> zip ts (map (\<lambda>k. (done @ [t]) @ take k ts) [0..<length ts]),
     later (t - micros d) p < m]"
    using Cons.IH [OF step(2) Cons.prems(2) _ _ Cons.prems(5)] Cons.prems(3,4) by simp
  moreover have "map (\<lambda>k. done @ take k (t # ts)) [0..<length (t # ts)]
      = done # map (\<lambda>k. (done @ [t]) @ take k ts) [0..<length ts]"
    by (simp add: upt_conv_Cons map_Suc_upt [symmetric] del: upt_Suc)
  ultimately show ?case using step(1) by (simp add: c)
qed simp

lemma admitted_iff:
  assumes "whole_millis d" and "sorted_wrt (<) ts" and "\<And>x. x \<in> set ts \<Longrightarrow> 0 \<le> x" and "0 < m" and "k < length ts"
  shows "ts ! k \<in> set (bucket_run d (int m) ([], 0) ts) \<longleftrightarrow> later (ts ! k - micros d) (take k ts) < m"
proof -
  have "distinct ts" using assms(2) by (simp add: strict_sorted_iff)
  then have u: "j < length ts \<Longrightarrow> ts ! j = ts ! k \<Longrightarrow> j = k" for j using assms(5) by (simp add: nth_eq_iff_index_eq)
  have "bucket_run d (int m) ([], 0) ts = [t. (t, p) \<leftarrow> zip ts (map (\<lambda>k. take k ts) [0..<length ts]),
     later (t - micros d) p < m]"
    using bucket_run_admits [of d m "[]" "([], 0)" ts] assms by (simp add: holds_def)
  then have "t \<in> set (bucket_run d (int m) ([], 0) ts) \<longleftrightarrow>
      (\<exists>j<length ts. t = ts ! j \<and> later (ts ! j - micros d) (take j ts) < m)" for t
    by (auto simp: set_zip)
  then show ?thesis using u assms(5) by auto
qed

lemma bucket_run_subset: "set (bucket_run d maxr b ts) \<subseteq> set ts"
  by (induction ts arbitrary: b) (auto split: prod.splits)

section \<open>Properties\<close>

text \<open>One bucket is an exact sliding window: the k-th request is admitted exactly when fewer than the maximum of the
  requests before it, admitted or not, were in the last window, so that no window, wherever it ends, holds more
  admitted requests than the maximum.  The times of requests are distinct microseconds and the window is a
  whole number of milliseconds.\<close>

theorem window_limits_requests:
  assumes "whole_millis d" and "sorted_wrt (<) ts" and "\<And>x. x \<in> set ts \<Longrightarrow> 0 \<le> x" and "0 < m"
  shows "(\<forall>k<length ts. ts ! k \<in> set (bucket_run d (int m) ([], 0) ts)
            \<longleftrightarrow> length (filter (\<lambda>x. ts ! k - micros d < x) (take k ts)) < m)
     \<and> card {t \<in> set (bucket_run d (int m) ([], 0) ts). e - micros d < t \<and> t \<le> e} \<le> m"
proof
  show "\<forall>k<length ts. ts ! k \<in> set (bucket_run d (int m) ([], 0) ts)
      \<longleftrightarrow> length (filter (\<lambda>x. ts ! k - micros d < x) (take k ts)) < m"
    using admitted_iff [OF assms] by (simp add: later_def)
  let ?A = "{t \<in> set (bucket_run d (int m) ([], 0) ts). e - micros d < t \<and> t \<le> e}"
  have fin: "finite ?A" by simp
  show "card ?A \<le> m"
  proof (cases "?A = {}")
    case False
    define t where "t = Max ?A"
    have t: "t \<in> ?A" unfolding t_def using Max_in [OF fin False] .
    then have "t \<in> set ts" using bucket_run_subset [of d "int m" "([], 0)" ts] by auto
    then obtain k where k: "k < length ts" "ts ! k = t" by (metis in_set_conv_nth)
    let ?B = "{x \<in> set (take k ts). t - micros d < x}"
    have "x \<in> ?B" if x: "x \<in> ?A" "x \<noteq> t" for x
    proof -
      have "x < t" using Max_ge [OF fin x(1)] x(2) by (simp add: t_def)
      moreover obtain j where j: "j < length ts" "ts ! j = x"
        using x(1) bucket_run_subset [of d "int m" "([], 0)" ts] by (auto simp: in_set_conv_nth subset_iff)
      ultimately have "j < k"
        using sorted_wrt_nth_less [OF assms(2), of k j] k by (cases j k rule: linorder_cases) auto
      then have "x \<in> set (take k ts)" using j k(1) by (auto simp: in_set_conv_nth)
      then show ?thesis using x t by simp
    qed
    then have "?A - {t} \<subseteq> ?B" by blast
    then have "card (?A - {t}) \<le> card ?B" by (rule card_mono [rotated]) simp
    moreover have "card ?B \<le> later (t - micros d) (take k ts)"
      using card_length [of "filter (\<lambda>x. t - micros d < x) (take k ts)"] by (simp add: later_def)
    moreover have "later (t - micros d) (take k ts) < m" using admitted_iff [OF assms k(1)] k(2) t by simp
    ultimately have "card (?A - {t}) < m" by simp
    then show ?thesis using t fin by (simp add: card_Diff_singleton)
  next
    case True
    show ?thesis unfolding True by simp
  qed
qed

theorem window_limits_requests_witness:
  "card {t \<in> set (bucket_run 1000000 2 ([], 0) [5, 10, 11, 2000]). 0 < t \<and> t \<le> 1000} \<le> 2
   \<and> 11 \<notin> set (bucket_run 1000000 2 ([], 0) [5, 10, 11, 2000])"
proof -
  have h: "whole_millis 1000000" "sorted_wrt (<) [5, 10, 11, 2000 :: int]"
    "\<And>x. x \<in> set [5, 10, 11, 2000 :: int] \<Longrightarrow> 0 \<le> x" "0 < (2 :: nat)"
    by (auto simp: whole_millis_def)
  have e: "micros 1000000 = 1000" by (simp add: micros_def)
  note t = window_limits_requests [OF h, of 1000, unfolded e]
  from t [THEN conjunct1, rule_format, of 2] t [THEN conjunct2] show ?thesis by simp
qed

section \<open>Factors divide\<close>

lemma scaledMax_finite:
  assumes "ieee rnd" "1 \<le> base" "base \<le> 2 ^ 53" "0 < q"
  shows "scaledMax rnd base (Finite q) = max 1 (Float64ToInt (rnd (of_int base / q)))"
proof -
  have b: "rnd (of_int base) = Finite (of_int base)" using assms by (simp add: ieee_def)
  show ?thesis
  proof (cases "q = 1")
    case True
    then show ?thesis using assms b Float64ToInt_int [of base] by (simp add: scaledMax_def)
  next
    case False
    then show ?thesis using assms b by (simp add: scaledMax_def float_div_def Let_def)
  qed
qed

text \<open>C33. A user's factor divides the maximum of an endpoint: the effective maximum is the quotient, between its floor and
  its ceiling (so the quotient itself where it is an integer) but at least one; it falls as the factor
  grows, is at most the configured maximum from factor 1 on and at least it up to factor 1.  The rounding of the
  division is any that is monotone and exact on the integers up to \<open>2 ^ 53\<close>, which the quotient is taken not to exceed.\<close>

theorem scaledMax_divides:
  assumes "ieee rnd" and "1 \<le> base" and "base \<le> 2 ^ 53" and "0 < p" and "p \<le> q" and "of_int base / q \<le> 2 ^ 53"
  shows "max 1 \<lfloor>of_int base / q\<rfloor> \<le> scaledMax rnd base (Finite q) \<and> scaledMax rnd base (Finite q) \<le> max 1 \<lceil>of_int base / q\<rceil>
     \<and> 1 \<le> scaledMax rnd base (Finite q) \<and> scaledMax rnd base (Finite q) \<le> scaledMax rnd base (Finite p)
     \<and> (1 \<le> q \<longrightarrow> scaledMax rnd base (Finite q) \<le> base) \<and> (p \<le> 1 \<longrightarrow> base \<le> scaledMax rnd base (Finite p))"
proof -
  have q: "0 < q" using assms(4,5) by simp
  define f c where "f = \<lfloor>of_int base / q\<rfloor>" and "c = \<lceil>of_int base / q\<rceil>"
  have b: "Float64ToInt (rnd (of_int base)) = base" using assms(1-3) Float64ToInt_int [of base] by (simp add: ieee_def)
  have mono: "r \<le> s \<Longrightarrow> Float64ToInt (rnd r) \<le> Float64ToInt (rnd s)" for r s
    using assms(1) by (intro Float64ToInt_mono) (simp add: ieee_def)
  have "of_int base / q \<le> of_int base / p" using assms(2,4,5) by (simp add: frac_le)
  then have "Float64ToInt (rnd (of_int base / q)) \<le> Float64ToInt (rnd (of_int base / p))" by (rule mono)
  moreover have "1 \<le> q \<Longrightarrow> Float64ToInt (rnd (of_int base / q)) \<le> base"
    using mono [of "of_int base / q" "of_int base"] assms(2) b by (simp add: divide_le_eq mult_le_cancel_left1)
  moreover have "p \<le> 1 \<Longrightarrow> base \<le> Float64ToInt (rnd (of_int base / p))"
    using mono [of "of_int base" "of_int base / p"] assms(2,4) b by (simp add: le_divide_eq mult_left_le)
  moreover have "\<lfloor>of_int base / q\<rfloor> \<le> Float64ToInt (rnd (of_int base / q)) \<and> Float64ToInt (rnd (of_int base / q)) \<le> \<lceil>of_int base / q\<rceil>"
  proof -
    have x: "0 \<le> of_int base / q" using assms(2) q by simp
    have "\<lceil>of_int base / q\<rceil> \<le> 2 ^ 53" using assms(6) by (simp add: ceiling_le_iff)
    moreover have "0 \<le> \<lfloor>of_int base / q\<rfloor>" "\<lfloor>of_int base / q\<rfloor> \<le> \<lceil>of_int base / q\<rceil>" using x by (simp_all add: floor_le_ceiling)
    ultimately have "rnd (of_int \<lfloor>of_int base / q\<rfloor>) = Finite (of_int \<lfloor>of_int base / q\<rfloor>)" "rnd (of_int \<lceil>of_int base / q\<rceil>) = Finite (of_int \<lceil>of_int base / q\<rceil>)"
      "Float64ToInt (Finite (of_int \<lfloor>of_int base / q\<rfloor>)) = \<lfloor>of_int base / q\<rfloor>" "Float64ToInt (Finite (of_int \<lceil>of_int base / q\<rceil>)) = \<lceil>of_int base / q\<rceil>"
      using assms(1) by (auto simp: ieee_def intro!: Float64ToInt_int)
    then show ?thesis
      using mono [OF of_int_floor_le [of "of_int base / q"]] mono [OF le_of_int_ceiling [of "of_int base / q"]] by simp
  qed
  ultimately show ?thesis unfolding scaledMax_finite [OF assms(1-3) q] scaledMax_finite [OF assms(1-4)]
    using assms(2) by (auto simp: max_def simp flip: f_def c_def)
qed

theorem scaledMax_divides_witness: "scaledMax Finite 300 (Finite 2) = 150 \<and> 300 \<le> scaledMax Finite 300 (Finite (1 / 2))"
proof -
  have i: "ieee Finite" by (simp add: ieee_def)
  show ?thesis using scaledMax_divides [OF i, of 300 "1 / 2" 2] by simp
qed

section \<open>The middleware over any store\<close>

locale rate_store =
  fixes chk :: "'s checker"
  assumes in_range: "chk st key d m = (Some info, st') \<Longrightarrow> 0 < m \<Longrightarrow> 0 \<le> Remaining info \<and> Remaining info \<le> m"
begin

lemma actor_in_range:
  "check_actor rnd chk limit endpoint a st = (ActorOk (Some r), st') \<Longrightarrow>
   1 \<le> r \<and> r \<le> scaledMax rnd (MaxRequests limit) (actorFactor a)"
  by (auto simp: check_actor_def check_interval_def Let_def split: prod.splits option.splits if_splits
      dest: in_range)

lemma actors_in_range:
  "check_actors rnd chk limit endpoint mr as st = (Pass (Some h), st') \<Longrightarrow> mr < 0 \<or> 1 \<le> mr \<Longrightarrow>
   1 \<le> h \<and> (h = mr \<or> (\<exists>a\<in>set as. h \<le> scaledMax rnd (MaxRequests limit) (actorFactor a)))"
proof (induction as arbitrary: mr st)
  case Nil
  then show ?case by (auto split: if_splits)
next
  case (Cons a as)
  obtain v s where v: "check_actor rnd chk limit endpoint a st = (v, s)" by (rule prod.exhaust)
  show ?case
  proof (cases v)
    case (ActorOk ro)
    show ?thesis
    proof (cases ro)
      case None
      with Cons ActorOk v show ?thesis by (auto dest: Cons.IH)
    next
      case (Some r)
      let ?mr = "if mr < 0 \<or> r < mr then r else mr"
      have r: "1 \<le> r" "r \<le> scaledMax rnd (MaxRequests limit) (actorFactor a)"
        using actor_in_range v ActorOk Some by blast+
      then have "1 \<le> h \<and> (h = ?mr \<or> (\<exists>a\<in>set as. h \<le> scaledMax rnd (MaxRequests limit) (actorFactor a)))"
        using Cons.IH [of ?mr s] Cons.prems v ActorOk Some by auto
      with r show ?thesis by (auto split: if_splits)
    qed
  next
    case (ActorReject i)
    with Cons.prems v show ?thesis by simp
  qed
qed

end

lemma bucket_check_range:
  "0 < m \<Longrightarrow> 0 \<le> Remaining (fst (bucket_check now d m b)) \<and> Remaining (fst (bucket_check now d m b)) \<le> m"
  by (simp add: bucket_check_def Let_def)

interpretation redis: rate_store RedisCheck
proof
  fix st :: redis_store and key d m info st'
  assume "RedisCheck st key d m = (Some info, st')" and m: "0 < m"
  then have "info = fst (bucket_check (NowMicro st + int (next_of 0 (Delays st))) d m (Buckets st key))"
    by (simp add: RedisCheck_def Let_def case_prod_unfold split: if_splits)
  then show "0 \<le> Remaining info \<and> Remaining info \<le> m" using bucket_check_range [OF m] by (simp only:)
qed

lemma check_actors_reject:
  "check_actors rnd chk limit endpoint mr as st = (Reject i, st') \<Longrightarrow> Remaining i = 0"
proof (induction as arbitrary: mr st)
  case (Cons a as)
  obtain v s where v: "check_actor rnd chk limit endpoint a st = (v, s)" by (rule prod.exhaust)
  show ?case
  proof (cases v)
    case (ActorOk ro)
    with Cons v show ?thesis by (cases ro) auto
  next
    case (ActorReject j)
    with v have "Remaining j = 0"
      by (auto simp: check_actor_def check_interval_def Let_def split: prod.splits option.splits if_splits)
    with Cons.prems v ActorReject show ?thesis by simp
  qed
qed simp

lemma check_actors_down:
  "(\<And>st key d m. fst (chk st key d m) = None) \<Longrightarrow> mr < 0 \<Longrightarrow> fst (check_actors rnd chk limit endpoint mr as st) = Pass None"
proof (induction as arbitrary: st)
  case (Cons a as)
  have "\<exists>s. check_actor rnd chk limit endpoint a st = (ActorOk None, s)"
    using Cons.prems(1) by (auto simp: check_actor_def check_interval_def Let_def split: prod.splits option.splits) (metis fst_conv option.distinct(1))+
  with Cons show ?case by auto
qed simp

text \<open>What the middleware answers: a request is rejected only on a bucket with nothing left; the remaining count it reports
  on a request it lets through is at least one and at most the effective maximum of one of the request's actors; and it lets
  everything through while the store fails.\<close>

theorem Middleware_outcome:
  assumes "Middleware rnd RedisCheck rl c st = (v, st')"
  shows "(\<forall>i. v = Reject i \<longrightarrow> Remaining i = 0)
     \<and> (\<forall>h. v = Pass (Some h) \<longrightarrow> 1 \<le> h \<and> (\<exists>limit a. Limits rl (Endpoint c) = Some limit \<and> a \<in> set (resolveActors rnd rl c)
            \<and> h \<le> scaledMax rnd (MaxRequests limit) (actorFactor a)))
     \<and> ((\<forall>s key d m. fst (chk s key d m) = None) \<longrightarrow> fst (Middleware rnd chk rl c s0) = Pass None)"
proof (intro conjI allI impI)
  fix i assume "v = Reject i"
  with assms show "Remaining i = 0"
    by (auto simp: Middleware_def Let_def dest: check_actors_reject split: option.splits if_splits)
next
  fix h assume v: "v = Pass (Some h)"
  let ?as = "\<lambda>limit. if UserBucketOnly limit then dropIPActors (resolveActors rnd rl c) else resolveActors rnd rl c"
  from v assms obtain limit where l: "Limits rl (Endpoint c) = Some limit"
      and run: "check_actors rnd RedisCheck limit (Endpoint c) (- 1) (?as limit) st = (Pass (Some h), st')"
    by (cases "Limits rl (Endpoint c)") (simp_all add: Middleware_def Let_def split: if_splits)
  define as where "as = ?as limit"
  have as: "set as \<subseteq> set (resolveActors rnd rl c)" by (auto simp: as_def dropIPActors_def)
  from redis.actors_in_range [OF run [folded as_def]] have "1 \<le> h \<and> (\<exists>a\<in>set as. h \<le> scaledMax rnd (MaxRequests limit) (actorFactor a))"
    by auto
  with l as show "1 \<le> h" "\<exists>limit a. Limits rl (Endpoint c) = Some limit \<and> a \<in> set (resolveActors rnd rl c)
      \<and> h \<le> scaledMax rnd (MaxRequests limit) (actorFactor a)" by auto
next
  assume "\<forall>s key d m. fst (chk s key d m) = None"
  then show "fst (Middleware rnd chk rl c s0) = Pass None"
    using check_actors_down [of chk "- 1"] by (simp add: Middleware_def Let_def split: option.split)
qed

definition one_limiter :: limiter where
  "one_limiter = \<lparr>EnableIPRateLimit = True,
     Limits = [''signin'' \<mapsto> \<lparr>Duration = 1000000, MaxRequests = 2, MinInterval = 0, UserBucketOnly = False\<rparr>],
     PolicyProvider = None, Disabled = False\<rparr>"

definition one_request :: request where
  "one_request = \<lparr>RequestUser = None, InternalCall = False, IPBucket = ''ip-x'', Endpoint = ''signin''\<rparr>"

definition fresh_store :: redis_store where
  "fresh_store = \<lparr>Buckets = (\<lambda>_. ([], 0)), NowMicro = 5, Delays = [], Outages = []\<rparr>"

lemma one_request_passes: "\<exists>st'. Middleware Finite RedisCheck one_limiter one_request fresh_store = (Pass (Some 2), st')"
  by (simp add: Middleware_def one_limiter_def one_request_def fresh_store_def resolveActors_def check_actor_def
      check_interval_def scaledMax_def RedisCheck_def bucket_check_def pruned_entries_def zadd_def next_of_def Let_def)

theorem Middleware_outcome_witness:
  "\<exists>limit a. Limits one_limiter (Endpoint one_request) = Some limit
     \<and> a \<in> set (resolveActors Finite one_limiter one_request) \<and> 2 \<le> scaledMax Finite (MaxRequests limit) (actorFactor a)"
proof -
  obtain st' where m: "Middleware Finite RedisCheck one_limiter one_request fresh_store = (Pass (Some 2), st')"
    using one_request_passes by blast
  from Middleware_outcome [OF m, of "\<lambda>s key d m. (None, s)" "()"] show ?thesis by blast
qed

end
