(* ===== verification/Social_Graph.thy ===== *)
theory Social_Graph imports Prelude Col_Fit "HOL-Library.List_Lexorder" "HOL-Library.Char_ord" begin

text \<open>
  The tables behind following and blocking, and the repository statements on them
  (\<open>repository/following.go\<close>, \<open>follow_request.go\<close>, \<open>blocking.go\<close>, \<open>silent_follow.go\<close> and the
  parts of \<open>user.go\<close>, \<open>instance.go\<close> and \<open>user_list.go\<close> the two services call).

  A call is an action on the \<open>social\<close> state: the rows of the tables, the clock, what has gone out
  (\<open>Outbox\<close>: notifications, deliveries, chart updates, webhooks, stream events) and \<open>Faults\<close>, which
  holds for each coming database statement whether it fails (none when the list is used up).  The
  unique index on a pair is checked by the inserting statement; a clash of primary keys is one more
  way for a statement to fail.  A row found by its pair is deleted by its primary key, which removes
  the one row of that pair.
\<close>

section \<open>State\<close>

record member =
  MemberID :: string
  MemberHost :: "string option"
  IsLocked :: bool
  IsBot :: bool
  MovedToURI :: "string option"
  CreatedAt :: "int option"

record profile =
  AutoAcceptFollowed :: bool
  CarefulBot :: bool
  LocalSeconds :: "int option"
  RemoteSeconds :: "int option"
  ApprovalAction :: string

record relation =
  RelationID :: string
  FollowerID :: string
  FolloweeID :: string
  FollowerHost :: "string option"
  FolloweeHost :: "string option"
  WithReplies :: bool

record block_row =
  BlockID :: string
  BlockerID :: string
  BlockeeID :: string

datatype social_error =
    ErrAlreadyFollowing | ErrNotFollowing | ErrSelfFollow | ErrFolloweeNotFound | ErrRequestNotFound
  | ErrAlreadyRequested | ErrBlocked | ErrBlocking
  | ErrSelfBlock | ErrBlockeeNotFound | ErrAlreadyBlocking | ErrNotBlocking
  | ErrUnique | ErrStatement

datatype stream_body = DetailedBody string string | LegacyBody string bool | LiteBody string

datatype effect =
    NotifyFollowed string string | NotifyRequested string string
  | NotifyAccepted string string | NotifyRejected string string
  | SendFollowed string string | SendUnfollowed string string | SendAccepted string string
  | ChartFollow string string | ChartUnfollow string string
  | WebhookFollowee string string string bool | WebhookFollowed string string
  | MainEvent string string stream_body
  | MeUpdatedEvent string | FollowingReload string | MuteBlockReload string
  | SendBlocked string string | SendUnblocked string string | RevokeQuotes string string

record social =
  Members :: "string \<Rightarrow> member option"
  Profiles :: "string \<Rightarrow> profile option"
  Followings :: "relation list"
  Requests :: "relation list"
  Blocks :: "block_row list"
  SilentFollows :: "string \<times> string \<Rightarrow> string option"
  FollowingCount :: "string \<Rightarrow> int"
  FollowersCount :: "string \<Rightarrow> int"
  InstanceCounts :: "string \<Rightarrow> (int \<times> int) option"
  ListOwners :: "(string \<times> string) list"
  ListMembers :: "(string \<times> string) list"
  Outbox :: "effect list"
  Faults :: "bool list"
  Serial :: nat
  Clock :: int

type_synonym 'a social_act = "(social, social_error, 'a) act"

definition IsLocal :: "member \<Rightarrow> bool" where
  "IsLocal u = (MemberHost u = None \<or> MemberHost u = Some [])"

definition isMoved :: "member \<Rightarrow> bool" where
  "isMoved u = (case MovedToURI u of None \<Rightarrow> False | Some uri \<Rightarrow> uri \<noteq> [])"

definition relation_pair :: "relation \<Rightarrow> string \<times> string" where
  "relation_pair r = (FollowerID r, FolloweeID r)"

definition block_pair :: "block_row \<Rightarrow> string \<times> string" where
  "block_pair b = (BlockerID b, BlockeeID b)"

section \<open>Statements\<close>

definition when_act :: "bool \<Rightarrow> unit social_act \<Rightarrow> unit social_act" where
  "when_act b m = (if b then m else ret ())"

definition stmt :: "unit social_act" where
  "stmt w = (case Faults w of [] \<Rightarrow> (Val (), w)
     | f # fs \<Rightarrow> (if f then Stop (Err ErrStatement) else Val (), w\<lparr>Faults := fs\<rparr>))"

definition optional :: "'a option social_act \<Rightarrow> 'a option social_act" where
  \<comment> \<open>a lookup whose error is read as not found\<close>
  "optional m = bind_act (attempt m) (\<lambda>r. ret (case r of Val a \<Rightarrow> a | Stop _ \<Rightarrow> None))"

definition optional_bool :: "bool social_act \<Rightarrow> bool social_act" where
  "optional_bool m = bind_act (attempt m) (\<lambda>r. ret (case r of Val b \<Rightarrow> b | Stop _ \<Rightarrow> False))"

definition best_effort :: "unit social_act \<Rightarrow> unit social_act" where
  \<comment> \<open>an error is only logged\<close>
  "best_effort m = bind_act (attempt m) (\<lambda>_. ret ())"

definition emit :: "effect \<Rightarrow> unit social_act" where
  "emit x = change (\<lambda>w. w\<lparr>Outbox := Outbox w @ [x]\<rparr>)"

definition lookup_stmt :: "bool \<Rightarrow> (social \<Rightarrow> 'a option) \<Rightarrow> 'a option social_act" where
  \<comment> \<open>a key that cannot be stored is not found, without a statement\<close>
  "lookup_stmt ok f = (if \<not> ok then ret None else then_act stmt (query f))"

definition exists_stmt :: "string \<Rightarrow> string \<Rightarrow> (social \<Rightarrow> bool) \<Rightarrow> bool social_act" where
  \<comment> \<open>a count: text the database cannot hold makes the statement fail\<close>
  "exists_stmt a b f = then_act stmt
     (then_act (reject_if (\<not> Storable a \<or> \<not> Storable b) ErrStatement) (query f))"

definition insert_stmt :: "(social \<Rightarrow> bool) \<Rightarrow> (social \<Rightarrow> social) \<Rightarrow> unit social_act" where
  "insert_stmt dup f = then_act stmt
     (bind_act (query dup) (\<lambda>d. then_act (reject_if d ErrUnique) (change f)))"

section \<open>Repositories\<close>

definition FindMember :: "string \<Rightarrow> member option social_act" where
  "FindMember uid = lookup_stmt (Storable uid) (\<lambda>w. Members w uid)"

definition FindProfile :: "string \<Rightarrow> profile option social_act" where
  "FindProfile uid = lookup_stmt (Storable uid) (\<lambda>w. Profiles w uid)"

definition add_count :: "string \<Rightarrow> int \<Rightarrow> (string \<Rightarrow> int) \<Rightarrow> string \<Rightarrow> int" where
  "add_count uid delta f = f(uid := f uid + delta)"

definition IncrementFollowingCount :: "string \<Rightarrow> int \<Rightarrow> unit social_act" where
  "IncrementFollowingCount uid delta = then_act stmt (change (\<lambda>w.
     if Members w uid = None then w else w\<lparr>FollowingCount := add_count uid delta (FollowingCount w)\<rparr>))"

definition IncrementFollowersCount :: "string \<Rightarrow> int \<Rightarrow> unit social_act" where
  "IncrementFollowersCount uid delta = then_act stmt (change (\<lambda>w.
     if Members w uid = None then w else w\<lparr>FollowersCount := add_count uid delta (FollowersCount w)\<rparr>))"

definition InstanceFollowersCount :: "string \<Rightarrow> int \<Rightarrow> unit social_act" where
  "InstanceFollowersCount host delta = (if host = [] \<or> delta = 0 then ret () else then_act stmt
     (change (\<lambda>w. w\<lparr>InstanceCounts := (InstanceCounts w)
        (host := map_option (\<lambda>(a, b). (a + delta, b)) (InstanceCounts w host))\<rparr>)))"

definition InstanceFollowingCount :: "string \<Rightarrow> int \<Rightarrow> unit social_act" where
  "InstanceFollowingCount host delta = (if host = [] \<or> delta = 0 then ret () else then_act stmt
     (change (\<lambda>w. w\<lparr>InstanceCounts := (InstanceCounts w)
        (host := map_option (\<lambda>(a, b). (a, b + delta)) (InstanceCounts w host))\<rparr>)))"

definition FollowingByPair :: "string \<Rightarrow> string \<Rightarrow> relation option social_act" where
  "FollowingByPair a b = lookup_stmt (Storable a \<and> Storable b)
     (\<lambda>w. find (\<lambda>r. relation_pair r = (a, b)) (Followings w))"

definition FollowingExists :: "string \<Rightarrow> string \<Rightarrow> bool social_act" where
  "FollowingExists a b = exists_stmt a b (\<lambda>w. (a, b) \<in> relation_pair ` set (Followings w))"

definition CreateFollowing :: "relation \<Rightarrow> unit social_act" where
  "CreateFollowing f = insert_stmt (\<lambda>w. relation_pair f \<in> relation_pair ` set (Followings w))
     (\<lambda>w. w\<lparr>Followings := Followings w @ [f]\<rparr>)"

definition DeleteFollowing :: "relation \<Rightarrow> unit social_act" where
  "DeleteFollowing f = then_act stmt
     (change (\<lambda>w. w\<lparr>Followings := filter (\<lambda>r. relation_pair r \<noteq> relation_pair f) (Followings w)\<rparr>))"

definition RequestByPair :: "string \<Rightarrow> string \<Rightarrow> relation option social_act" where
  "RequestByPair a b = lookup_stmt (Storable a \<and> Storable b)
     (\<lambda>w. find (\<lambda>r. relation_pair r = (a, b)) (Requests w))"

definition RequestExists :: "string \<Rightarrow> string \<Rightarrow> bool social_act" where
  "RequestExists a b = exists_stmt a b (\<lambda>w. (a, b) \<in> relation_pair ` set (Requests w))"

definition CreateRequest :: "relation \<Rightarrow> unit social_act" where
  "CreateRequest f = insert_stmt (\<lambda>w. relation_pair f \<in> relation_pair ` set (Requests w))
     (\<lambda>w. w\<lparr>Requests := Requests w @ [f]\<rparr>)"

definition DeleteRequest :: "relation \<Rightarrow> unit social_act" where
  "DeleteRequest f = then_act stmt
     (change (\<lambda>w. w\<lparr>Requests := filter (\<lambda>r. relation_pair r \<noteq> relation_pair f) (Requests w)\<rparr>))"

definition page_limit :: "int \<Rightarrow> nat" where
  "page_limit n = (if n \<le> 0 \<or> n > 100 then 30 else nat n)"

definition ListReceived :: "string \<Rightarrow> int \<Rightarrow> string \<Rightarrow> string \<Rightarrow> relation list social_act" where
  "ListReceived uid limit sinceID untilID = then_act stmt (query (\<lambda>w.
     let rows = filter (\<lambda>r. FolloweeID r = uid \<and> (sinceID \<noteq> [] \<longrightarrow> sinceID < RelationID r)
                  \<and> (untilID \<noteq> [] \<longrightarrow> RelationID r < untilID)) (Requests w);
         ordered = sort_key RelationID rows
     in take (page_limit limit) (if sinceID \<noteq> [] \<and> untilID = [] then ordered else rev ordered)))"

definition BlockByPair :: "string \<Rightarrow> string \<Rightarrow> block_row option social_act" where
  "BlockByPair a b = lookup_stmt (Storable a \<and> Storable b)
     (\<lambda>w. find (\<lambda>r. block_pair r = (a, b)) (Blocks w))"

definition BlockExists :: "string \<Rightarrow> string \<Rightarrow> bool social_act" where
  "BlockExists a b = exists_stmt a b (\<lambda>w. (a, b) \<in> block_pair ` set (Blocks w))"

definition CreateBlock :: "block_row \<Rightarrow> unit social_act" where
  "CreateBlock b = insert_stmt (\<lambda>w. block_pair b \<in> block_pair ` set (Blocks w))
     (\<lambda>w. w\<lparr>Blocks := Blocks w @ [b]\<rparr>)"

definition DeleteBlock :: "block_row \<Rightarrow> unit social_act" where
  "DeleteBlock b = then_act stmt
     (change (\<lambda>w. w\<lparr>Blocks := filter (\<lambda>r. block_pair r \<noteq> block_pair b) (Blocks w)\<rparr>))"

definition RecordSilent :: "string \<Rightarrow> string \<Rightarrow> string \<Rightarrow> unit social_act" where
  \<comment> \<open>an upsert: a second record of the pair replaces the id\<close>
  "RecordSilent rid follower followee = then_act stmt
     (change (\<lambda>w. w\<lparr>SilentFollows := (SilentFollows w)((follower, followee) \<mapsto> rid)\<rparr>))"

definition ListsContainingMember :: "string \<Rightarrow> string \<Rightarrow> string list social_act" where
  "ListsContainingMember owner uid = then_act stmt (query (\<lambda>w.
     rev (sort (map fst (filter (\<lambda>(l, o'). o' = owner \<and> (l, uid) \<in> set (ListMembers w)) (ListOwners w))))))"

definition RemoveMember :: "string \<Rightarrow> string \<Rightarrow> unit social_act" where
  "RemoveMember l uid = then_act stmt
     (change (\<lambda>w. w\<lparr>ListMembers := filter (\<lambda>m. m \<noteq> (l, uid)) (ListMembers w)\<rparr>))"

section \<open>Reading a call\<close>

lemma wp_stmt [simp]:
  "wp stmt Q E w = (case Faults w of [] \<Rightarrow> Q () w
     | f # fs \<Rightarrow> if f then E (Err ErrStatement) (w\<lparr>Faults := fs\<rparr>) else Q () (w\<lparr>Faults := fs\<rparr>))"
  by (simp add: wp_def stmt_def split: list.splits)

lemma wp_when [simp]: "wp (when_act b m) Q E w = (if b then wp m Q E w else Q () w)"
  by (simp add: when_act_def)

lemma wp_emit [simp]: "wp (emit x) Q E w = Q () (w\<lparr>Outbox := Outbox w @ [x]\<rparr>)"
  by (simp add: emit_def)

section \<open>What a call leaves alone\<close>

definition fpairs :: "social \<Rightarrow> (string \<times> string) set" where
  "fpairs w = relation_pair ` set (Followings w)"

definition rpairs :: "social \<Rightarrow> (string \<times> string) set" where
  "rpairs w = relation_pair ` set (Requests w)"

definition bpairs :: "social \<Rightarrow> (string \<times> string) set" where
  "bpairs w = block_pair ` set (Blocks w)"

definition healthy :: "social \<Rightarrow> bool" where
  \<comment> \<open>no statement is going to fail\<close>
  "healthy w = (Faults w = [])"

definition same_rows :: "social \<Rightarrow> social \<Rightarrow> bool" where
  "same_rows w w' = (Followings w' = Followings w \<and> Requests w' = Requests w \<and> Blocks w' = Blocks w)"

definition fewer_rows :: "social \<Rightarrow> social \<Rightarrow> bool" where
  "fewer_rows w w' = (set (Followings w') \<subseteq> set (Followings w) \<and> set (Requests w') \<subseteq> set (Requests w)
     \<and> Blocks w' = Blocks w)"

interpretation rows: transition same_rows
  by unfold_locales (auto simp: same_rows_def)

interpretation fewer: transition fewer_rows
  by unfold_locales (auto simp: fewer_rows_def)

lemma same_rows_fewer: "moves same_rows m \<Longrightarrow> moves fewer_rows m"
  by (simp add: moves_def same_rows_def fewer_rows_def)

named_theorems quiet \<open>calls that leave the rows alone\<close>

lemma quiet_stmt [quiet]: "moves same_rows stmt"
  by (auto simp: moves_def same_rows_def stmt_def split: list.splits)

lemma quiet_emit [quiet]: "moves same_rows (emit x)"
  by (simp add: emit_def rows.moves_change same_rows_def)

lemma quiet_when [quiet]: "moves same_rows m \<Longrightarrow> moves same_rows (when_act b m)"
  by (simp add: when_act_def rows.moves_ret)

lemma quiet_optional [quiet]: "moves same_rows m \<Longrightarrow> moves same_rows (optional m)"
  unfolding optional_def by (intro rows.moves_rules)

lemma quiet_optional_bool [quiet]: "moves same_rows m \<Longrightarrow> moves same_rows (optional_bool m)"
  unfolding optional_bool_def by (intro rows.moves_rules)

lemma quiet_best_effort [quiet]: "moves same_rows m \<Longrightarrow> moves same_rows (best_effort m)"
  unfolding best_effort_def by (intro rows.moves_rules)

lemma quiet_lookup [quiet]: "moves same_rows (lookup_stmt ok f)"
  unfolding lookup_stmt_def by (intro rows.moves_rules quiet)

lemma quiet_exists [quiet]: "moves same_rows (exists_stmt a b f)"
  unfolding exists_stmt_def by (intro rows.moves_rules quiet)

lemma quiet_find [quiet]:
  "moves same_rows (FindMember u)" "moves same_rows (FindProfile u)" "moves same_rows (FollowingByPair a b)"
  "moves same_rows (RequestByPair a b)" "moves same_rows (BlockByPair a b)" "moves same_rows (FollowingExists a b)"
  "moves same_rows (RequestExists a b)" "moves same_rows (BlockExists a b)"
  unfolding FindMember_def FindProfile_def FollowingByPair_def RequestByPair_def BlockByPair_def
    FollowingExists_def RequestExists_def BlockExists_def by (intro quiet)+

lemma quiet_lists [quiet]: "moves same_rows (ListReceived u n s t)" "moves same_rows (ListsContainingMember a b)"
  unfolding ListReceived_def ListsContainingMember_def by (intro rows.moves_rules quiet)+

lemma quiet_counts [quiet]:
  "moves same_rows (IncrementFollowingCount u d)" "moves same_rows (IncrementFollowersCount u d)"
  "moves same_rows (InstanceFollowersCount h d)" "moves same_rows (InstanceFollowingCount h d)"
  "moves same_rows (RecordSilent i a b)" "moves same_rows (RemoveMember l u)"
  unfolding IncrementFollowingCount_def IncrementFollowersCount_def InstanceFollowersCount_def
    InstanceFollowingCount_def RecordSilent_def RemoveMember_def
  by (auto intro!: rows.moves_rules rows.moves_change quiet simp: same_rows_def)

lemma fewer_delete:
  "moves fewer_rows (DeleteFollowing f)" "moves fewer_rows (DeleteRequest f)"
  unfolding DeleteFollowing_def DeleteRequest_def
  by (auto intro!: fewer.moves_then fewer.moves_change same_rows_fewer [OF quiet_stmt] simp: fewer_rows_def)

end
