(* ===== verification/Following.thy ===== *)
theory Following imports Social_Graph "HOL-Library.Word" begin

text \<open>
  \<open>core/following/following_service.go\<close> and \<open>follow_approval.go\<close>: following, unfollowing and follow
  requests.

  What is wired into the service is a \<open>follow_wiring\<close> (a \<open>nil\<close> dependency is \<open>False\<close> or
  \<open>None\<close>); the interface \<open>BlockingChecker\<close> is an argument of the two methods that use it.
  \<open>NewID\<close> is \<open>idGen.Generate\<close> by serial number and \<open>IDTime\<close> is \<open>idGen.ParseTime\<close> in nanoseconds.
  Packing a user for a stream event is code of another package: \<open>Packer followee follower\<close> says
  whether it succeeds, and the packed value stays symbolic.
\<close>

section \<open>Wiring and events\<close>

record follow_wiring =
  Federation :: bool
  Chart :: bool
  Webhook :: bool
  PackedWebhook :: bool
  MainStream :: bool
  MeUpdated :: bool
  RelationReload :: bool
  Notifications :: bool
  InstanceRepo :: bool
  InstanceStats :: "bool option"
  SilentRepo :: bool
  Silenced :: "(string \<Rightarrow> bool) option"
  ForceRemote :: bool
  Packer :: "(string \<Rightarrow> string \<Rightarrow> bool) option"
  IDTime :: "string \<Rightarrow> int option"
  NewID :: "nat \<Rightarrow> string"

type_synonym blocking_checker = "(string \<Rightarrow> string \<Rightarrow> bool social_act) option"

definition Generate :: "follow_wiring \<Rightarrow> string social_act" where
  "Generate e = bind_act (query Serial) (\<lambda>n. then_act (change (\<lambda>w. w\<lparr>Serial := Suc n\<rparr>)) (ret (NewID e n)))"

definition publishFollowingReload :: "follow_wiring \<Rightarrow> string \<Rightarrow> unit social_act" where
  "publishFollowingReload e follower = when_act (RelationReload e \<and> follower \<noteq> []) (emit (FollowingReload follower))"

definition publishMeUpdated :: "follow_wiring \<Rightarrow> member option \<Rightarrow> unit social_act" where
  "publishMeUpdated e u = (case u of None \<Rightarrow> ret ()
     | Some u \<Rightarrow> when_act (MeUpdated e \<and> IsLocal u) (emit (MeUpdatedEvent (MemberID u))))"

definition publishFolloweeEvent :: "follow_wiring \<Rightarrow> string \<Rightarrow> member \<Rightarrow> member \<Rightarrow> bool \<Rightarrow> unit social_act" where
  "publishFolloweeEvent e event follower followee isFollowing =
     (if \<not> MainStream e \<or> \<not> IsLocal follower then ret ()
      else case Packer e of
          None \<Rightarrow> emit (MainEvent (MemberID follower) event (LegacyBody (MemberID followee) isFollowing))
        | Some pack \<Rightarrow> when_act (pack (MemberID followee) (MemberID follower))
            (emit (MainEvent (MemberID follower) event (DetailedBody (MemberID followee) (MemberID follower)))))"

definition dispatchFolloweeWebhook :: "follow_wiring \<Rightarrow> string \<Rightarrow> member \<Rightarrow> member \<Rightarrow> unit social_act" where
  \<comment> \<open>the flag: the hook takes the value packed for the stream\<close>
  "dispatchFolloweeWebhook e event follower followee =
     emit (WebhookFollowee event (MemberID follower) (MemberID followee) (PackedWebhook e \<and> Packer e \<noteq> None))"

definition notifyFolloweeEvent :: "follow_wiring \<Rightarrow> string \<Rightarrow> member \<Rightarrow> member \<Rightarrow> bool \<Rightarrow> bool \<Rightarrow> unit social_act" where
  "notifyFolloweeEvent e event follower followee isFollowing withWebhook =
     then_act (when_act (withWebhook \<and> Webhook e) (dispatchFolloweeWebhook e event follower followee))
       (publishFolloweeEvent e event follower followee isFollowing)"

definition publishFollowerLite :: "follow_wiring \<Rightarrow> string \<Rightarrow> member \<Rightarrow> member \<Rightarrow> unit social_act" where
  "publishFollowerLite e event follower followee = when_act (MainStream e \<and> IsLocal followee)
     (emit (MainEvent (MemberID followee) event (LiteBody (MemberID follower))))"

definition publishUnfollow :: "follow_wiring \<Rightarrow> member option \<Rightarrow> member option \<Rightarrow> unit social_act" where
  "publishUnfollow e follower followee = (case (follower, followee) of
       (Some a, Some b) \<Rightarrow> when_act (IsLocal a) (notifyFolloweeEvent e ''unfollow'' a b False True)
     | _ \<Rightarrow> ret ())"

definition remote_host :: "string option \<Rightarrow> bool" where
  "remote_host h = (h \<noteq> None \<and> h \<noteq> Some [])"

definition adjustInstanceCountsForFollowing :: "follow_wiring \<Rightarrow> relation \<Rightarrow> int \<Rightarrow> unit social_act" where
  "adjustInstanceCountsForFollowing e f delta =
     (if \<not> InstanceRepo e \<or> delta = 0 then ret ()
      else if InstanceStats e = Some False then ret ()
      else if remote_host (FollowerHost f) \<and> \<not> remote_host (FolloweeHost f)
        then best_effort (InstanceFollowingCount (the (FollowerHost f)) delta)
      else if \<not> remote_host (FollowerHost f) \<and> remote_host (FolloweeHost f)
        then best_effort (InstanceFollowersCount (the (FolloweeHost f)) delta)
      else ret ())"

definition hasMoved :: "string \<Rightarrow> bool social_act" where
  "hasMoved uid = bind_act (optional (FindMember uid))
     (\<lambda>u. ret (case u of None \<Rightarrow> False | Some u \<Rightarrow> isMoved u))"

definition eitherMoved :: "string \<Rightarrow> string \<Rightarrow> bool social_act" where
  \<comment> \<open>the second user is looked up only when the first has not moved\<close>
  "eitherMoved a b = bind_act (hasMoved a) (\<lambda>m. if m then ret True else hasMoved b)"

definition adjustCounts :: "follow_wiring \<Rightarrow> relation \<Rightarrow> int \<Rightarrow> unit social_act" where
  \<comment> \<open>the block every path runs when nobody has moved\<close>
  "adjustCounts e f delta = then_act (IncrementFollowingCount (FollowerID f) delta)
     (then_act (IncrementFollowersCount (FolloweeID f) delta) (adjustInstanceCountsForFollowing e f delta))"

section \<open>Approval by account age\<close>

definition AccountCreatedAt :: "follow_wiring \<Rightarrow> member \<Rightarrow> int option" where
  "AccountCreatedAt e u = (if \<not> IsLocal u \<and> CreatedAt u \<noteq> None then CreatedAt u else IDTime e (MemberID u))"

definition time_sub :: "int \<Rightarrow> int \<Rightarrow> int" where
  \<comment> \<open>\<open>time.Time.Sub\<close> saturates at the ends of a duration\<close>
  "time_sub a b = max (- (2 ^ 63)) (min (2 ^ 63 - 1) (a - b))"

definition seconds_duration :: "int \<Rightarrow> int" where
  "seconds_duration s = sint (word_of_int s * 1000000000 :: 64 word)"

definition RequiresFollowApproval :: "follow_wiring \<Rightarrow> profile option \<Rightarrow> member \<Rightarrow> int \<Rightarrow> bool" where
  "RequiresFollowApproval e p follower now = (case p of None \<Rightarrow> False
     | Some p \<Rightarrow> (case (if IsLocal follower then LocalSeconds p else RemoteSeconds p) of
           None \<Rightarrow> False
         | Some s \<Rightarrow> if s \<le> 0 then False
             else (case AccountCreatedAt e follower of None \<Rightarrow> False
               | Some created \<Rightarrow> time_sub now created < seconds_duration s)))"

record followApproval =
  approvalRequest :: bool
  silentRequest :: bool
  silentFollow :: bool

definition noApproval :: followApproval where
  "noApproval = \<lparr>approvalRequest = False, silentRequest = False, silentFollow = False\<rparr>"

definition NormalizeFollowApprovalAction :: "string \<Rightarrow> string" where
  "NormalizeFollowApprovalAction a =
     (if a \<in> {''request'', ''silentRequest'', ''silentFollow''} then a else ''request'')"

definition checkFollowApproval :: "follow_wiring \<Rightarrow> member \<Rightarrow> member \<Rightarrow> followApproval social_act" where
  "checkFollowApproval e follower followee =
     (if \<not> IsLocal followee then ret noApproval
      else bind_act (FindProfile (MemberID followee)) (\<lambda>p. bind_act (query Clock) (\<lambda>now.
        case p of None \<Rightarrow> ret noApproval
        | Some p' \<Rightarrow>
          if \<not> RequiresFollowApproval e p follower now then ret noApproval
          else ret (let a = NormalizeFollowApprovalAction (ApprovalAction p') in
            if a = ''silentRequest'' then noApproval\<lparr>approvalRequest := True, silentRequest := True\<rparr>
            else if a = ''silentFollow'' then noApproval\<lparr>silentFollow := True\<rparr>
            else noApproval\<lparr>approvalRequest := True\<rparr>))))"

definition recordSilentFollow :: "follow_wiring \<Rightarrow> string \<Rightarrow> string \<Rightarrow> unit social_act" where
  "recordSilentFollow e follower followee = when_act (SilentRepo e)
     (bind_act (Generate e) (\<lambda>i. best_effort (RecordSilent i follower followee)))"

section \<open>Following\<close>

record follow_options =
  OptWithReplies :: bool
  OptSilent :: bool

datatype follow_result = CreatedFollowing relation | CreatedRequest relation

definition shouldAutoAcceptFollow :: "member \<Rightarrow> string \<Rightarrow> bool social_act" where
  "shouldAutoAcceptFollow followee followerID =
     (if MemberHost followee \<noteq> None then ret False
      else bind_act (optional (FindProfile (MemberID followee))) (\<lambda>p. case p of
          None \<Rightarrow> ret False
        | Some p \<Rightarrow> if \<not> AutoAcceptFollowed p then ret False
            else optional_bool (FollowingExists (MemberID followee) followerID)))"

definition checkBlocks :: "blocking_checker \<Rightarrow> string \<Rightarrow> string \<Rightarrow> unit social_act" where
  \<comment> \<open>blocking before being blocked\<close>
  "checkBlocks isBlocked self target = (case isBlocked of None \<Rightarrow> ret ()
     | Some f \<Rightarrow> bind_act (f self target) (\<lambda>blocking. then_act (reject_if blocking ErrBlocking)
         (bind_act (f target self) (\<lambda>blocked. reject_if blocked ErrBlocked))))"

definition needsApprovalByRules :: "follow_wiring \<Rightarrow> member \<Rightarrow> member \<Rightarrow> bool social_act" where
  \<comment> \<open>locked; local to remote; a bot and a careful followee; a silenced host\<close>
  "needsApprovalByRules e follower followee =
     (let locked = IsLocked followee;
          outward = (MemberHost follower = None \<and> MemberHost followee \<noteq> None \<and> \<not> ForceRemote e);
          silenced = (MemberHost followee = None \<and> remote_host (MemberHost follower) \<and>
             (case Silenced e of None \<Rightarrow> False | Some f \<Rightarrow> f (the (MemberHost follower)))) in
      if locked \<or> outward then ret True
      else bind_act (if IsBot follower \<and> MemberHost followee = None
                     then bind_act (optional (FindProfile (MemberID followee)))
                       (\<lambda>p. ret (case p of None \<Rightarrow> False | Some p \<Rightarrow> CarefulBot p))
                     else ret False)
        (\<lambda>careful. ret (careful \<or> silenced)))"

definition decideApproval :: "follow_wiring \<Rightarrow> member \<Rightarrow> member \<Rightarrow> (bool \<times> followApproval) social_act" where
  "decideApproval e follower followee = bind_act (needsApprovalByRules e follower followee) (\<lambda>needs.
     bind_act (if needs then ret noApproval else checkFollowApproval e follower followee) (\<lambda>approval.
     bind_act (if silentFollow approval then shouldAutoAcceptFollow followee (MemberID follower) else ret False) (\<lambda>auto.
     ret (needs \<or> approvalRequest approval, if auto then approval\<lparr>silentFollow := False\<rparr> else approval))))"

definition new_relation :: "string \<Rightarrow> member \<Rightarrow> member \<Rightarrow> follow_options \<Rightarrow> relation" where
  "new_relation i follower followee opts = \<lparr>RelationID = i, FollowerID = MemberID follower,
     FolloweeID = MemberID followee, FollowerHost = MemberHost follower, FolloweeHost = MemberHost followee,
     WithReplies = OptWithReplies opts\<rparr>"

definition createRequest :: "follow_wiring \<Rightarrow> followApproval \<Rightarrow> member \<Rightarrow> member \<Rightarrow> follow_options \<Rightarrow> follow_result social_act" where
  "createRequest e approval follower followee opts =
     bind_act (RequestExists (MemberID follower) (MemberID followee)) (\<lambda>exists.
     then_act (reject_if exists ErrAlreadyRequested)
     (bind_act (Generate e) (\<lambda>i. let req = new_relation i follower followee opts in
     then_act (CreateRequest req)
     (then_act (when_act (Notifications e \<and> \<not> silentRequest approval) (emit (NotifyRequested (MemberID follower) (MemberID followee))))
     (then_act (when_act (Federation e) (emit (SendFollowed (MemberID follower) (MemberID followee))))
     (then_act (publishFollowerLite e ''receiveFollowRequest'' follower followee)
     (then_act (publishMeUpdated e (Some followee))
     (ret (CreatedRequest req)))))))))"

definition dropStaleRequest :: "follow_wiring \<Rightarrow> string \<Rightarrow> string \<Rightarrow> member \<Rightarrow> unit social_act" where
  "dropStaleRequest e followerID followeeID followee =
     bind_act (RequestByPair followerID followeeID) (\<lambda>req. case req of
         None \<Rightarrow> ret ()
       | Some req \<Rightarrow> then_act (DeleteRequest req) (publishMeUpdated e (Some followee)))"

definition announceFollow :: "follow_wiring \<Rightarrow> followApproval \<Rightarrow> bool \<Rightarrow> member \<Rightarrow> member \<Rightarrow> follow_options \<Rightarrow> unit social_act" where
  "announceFollow e approval moved follower followee opts =
     then_act (when_act (Notifications e \<and> \<not> silentFollow approval) (emit (NotifyFollowed (MemberID follower) (MemberID followee))))
     (then_act (when_act (silentFollow approval) (recordSilentFollow e (MemberID follower) (MemberID followee)))
     (then_act (when_act (Federation e) (emit (SendFollowed (MemberID follower) (MemberID followee))))
     (then_act (when_act (Chart e \<and> \<not> moved) (emit (ChartFollow (MemberID follower) (MemberID followee))))
     (then_act (when_act (Webhook e) (emit (WebhookFollowed (MemberID follower) (MemberID followee))))
     (then_act (when_act (\<not> OptSilent opts) (notifyFolloweeEvent e ''follow'' follower followee True True))
     (then_act (publishFollowerLite e ''followed'' follower followee)
     (publishFollowingReload e (MemberID follower))))))))"

definition createFollowing :: "follow_wiring \<Rightarrow> followApproval \<Rightarrow> member \<Rightarrow> member \<Rightarrow> follow_options \<Rightarrow> follow_result social_act" where
  "createFollowing e approval follower followee opts =
     bind_act (Generate e) (\<lambda>i. let f = new_relation i follower followee opts; moved = isMoved follower \<or> isMoved followee in
     then_act (CreateFollowing f)
     (then_act (dropStaleRequest e (MemberID follower) (MemberID followee) followee)
     (then_act (when_act (\<not> moved) (adjustCounts e f 1))
     (then_act (announceFollow e approval moved follower followee opts)
     (ret (CreatedFollowing f))))))"

definition FollowLoaded :: "follow_wiring \<Rightarrow> blocking_checker \<Rightarrow> member \<Rightarrow> member \<Rightarrow> follow_options \<Rightarrow> follow_result social_act" where
  \<comment> \<open>from the check for an existing following on\<close>
  "FollowLoaded e isBlocked follower followee opts =
     bind_act (FollowingExists (MemberID follower) (MemberID followee)) (\<lambda>exists.
     then_act (reject_if exists ErrAlreadyFollowing)
     (then_act (checkBlocks isBlocked (MemberID follower) (MemberID followee))
     (bind_act (decideApproval e follower followee) (\<lambda>(needs, approval).
     bind_act (if needs then shouldAutoAcceptFollow followee (MemberID follower) else ret True) (\<lambda>direct.
     if direct then createFollowing e approval follower followee opts
     else createRequest e approval follower followee opts)))))"

definition Follow :: "follow_wiring \<Rightarrow> blocking_checker \<Rightarrow> string \<Rightarrow> string \<Rightarrow> follow_options \<Rightarrow> follow_result social_act" where
  "Follow e isBlocked followerID followeeID opts =
     then_act (reject_if (followerID = followeeID) ErrSelfFollow)
     (bind_act (FindMember followeeID) (\<lambda>followee. case followee of
         None \<Rightarrow> stop_with (Err ErrFolloweeNotFound)
       | Some followee \<Rightarrow> bind_act (FindMember followerID) (\<lambda>follower. case follower of
           None \<Rightarrow> stop_with (Err ErrFolloweeNotFound)
         | Some follower \<Rightarrow> FollowLoaded e isBlocked follower followee opts)))"

section \<open>Unfollowing\<close>

record unfollow_opts =
  deliver :: bool
  notify :: bool

definition unfollowHooks :: "follow_wiring \<Rightarrow> bool \<Rightarrow> unfollow_opts \<Rightarrow> string \<Rightarrow> string \<Rightarrow> unit social_act" where
  "unfollowHooks e moved opts followerID followeeID =
     when_act (Federation e \<or> Chart e \<or> Webhook e \<or> MainStream e)
     (bind_act (optional (FindMember followerID)) (\<lambda>follower. bind_act (optional (FindMember followeeID)) (\<lambda>followee.
       case (follower, followee) of
         (Some a, Some b) \<Rightarrow>
           then_act (when_act (deliver opts \<and> Federation e) (emit (SendUnfollowed (MemberID a) (MemberID b))))
           (then_act (when_act (Chart e \<and> \<not> moved) (emit (ChartUnfollow (MemberID a) (MemberID b))))
           (when_act (notify opts) (publishUnfollow e (Some a) (Some b))))
       | _ \<Rightarrow> ret ())))"

definition afterUnfollow :: "follow_wiring \<Rightarrow> relation \<Rightarrow> string \<Rightarrow> string \<Rightarrow> unfollow_opts \<Rightarrow> unit social_act" where
  \<comment> \<open>from the deleted row on\<close>
  "afterUnfollow e f followerID followeeID opts = bind_act (eitherMoved followerID followeeID) (\<lambda>moved.
     then_act (when_act (\<not> moved) (then_act (IncrementFollowingCount followerID (- 1))
       (then_act (IncrementFollowersCount followeeID (- 1)) (adjustInstanceCountsForFollowing e f (- 1)))))
     (then_act (unfollowHooks e moved opts followerID followeeID)
     (publishFollowingReload e followerID)))"

definition unfollow :: "follow_wiring \<Rightarrow> string \<Rightarrow> string \<Rightarrow> unfollow_opts \<Rightarrow> unit social_act" where
  "unfollow e followerID followeeID opts =
     then_act (reject_if (followerID = followeeID) ErrSelfFollow)
     (bind_act (FollowingByPair followerID followeeID) (\<lambda>f. case f of
         None \<Rightarrow> stop_with (Err ErrNotFollowing)
       | Some f \<Rightarrow> then_act (DeleteFollowing f) (afterUnfollow e f followerID followeeID opts)))"

definition Unfollow :: "follow_wiring \<Rightarrow> string \<Rightarrow> string \<Rightarrow> unit social_act" where
  "Unfollow e a b = unfollow e a b \<lparr>deliver = True, notify = True\<rparr>"

definition UnfollowWithoutNotify :: "follow_wiring \<Rightarrow> string \<Rightarrow> string \<Rightarrow> unit social_act" where
  "UnfollowWithoutNotify e a b = unfollow e a b \<lparr>deliver = True, notify = False\<rparr>"

definition UnfollowQuiet :: "follow_wiring \<Rightarrow> string \<Rightarrow> string \<Rightarrow> unit social_act" where
  "UnfollowQuiet e a b = unfollow e a b \<lparr>deliver = False, notify = False\<rparr>"

definition ignoring :: "social_error set \<Rightarrow> unit social_act \<Rightarrow> unit social_act" where
  \<comment> \<open>these errors count as success\<close>
  "ignoring xs m = bind_act (attempt m) (\<lambda>r. case r of Val _ \<Rightarrow> ret () | Stop s \<Rightarrow>
     if s \<in> Err ` xs then ret () else stop_with s)"

definition UnfollowForBlock :: "follow_wiring \<Rightarrow> string \<Rightarrow> string \<Rightarrow> bool \<Rightarrow> unit social_act" where
  "UnfollowForBlock e a b silent = ignoring {ErrNotFollowing} (unfollow e a b \<lparr>deliver = True, notify = \<not> silent\<rparr>)"

section \<open>Requests\<close>

definition alreadyFollowing :: "follow_wiring \<Rightarrow> relation \<Rightarrow> unit social_act" where
  "alreadyFollowing e req = bind_act (optional (FindMember (FolloweeID req))) (publishMeUpdated e)"

definition announceAccept :: "follow_wiring \<Rightarrow> bool \<Rightarrow> relation \<Rightarrow> unit social_act" where
  "announceAccept e moved req =
     then_act (when_act (Notifications e) (then_act (emit (NotifyAccepted (FollowerID req) (FolloweeID req)))
       (emit (NotifyFollowed (FollowerID req) (FolloweeID req)))))
     (then_act (when_act (Federation e \<or> Chart e \<or> Webhook e \<or> MainStream e \<or> MeUpdated e)
       (bind_act (optional (FindMember (FollowerID req))) (\<lambda>follower. bind_act (optional (FindMember (FolloweeID req))) (\<lambda>followee.
         case (follower, followee) of
           (Some a, Some b) \<Rightarrow>
             then_act (when_act (Federation e) (emit (SendAccepted (MemberID a) (MemberID b))))
             (then_act (when_act (Chart e \<and> \<not> moved) (emit (ChartFollow (MemberID a) (MemberID b))))
             (then_act (when_act (Webhook e) (emit (WebhookFollowed (MemberID a) (MemberID b))))
             (then_act (notifyFolloweeEvent e ''follow'' a b True True)
             (then_act (publishFollowerLite e ''followed'' a b)
             (publishMeUpdated e (Some b))))))
         | _ \<Rightarrow> ret ()))))
     (publishFollowingReload e (FollowerID req)))"

definition afterAccept :: "follow_wiring \<Rightarrow> relation \<Rightarrow> relation \<Rightarrow> unit social_act" where
  \<comment> \<open>from the created following on\<close>
  "afterAccept e f req = bind_act (eitherMoved (FollowerID req) (FolloweeID req)) (\<lambda>moved.
     then_act (when_act (\<not> moved) (adjustCounts e f 1)) (announceAccept e moved req))"

definition acceptFound :: "follow_wiring \<Rightarrow> relation \<Rightarrow> unit social_act" where
  \<comment> \<open>the request is deleted, then becomes a following\<close>
  "acceptFound e req = then_act (DeleteRequest req)
     (bind_act (FollowingExists (FollowerID req) (FolloweeID req)) (\<lambda>already.
     if already then alreadyFollowing e req
     else bind_act (Generate e) (\<lambda>i. let f = req\<lparr>RelationID := i\<rparr> in
       bind_act (attempt (CreateFollowing f)) (\<lambda>r. case r of
           Stop x \<Rightarrow> if x = Err ErrUnique then alreadyFollowing e req else stop_with x
         | Val _ \<Rightarrow> afterAccept e f req))))"

definition AcceptRequest :: "follow_wiring \<Rightarrow> blocking_checker \<Rightarrow> string \<Rightarrow> string \<Rightarrow> unit social_act" where
  "AcceptRequest e isBlocked followeeID followerID =
     then_act (checkBlocks isBlocked followeeID followerID)
     (bind_act (RequestByPair followerID followeeID) (\<lambda>req. case req of
         None \<Rightarrow> stop_with (Err ErrRequestNotFound)
       | Some req \<Rightarrow> acceptFound e req))"

record request_events =
  evMeUpdated :: bool
  evUnfollow :: bool

definition needsRequestUsers :: "follow_wiring \<Rightarrow> bool" where
  "needsRequestUsers e = (Federation e \<or> MainStream e \<or> Webhook e \<or> MeUpdated e)"

definition publishRequestRemoved :: "follow_wiring \<Rightarrow> member option \<Rightarrow> member option \<Rightarrow> request_events \<Rightarrow> unit social_act" where
  "publishRequestRemoved e follower followee ev =
     then_act (when_act (evMeUpdated ev) (publishMeUpdated e followee))
       (when_act (evUnfollow ev) (publishUnfollow e follower followee))"

definition requestRemoved :: "follow_wiring \<Rightarrow> string \<Rightarrow> string \<Rightarrow> request_events \<Rightarrow> unit social_act" where
  \<comment> \<open>the common tail of \<open>rejectRequest\<close> and \<open>cancelRequest\<close>\<close>
  "requestRemoved e followerID followeeID ev = (if \<not> needsRequestUsers e then ret ()
     else bind_act (optional (FindMember followeeID)) (\<lambda>followee. case followee of
         None \<Rightarrow> ret ()
       | Some b \<Rightarrow> bind_act (optional (FindMember followerID)) (\<lambda>follower.
           then_act (case follower of None \<Rightarrow> ret ()
             | Some a \<Rightarrow> when_act (Federation e) (emit (SendUnfollowed (MemberID a) (MemberID b))))
           (publishRequestRemoved e follower (Some b) ev))))"

definition rejectRequest :: "follow_wiring \<Rightarrow> string \<Rightarrow> string \<Rightarrow> request_events \<Rightarrow> unit social_act" where
  "rejectRequest e followeeID followerID ev =
     bind_act (RequestByPair followerID followeeID) (\<lambda>req. case req of
         None \<Rightarrow> stop_with (Err ErrRequestNotFound)
       | Some req \<Rightarrow> then_act (DeleteRequest req)
           (then_act (when_act (Notifications e) (emit (NotifyRejected (FollowerID req) (FolloweeID req))))
           (requestRemoved e followerID followeeID ev)))"

definition cancelRequest :: "follow_wiring \<Rightarrow> string \<Rightarrow> string \<Rightarrow> request_events \<Rightarrow> unit social_act" where
  "cancelRequest e followerID followeeID ev =
     bind_act (RequestByPair followerID followeeID) (\<lambda>req. case req of
         None \<Rightarrow> stop_with (Err ErrRequestNotFound)
       | Some req \<Rightarrow> then_act (DeleteRequest req) (requestRemoved e followerID followeeID ev))"

definition RejectRequest :: "follow_wiring \<Rightarrow> string \<Rightarrow> string \<Rightarrow> unit social_act" where
  "RejectRequest e followeeID followerID = rejectRequest e followeeID followerID \<lparr>evMeUpdated = False, evUnfollow = True\<rparr>"

definition CancelRequest :: "follow_wiring \<Rightarrow> string \<Rightarrow> string \<Rightarrow> unit social_act" where
  "CancelRequest e followerID followeeID = cancelRequest e followerID followeeID \<lparr>evMeUpdated = True, evUnfollow = False\<rparr>"

definition cancelOneFollowRequest :: "follow_wiring \<Rightarrow> string \<Rightarrow> string \<Rightarrow> bool \<Rightarrow> unit social_act" where
  "cancelOneFollowRequest e followerID followeeID silent =
     bind_act (RequestByPair followerID followeeID) (\<lambda>req. case req of
         None \<Rightarrow> ret ()
       | Some _ \<Rightarrow> bind_act (optional (FindMember followerID)) (\<lambda>follower.
           let ev = \<lparr>evMeUpdated = True, evUnfollow = \<not> silent\<rparr> in
           ignoring {ErrRequestNotFound}
             (if (case follower of None \<Rightarrow> False | Some a \<Rightarrow> IsLocal a)
              then cancelRequest e followerID followeeID ev
              else rejectRequest e followeeID followerID ev)))"

definition CancelFollowRequestsBetween :: "follow_wiring \<Rightarrow> string \<Rightarrow> string \<Rightarrow> bool \<Rightarrow> unit social_act" where
  \<comment> \<open>both directions are tried; the first error is returned\<close>
  "CancelFollowRequestsBetween e a b silent =
     bind_act (attempt (cancelOneFollowRequest e a b silent)) (\<lambda>r1.
     bind_act (attempt (cancelOneFollowRequest e b a silent)) (\<lambda>r2.
     case (r1, r2) of (Stop x, _) \<Rightarrow> stop_with x | (_, Stop x) \<Rightarrow> stop_with x | _ \<Rightarrow> ret ()))"

definition RemoteReject :: "follow_wiring \<Rightarrow> string \<Rightarrow> string \<Rightarrow> unit social_act" where
  "RemoteReject e followerID followeeID =
     then_act (bind_act (RequestByPair followerID followeeID) (\<lambda>req. case req of
         None \<Rightarrow> ret () | Some req \<Rightarrow> DeleteRequest req))
     (then_act (ignoring {ErrNotFollowing} (unfollow e followerID followeeID \<lparr>deliver = False, notify = False\<rparr>))
     (when_act (MainStream e \<or> Webhook e)
       (bind_act (optional (FindMember followerID)) (\<lambda>follower. bind_act (optional (FindMember followeeID)) (\<lambda>followee.
         publishUnfollow e follower followee)))))"

section \<open>Accepting everything\<close>

definition acceptAllPageSize :: nat where "acceptAllPageSize = 100"

fun receivedPages :: "nat \<Rightarrow> string \<Rightarrow> string \<Rightarrow> relation list \<Rightarrow> relation list social_act" where
  \<comment> \<open>the paging loop; it hangs when the fuel is used up\<close>
  "receivedPages 0 uid untilID requests = stop_with Hung"
| "receivedPages (Suc n) uid untilID requests =
     bind_act (ListReceived uid (int acceptAllPageSize) [] untilID) (\<lambda>page.
       if length page < acceptAllPageSize then ret (requests @ page)
       else receivedPages n uid (RelationID (last page)) (requests @ page))"

definition maySkipApproval :: "follow_wiring \<Rightarrow> profile option \<Rightarrow> int \<Rightarrow> string \<Rightarrow> member \<Rightarrow> bool social_act" where
  "maySkipApproval e p now followeeID follower =
     (if RequiresFollowApproval e p follower now
      then if \<not> AutoAcceptFollowed (the p) then ret False else FollowingExists followeeID (MemberID follower)
      else ret True)"

fun acceptEach :: "follow_wiring \<Rightarrow> blocking_checker \<Rightarrow> profile option \<Rightarrow> int \<Rightarrow> string \<Rightarrow> relation list \<Rightarrow> unit social_act" where
  "acceptEach e isBlocked p now followeeID [] = ret ()"
| "acceptEach e isBlocked p now followeeID (req # reqs) =
     then_act (bind_act (FindMember (FollowerID req)) (\<lambda>follower. case follower of
         None \<Rightarrow> ret ()
       | Some a \<Rightarrow> bind_act (maySkipApproval e p now followeeID a) (\<lambda>go.
           when_act go (ignoring {ErrRequestNotFound, ErrBlocked, ErrBlocking}
             (AcceptRequest e isBlocked followeeID (FollowerID req))))))
       (acceptEach e isBlocked p now followeeID reqs)"

definition AcceptAllRequests :: "nat \<Rightarrow> follow_wiring \<Rightarrow> blocking_checker \<Rightarrow> string \<Rightarrow> unit social_act" where
  "AcceptAllRequests fuel e isBlocked followeeID =
     bind_act (receivedPages fuel followeeID [] []) (\<lambda>requests.
       if requests = [] then ret ()
       else bind_act (FindProfile followeeID) (\<lambda>p. bind_act (query Clock) (\<lambda>now.
         acceptEach e isBlocked p now followeeID requests)))"

section \<open>What the calls leave alone\<close>

lemma quiet_events [quiet]:
  "moves same_rows (publishFollowingReload e u)" "moves same_rows (publishMeUpdated e m)"
  "moves same_rows (publishFolloweeEvent e ev a b f)" "moves same_rows (dispatchFolloweeWebhook e ev a b)"
  "moves same_rows (publishFollowerLite e ev a b)"
  unfolding publishFollowingReload_def publishMeUpdated_def publishFolloweeEvent_def
    dispatchFolloweeWebhook_def publishFollowerLite_def
  by (intro quiet rows.moves_rules)+

lemma quiet_notify [quiet]:
  "moves same_rows (notifyFolloweeEvent e ev a b f g)" "moves same_rows (publishUnfollow e x y)"
  unfolding publishUnfollow_def notifyFolloweeEvent_def
  by (auto intro!: quiet rows.moves_rules split: option.splits)

lemma quiet_generate [quiet]: "moves same_rows (Generate e)"
  unfolding Generate_def by (intro quiet rows.moves_rules rows.moves_change) (simp add: same_rows_def)

lemma quiet_moved [quiet]: "moves same_rows (hasMoved u)" "moves same_rows (eitherMoved a b)"
  unfolding eitherMoved_def hasMoved_def by (intro quiet rows.moves_rules)+

lemma quiet_adjust [quiet]:
  "moves same_rows (adjustInstanceCountsForFollowing e f d)" "moves same_rows (adjustCounts e f d)"
  unfolding adjustCounts_def adjustInstanceCountsForFollowing_def by (intro quiet rows.moves_rules)+

lemma quiet_approval [quiet]:
  "moves same_rows (checkFollowApproval e a b)" "moves same_rows (recordSilentFollow e u v)"
  "moves same_rows (shouldAutoAcceptFollow b u)" "moves same_rows (needsApprovalByRules e a b)"
  unfolding checkFollowApproval_def recordSilentFollow_def shouldAutoAcceptFollow_def needsApprovalByRules_def Let_def
  by (intro quiet rows.moves_rules)+

lemma quiet_decide [quiet]: "moves same_rows (decideApproval e a b)"
  unfolding decideApproval_def by (intro quiet rows.moves_rules)

lemma quiet_announce [quiet]:
  "moves same_rows (announceFollow e p m a b opts)" "moves same_rows (unfollowHooks e m uo u v)"
  "moves same_rows (announceAccept e m req)" "moves same_rows (alreadyFollowing e req)"
  unfolding announceFollow_def unfollowHooks_def announceAccept_def alreadyFollowing_def
  by (auto intro!: quiet rows.moves_rules split: option.splits)

lemma quiet_removed [quiet]:
  "moves same_rows (publishRequestRemoved e x y ev)" "moves same_rows (requestRemoved e u v ev)"
  unfolding requestRemoved_def publishRequestRemoved_def by (intro quiet rows.moves_rules)+

lemma quiet_maySkip [quiet]: "moves same_rows (maySkipApproval e p now u a)"
  unfolding maySkipApproval_def by (intro quiet rows.moves_rules)

lemma fewer_ignoring: "moves fewer_rows m \<Longrightarrow> moves fewer_rows (ignoring xs m)"
  unfolding ignoring_def by (intro fewer.moves_rules)

lemma fewer_unfollow: "moves fewer_rows (unfollow e a b opts)"
  unfolding unfollow_def afterUnfollow_def
  by (intro fewer.moves_rules fewer_delete same_rows_fewer quiet rows.moves_rules)

lemma fewer_UnfollowForBlock: "moves fewer_rows (UnfollowForBlock e a b silent)"
  unfolding UnfollowForBlock_def by (intro fewer_ignoring fewer_unfollow)

lemma fewer_requests:
  "moves fewer_rows (rejectRequest e b a ev)" "moves fewer_rows (cancelRequest e a b ev)"
  unfolding rejectRequest_def cancelRequest_def
  by (intro fewer.moves_rules fewer_delete same_rows_fewer quiet)+

lemma fewer_cancelOne: "moves fewer_rows (cancelOneFollowRequest e a b silent)"
  unfolding cancelOneFollowRequest_def Let_def
  by (intro fewer.moves_rules fewer_ignoring fewer_requests same_rows_fewer quiet)

lemma fewer_between: "moves fewer_rows (CancelFollowRequestsBetween e a b silent)"
  unfolding CancelFollowRequestsBetween_def
  by (auto intro!: fewer.moves_bind fewer.moves_attempt fewer_cancelOne fewer.moves_ret fewer.moves_stop split: res.splits)

lemma fewer_RemoteReject: "moves fewer_rows (RemoteReject e a b)"
  unfolding RemoteReject_def when_act_def
  by (intro fewer.moves_rules fewer_ignoring fewer_unfollow fewer_delete same_rows_fewer quiet)

section \<open>New ties are never across a block\<close>

definition adds_only :: "string \<times> string \<Rightarrow> social \<Rightarrow> social \<Rightarrow> bool" where
  "adds_only p w w' = (Blocks w' = Blocks w \<and> fpairs w' \<subseteq> insert p (fpairs w) \<and> rpairs w' \<subseteq> insert p (rpairs w))"

definition unblocked :: "social \<Rightarrow> string \<times> string \<Rightarrow> bool" where
  "unblocked w p = (p \<notin> bpairs w \<and> prod.swap p \<notin> bpairs w)"

definition guarded :: "social \<Rightarrow> social \<Rightarrow> bool" where
  "guarded w w' = (Blocks w' = Blocks w \<and>
     (\<forall>p \<in> (fpairs w' - fpairs w) \<union> (rpairs w' - rpairs w). unblocked w p))"

lemma insert_trans: "B \<subseteq> insert p C \<Longrightarrow> A \<subseteq> insert p B \<Longrightarrow> A \<subseteq> insert p C"
  by (rule subsetI) (metis insertE insertI1 subsetD)

lemma adds_only_trans: "adds_only p s t \<Longrightarrow> adds_only p t u \<Longrightarrow> adds_only p s u"
  unfolding adds_only_def
  apply (elim conjE)
  apply (intro conjI)
    apply (erule trans, assumption)
   apply (erule insert_trans, assumption)
  apply (erule insert_trans, assumption)
  done

interpretation adds: transition "adds_only p" for p
  by unfold_locales (simp add: adds_only_def subset_insertI, rule adds_only_trans)

interpretation guard: transition guarded
proof unfold_locales
  fix s t u assume st: "guarded s t" and tu: "guarded t u"
  then have "Blocks t = Blocks s" "Blocks u = Blocks s" by (simp_all add: guarded_def)
  then have "bpairs t = bpairs s" by (simp add: bpairs_def)
  show "guarded s u" unfolding guarded_def
  proof (intro conjI ballI)
    show "Blocks u = Blocks s" by (rule \<open>Blocks u = Blocks s\<close>)
    fix p assume "p \<in> (fpairs u - fpairs s) \<union> (rpairs u - rpairs s)"
    then have "p \<in> (fpairs u - fpairs t) \<union> (rpairs u - rpairs t) \<or> p \<in> (fpairs t - fpairs s) \<union> (rpairs t - rpairs s)"
      by blast
    then show "unblocked s p"
    proof
      assume "p \<in> (fpairs u - fpairs t) \<union> (rpairs u - rpairs t)"
      then have "unblocked t p" using tu by (simp add: guarded_def)
      then show ?thesis using \<open>bpairs t = bpairs s\<close> by (simp add: unblocked_def)
    next
      assume "p \<in> (fpairs t - fpairs s) \<union> (rpairs t - rpairs s)"
      then show ?thesis using st by (simp add: guarded_def)
    qed
  qed
qed (simp add: guarded_def)

lemma same_rows_pairs: "same_rows w w' \<Longrightarrow> fpairs w' = fpairs w \<and> rpairs w' = rpairs w \<and> bpairs w' = bpairs w"
  by (simp add: same_rows_def fpairs_def rpairs_def bpairs_def)

lemma fewer_rows_pairs: "fewer_rows w w' \<Longrightarrow> fpairs w' \<subseteq> fpairs w \<and> rpairs w' \<subseteq> rpairs w \<and> bpairs w' = bpairs w"
  by (auto simp: fewer_rows_def fpairs_def rpairs_def bpairs_def)

lemma fewer_rows_adds: "fewer_rows w w' \<Longrightarrow> adds_only p w w'"
  using fewer_rows_pairs [of w w'] by (simp add: adds_only_def fewer_rows_def subset_insertI2)

lemma fewer_rows_guarded: "fewer_rows w w' \<Longrightarrow> guarded w w'"
  using fewer_rows_pairs [of w w'] by (auto simp: guarded_def fewer_rows_def)

lemma fewer_adds: "moves fewer_rows m \<Longrightarrow> moves (adds_only p) m"
  unfolding moves_def by (meson fewer_rows_adds)

lemma fewer_guarded: "moves fewer_rows m \<Longrightarrow> moves guarded m"
  unfolding moves_def by (meson fewer_rows_guarded)

lemmas adds_quiet = fewer_adds [OF same_rows_fewer]

lemma adds_create:
  "relation_pair f = p \<Longrightarrow> moves (adds_only p) (CreateFollowing f)"
  "relation_pair f = p \<Longrightarrow> moves (adds_only p) (CreateRequest f)"
  unfolding CreateFollowing_def CreateRequest_def insert_stmt_def
  by (auto intro!: adds.moves_rules adds.moves_change
      adds_quiet [OF quiet_stmt] simp: adds_only_def fpairs_def rpairs_def)

lemma adds_createFollowing: "moves (adds_only (MemberID a, MemberID b)) (createFollowing e p a b opts)"
  unfolding createFollowing_def dropStaleRequest_def Let_def
  by (intro adds.moves_rules adds_create adds_quiet quiet
        fewer_adds fewer_delete) (simp add: relation_pair_def new_relation_def)

lemma adds_createRequest: "moves (adds_only (MemberID a, MemberID b)) (createRequest e p a b opts)"
  unfolding createRequest_def Let_def
  by (intro adds.moves_rules adds_create adds_quiet quiet)
    (simp add: relation_pair_def new_relation_def)

lemma adds_acceptFound: "moves (adds_only (relation_pair req)) (acceptFound e req)"
  unfolding acceptFound_def afterAccept_def Let_def
  by (intro adds.moves_rules adds_create adds_quiet quiet rows.moves_rules fewer_adds fewer_delete)
    (simp add: relation_pair_def)

lemma wp_rows: "moves same_rows m \<Longrightarrow> wp m (\<lambda>_ w'. same_rows w w') (\<lambda>_ w'. same_rows w w') w"
  by (simp add: wp_state moves_def)

lemma wp_RequestByPair:
  "wp (RequestByPair a b) (\<lambda>r w'. same_rows w w' \<and> (\<forall>q. r = Some q \<longrightarrow> relation_pair q = (a, b) \<and> q \<in> set (Requests w)))
     (\<lambda>_ w'. same_rows w w') w"
  unfolding RequestByPair_def lookup_stmt_def
  by (auto simp: same_rows_def find_Some_iff split: list.splits) 

locale blocking_guard =
  fixes check :: "string \<Rightarrow> string \<Rightarrow> bool social_act"
  assumes check_quiet: "moves same_rows (check a b)"
    and check_sound: "wp (check a b) (\<lambda>r w'. r = ((a, b) \<in> bpairs w)) (\<lambda>_ _. True) w"
begin

lemma checkBlocks_quiet: "moves same_rows (checkBlocks (Some check) a b)"
  unfolding checkBlocks_def by (simp, intro rows.moves_rules check_quiet)

lemma wp_check: "wp (check a b) (\<lambda>r w'. same_rows w w' \<and> r = ((a, b) \<in> bpairs w)) (\<lambda>_ w'. same_rows w w') w"
  using wp_conj [OF wp_rows [OF check_quiet] check_sound] by simp

lemma checkBlocks_sound:
  "wp (checkBlocks (Some check) a b) (\<lambda>_ w'. same_rows w w' \<and> unblocked w (a, b)) (\<lambda>_ w'. same_rows w w') w"
  unfolding checkBlocks_def
  apply simp
  apply (rule wp_mono [OF wp_check])
   apply (auto simp: unblocked_def)
  apply (rule wp_mono [OF wp_check])
   apply (auto simp: same_rows_def same_rows_pairs bpairs_def)
  done

lemma after_check:
  \<comment> \<open>what follows the check may only add the pair that was checked\<close>
  assumes "unblocked w p \<Longrightarrow> moves (adds_only p) n" and "p = (a, b) \<or> p = (b, a)"
  shows "wp (then_act (checkBlocks (Some check) a b) n) (\<lambda>_ w'. guarded w w') (\<lambda>_ w'. guarded w w') w"
proof -
  have guarded_rows: "same_rows w w' \<Longrightarrow> guarded w w'" for w' by (auto simp: guarded_def same_rows_def fpairs_def rpairs_def)
  have "wp n (\<lambda>_ w'. guarded w w') (\<lambda>_ w'. guarded w w') w1" if s: "same_rows w w1" and u: "unblocked w (a, b)" for w1
  proof -
    have u': "unblocked w p" using u assms(2) by (auto simp: unblocked_def)
    have "adds_only p w1 (snd (n w1))" using assms(1) [OF u'] by (simp add: moves_def)
    then have "guarded w (snd (n w1))" using s u' same_rows_pairs [OF s]
      by (auto simp: guarded_def adds_only_def same_rows_def)
    then show ?thesis by (simp add: wp_state)
  qed
  then show ?thesis by (auto intro!: wp_mono [OF checkBlocks_sound] guarded_rows)
qed

end

lemmas guard_quiet = fewer_guarded [OF same_rows_fewer]

lemma moves_pair_case: "(\<And>a b. moves R (f a b)) \<Longrightarrow> moves R (case x of (a, b) \<Rightarrow> f a b)"
  by (cases x) simp

lemma wp_bind_moves:
  assumes "wp m (\<lambda>a w'. same_rows w w' \<and> P a) (\<lambda>_ w'. same_rows w w') w"
    and "\<And>a. P a \<Longrightarrow> moves (adds_only p) (f a)"
  shows "adds_only p w (snd (bind_act m f w))"
proof -
  have ok: "same_rows w w' \<Longrightarrow> adds_only p w w'" for w'
    by (auto simp: adds_only_def same_rows_def fpairs_def rpairs_def)
  have "adds_only p w (snd (f a w'))" if "same_rows w w'" "P a" for a w'
    using ok [OF that(1)] assms(2) [OF that(2)] by (auto simp: moves_def intro: adds_only_trans)
  then have "wp (bind_act m f) (\<lambda>_ w'. adds_only p w w') (\<lambda>_ w'. adds_only p w w') w"
    unfolding wp_bind by (intro wp_mono [OF assms(1)]) (auto simp: wp_state intro: ok)
  then show ?thesis by (simp add: wp_state)
qed

context blocking_guard begin

lemma guarded_then_check:
  assumes "moves (adds_only p) n" "p = (a, b) \<or> p = (b, a)"
  shows "moves guarded (then_act (checkBlocks (Some check) a b) n)"
  unfolding moves_wp by (intro allI after_check [OF assms])

lemma guarded_FollowLoaded: "moves guarded (FollowLoaded e (Some check) a b opts)"
  unfolding FollowLoaded_def
  by (intro guard.moves_bind guard.moves_then guard_quiet guard.moves_reject_if quiet guarded_then_check
       [where p = "(MemberID a, MemberID b)"] adds.moves_rules adds_quiet moves_pair_case
       adds_createFollowing adds_createRequest) simp_all

lemma guarded_Follow: "moves guarded (Follow e (Some check) u v opts)"
  unfolding Follow_def
  by (intro guard.moves_bind guard.moves_then guard.moves_reject_if guard_quiet quiet guard.moves_case_option
       guard.moves_stop guarded_FollowLoaded)

lemma guarded_AcceptRequest: "moves guarded (AcceptRequest e (Some check) v u)"
  unfolding AcceptRequest_def
proof (rule guarded_then_check [where p = "(u, v)"])
  show "moves (adds_only (u, v)) (bind_act (RequestByPair u v)
     (case_option (stop_with (Err ErrRequestNotFound)) (acceptFound e)))"
    unfolding moves_def
  proof
    fix w
    have "wp (RequestByPair u v) (\<lambda>r w'. same_rows w w' \<and> (\<forall>q. r = Some q \<longrightarrow> relation_pair q = (u, v)))
        (\<lambda>_ w'. same_rows w w') w"
      by (rule wp_mono [OF wp_RequestByPair]) auto
    then show "adds_only (u, v) w (snd (bind_act (RequestByPair u v)
       (case_option (stop_with (Err ErrRequestNotFound)) (acceptFound e)) w))"
      by (rule wp_bind_moves) (auto intro: adds.moves_stop adds_acceptFound split: option.splits; metis adds_acceptFound)
  qed
qed simp

lemma guarded_ignoring: "moves guarded m \<Longrightarrow> moves guarded (ignoring xs m)"
  unfolding ignoring_def by (intro guard.moves_rules)

lemma guarded_acceptEach: "moves guarded (acceptEach e (Some check) p now v reqs)"
proof (induction reqs)
  case (Cons req reqs)
  show ?case unfolding acceptEach.simps when_act_def
    by (rule guard.moves_then [OF _ Cons.IH])
      (intro guard.moves_bind guard.moves_case_option guard.moves_if guard.moves_ret
        guarded_ignoring guarded_AcceptRequest guard_quiet quiet)
qed (simp add: guard.moves_ret)

lemma guarded_AcceptAll: "moves guarded (AcceptAllRequests fuel e (Some check) v)"
proof -
  have "moves same_rows (receivedPages n u t acc)" for n u t acc
    by (induction n arbitrary: t acc) (auto intro!: rows.moves_rules quiet)
  then show ?thesis unfolding AcceptAllRequests_def
    by (intro guard.moves_rules guard_quiet quiet guarded_acceptEach)
qed

end

end
