(* ===== verification/Blocking.thy ===== *)
theory Blocking imports Following begin

text \<open>
  \<open>core/blocking/blocking_service.go\<close>: blocking and unblocking.

  The service reaches following only through the interfaces \<open>Unfollower\<close> and
  \<open>FollowRequestCanceller\<close>: both are fields of its wiring, and the locale \<open>severance\<close> states what
  the service relies on.  \<open>Materializer uid\<close> is \<open>userMaterializer.EnsureUser\<close>: the user row it
  promotes into the database, if it succeeds.
\<close>

section \<open>Service\<close>

record block_wiring =
  BlockFederation :: bool
  QuoteRevoker :: bool
  BlockReload :: bool
  ListRepo :: bool
  Unfollower :: "(string \<Rightarrow> string \<Rightarrow> bool \<Rightarrow> unit social_act) option"
  Canceller :: "(string \<Rightarrow> string \<Rightarrow> bool \<Rightarrow> unit social_act) option"
  Materializer :: "(string \<Rightarrow> member option) option"
  BlockNewID :: "nat \<Rightarrow> string"

definition materializeUserIfMissing :: "block_wiring \<Rightarrow> string \<Rightarrow> bool social_act" where
  \<comment> \<open>called when the lookup found nothing\<close>
  "materializeUserIfMissing e uid = (case Materializer e of None \<Rightarrow> ret False
     | Some f \<Rightarrow> (case f uid of None \<Rightarrow> ret False
         | Some u \<Rightarrow> then_act (change (\<lambda>w. w\<lparr>Members := (Members w)(uid \<mapsto> u)\<rparr>)) (ret True)))"

definition findBlockee :: "block_wiring \<Rightarrow> string \<Rightarrow> unit social_act" where
  "findBlockee e uid = bind_act (FindMember uid) (\<lambda>u. case u of
       Some _ \<Rightarrow> ret ()
     | None \<Rightarrow> bind_act (materializeUserIfMissing e uid) (\<lambda>promoted.
         if \<not> promoted then stop_with (Err ErrBlockeeNotFound)
         else bind_act (FindMember uid) (\<lambda>u'. reject_if (u' = None) ErrBlockeeNotFound)))"

definition unfollowForBlock :: "block_wiring \<Rightarrow> string \<Rightarrow> string \<Rightarrow> bool \<Rightarrow> unit social_act" where
  "unfollowForBlock e follower followee silent = (case Unfollower e of None \<Rightarrow> ret ()
     | Some f \<Rightarrow> best_effort (f follower followee silent))"

fun removeFromEach :: "string \<Rightarrow> string list \<Rightarrow> unit social_act" where
  "removeFromEach uid [] = ret ()"
| "removeFromEach uid (l # ls) = then_act (best_effort (RemoveMember l uid)) (removeFromEach uid ls)"

definition removeFromLists :: "block_wiring \<Rightarrow> string \<Rightarrow> string \<Rightarrow> unit social_act" where
  "removeFromLists e owner uid = when_act (ListRepo e)
     (bind_act (attempt (ListsContainingMember owner uid)) (\<lambda>r. case r of
         Stop _ \<Rightarrow> ret () | Val ls \<Rightarrow> removeFromEach uid ls))"

definition publishBlockReload :: "block_wiring \<Rightarrow> string \<Rightarrow> unit social_act" where
  "publishBlockReload e blockee = when_act (BlockReload e) (emit (MuteBlockReload blockee))"

definition cancelBetween :: "block_wiring \<Rightarrow> string \<Rightarrow> string \<Rightarrow> bool \<Rightarrow> unit social_act" where
  "cancelBetween e a b silent = (case Canceller e of None \<Rightarrow> ret () | Some f \<Rightarrow> best_effort (f a b silent))"

definition severTies :: "block_wiring \<Rightarrow> string \<Rightarrow> string \<Rightarrow> bool \<Rightarrow> unit social_act" where
  \<comment> \<open>followings, the blockee's lists, pending requests\<close>
  "severTies e blocker blockee silent = then_act (unfollowForBlock e blocker blockee silent)
     (then_act (unfollowForBlock e blockee blocker silent)
     (then_act (removeFromLists e blockee blocker)
     (cancelBetween e blocker blockee silent)))"

definition blockUser :: "block_wiring \<Rightarrow> string \<Rightarrow> string \<Rightarrow> bool \<Rightarrow> block_row social_act" where
  "blockUser e blocker blockee silent =
     then_act (reject_if (blocker = blockee) ErrSelfBlock)
     (then_act (findBlockee e blockee)
     (bind_act (BlockExists blocker blockee) (\<lambda>exists.
     then_act (reject_if exists ErrAlreadyBlocking)
     (bind_act (query Serial) (\<lambda>n.
     let b = \<lparr>BlockID = BlockNewID e n, BlockerID = blocker, BlockeeID = blockee\<rparr> in
     then_act (change (\<lambda>w. w\<lparr>Serial := Suc n\<rparr>))
     (then_act (CreateBlock b)
     (then_act (severTies e blocker blockee silent)
     (then_act (when_act (QuoteRevoker e) (emit (RevokeQuotes blocker blockee)))
     (then_act (when_act (BlockFederation e) (emit (SendBlocked blocker blockee)))
     (then_act (publishBlockReload e blockee)
     (ret b)))))))))))"

definition Block :: "block_wiring \<Rightarrow> string \<Rightarrow> string \<Rightarrow> block_row social_act" where
  "Block e blocker blockee = blockUser e blocker blockee False"

definition BlockSilent :: "block_wiring \<Rightarrow> string \<Rightarrow> string \<Rightarrow> block_row social_act" where
  "BlockSilent e blocker blockee = blockUser e blocker blockee True"

definition Unblock :: "block_wiring \<Rightarrow> string \<Rightarrow> string \<Rightarrow> unit social_act" where
  "Unblock e blocker blockee =
     then_act (reject_if (blocker = blockee) ErrSelfBlock)
     (bind_act (BlockByPair blocker blockee) (\<lambda>b. case b of
         None \<Rightarrow> stop_with (Err ErrNotBlocking)
       | Some b \<Rightarrow> then_act (DeleteBlock b)
           (then_act (when_act (BlockFederation e) (emit (SendUnblocked blocker blockee)))
           (when_act (BlockReload e) (emit (MuteBlockReload blockee))))))"

definition IsBlocked :: "string \<Rightarrow> string \<Rightarrow> bool social_act" where
  "IsBlocked blocker blockee = BlockExists blocker blockee"

section \<open>What blocking relies on\<close>

interpretation blk: blocking_guard IsBlocked
proof unfold_locales
  show "moves same_rows (IsBlocked a b)" for a b
    unfolding IsBlocked_def by (intro quiet)
  show "wp (IsBlocked a b) (\<lambda>r w'. r = ((a, b) \<in> bpairs w)) (\<lambda>_ _. True) w" for a b w
    unfolding IsBlocked_def BlockExists_def exists_stmt_def by (auto simp: bpairs_def split: list.splits)
qed

locale severance =
  fixes unfollow_one :: "string \<Rightarrow> string \<Rightarrow> bool \<Rightarrow> unit social_act"
    and cancel_both :: "string \<Rightarrow> string \<Rightarrow> bool \<Rightarrow> unit social_act"
  assumes unfollow_fewer: "moves fewer_rows (unfollow_one a b silent)"
    and cancel_fewer: "moves fewer_rows (cancel_both a b silent)"
    and unfollow_severs: "Storable a \<Longrightarrow> Storable b \<Longrightarrow> a \<noteq> b \<Longrightarrow> healthy w \<Longrightarrow>
      healthy (snd (unfollow_one a b silent w)) \<and> (\<exists>v. fst (unfollow_one a b silent w) = Val v)
      \<and> fpairs (snd (unfollow_one a b silent w)) = fpairs w - {(a, b)}
      \<and> rpairs (snd (unfollow_one a b silent w)) = rpairs w"
    and cancel_severs: "Storable a \<Longrightarrow> Storable b \<Longrightarrow> healthy w \<Longrightarrow>
      healthy (snd (cancel_both a b silent w)) \<and> (\<exists>v. fst (cancel_both a b silent w) = Val v)
      \<and> fpairs (snd (cancel_both a b silent w)) = fpairs w
      \<and> rpairs (snd (cancel_both a b silent w)) = rpairs w - {(a, b), (b, a)}"

definition wired_to :: "block_wiring \<Rightarrow> (string \<Rightarrow> string \<Rightarrow> bool \<Rightarrow> unit social_act)
    \<Rightarrow> (string \<Rightarrow> string \<Rightarrow> bool \<Rightarrow> unit social_act) \<Rightarrow> bool" where
  "wired_to e f g = (Unfollower e = Some f \<and> Canceller e = Some g)"

context severance begin

lemma best_effort_val: "fst (m w) = Val v \<Longrightarrow> best_effort m w = (Val (), snd (m w))"
  by (cases "m w") (auto simp: best_effort_def act_defs)

lemma removeFromEach_healthy:
  "healthy w \<Longrightarrow> healthy (snd (removeFromEach u ls w)) \<and> fst (removeFromEach u ls w) = Val ()
     \<and> same_rows w (snd (removeFromEach u ls w))"
  by (induction ls arbitrary: w)
    (auto simp: act_defs best_effort_def RemoveMember_def stmt_def healthy_def same_rows_def)

lemma removeFromLists_healthy:
  "healthy w \<Longrightarrow> healthy (snd (removeFromLists e o' u w)) \<and> fst (removeFromLists e o' u w) = Val ()
     \<and> same_rows w (snd (removeFromLists e o' u w))"
  using removeFromEach_healthy [of w u]
  by (auto simp: removeFromLists_def when_act_def act_defs ListsContainingMember_def stmt_def healthy_def same_rows_def)

lemma severTies_severs:
  assumes e: "wired_to e unfollow_one cancel_both" and st: "Storable a" "Storable b" "a \<noteq> b" and w: "healthy w"
  shows "healthy (snd (severTies e a b silent w)) \<and> fst (severTies e a b silent w) = Val ()
    \<and> fpairs (snd (severTies e a b silent w)) = fpairs w - {(a, b), (b, a)}
    \<and> rpairs (snd (severTies e a b silent w)) = rpairs w - {(a, b), (b, a)}"
proof -
  let ?w1 = "snd (unfollow_one a b silent w)"
  let ?w2 = "snd (unfollow_one b a silent ?w1)"
  note 1 = unfollow_severs [OF st w, of silent]
  have 2: "healthy ?w2" "fpairs ?w2 = fpairs w - {(a, b), (b, a)}" "rpairs ?w2 = rpairs w"
    "\<exists>v. fst (unfollow_one b a silent ?w1) = Val v"
    using 1 unfollow_severs [OF st(2,1) st(3) [symmetric], of ?w1 silent] by auto
  obtain w3 where b3: "removeFromLists e b a ?w2 = (Val (), w3)" and 3: "healthy w3"
      "fpairs w3 = fpairs ?w2" "rpairs w3 = rpairs ?w2"
    using removeFromLists_healthy [OF 2(1), of e b a] same_rows_pairs [of ?w2]
    by (cases "removeFromLists e b a ?w2") auto
  let ?w4 = "snd (cancel_both a b silent w3)"
  note 4 = cancel_severs [OF st(1,2) 3(1), of silent]
  have b1: "best_effort (unfollow_one a b silent) w = (Val (), ?w1)" using 1 by (metis best_effort_val)
  have b2: "best_effort (unfollow_one b a silent) ?w1 = (Val (), ?w2)" using 2(4) by (metis best_effort_val)
  have b4: "best_effort (cancel_both a b silent) w3 = (Val (), ?w4)" using 4 by (metis best_effort_val)
  have "severTies e a b silent w = (Val (), ?w4)"
    unfolding severTies_def unfollowForBlock_def cancelBetween_def
    using e by (simp add: wired_to_def then_act_def bind_act_def b1 b2 b3 b4)
  then show ?thesis using 2 3 4 by auto
qed

lemma severTies_fewer:
  assumes "wired_to e unfollow_one cancel_both"
  shows "moves fewer_rows (severTies e a b silent)"
proof -
  have each: "moves same_rows (removeFromEach u ls)" for u ls
    by (induction ls) (auto intro!: rows.moves_rules quiet)
  then show ?thesis using assms
    unfolding severTies_def unfollowForBlock_def cancelBetween_def removeFromLists_def wired_to_def best_effort_def when_act_def
    by (simp, intro conjI impI fewer.moves_then fewer.moves_bind fewer.moves_attempt fewer.moves_ret
        fewer.moves_case_res unfollow_fewer cancel_fewer same_rows_fewer [OF each] same_rows_fewer [OF quiet_lists(2)])
qed

end

definition block_added :: "string \<Rightarrow> string \<Rightarrow> social \<Rightarrow> social \<Rightarrow> bool" where
  \<comment> \<open>the block is there, every tie between the two is gone and nothing else has changed\<close>
  "block_added a b w w' = (bpairs w' = insert (a, b) (bpairs w)
     \<and> fpairs w' = fpairs w - {(a, b), (b, a)} \<and> rpairs w' = rpairs w - {(a, b), (b, a)})"

lemma wp_findBlockee:
  "healthy w \<Longrightarrow> wp (findBlockee e u) (\<lambda>_ w'. healthy w' \<and> same_rows w w' \<and> Storable u)
     (\<lambda>x w'. healthy w' \<and> same_rows w w' \<and> x = Err ErrBlockeeNotFound) w"
  by (auto simp: findBlockee_def FindMember_def lookup_stmt_def healthy_def materializeUserIfMissing_def same_rows_def
      split: option.splits)

context severance begin

lemma wp_blockUser:
  assumes "wired_to e unfollow_one cancel_both" and w: "healthy w"
  shows "wp (blockUser e a b silent)
    (\<lambda>row w'. healthy w' \<and> a \<noteq> b \<and> (a, b) \<notin> bpairs w \<and> block_pair row = (a, b) \<and> block_added a b w w')
    (\<lambda>x w'. healthy w' \<and> same_rows w w' \<and> x \<in> Err ` {ErrSelfBlock, ErrBlockeeNotFound, ErrAlreadyBlocking, ErrStatement}) w"
proof -
  have tail: "wp (severTies e a b silent)
      (\<lambda>_ w3. healthy w3 \<and> bpairs w3 = bpairs w2 \<and> fpairs w3 = fpairs w2 - {(a, b), (b, a)} \<and> rpairs w3 = rpairs w2 - {(a, b), (b, a)})
      (\<lambda>_ _. False) w2" if "healthy w2" "Storable a" "Storable b" "a \<noteq> b" for w2
  proof -
    have "bpairs (snd (severTies e a b silent w2)) = bpairs w2"
      using severTies_fewer [OF assms(1)] fewer_rows_pairs unfolding moves_def by blast
    then show ?thesis using severTies_severs [OF assms(1) that(2-4,1), of silent]
      by (cases "severTies e a b silent w2") (auto simp: wp_def)
  qed
  show ?thesis
    unfolding blockUser_def Let_def BlockExists_def exists_stmt_def CreateBlock_def insert_stmt_def
    apply (simp add: w, intro conjI impI)
    apply (simp add: same_rows_def)
    apply (rule wp_mono [OF wp_findBlockee [OF w]])
     apply (auto simp: healthy_def same_rows_def bpairs_def)
    apply (auto intro!: wp_mono [OF tail] simp: healthy_def publishBlockReload_def block_added_def bpairs_def fpairs_def rpairs_def block_pair_def same_rows_def)
    done
qed

end

end
