(* ===== verification/Social_Runs.thy ===== *)
theory Social_Runs imports Blocking begin

text \<open>
  Following and blocking together, while the database answers.

  \<open>calm\<close> collects the calls that succeed and leave the tables and counters alone (events, instance
  counters, lookups); what is left of a method is its change of the graph of followings, requests
  and blocks.  \<open>social_wf\<close> is the invariant of that graph, and \<open>social_step\<close> one request to either
  service.
\<close>

section \<open>Calls beside the graph\<close>

definition aside :: "social \<Rightarrow> social \<Rightarrow> bool" where
  "aside w w' = (Members w' = Members w \<and> Profiles w' = Profiles w \<and> Followings w' = Followings w
     \<and> Requests w' = Requests w \<and> Blocks w' = Blocks w \<and> FollowingCount w' = FollowingCount w
     \<and> FollowersCount w' = FollowersCount w \<and> Clock w' = Clock w)"

definition tame :: "'a social_act \<Rightarrow> bool" where
  \<comment> \<open>returns, perhaps an error\<close>
  "tame m = (\<forall>w. healthy w \<longrightarrow> wp m (\<lambda>_ w'. healthy w' \<and> aside w w')
     (\<lambda>x w'. healthy w' \<and> aside w w' \<and> (\<exists>e. x = Err e)) w)"

definition calm :: "'a social_act \<Rightarrow> bool" where
  "calm m = (\<forall>w. healthy w \<longrightarrow> wp m (\<lambda>_ w'. healthy w' \<and> aside w w') (\<lambda>_ _. False) w)"

named_theorems calm_intros \<open>calls that succeed beside the graph\<close>

lemma aside_refl [simp]: "aside w w"
  by (simp add: aside_def)

lemma aside_trans: "aside s t \<Longrightarrow> aside t u \<Longrightarrow> aside s u"
  by (simp add: aside_def)

lemma calm_tame: "calm m \<Longrightarrow> tame m"
  unfolding calm_def tame_def by (auto elim!: wp_mono)

lemma calm_wp:
  assumes "calm m" "healthy w" "\<And>a w'. healthy w' \<Longrightarrow> aside w w' \<Longrightarrow> Q a w'"
  shows "wp m Q E w"
  using assms unfolding calm_def by (auto elim!: wp_mono)

lemma tame_wp:
  assumes "tame m" "healthy w" "\<And>a w'. healthy w' \<Longrightarrow> aside w w' \<Longrightarrow> Q a w'"
    and "\<And>x w'. healthy w' \<Longrightarrow> aside w w' \<Longrightarrow> E (Err x) w'"
  shows "wp m Q E w"
  using assms unfolding tame_def by (auto elim!: wp_mono)

lemma calm_ret [calm_intros]: "calm (ret a)"
  by (simp add: calm_def)

lemma calm_query [calm_intros]: "calm (query f)"
  by (simp add: calm_def)

lemma calm_bind [calm_intros]:
  assumes m: "calm m" and f: "\<And>a. calm (f a)"
  shows "calm (bind_act m f)"
  unfolding calm_def wp_bind
proof (intro allI impI)
  fix w assume "healthy w"
  with m show "wp m (\<lambda>a. wp (f a) (\<lambda>_ w'. healthy w' \<and> aside w w') (\<lambda>_ _. False)) (\<lambda>_ _. False) w"
    by (rule calm_wp) (auto intro!: calm_wp [OF f] intro: aside_trans)
qed

lemma calm_then [calm_intros]: "calm m \<Longrightarrow> calm n \<Longrightarrow> calm (then_act m n)"
  unfolding then_act_def by (rule calm_bind)

lemma calm_attempt [calm_intros]: "tame m \<Longrightarrow> calm (attempt m)"
  unfolding calm_def by (auto intro!: tame_wp [of m])

lemma calm_when [calm_intros]: "calm m \<Longrightarrow> calm (when_act b m)"
  by (simp add: when_act_def calm_ret)

lemma calm_if [calm_intros]: "(b \<Longrightarrow> calm m) \<Longrightarrow> (\<not> b \<Longrightarrow> calm n) \<Longrightarrow> calm (if b then m else n)"
  by simp

lemma calm_case_option [calm_intros]: "calm m \<Longrightarrow> (\<And>a. calm (f a)) \<Longrightarrow> calm (case x of None \<Rightarrow> m | Some a \<Rightarrow> f a)"
  by (cases x) simp_all

lemma calm_best_effort [calm_intros]: "tame m \<Longrightarrow> calm (best_effort m)"
  unfolding best_effort_def by (intro calm_intros)

lemma calm_optional [calm_intros]: "tame m \<Longrightarrow> calm (optional m)" "tame n \<Longrightarrow> calm (optional_bool n)"
  unfolding optional_def optional_bool_def by (intro calm_intros; assumption)+

lemma calm_stmt [calm_intros]: "calm stmt"
  by (simp add: calm_def healthy_def)

lemma calm_emit [calm_intros]: "calm (emit x)"
  by (simp add: calm_def healthy_def aside_def)

lemma calm_lookup [calm_intros]: "calm (lookup_stmt ok f)"
  unfolding lookup_stmt_def by (intro calm_intros)

lemma calm_find [calm_intros]:
  "calm (FindMember u)" "calm (FindProfile u)" "calm (FollowingByPair a b)" "calm (RequestByPair a b)" "calm (BlockByPair a b)"
  unfolding FindMember_def FindProfile_def FollowingByPair_def RequestByPair_def BlockByPair_def by (intro calm_intros)+

lemma tame_exists: "tame (exists_stmt a b f)"
  by (simp add: tame_def exists_stmt_def healthy_def)

lemma tame_following_exists: "tame (FollowingExists a b)"
  unfolding FollowingExists_def by (rule tame_exists)

lemma calm_lists [calm_intros]: "calm (ListReceived u n s t)" "calm (ListsContainingMember a b)"
  unfolding ListReceived_def ListsContainingMember_def by (intro calm_intros)+

lemma calm_instance [calm_intros]:
  "calm (InstanceFollowersCount h d)" "calm (InstanceFollowingCount h d)" "calm (RecordSilent i a b)" "calm (RemoveMember l u)"
  unfolding InstanceFollowersCount_def InstanceFollowingCount_def RecordSilent_def RemoveMember_def
  by (simp_all add: calm_def healthy_def aside_def)

lemma calm_generate [calm_intros]: "calm (Generate e)"
  by (simp add: Generate_def calm_def healthy_def aside_def)

lemma calm_events [calm_intros]:
  "calm (publishFollowingReload e u)" "calm (publishMeUpdated e m)"
  "calm (publishFolloweeEvent e ev a b f)" "calm (dispatchFolloweeWebhook e ev a b)"
  "calm (publishFollowerLite e ev a b)"
  unfolding publishFollowingReload_def publishMeUpdated_def publishFolloweeEvent_def
    dispatchFolloweeWebhook_def publishFollowerLite_def
  by (intro calm_intros)+

lemma calm_notify [calm_intros]:
  "calm (notifyFolloweeEvent e ev a b f g)" "calm (publishUnfollow e x y)"
  unfolding publishUnfollow_def notifyFolloweeEvent_def
  by (auto intro!: calm_intros split: option.splits)

lemma calm_adjust [calm_intros]: "calm (adjustInstanceCountsForFollowing e f d)"
  unfolding adjustInstanceCountsForFollowing_def by (intro calm_intros calm_tame)

lemma calm_approval [calm_intros]:
  "calm (checkFollowApproval e a b)" "calm (recordSilentFollow e u v)"
  "calm (shouldAutoAcceptFollow b u)" "calm (needsApprovalByRules e a b)"
  unfolding checkFollowApproval_def recordSilentFollow_def shouldAutoAcceptFollow_def needsApprovalByRules_def Let_def
  by (intro calm_intros calm_tame [OF calm_find(2)] calm_tame [OF calm_instance(3)] tame_following_exists)+

lemma calm_decide [calm_intros]: "calm (decideApproval e a b)"
  unfolding decideApproval_def by (intro calm_intros)

lemma calm_announce [calm_intros]:
  "calm (announceFollow e p m a b opts)" "calm (unfollowHooks e m uo u v)"
  "calm (announceAccept e m req)" "calm (alreadyFollowing e req)"
  unfolding announceFollow_def unfollowHooks_def announceAccept_def alreadyFollowing_def
  by (auto intro!: calm_intros calm_tame split: option.splits)

lemma calm_removed [calm_intros]:
  "calm (publishRequestRemoved e x y ev)" "calm (requestRemoved e u v ev)"
  unfolding requestRemoved_def publishRequestRemoved_def by (intro calm_intros calm_tame)+

section \<open>Following provides what blocking relies on\<close>

definition steady :: "unit social_act \<Rightarrow> bool" where
  \<comment> \<open>succeeds and leaves the rows alone; the counters may change\<close>
  "steady m = (\<forall>w. healthy w \<longrightarrow> wp m (\<lambda>_ w'. healthy w' \<and> same_rows w w' \<and> Members w' = Members w) (\<lambda>_ _. False) w)"

lemma steady_wp:
  assumes "steady m" "healthy w" "\<And>w'. healthy w' \<Longrightarrow> same_rows w w' \<Longrightarrow> Members w' = Members w \<Longrightarrow> Q () w'"
  shows "wp m Q E w"
  using assms unfolding steady_def by (auto elim!: wp_mono)

lemma calm_steady: "calm m \<Longrightarrow> steady m"
  unfolding calm_def steady_def same_rows_def aside_def by (auto elim!: wp_mono)

lemma steady_then: "steady m \<Longrightarrow> steady n \<Longrightarrow> steady (then_act m n)"
  unfolding steady_def [of "then_act m n"] wp_then
proof (intro allI impI)
  fix w assume m: "steady m" and n: "steady n" and w: "healthy w"
  show "wp m (\<lambda>_. wp n (\<lambda>_ w'. healthy w' \<and> same_rows w w' \<and> Members w' = Members w) (\<lambda>_ _. False)) (\<lambda>_ _. False) w"
  proof (rule steady_wp [OF m w])
    fix w1 assume w1: "healthy w1" "same_rows w w1" "Members w1 = Members w"
    show "wp n (\<lambda>_ w'. healthy w' \<and> same_rows w w' \<and> Members w' = Members w) (\<lambda>_ _. False) w1"
      by (rule steady_wp [OF n w1(1)]) (use w1(2,3) in \<open>simp_all add: same_rows_def\<close>)
  qed
qed

lemma steady_when: "steady m \<Longrightarrow> steady (when_act b m)"
  by (simp add: when_act_def calm_steady calm_ret)

lemma steady_counts: "steady (IncrementFollowingCount u d)" "steady (IncrementFollowersCount u d)"
  unfolding IncrementFollowingCount_def IncrementFollowersCount_def
  by (auto simp: steady_def healthy_def same_rows_def)

lemma steady_bind: "calm m \<Longrightarrow> (\<And>a. steady (f a)) \<Longrightarrow> steady (bind_act m f)"
  unfolding steady_def [of "bind_act m f"] wp_bind
proof (intro allI impI)
  fix w assume m: "calm m" and f: "\<And>a. steady (f a)" and w: "healthy w"
  show "wp m (\<lambda>a. wp (f a) (\<lambda>_ w'. healthy w' \<and> same_rows w w' \<and> Members w' = Members w) (\<lambda>_ _. False)) (\<lambda>_ _. False) w"
  proof (rule calm_wp [OF m w])
    fix a w1 assume w1: "healthy w1" "aside w w1"
    show "wp (f a) (\<lambda>_ w'. healthy w' \<and> same_rows w w' \<and> Members w' = Members w) (\<lambda>_ _. False) w1"
      by (rule steady_wp [OF f w1(1)]) (use w1(2) in \<open>simp_all add: same_rows_def aside_def\<close>)
  qed
qed

lemma tame_moved: "calm (hasMoved u)" "calm (eitherMoved a b)"
  unfolding eitherMoved_def hasMoved_def by (intro calm_intros calm_tame)+

lemma find_pair: "find (\<lambda>r. relation_pair r = p) rs = None \<longleftrightarrow> p \<notin> relation_pair ` set rs"
  by (auto simp: find_None_iff)

lemma find_pair_Some: "find (\<lambda>r. relation_pair r = p) rs = Some r \<Longrightarrow> relation_pair r = p \<and> r \<in> set rs"
  by (auto simp: find_Some_iff)

lemma filter_pairs: "relation_pair ` set (filter (\<lambda>r. relation_pair r \<noteq> p) rs) = relation_pair ` set rs - {p}"
  by auto

lemma wp_unfollow:
  assumes "Storable a" "Storable b" "a \<noteq> b" "healthy w"
  shows "wp (unfollow e a b opts)
    (\<lambda>_ w'. healthy w' \<and> (a, b) \<in> fpairs w \<and> fpairs w' = fpairs w - {(a, b)} \<and> rpairs w' = rpairs w)
    (\<lambda>x w'. healthy w' \<and> (a, b) \<notin> fpairs w \<and> same_rows w w' \<and> x = Err ErrNotFollowing) w"
proof -
  have tail: "steady (afterUnfollow e f a b opts)" for f
    unfolding afterUnfollow_def by (intro steady_bind tame_moved steady_then steady_when steady_counts calm_steady calm_intros)
  show ?thesis
  proof (cases "find (\<lambda>r. relation_pair r = (a, b)) (Followings w)")
    case None
    then have "(a, b) \<notin> fpairs w" by (simp add: find_pair fpairs_def)
    then show ?thesis using assms None
      by (simp add: unfollow_def FollowingByPair_def lookup_stmt_def healthy_def same_rows_def)
  next
    case (Some f)
    then have f: "relation_pair f = (a, b)" "(a, b) \<in> fpairs w"
      using find_pair_Some [OF Some] by (auto simp: fpairs_def image_iff intro!: bexI [of _ f])
    show ?thesis
      using assms Some f
      apply (simp add: unfollow_def FollowingByPair_def lookup_stmt_def DeleteFollowing_def healthy_def)
      apply (rule steady_wp [OF tail])
       apply (simp_all add: healthy_def same_rows_pairs fpairs_def rpairs_def same_rows_def filter_pairs del: set_filter)
      done
  qed
qed

lemma wp_UnfollowForBlock:
  assumes "Storable a" "Storable b" "a \<noteq> b" "healthy w"
  shows "wp (UnfollowForBlock e a b silent)
    (\<lambda>_ w'. healthy w' \<and> fpairs w' = fpairs w - {(a, b)} \<and> rpairs w' = rpairs w) (\<lambda>_ _. False) w"
  unfolding UnfollowForBlock_def ignoring_def
  using wp_unfollow [OF assms, of e "\<lparr>deliver = True, notify = \<not> silent\<rparr>"]
  by (auto elim!: wp_mono simp: same_rows_pairs)

lemma wp_dropRequest:
  \<comment> \<open>the common shape of rejecting and cancelling\<close>
  assumes "healthy w" "relation_pair req = (a, b)" "calm tail"
  shows "wp (then_act (DeleteRequest req) tail)
    (\<lambda>_ w'. healthy w' \<and> fpairs w' = fpairs w \<and> rpairs w' = rpairs w - {(a, b)} \<and> Members w' = Members w) (\<lambda>_ _. False) w"
  using assms
  apply (simp add: DeleteRequest_def healthy_def)
  apply (rule calm_wp [OF assms(3)])
   apply (simp_all add: healthy_def aside_def fpairs_def rpairs_def filter_pairs del: set_filter)
  done

lemma wp_lookup: "healthy w \<Longrightarrow> wp (lookup_stmt ok f) Q E w = Q (if ok then f w else None) w"
  by (simp add: lookup_stmt_def healthy_def)

lemma wp_removeRequest:
  assumes "Storable a" "Storable b" "healthy w"
    and m: "m = bind_act (RequestByPair a b) (\<lambda>r. case r of None \<Rightarrow> stop_with (Err ErrRequestNotFound)
       | Some req \<Rightarrow> then_act (DeleteRequest req) (tail req))" and tail: "\<And>req. calm (tail req)"
  shows "wp m (\<lambda>_ w'. healthy w' \<and> (a, b) \<in> rpairs w \<and> fpairs w' = fpairs w \<and> rpairs w' = rpairs w - {(a, b)} \<and> Members w' = Members w)
    (\<lambda>x w'. healthy w' \<and> (a, b) \<notin> rpairs w \<and> same_rows w w' \<and> Members w' = Members w \<and> x = Err ErrRequestNotFound) w"
proof (cases "find (\<lambda>r. relation_pair r = (a, b)) (Requests w)")
  case None
  then have "(a, b) \<notin> rpairs w" by (simp add: find_pair rpairs_def)
  then show ?thesis using assms(1-3) None
    by (simp add: m RequestByPair_def lookup_stmt_def healthy_def same_rows_def)
next
  case (Some f)
  then have f: "relation_pair f = (a, b)" "(a, b) \<in> rpairs w"
    using find_pair_Some [OF Some] by (auto simp: rpairs_def image_iff intro!: bexI [of _ f])
  have "wp (then_act (DeleteRequest f) (tail f)) (\<lambda>_ w'. healthy w' \<and> fpairs w' = fpairs w \<and> rpairs w' = rpairs w - {(a, b)} \<and> Members w' = Members w) (\<lambda>_ _. False) w"
    by (rule wp_dropRequest [OF assms(3) f(1) tail])
  then show ?thesis using assms(1-3) Some f
    by (auto simp: m RequestByPair_def wp_lookup simp del: wp_then elim!: wp_mono)
qed

lemma wp_cancelRequest:
  assumes "Storable a" "Storable b" "healthy w"
  shows "wp (cancelRequest e a b ev)
    (\<lambda>_ w'. healthy w' \<and> (a, b) \<in> rpairs w \<and> fpairs w' = fpairs w \<and> rpairs w' = rpairs w - {(a, b)} \<and> Members w' = Members w)
    (\<lambda>x w'. healthy w' \<and> (a, b) \<notin> rpairs w \<and> same_rows w w' \<and> Members w' = Members w \<and> x = Err ErrRequestNotFound) w"
  by (rule wp_removeRequest [OF assms, where tail = "\<lambda>_. requestRemoved e a b ev"]) (auto simp: cancelRequest_def intro: calm_intros)

lemma wp_rejectRequest:
  assumes "Storable a" "Storable b" "healthy w"
  shows "wp (rejectRequest e b a ev)
    (\<lambda>_ w'. healthy w' \<and> (a, b) \<in> rpairs w \<and> fpairs w' = fpairs w \<and> rpairs w' = rpairs w - {(a, b)} \<and> Members w' = Members w)
    (\<lambda>x w'. healthy w' \<and> (a, b) \<notin> rpairs w \<and> same_rows w w' \<and> Members w' = Members w \<and> x = Err ErrRequestNotFound) w"
  by (rule wp_removeRequest [OF assms, where tail = "\<lambda>req. then_act (when_act (Notifications e) (emit (NotifyRejected (FollowerID req) (FolloweeID req))))
           (requestRemoved e a b ev)"]) (auto simp: rejectRequest_def intro!: calm_intros)

lemma wp_cancelOne:
  assumes "Storable a" "Storable b" "healthy w"
  shows "wp (cancelOneFollowRequest e a b silent)
    (\<lambda>_ w'. healthy w' \<and> fpairs w' = fpairs w \<and> rpairs w' = rpairs w - {(a, b)} \<and> Members w' = Members w) (\<lambda>_ _. False) w"
proof (cases "(a, b) \<in> rpairs w")
  case False
  then have "find (\<lambda>r. relation_pair r = (a, b)) (Requests w) = None" by (simp add: find_pair rpairs_def)
  then show ?thesis using assms False by (simp add: cancelOneFollowRequest_def RequestByPair_def wp_lookup)
next
  case True
  then obtain r where "find (\<lambda>r. relation_pair r = (a, b)) (Requests w) = Some r"
    by (metis find_pair not_None_eq rpairs_def)
  moreover have "wp (ignoring {ErrRequestNotFound} (if c then cancelRequest e a b ev else rejectRequest e b a ev))
    (\<lambda>_ w'. healthy w' \<and> fpairs w' = fpairs w \<and> rpairs w' = rpairs w - {(a, b)} \<and> Members w' = Members w) (\<lambda>_ _. False) w1"
    if "healthy w1" "aside w w1" for c ev w1
    using wp_cancelRequest [OF assms(1,2) that(1), of e ev] wp_rejectRequest [OF assms(1,2) that(1), of e ev] that(2) True
    by (auto simp: ignoring_def aside_def fpairs_def rpairs_def elim!: wp_mono)
  ultimately show ?thesis using assms
    by (auto simp: cancelOneFollowRequest_def RequestByPair_def wp_lookup Let_def intro!: calm_wp [OF calm_optional(1) [OF calm_tame [OF calm_find(1)]]])
qed

lemma wp_between:
  assumes "Storable a" "Storable b" "healthy w"
  shows "wp (CancelFollowRequestsBetween e a b silent)
    (\<lambda>_ w'. healthy w' \<and> fpairs w' = fpairs w \<and> rpairs w' = rpairs w - {(a, b), (b, a)} \<and> Members w' = Members w) (\<lambda>_ _. False) w"
proof -
  have two: "wp (cancelOneFollowRequest e b a silent)
     (\<lambda>_ w'. healthy w' \<and> fpairs w' = fpairs w \<and> rpairs w' = rpairs w - {(a, b), (b, a)} \<and> Members w' = Members w) (\<lambda>_ _. False) w1"
    if "healthy w1 \<and> fpairs w1 = fpairs w \<and> rpairs w1 = rpairs w - {(a, b)} \<and> Members w1 = Members w" for w1
    using that by (auto intro!: wp_mono [OF wp_cancelOne [OF assms(2,1)]])
  show ?thesis unfolding CancelFollowRequestsBetween_def wp_bind wp_attempt
    by (auto intro!: wp_mono [OF wp_cancelOne [OF assms]] wp_mono [OF two])
qed

interpretation fol: severance "UnfollowForBlock e" "CancelFollowRequestsBetween e" for e
proof unfold_locales
  fix a b silent w
  show "moves fewer_rows (UnfollowForBlock e a b silent)" by (rule fewer_UnfollowForBlock)
  show "moves fewer_rows (CancelFollowRequestsBetween e a b silent)" by (rule fewer_between)
  show "healthy (snd (UnfollowForBlock e a b silent w)) \<and> (\<exists>v. fst (UnfollowForBlock e a b silent w) = Val v)
      \<and> fpairs (snd (UnfollowForBlock e a b silent w)) = fpairs w - {(a, b)}
      \<and> rpairs (snd (UnfollowForBlock e a b silent w)) = rpairs w"
    if "Storable a" "Storable b" "a \<noteq> b" "healthy w"
    using wp_UnfollowForBlock [OF that, of e silent] by (auto simp: wp_def split: prod.splits res.splits)
  show "healthy (snd (CancelFollowRequestsBetween e a b silent w)) \<and> (\<exists>v. fst (CancelFollowRequestsBetween e a b silent w) = Val v)
      \<and> fpairs (snd (CancelFollowRequestsBetween e a b silent w)) = fpairs w
      \<and> rpairs (snd (CancelFollowRequestsBetween e a b silent w)) = rpairs w - {(a, b), (b, a)}"
    if "Storable a" "Storable b" "healthy w"
    using wp_between [OF that, of e silent] by (auto simp: wp_def split: prod.splits res.splits)
qed

section \<open>The invariant of the graph\<close>

definition members_ok :: "social \<Rightarrow> bool" where
  "members_ok w = (\<forall>u m. Members w u = Some m \<longrightarrow> MemberID m = u \<and> \<not> isMoved m \<and> Storable u)"

definition ties_ok :: "(string \<times> string) set \<Rightarrow> social \<Rightarrow> bool" where
  \<comment> \<open>between two different users, not both a following and a request, not across a block
    (the pairs of \<open>X\<close> excepted)\<close>
  "ties_ok X w = (fpairs w \<inter> rpairs w = {} \<and>
     (\<forall>(a, b) \<in> fpairs w \<union> rpairs w. a \<noteq> b \<and> Members w a \<noteq> None \<and> Members w b \<noteq> None
        \<and> ((a, b) \<in> X \<or> unblocked w (a, b))))"

definition counts_ok :: "social \<Rightarrow> bool" where
  \<comment> \<open>the counters of the user rows are the numbers of following rows\<close>
  "counts_ok w = (\<forall>u. FollowingCount w u = int (card {b. (u, b) \<in> fpairs w})
     \<and> FollowersCount w u = int (card {a. (a, u) \<in> fpairs w}))"

definition social_wf :: "(string \<times> string) set \<Rightarrow> social \<Rightarrow> bool" where
  "social_wf X w = (healthy w \<and> members_ok w \<and> ties_ok X w \<and> counts_ok w)"

definition keeps_wf :: "(string \<times> string) set \<Rightarrow> social \<Rightarrow> social \<Rightarrow> bool" where
  "keeps_wf X w w' = (social_wf X w \<longrightarrow> social_wf X w')"

interpretation keep: transition "keeps_wf X" for X
  by unfold_locales (auto simp: keeps_wf_def)

lemma finite_pairs [simp]: "finite (fpairs w)" "finite (rpairs w)" "finite (bpairs w)"
  by (simp_all add: fpairs_def rpairs_def bpairs_def)

lemma finite_ends: "finite (F :: (string \<times> string) set) \<Longrightarrow> finite {b. (u, b) \<in> F}" "finite F \<Longrightarrow> finite {a. (a, u) \<in> F}"
  by (rule finite_subset [of _ "snd ` F"], force, simp) (rule finite_subset [of _ "fst ` F"], force, simp)

lemma card_out:
  assumes "finite (F :: (string \<times> string) set)"
  shows "(a, b) \<notin> F \<Longrightarrow> int (card {y. (u, y) \<in> insert (a, b) F}) = int (card {y. (u, y) \<in> F}) + of_bool (u = a)"
    and "(a, b) \<in> F \<Longrightarrow> int (card {y. (u, y) \<in> F - {(a, b)}}) = int (card {y. (u, y) \<in> F}) - of_bool (u = a)"
proof -
  note fin = finite_ends(1) [OF assms, of u]
  show "int (card {y. (u, y) \<in> insert (a, b) F}) = int (card {y. (u, y) \<in> F}) + of_bool (u = a)" if "(a, b) \<notin> F"
  proof (cases "u = a")
    case True
    then have "{y. (u, y) \<in> insert (a, b) F} = insert b {y. (u, y) \<in> F}" by auto
    then show ?thesis using True that fin by simp
  qed simp
  show "int (card {y. (u, y) \<in> F - {(a, b)}}) = int (card {y. (u, y) \<in> F}) - of_bool (u = a)" if "(a, b) \<in> F"
  proof (cases "u = a")
    case True
    then have "{y. (u, y) \<in> F} = insert b {y. (u, y) \<in> F - {(a, b)}}" using that by auto
    moreover have "finite {y. (u, y) \<in> F - {(a, b)}}" using finite_subset [OF _ fin] by auto
    ultimately show ?thesis using True by simp
  qed simp
qed

lemma card_in:
  assumes "finite (F :: (string \<times> string) set)"
  shows "(a, b) \<notin> F \<Longrightarrow> int (card {x. (x, u) \<in> insert (a, b) F}) = int (card {x. (x, u) \<in> F}) + of_bool (u = b)"
    and "(a, b) \<in> F \<Longrightarrow> int (card {x. (x, u) \<in> F - {(a, b)}}) = int (card {x. (x, u) \<in> F}) - of_bool (u = b)"
proof -
  note fin = finite_ends(2) [OF assms, of u]
  show "int (card {x. (x, u) \<in> insert (a, b) F}) = int (card {x. (x, u) \<in> F}) + of_bool (u = b)" if "(a, b) \<notin> F"
  proof (cases "u = b")
    case True
    then have "{x. (x, u) \<in> insert (a, b) F} = insert a {x. (x, u) \<in> F}" by auto
    then show ?thesis using True that fin by simp
  qed simp
  show "int (card {x. (x, u) \<in> F - {(a, b)}}) = int (card {x. (x, u) \<in> F}) - of_bool (u = b)" if "(a, b) \<in> F"
  proof (cases "u = b")
    case True
    then have "{x. (x, u) \<in> F} = insert a {x. (x, u) \<in> F - {(a, b)}}" using that by auto
    moreover have "finite {x. (x, u) \<in> F - {(a, b)}}" using finite_subset [OF _ fin] by auto
    ultimately show ?thesis using True by simp
  qed simp
qed

lemma counts_move:
  assumes "counts_ok w" and "FollowingCount w' = add_count a d (FollowingCount w)"
    and "FollowersCount w' = add_count b d (FollowersCount w)"
    and "(a, b) \<notin> fpairs w \<and> fpairs w' = insert (a, b) (fpairs w) \<and> d = 1
       \<or> (a, b) \<in> fpairs w \<and> fpairs w' = fpairs w - {(a, b)} \<and> d = - 1"
  shows "counts_ok w'"
  using assms(4)
proof (elim disjE conjE)
  assume new: "(a, b) \<notin> fpairs w" and f: "fpairs w' = insert (a, b) (fpairs w)" and "d = 1"
  then show ?thesis unfolding counts_ok_def assms(2,3) f card_out(1) [OF finite_pairs(1) new] card_in(1) [OF finite_pairs(1) new]
    using assms(1) by (simp add: counts_ok_def add_count_def)
next
  assume old: "(a, b) \<in> fpairs w" and f: "fpairs w' = fpairs w - {(a, b)}" and "d = - 1"
  then show ?thesis unfolding counts_ok_def assms(2,3) f card_out(2) [OF finite_pairs(1) old] card_in(2) [OF finite_pairs(1) old]
    using assms(1) by (simp add: counts_ok_def add_count_def)
qed

lemma aside_same:
  assumes "aside w w'"
  shows "members_ok w' = members_ok w" "ties_ok X w' = ties_ok X w" "counts_ok w' = counts_ok w"
proof -
  from assms have "fpairs w' = fpairs w" "rpairs w' = rpairs w" "bpairs w' = bpairs w" "Members w' = Members w"
      "FollowingCount w' = FollowingCount w" "FollowersCount w' = FollowersCount w"
    by (auto simp: aside_def fpairs_def rpairs_def bpairs_def)
  then show "members_ok w' = members_ok w" "ties_ok X w' = ties_ok X w" "counts_ok w' = counts_ok w"
    unfolding members_ok_def ties_ok_def counts_ok_def unblocked_def by simp_all
qed

lemma social_wf_aside: "social_wf X w \<Longrightarrow> healthy w' \<Longrightarrow> aside w w' \<Longrightarrow> social_wf X w'"
  using aside_same [of w w'] by (simp add: social_wf_def)

lemma calm_keeps: "calm m \<Longrightarrow> moves (keeps_wf X) m"
  unfolding moves_wp
proof
  fix w assume m: "calm m"
  show "wp m (\<lambda>_ w'. keeps_wf X w w') (\<lambda>_ w'. keeps_wf X w w') w"
  proof (cases "social_wf X w")
    case True
    show ?thesis
      by (rule calm_wp [OF m]) (use True in \<open>simp_all add: keeps_wf_def social_wf_aside [OF True], simp add: social_wf_def\<close>)
  qed (simp add: keeps_wf_def wp_state)
qed

lemma tame_keeps: "tame m \<Longrightarrow> moves (keeps_wf X) m"
  unfolding moves_wp
proof
  fix w assume m: "tame m"
  show "wp m (\<lambda>_ w'. keeps_wf X w w') (\<lambda>_ w'. keeps_wf X w w') w"
  proof (cases "social_wf X w")
    case True
    show ?thesis
      by (rule tame_wp [OF m]) (use True in \<open>simp_all add: keeps_wf_def social_wf_aside [OF True], simp add: social_wf_def\<close>)
  qed (simp add: keeps_wf_def wp_state)
qed

lemma wp_FindMember: "healthy w \<Longrightarrow> wp (FindMember u) Q E w = Q (if Storable u then Members w u else None) w"
  by (simp add: FindMember_def wp_lookup)

lemma wp_optional_FindMember:
  "healthy w \<Longrightarrow> wp (optional (FindMember u)) Q E w = Q (if Storable u then Members w u else None) w"
  by (simp add: optional_def wp_FindMember)

lemma wp_eitherMoved: "healthy w \<Longrightarrow> members_ok w \<Longrightarrow> wp (eitherMoved a b) Q E w = Q False w"
  by (auto simp: eitherMoved_def hasMoved_def wp_optional_FindMember members_ok_def split: option.splits)

lemma wp_increments:
  assumes "healthy w" "Members w a \<noteq> None" "Members w b \<noteq> None" "calm m"
    and "\<And>w'. healthy w' \<Longrightarrow> aside (w\<lparr>FollowingCount := add_count a d (FollowingCount w),
        FollowersCount := add_count b d (FollowersCount w)\<rparr>) w' \<Longrightarrow> Q () w'"
  shows "wp (then_act (IncrementFollowingCount a d) (then_act (IncrementFollowersCount b d) m)) Q E w"
proof -
  have "wp m Q E (w\<lparr>FollowingCount := add_count a d (FollowingCount w), FollowersCount := add_count b d (FollowersCount w)\<rparr>)"
    by (rule calm_wp [OF assms(4)]) (use assms(1,5) in \<open>simp_all add: healthy_def\<close>)
  then show ?thesis using assms(1-3)
    by (auto simp: IncrementFollowingCount_def IncrementFollowersCount_def healthy_def)
qed

lemma keeps_stays: "keeps_wf X w w"
  by (simp add: keeps_wf_def)

lemma members_of_tie:
  "ties_ok X w \<Longrightarrow> (a, b) \<in> fpairs w \<union> rpairs w \<Longrightarrow> a \<noteq> b \<and> Members w a \<noteq> None \<and> Members w b \<noteq> None"
  unfolding ties_ok_def by (drule conjunct2, drule (1) bspec) simp

lemma ties_shrink:
  assumes t: "ties_ok X w" and "fpairs w' \<subseteq> fpairs w" "rpairs w' \<subseteq> rpairs w" "bpairs w' \<subseteq> bpairs w"
    and m: "\<And>u. Members w u \<noteq> None \<Longrightarrow> Members w' u \<noteq> None"
  shows "ties_ok X w'"
  unfolding ties_ok_def
proof (intro conjI ballI)
  show "fpairs w' \<inter> rpairs w' = {}" using assms unfolding ties_ok_def by blast
  fix p assume "p \<in> fpairs w' \<union> rpairs w'"
  then obtain a b where p: "p = (a, b)" and "(a, b) \<in> fpairs w \<union> rpairs w" using assms(2,3) by (cases p) auto
  then have "a \<noteq> b \<and> Members w a \<noteq> None \<and> Members w b \<noteq> None \<and> ((a, b) \<in> X \<or> unblocked w (a, b))"
    using t unfolding ties_ok_def by (drule_tac conjunct2) (drule (1) bspec, simp)
  then show "case p of (a, b) \<Rightarrow> a \<noteq> b \<and> Members w' a \<noteq> None \<and> Members w' b \<noteq> None \<and> ((a, b) \<in> X \<or> unblocked w' (a, b))"
    using m assms(4) p unfolding unblocked_def by auto
qed

lemma ties_except:
  assumes t: "ties_ok X w" and x: "(fpairs w \<union> rpairs w) \<inter> X = {}"
  shows "ties_ok {} w"
  unfolding ties_ok_def
proof (intro conjI ballI)
  show "fpairs w \<inter> rpairs w = {}" using t by (simp add: ties_ok_def)
  fix p assume p: "p \<in> fpairs w \<union> rpairs w"
  then have "p \<notin> X" using x by blast
  then show "case p of (a, b) \<Rightarrow> a \<noteq> b \<and> Members w a \<noteq> None \<and> Members w b \<noteq> None \<and> ((a, b) \<in> {} \<or> unblocked w (a, b))"
    using t [unfolded ties_ok_def, THEN conjunct2, THEN bspec, OF p] by (cases p) simp
qed

lemma wp_eval: "m w = (Val a, w') \<Longrightarrow> wp m Q E w = Q a w'"
  by (simp add: wp_def)

lemma wf_removed:
  assumes w: "social_wf X w" and ab: "(a, b) \<in> fpairs w" and h: "healthy w'"
    and w': "aside (w\<lparr>Followings := filter (\<lambda>r. relation_pair r \<noteq> (a, b)) (Followings w),
      FollowingCount := add_count a (- 1) (FollowingCount w), FollowersCount := add_count b (- 1) (FollowersCount w)\<rparr>) w'"
  shows "social_wf X w'"
proof -
  have f: "fpairs w' = fpairs w - {(a, b)}" "rpairs w' = rpairs w" "bpairs w' = bpairs w" "Members w' = Members w"
    using w' by (simp_all add: aside_def fpairs_def rpairs_def bpairs_def filter_pairs del: set_filter)
  have "counts_ok w'"
    by (rule counts_move [of w w' a "- 1" b]) (use w w' f ab in \<open>simp_all add: social_wf_def aside_def\<close>)
  moreover have "ties_ok X w'" using w unfolding social_wf_def ties_ok_def unblocked_def f by blast
  ultimately show ?thesis using w h by (simp add: social_wf_def members_ok_def f)
qed

lemma keep_unfollow: "moves (keeps_wf X) (unfollow e a b opts)"
  unfolding moves_wp
proof
  fix w
  show "wp (unfollow e a b opts) (\<lambda>_ w'. keeps_wf X w w') (\<lambda>_ w'. keeps_wf X w w') w"
  proof (cases "social_wf X w")
    case True
    then have h: "healthy w" and m: "members_ok w" and t: "ties_ok X w" by (simp_all add: social_wf_def)
    have "wp (afterUnfollow e f a b opts) (\<lambda>_ w'. keeps_wf X w w') (\<lambda>_ w'. keeps_wf X w w')
        (w\<lparr>Followings := filter (\<lambda>r. relation_pair r \<noteq> (a, b)) (Followings w)\<rparr>)" (is "wp _ ?Q ?E ?w1")
      if "(a, b) \<in> fpairs w" for f
    proof -
      have h1: "healthy ?w1" and m1: "members_ok ?w1" using h m by (simp_all add: healthy_def members_ok_def)
      define tail where "tail = then_act (unfollowHooks e False opts a b) (publishFollowingReload e a)"
      have tail: "calm tail" unfolding tail_def by (intro calm_intros)
      have after: "wp tail ?Q ?E w2"
        if "healthy w2" "aside (?w1\<lparr>FollowingCount := add_count a (- 1) (FollowingCount ?w1),
           FollowersCount := add_count b (- 1) (FollowersCount ?w1)\<rparr>) w2" for w2
      proof (rule calm_wp [OF tail that(1)])
        fix w' assume "healthy w'" "aside w2 w'"
        with that show "keeps_wf X w w'"
          using wf_removed [OF True \<open>(a, b) \<in> fpairs w\<close>, of w'] by (simp add: keeps_wf_def aside_def)
      qed
      have "wp (then_act (IncrementFollowingCount a (- 1)) (then_act (IncrementFollowersCount b (- 1))
          (adjustInstanceCountsForFollowing e f (- 1)))) (\<lambda>_. wp tail ?Q ?E) ?E ?w1"
        by (rule wp_increments [OF h1 _ _ calm_adjust after]) (use members_of_tie [OF t, of a b] that in simp_all)
      then show ?thesis unfolding afterUnfollow_def wp_bind wp_eitherMoved [OF h1 m1] tail_def [symmetric]
          wp_then [of _ "tail"] by (simp del: wp_then)
    qed
    moreover have "relation_pair f = (a, b) \<and> (a, b) \<in> fpairs w"
      if "find (\<lambda>r. relation_pair r = (a, b)) (Followings w) = Some f" for f
      using find_pair_Some [OF that] by (auto simp: fpairs_def image_iff intro!: bexI [of _ f])
    ultimately show ?thesis using h
      by (cases "find (\<lambda>r. relation_pair r = (a, b)) (Followings w)")
        (auto simp: unfollow_def FollowingByPair_def wp_lookup DeleteFollowing_def keeps_stays healthy_def)
  qed (simp add: keeps_wf_def wp_state)
qed

lemma keep_DeleteRequest: "moves (keeps_wf X) (DeleteRequest f)"
  unfolding DeleteRequest_def
proof (rule keep.moves_then [OF calm_keeps [OF calm_stmt]], rule keep.moves_change)
  fix w :: social
  let ?w' = "w\<lparr>Requests := filter (\<lambda>r. relation_pair r \<noteq> relation_pair f) (Requests w)\<rparr>"
  have r: "rpairs ?w' = rpairs w - {relation_pair f}" "fpairs ?w' = fpairs w" "bpairs ?w' = bpairs w"
    by (simp_all add: rpairs_def fpairs_def bpairs_def filter_pairs del: set_filter)
  have "ties_ok X ?w'" if "ties_ok X w" by (rule ties_shrink [OF that]) (simp_all add: r Diff_subset)
  then show "keeps_wf X w ?w'" by (simp add: keeps_wf_def social_wf_def counts_ok_def members_ok_def healthy_def r)
qed

lemmas keep_calm = calm_keeps [OF calm_find(1)] calm_keeps [OF calm_find(2)] calm_keeps [OF calm_find(3)]
  calm_keeps [OF calm_find(4)] calm_keeps [OF calm_find(5)] calm_keeps [OF calm_emit] calm_keeps [OF calm_removed(2)]
  calm_keeps [OF calm_notify(2)] calm_keeps [OF calm_optional(1) [OF calm_tame [OF calm_find(1)]]] calm_keeps [OF calm_stmt]

lemma keep_ignoring: "moves (keeps_wf X) m \<Longrightarrow> moves (keeps_wf X) (ignoring xs m)"
  unfolding ignoring_def by (intro keep.moves_rules)

lemma keep_when: "moves (keeps_wf X) m \<Longrightarrow> moves (keeps_wf X) (when_act b m)"
  by (simp add: when_act_def keep.moves_ret)

lemma keep_UnfollowForBlock: "moves (keeps_wf X) (UnfollowForBlock e a b silent)"
  unfolding UnfollowForBlock_def by (intro keep_ignoring keep_unfollow)

lemma keep_requests:
  "moves (keeps_wf X) (rejectRequest e b a ev)" "moves (keeps_wf X) (cancelRequest e a b ev)"
  unfolding rejectRequest_def cancelRequest_def
  by (intro keep.moves_bind keep.moves_then keep.moves_case_option keep.moves_stop keep_when keep_DeleteRequest keep_calm)+

lemma keep_cancelOne: "moves (keeps_wf X) (cancelOneFollowRequest e a b silent)"
  unfolding cancelOneFollowRequest_def Let_def
  by (intro keep.moves_bind keep.moves_case_option keep.moves_ret keep_ignoring keep.moves_if keep_requests keep_calm)

lemma keep_between: "moves (keeps_wf X) (CancelFollowRequestsBetween e a b silent)"
  unfolding CancelFollowRequestsBetween_def
  by (auto intro!: keep.moves_bind keep.moves_attempt keep_cancelOne keep.moves_ret keep.moves_stop split: res.splits)

lemma keep_RemoteReject: "moves (keeps_wf X) (RemoteReject e a b)"
  unfolding RemoteReject_def
  by (intro keep.moves_then keep.moves_bind keep.moves_case_option keep.moves_ret keep_ignoring keep_when keep_unfollow
      keep_DeleteRequest keep_calm)

section \<open>A new following\<close>

lemma ties_grow:
  assumes t: "ties_ok X w" and m: "Members w' = Members w" and b: "bpairs w' = bpairs w"
    and pairs: "fpairs w' \<union> rpairs w' \<subseteq> insert (u, v) (fpairs w \<union> rpairs w)" "fpairs w' \<inter> rpairs w' = {}"
    and new: "u \<noteq> v" "Members w u \<noteq> None" "Members w v \<noteq> None" "(u, v) \<in> X \<or> unblocked w (u, v)"
  shows "ties_ok X w'"
  unfolding ties_ok_def
proof (intro conjI ballI)
  fix p assume "p \<in> fpairs w' \<union> rpairs w'"
  then obtain x y where p: "p = (x, y)" and "(x, y) = (u, v) \<or> (x, y) \<in> fpairs w \<union> rpairs w"
    using pairs(1) by (cases p) blast
  then have "x \<noteq> y \<and> Members w x \<noteq> None \<and> Members w y \<noteq> None \<and> ((x, y) \<in> X \<or> unblocked w (x, y))"
  proof (elim disjE)
    assume "(x, y) \<in> fpairs w \<union> rpairs w"
    then show ?thesis using t unfolding ties_ok_def by (drule_tac conjunct2) (drule (1) bspec, simp)
  qed (use new in simp)
  then show "case p of (a, b) \<Rightarrow> a \<noteq> b \<and> Members w' a \<noteq> None \<and> Members w' b \<noteq> None \<and> ((a, b) \<in> X \<or> unblocked w' (a, b))"
    unfolding p m by (simp add: unblocked_def b)
qed (rule pairs(2))

definition grown :: "relation \<Rightarrow> social \<Rightarrow> social" where
  "grown f w = w\<lparr>Followings := Followings w @ [f],
     Requests := filter (\<lambda>r. relation_pair r \<noteq> relation_pair f) (Requests w),
     FollowingCount := add_count (FollowerID f) 1 (FollowingCount w),
     FollowersCount := add_count (FolloweeID f) 1 (FollowersCount w)\<rparr>"

lemma wf_grown:
  assumes w: "social_wf X w" and f: "FollowerID f = a" "FolloweeID f = b"
    and new: "a \<noteq> b" "Members w a \<noteq> None" "Members w b \<noteq> None" "(a, b) \<notin> fpairs w" "(a, b) \<in> X \<or> unblocked w (a, b)"
    and h: "healthy w'" and w': "aside (grown f w) w'"
  shows "social_wf X w'"
proof -
  have p: "fpairs w' = insert (a, b) (fpairs w)" "rpairs w' = rpairs w - {(a, b)}" "bpairs w' = bpairs w" "Members w' = Members w"
    using w' f by (auto simp: grown_def aside_def fpairs_def rpairs_def bpairs_def filter_pairs relation_pair_def)
  have dis: "fpairs w \<inter> rpairs w = {}" and t: "ties_ok X w" using w by (simp_all add: social_wf_def ties_ok_def)
  have "ties_ok X w'"
    by (rule ties_grow [OF t p(4,3) _ _ new(1-3,5)]) (use dis new(4) in \<open>auto simp: p\<close>)
  moreover have "counts_ok w'"
    by (rule counts_move [of w w' a 1 b]) (use w w' f p new(4) in \<open>simp_all add: social_wf_def aside_def grown_def\<close>)
  ultimately show ?thesis using w h p by (simp add: social_wf_def members_ok_def)
qed

lemma wf_requested:
  assumes w: "social_wf X w" and f: "relation_pair f = (a, b)"
    and new: "a \<noteq> b" "Members w a \<noteq> None" "Members w b \<noteq> None" "(a, b) \<notin> fpairs w" "(a, b) \<in> X \<or> unblocked w (a, b)"
    and h: "healthy w'" and w': "aside (w\<lparr>Requests := Requests w @ [f]\<rparr>) w'"
  shows "social_wf X w'"
proof -
  have p: "fpairs w' = fpairs w" "rpairs w' = insert (a, b) (rpairs w)" "bpairs w' = bpairs w" "Members w' = Members w"
    using w' f by (auto simp: aside_def fpairs_def rpairs_def bpairs_def)
  have dis: "fpairs w \<inter> rpairs w = {}" and t: "ties_ok X w" using w by (simp_all add: social_wf_def ties_ok_def)
  have "ties_ok X w'"
    by (rule ties_grow [OF t p(4,3) _ _ new(1-3,5)]) (use dis new(4) in \<open>auto simp: p\<close>)
  moreover have "counts_ok w'" using w w' p(1) by (simp add: social_wf_def counts_ok_def aside_def)
  ultimately show ?thesis using w h p by (simp add: social_wf_def members_ok_def)
qed

lemma wp_counted:
  \<comment> \<open>the counters are brought up to date, then only events follow\<close>
  assumes "healthy w" "Members w (FollowerID f) \<noteq> None" "Members w (FolloweeID f) \<noteq> None" "calm tail"
    and "\<And>x w'. healthy w' \<Longrightarrow> aside (w\<lparr>FollowingCount := add_count (FollowerID f) 1 (FollowingCount w),
        FollowersCount := add_count (FolloweeID f) 1 (FollowersCount w)\<rparr>) w' \<Longrightarrow> Q x w'"
  shows "wp (then_act (adjustCounts e f 1) tail) Q E w"
proof -
  have "wp tail Q E w1" if "healthy w1" "aside (w\<lparr>FollowingCount := add_count (FollowerID f) 1 (FollowingCount w),
        FollowersCount := add_count (FolloweeID f) 1 (FollowersCount w)\<rparr>) w1" for w1
    by (rule calm_wp [OF assms(4) that(1)]) (use that(2) in \<open>auto intro!: assms(5) elim: aside_trans\<close>)
  then show ?thesis unfolding wp_then [of _ tail] adjustCounts_def
    by (intro wp_increments [OF assms(1-3) calm_adjust])
qed

lemma wp_insert:
  "healthy w \<Longrightarrow> wp (insert_stmt dup f) Q E w = (if dup w then E (Err ErrUnique) w else Q () (f w))"
  by (simp add: insert_stmt_def healthy_def)

lemma wp_exists:
  "healthy w \<Longrightarrow> wp (exists_stmt a b f) Q E w = (if Storable a \<and> Storable b then Q (f w) w else E (Err ErrStatement) w)"
  by (simp add: exists_stmt_def healthy_def)

lemma wp_dropStale:
  assumes h: "healthy w" and st: "Storable a" "Storable b"
    and Q: "\<And>w'. healthy w' \<Longrightarrow> aside (w\<lparr>Requests := filter (\<lambda>r. relation_pair r \<noteq> (a, b)) (Requests w)\<rparr>) w' \<Longrightarrow> Q () w'"
  shows "wp (dropStaleRequest e a b followee) Q E w"
proof (cases "find (\<lambda>r. relation_pair r = (a, b)) (Requests w)")
  case None
  then have same: "filter (\<lambda>r. relation_pair r \<noteq> (a, b)) (Requests w) = Requests w"
    by (auto simp: find_None_iff filter_id_conv)
  have "aside (w\<lparr>Requests := filter (\<lambda>r. relation_pair r \<noteq> (a, b)) (Requests w)\<rparr>) w"
    unfolding same by (simp add: aside_def)
  with h have "Q () w" by (rule Q)
  then show ?thesis using None h st by (simp add: dropStaleRequest_def RequestByPair_def wp_lookup)
next
  case (Some r)
  then have r: "relation_pair r = (a, b)" using find_pair_Some [OF Some] by simp
  have "wp (publishMeUpdated e (Some followee)) Q E (w\<lparr>Requests := filter (\<lambda>r. relation_pair r \<noteq> (a, b)) (Requests w)\<rparr>)"
    by (rule calm_wp [OF calm_events(2)]) (use h Q in \<open>simp_all add: healthy_def\<close>)
  then show ?thesis using Some h st r
    by (simp add: dropStaleRequest_def RequestByPair_def wp_lookup DeleteRequest_def healthy_def)
qed

lemma wf_createFollowing:
  assumes w: "social_wf X w" and m: "Members w a = Some follower" "Members w b = Some followee"
    and new: "a \<noteq> b" "(a, b) \<notin> fpairs w" "(a, b) \<in> X \<or> unblocked w (a, b)"
  shows "wp (createFollowing e p follower followee opts) (\<lambda>_. social_wf X) (\<lambda>_. social_wf X) w"
proof -
  from w have h: "healthy w" and mok: "members_ok w" by (simp_all add: social_wf_def)
  from mok m have ids: "MemberID follower = a" "MemberID followee = b" "\<not> isMoved follower" "\<not> isMoved followee"
      "Storable a" "Storable b" by (auto simp: members_ok_def)
  define tail where "tail f = then_act (announceFollow e p False follower followee opts) (ret (CreatedFollowing f))" for f
  have tail: "calm (tail f)" for f unfolding tail_def by (intro calm_intros)
  have "wp (then_act (CreateFollowing f) (then_act (dropStaleRequest e a b followee) (then_act (adjustCounts e f 1) (tail f))))
      (\<lambda>_. social_wf X) (\<lambda>_. social_wf X) w1" if h1: "healthy w1" and w1: "aside w w1" and f: "f = new_relation i follower followee opts" for f i w1
  proof -
    have pf: "FollowerID f = a" "FolloweeID f = b" "relation_pair f = (a, b)"
      using ids by (simp_all add: f new_relation_def relation_pair_def)
    let ?w2 = "w1\<lparr>Followings := Followings w1 @ [f]\<rparr>"
    have "wp (then_act (adjustCounts e f 1) (tail f)) (\<lambda>_. social_wf X) (\<lambda>_. social_wf X) w3"
      if h3: "healthy w3" and w3: "aside (?w2\<lparr>Requests := filter (\<lambda>r. relation_pair r \<noteq> (a, b)) (Requests ?w2)\<rparr>) w3" for w3
    proof (rule wp_counted [OF h3 _ _ tail])
      show "Members w3 (FollowerID f) \<noteq> None" "Members w3 (FolloweeID f) \<noteq> None"
        using m w1 w3 pf by (simp_all add: aside_def)
      fix x w' assume h': "healthy w'" and w': "aside (w3\<lparr>FollowingCount := add_count (FollowerID f) 1 (FollowingCount w3),
        FollowersCount := add_count (FolloweeID f) 1 (FollowersCount w3)\<rparr>) w'"
      have "aside (grown f w) w'" using w1 w3 w' pf(3) by (simp add: aside_def grown_def)
      then show "social_wf X w'" by (intro wf_grown [OF w pf(1,2) new(1) _ _ new(2,3) h']) (simp_all add: m)
    qed
    then have "wp (dropStaleRequest e a b followee) (\<lambda>_. wp (then_act (adjustCounts e f 1) (tail f)) (\<lambda>_. social_wf X) (\<lambda>_. social_wf X)) (\<lambda>_. social_wf X) ?w2"
      using h1 by (intro wp_dropStale ids(5,6)) (simp_all add: healthy_def)
    moreover have "(a, b) \<notin> relation_pair ` set (Followings w1)" using new(2) w1 by (simp add: fpairs_def aside_def)
    ultimately show ?thesis using h1 pf unfolding wp_then [of _ "then_act x y" for x y]
      by (simp add: CreateFollowing_def wp_insert del: wp_then)
  qed
  then show ?thesis unfolding createFollowing_def Let_def wp_bind ids tail_def using ids
    by (simp del: wp_then, intro calm_wp [OF calm_generate h]) (simp add: when_act_def del: wp_then)
qed

lemma keeps_true: "social_wf X w \<Longrightarrow> keeps_wf X w = social_wf X"
  by (simp add: fun_eq_iff keeps_wf_def)

lemma wf_createRequest:
  assumes w: "social_wf X w" and m: "Members w a = Some follower" "Members w b = Some followee"
    and new: "a \<noteq> b" "(a, b) \<notin> fpairs w" "(a, b) \<in> X \<or> unblocked w (a, b)"
  shows "wp (createRequest e p follower followee opts) (\<lambda>_. social_wf X) (\<lambda>_. social_wf X) w"
proof -
  from w have h: "healthy w" and mok: "members_ok w" by (simp_all add: social_wf_def)
  from mok m have ids: "MemberID follower = a" "MemberID followee = b" "Storable a" "Storable b"
    by (auto simp: members_ok_def)
  define tail where "tail req = then_act (when_act (Notifications e \<and> \<not> silentRequest p) (emit (NotifyRequested a b)))
     (then_act (when_act (Federation e) (emit (SendFollowed a b)))
     (then_act (publishFollowerLite e ''receiveFollowRequest'' follower followee)
     (then_act (publishMeUpdated e (Some followee)) (ret (CreatedRequest req)))))" for req
  have tail: "calm (tail req)" for req unfolding tail_def by (intro calm_intros)
  have "wp (then_act (CreateRequest f) (tail f)) (\<lambda>_. social_wf X) (\<lambda>_. social_wf X) w1"
    if h1: "healthy w1" and w1: "aside w w1" and f: "f = new_relation i follower followee opts" for f i w1
  proof -
    have pf: "relation_pair f = (a, b)" using ids by (simp add: f new_relation_def relation_pair_def)
    have "wp (tail f) (\<lambda>_. social_wf X) (\<lambda>_. social_wf X) (w1\<lparr>Requests := Requests w1 @ [f]\<rparr>)"
    proof (rule calm_wp [OF tail])
      show "healthy (w1\<lparr>Requests := Requests w1 @ [f]\<rparr>)" using h1 by (simp add: healthy_def)
      fix x w' assume "healthy w'" "aside (w1\<lparr>Requests := Requests w1 @ [f]\<rparr>) w'"
      moreover from this(2) w1 have "aside (w\<lparr>Requests := Requests w @ [f]\<rparr>) w'" by (simp add: aside_def)
      ultimately show "social_wf X w'" by (intro wf_requested [OF w pf new(1) _ _ new(2,3)]) (simp_all add: m)
    qed
    then show ?thesis using h1 social_wf_aside [OF w h1 w1] unfolding wp_then [of _ "tail f"]
      by (simp add: CreateRequest_def wp_insert)
  qed
  then show ?thesis using w ids h unfolding createRequest_def Let_def tail_def
    by (simp add: RequestExists_def wp_exists del: wp_then add: wp_then [of "reject_if c x" for c x])
      (auto intro!: calm_wp [OF calm_generate] simp del: wp_then)
qed

lemma wp_checkBlocks:
  "healthy w \<Longrightarrow> wp (checkBlocks (Some IsBlocked) a b) (\<lambda>_ w'. w' = w \<and> unblocked w (a, b)) (\<lambda>_ w'. w' = w) w"
  by (auto simp: checkBlocks_def IsBlocked_def BlockExists_def wp_exists unblocked_def bpairs_def)

lemma keep_Follow: "moves (keeps_wf X) (Follow e (Some IsBlocked) u v opts)"
  unfolding moves_wp
proof
  fix w
  show "wp (Follow e (Some IsBlocked) u v opts) (\<lambda>_ w'. keeps_wf X w w') (\<lambda>_ w'. keeps_wf X w w') w"
  proof (cases "social_wf X w")
    case True
    then have h: "healthy w" and mok: "members_ok w" by (simp_all add: social_wf_def)
    have "wp (FollowLoaded e (Some IsBlocked) a b opts) (\<lambda>_. social_wf X) (\<lambda>_. social_wf X) w"
      if m: "Members w u = Some a" "Members w v = Some b" and uv: "u \<noteq> v" for a b
    proof -
      have ids: "MemberID a = u" "MemberID b = v" using m mok by (auto simp: members_ok_def)
      define finish where "finish needs p = bind_act (if needs then shouldAutoAcceptFollow b u else ret True) (\<lambda>direct.
         if direct then createFollowing e p a b opts else createRequest e p a b opts)" for needs p
      define rest where "rest = bind_act (decideApproval e a b) (\<lambda>(needs, approval). finish needs approval)"
      have rest: "wp rest (\<lambda>_. social_wf X) (\<lambda>_. social_wf X) w"
        if new: "(u, v) \<notin> fpairs w" "unblocked w (u, v)"
      proof -
        have last: "wp (if direct then createFollowing e p a b opts else createRequest e p a b opts)
            (\<lambda>_. social_wf X) (\<lambda>_. social_wf X) w2" if "healthy w2" "aside w w2" for direct p w2
          using wf_createFollowing [of X w2 u a v b e p opts] wf_createRequest [of X w2 u a v b e p opts]
            social_wf_aside [OF True that] m uv new that(2)
          by (simp add: aside_def fpairs_def unblocked_def bpairs_def)
        have "wp (finish needs p) (\<lambda>_. social_wf X) (\<lambda>_. social_wf X) w1" if "healthy w1" "aside w w1" for needs p w1
          unfolding finish_def wp_bind
        proof (rule calm_wp [OF _ that(1)])
          show "calm (if needs then shouldAutoAcceptFollow b u else ret True)" by (intro calm_intros)
        qed (rule last, assumption, erule aside_trans [OF that(2)])
        then show ?thesis unfolding rest_def wp_bind [of "decideApproval e a b"]
          by (intro calm_wp [OF calm_decide h]) (simp split: prod.split)
      qed
      show ?thesis
        unfolding FollowLoaded_def ids finish_def [symmetric] rest_def [symmetric] FollowingExists_def wp_bind [of "exists_stmt x y z" for x y z]
          wp_exists [OF h] wp_then [of "reject_if c x" for c x] wp_then [of _ rest]
        using True by (auto intro!: wp_mono [OF wp_checkBlocks [OF h]] rest simp: fpairs_def)
    qed
    then show ?thesis using True h
      by (auto simp: Follow_def wp_FindMember keeps_wf_def split: option.splits)
  qed (simp add: keeps_wf_def wp_state)
qed

lemma acceptFound_grows:
  assumes w: "social_wf X w" and req: "relation_pair req = (a, b)" "req \<in> set (Requests w)"
  shows "wp (acceptFound e req) (\<lambda>_ w'. healthy w' \<and> (\<exists>i. aside (grown (req\<lparr>RelationID := i\<rparr>) w) w')) (\<lambda>_ _. False) w"
    (is "wp _ ?Q ?E w")
proof -
  from w have h: "healthy w" and mok: "members_ok w" and t: "ties_ok X w" by (simp_all add: social_wf_def)
  have r: "(a, b) \<in> rpairs w" using req by (auto simp: rpairs_def image_iff intro!: bexI [of _ req])
  with t have nf: "(a, b) \<notin> fpairs w" by (auto simp: ties_ok_def)
  from members_of_tie [OF t] r have mem: "a \<noteq> b" "Members w a \<noteq> None" "Members w b \<noteq> None" by blast+
  with mok have st: "Storable a" "Storable b" by (auto simp: members_ok_def)
  from req have ids: "FollowerID req = a" "FolloweeID req = b" by (simp_all add: relation_pair_def)
  let ?w1 = "w\<lparr>Requests := filter (\<lambda>r. relation_pair r \<noteq> (a, b)) (Requests w)\<rparr>"
  have "wp (afterAccept e (req\<lparr>RelationID := i\<rparr>) req) ?Q ?E (w2\<lparr>Followings := Followings w2 @ [req\<lparr>RelationID := i\<rparr>]\<rparr>)"
    (is "wp (afterAccept e ?f req) _ _ ?w3") if h2: "healthy w2" and w2: "aside ?w1 w2" for i w2
  proof -
    have h3: "healthy ?w3" and m3: "members_ok ?w3" using h2 w2 mok by (simp_all add: healthy_def members_ok_def aside_def)
    have "wp (then_act (adjustCounts e ?f 1) (announceAccept e False req)) ?Q ?E ?w3"
    proof (rule wp_counted [OF h3 _ _ calm_announce(3)])
      show "Members ?w3 (FollowerID ?f) \<noteq> None" "Members ?w3 (FolloweeID ?f) \<noteq> None"
        using mem w2 ids by (simp_all add: aside_def)
      fix x w' assume h': "healthy w'" and "aside (?w3\<lparr>FollowingCount := add_count (FollowerID ?f) 1 (FollowingCount ?w3),
        FollowersCount := add_count (FolloweeID ?f) 1 (FollowersCount ?w3)\<rparr>) w'"
      then have "aside (grown ?f w) w'" using w2 req(1) by (simp add: aside_def grown_def relation_pair_def)
      then show "healthy w' \<and> (\<exists>i. aside (grown (req\<lparr>RelationID := i\<rparr>) w) w')" using h' by blast
    qed
    then show ?thesis unfolding afterAccept_def wp_bind wp_eitherMoved [OF h3 m3] by (simp add: when_act_def del: wp_then)
  qed
  note after = this
  have h1: "healthy ?w1" using h by (simp add: healthy_def)
  have "wp (bind_act (Generate e) (\<lambda>i. bind_act (attempt (CreateFollowing (req\<lparr>RelationID := i\<rparr>))) (\<lambda>r. case r of
           Stop x \<Rightarrow> if x = Err ErrUnique then alreadyFollowing e req else stop_with x
         | Val _ \<Rightarrow> afterAccept e (req\<lparr>RelationID := i\<rparr>) req))) ?Q ?E ?w1"
    unfolding wp_bind
  proof (rule calm_wp [OF calm_generate h1])
    fix i w2 assume w2: "healthy w2" "aside ?w1 w2"
    have "(a, b) \<notin> relation_pair ` set (Followings w2)" using nf w2(2) by (simp add: fpairs_def aside_def)
    then show "wp (attempt (CreateFollowing (req\<lparr>RelationID := i\<rparr>))) (\<lambda>r. wp (case r of
           Stop x \<Rightarrow> if x = Err ErrUnique then alreadyFollowing e req else stop_with x
         | Val _ \<Rightarrow> afterAccept e (req\<lparr>RelationID := i\<rparr>) req) ?Q ?E) ?E w2"
      using after [OF w2] ids by (simp add: CreateFollowing_def wp_insert w2 relation_pair_def)
  qed
  moreover have "(a, b) \<notin> relation_pair ` set (Followings ?w1)" using nf by (simp add: fpairs_def)
  ultimately show ?thesis using h h1 st ids
    by (simp add: acceptFound_def DeleteRequest_def req(1) FollowingExists_def wp_exists Let_def healthy_def del: wp_bind
        add: wp_bind [of "exists_stmt x y z" for x y z])
qed

lemma wf_acceptFound:
  assumes w: "social_wf X w" and req: "relation_pair req = (a, b)" "req \<in> set (Requests w)"
    and new: "(a, b) \<in> X \<or> unblocked w (a, b)"
  shows "wp (acceptFound e req) (\<lambda>_. social_wf X) (\<lambda>_. social_wf X) w"
proof (rule wp_mono [OF acceptFound_grows [OF w req]])
  have t: "ties_ok X w" using w by (simp add: social_wf_def)
  have r: "(a, b) \<in> rpairs w" using req by (auto simp: rpairs_def image_iff intro!: bexI [of _ req])
  with t have nf: "(a, b) \<notin> fpairs w" by (auto simp: ties_ok_def)
  from members_of_tie [OF t] r have mem: "a \<noteq> b" "Members w a \<noteq> None" "Members w b \<noteq> None" by blast+
  fix x w' assume "healthy w' \<and> (\<exists>i. aside (grown (req\<lparr>RelationID := i\<rparr>) w) w')"
  then obtain i where "healthy w'" "aside (grown (req\<lparr>RelationID := i\<rparr>) w) w'" by blast
  then show "social_wf X w'" using req(1) by (intro wf_grown [OF w _ _ mem nf new]) (simp_all add: relation_pair_def)
qed simp

lemma keep_AcceptRequest: "moves (keeps_wf X) (AcceptRequest e (Some IsBlocked) v u)"
  unfolding moves_wp
proof
  fix w
  show "wp (AcceptRequest e (Some IsBlocked) v u) (\<lambda>_ w'. keeps_wf X w w') (\<lambda>_ w'. keeps_wf X w w') w"
  proof (cases "social_wf X w")
    case True
    then have h: "healthy w" by (simp add: social_wf_def)
    have "wp (bind_act (RequestByPair u v) (\<lambda>req. case req of None \<Rightarrow> stop_with (Err ErrRequestNotFound)
         | Some req \<Rightarrow> acceptFound e req)) (\<lambda>_. social_wf X) (\<lambda>_. social_wf X) w" if "unblocked w (v, u)"
    proof (cases "find (\<lambda>r. relation_pair r = (u, v)) (Requests w)")
      case (Some req)
      with wf_acceptFound [OF True, of req u v e] find_pair_Some [OF Some] that True show ?thesis
        by (simp add: RequestByPair_def wp_lookup h unblocked_def)
    qed (simp add: RequestByPair_def wp_lookup h True)
    then show ?thesis using True
      unfolding AcceptRequest_def wp_then [of "checkBlocks x y z" for x y z] keeps_true [OF True]
      by (auto intro!: wp_mono [OF wp_checkBlocks [OF h]] simp del: wp_bind)
  qed (simp add: keeps_wf_def wp_state)
qed

lemma keep_AcceptAll: "moves (keeps_wf X) (AcceptAllRequests n e (Some IsBlocked) v)"
proof -
  have pages: "moves (keeps_wf X) (receivedPages n u t acc)" for n u t acc
  proof (induction n arbitrary: t acc)
    case (Suc n)
    show ?case unfolding receivedPages.simps
      by (intro keep.moves_bind keep.moves_if keep.moves_ret Suc.IH calm_keeps [OF calm_lists(1)])
  qed (simp add: keep.moves_stop)
  have skip: "moves (keeps_wf X) (maySkipApproval e p now u a)" for p now u a
  proof -
    have "moves (keeps_wf X) (FollowingExists u x)" for x by (rule tame_keeps [OF tame_following_exists])
    then show ?thesis unfolding maySkipApproval_def by (intro keep.moves_if keep.moves_ret)
  qed
  have each: "moves (keeps_wf X) (acceptEach e (Some IsBlocked) p now v reqs)" for p now reqs
  proof (induction reqs)
    case (Cons r rs)
    show ?case unfolding acceptEach.simps
      by (rule keep.moves_then [OF _ Cons.IH])
        (intro keep.moves_bind keep.moves_case_option keep.moves_ret keep_when keep_ignoring keep_AcceptRequest skip keep_calm)
  qed (simp add: keep.moves_ret)
  show ?thesis unfolding AcceptAllRequests_def
    by (intro keep.moves_bind keep.moves_if keep.moves_ret pages each keep_calm keep.moves_query)
qed

section \<open>A new block\<close>

definition materializer_ok :: "block_wiring \<Rightarrow> bool" where
  \<comment> \<open>what is promoted is the asked user, as a storable row that has not moved\<close>
  "materializer_ok be = (\<forall>f u m. Materializer be = Some f \<longrightarrow> f u = Some m \<longrightarrow> MemberID m = u \<and> \<not> isMoved m \<and> Storable u)"

definition wired_together :: "follow_wiring \<Rightarrow> block_wiring \<Rightarrow> bool" where
  "wired_together e be = (wired_to be (UnfollowForBlock e) (CancelFollowRequestsBetween e) \<and> materializer_ok be)"

lemma keep_best_effort: "moves (keeps_wf X) m \<Longrightarrow> moves (keeps_wf X) (best_effort m)"
  unfolding best_effort_def by (intro keep.moves_rules)

lemma calm_removeFromLists: "calm (removeFromLists be a b)"
proof -
  have "calm (removeFromEach u ls)" for u ls
    by (induction ls) (auto intro!: calm_intros calm_tame)
  then show ?thesis unfolding removeFromLists_def
    by (auto intro!: calm_intros calm_tame split: res.splits)
qed

lemma keep_severTies:
  assumes "wired_together e be"
  shows "moves (keeps_wf X) (severTies be a b silent)"
  using assms unfolding severTies_def unfollowForBlock_def cancelBetween_def wired_together_def wired_to_def
  by (auto intro!: keep.moves_then keep_best_effort keep_UnfollowForBlock keep_between calm_keeps [OF calm_removeFromLists])

lemma wf_findBlockee:
  assumes w: "social_wf {} w" and e: "wired_together e be"
  shows "wp (findBlockee be u) (\<lambda>_ w'. social_wf {} w') (\<lambda>_ w'. social_wf {} w') w"
proof -
  have h: "healthy w" using w by (simp add: social_wf_def)
  have "social_wf {} (w\<lparr>Members := (Members w)(u \<mapsto> m)\<rparr>)" if "Materializer be = Some f" "f u = Some m" for f m
  proof -
    let ?w' = "w\<lparr>Members := (Members w)(u \<mapsto> m)\<rparr>"
    have "MemberID m = u" "\<not> isMoved m" "Storable u" using e that by (auto simp: wired_together_def materializer_ok_def)
    moreover have t: "ties_ok {} w" using w by (simp add: social_wf_def)
    have "ties_ok {} ?w'" by (rule ties_shrink [OF t]) (simp_all add: fpairs_def rpairs_def bpairs_def)
    ultimately show ?thesis using w
      by (simp add: social_wf_def members_ok_def counts_ok_def healthy_def fpairs_def)
  qed
  then show ?thesis using w h
    by (auto simp: findBlockee_def wp_FindMember materializeUserIfMissing_def split: option.splits)
      (auto simp: wp_FindMember healthy_def)
qed

lemma keep_blockUser:
  assumes e: "wired_together e be"
  shows "moves (keeps_wf {}) (blockUser be a b silent)"
  unfolding moves_wp
proof
  fix w
  show "wp (blockUser be a b silent) (\<lambda>_ w'. keeps_wf {} w w') (\<lambda>_ w'. keeps_wf {} w w') w"
  proof (cases "social_wf {} w")
    case True
    let ?X = "{(a, b), (b, a)}"
    define tail where "tail row = then_act (when_act (QuoteRevoker be) (emit (RevokeQuotes a b)))
       (then_act (when_act (BlockFederation be) (emit (SendBlocked a b))) (then_act (publishBlockReload be b) (ret row)))" for row :: block_row
    have tail: "calm (tail row)" for row unfolding tail_def publishBlockReload_def by (intro calm_intros)
    have sever: "wp (then_act (severTies be a b silent) (tail row)) (\<lambda>_. social_wf {}) (\<lambda>_. social_wf {}) w2"
      if w2: "social_wf ?X w2" and st: "Storable a" "Storable b" "a \<noteq> b" for w2 row
    proof -
      have h2: "healthy w2" using w2 by (simp add: social_wf_def)
      have wired: "wired_to be (UnfollowForBlock e) (CancelFollowRequestsBetween e)" using e by (simp add: wired_together_def)
      let ?w3 = "snd (severTies be a b silent w2)"
      note s = fol.severTies_severs [OF wired st h2, of silent]
      have w3: "social_wf ?X ?w3" using keep_severTies [OF e] w2 by (simp add: moves_def keeps_wf_def)
      have "(fpairs ?w3 \<union> rpairs ?w3) \<inter> ?X = {}" using s by (simp add: Int_Un_distrib2 Diff_Int_distrib2)
      then have "ties_ok {} ?w3" using w3 by (intro ties_except [of ?X]) (simp add: social_wf_def)
      then have "social_wf {} ?w3" using w3 by (simp add: social_wf_def)
      then have "wp (tail row) (\<lambda>_. social_wf {}) (\<lambda>_. social_wf {}) ?w3"
        using s by (intro calm_wp [OF tail]) (auto intro: social_wf_aside)
      moreover have "severTies be a b silent w2 = (Val (), ?w3)" using s by (cases "severTies be a b silent w2") simp
      ultimately show ?thesis unfolding wp_then [of _ "tail row"] by (metis wp_eval)
    qed
    have added: "social_wf ?X (w1\<lparr>Serial := n, Blocks := Blocks w1 @ [row]\<rparr>)" (is "social_wf _ ?w2")
      if w1: "social_wf {} w1" and row: "block_pair row = (a, b)" for w1 n row
    proof -
      have p: "fpairs ?w2 = fpairs w1" "rpairs ?w2 = rpairs w1" "bpairs ?w2 = insert (a, b) (bpairs w1)"
        using row by (simp_all add: fpairs_def rpairs_def bpairs_def)
      have "ties_ok ?X ?w2"
        using w1 unfolding social_wf_def ties_ok_def unblocked_def p by (auto simp: ball_Un)
      then show ?thesis using w1 by (simp add: social_wf_def members_ok_def counts_ok_def healthy_def p)
    qed
    have found: "wp (bind_act (BlockExists a b) (\<lambda>exists. then_act (reject_if exists ErrAlreadyBlocking)
        (bind_act (query Serial) (\<lambda>n. then_act (change (\<lambda>w. w\<lparr>Serial := Suc n\<rparr>))
          (then_act (CreateBlock \<lparr>BlockID = BlockNewID be n, BlockerID = a, BlockeeID = b\<rparr>)
          (then_act (severTies be a b silent) (tail \<lparr>BlockID = BlockNewID be n, BlockerID = a, BlockeeID = b\<rparr>)))))))
        (\<lambda>_. social_wf {}) (\<lambda>_. social_wf {}) w1" if w1: "social_wf {} w1" and ab: "a \<noteq> b" for w1
    proof -
      have h1: "healthy w1" using w1 by (simp add: social_wf_def)
      have h1': "healthy (w1\<lparr>Serial := n\<rparr>)" for n using h1 by (simp add: healthy_def)
      let ?row = "\<lparr>BlockID = BlockNewID be (Serial w1), BlockerID = a, BlockeeID = b\<rparr>"
      have row: "block_pair ?row = (a, b)" by (simp add: block_pair_def)
      have "wp (then_act (severTies be a b silent) (tail ?row)) (\<lambda>_. social_wf {}) (\<lambda>_. social_wf {})
          (w1\<lparr>Serial := Suc (Serial w1), Blocks := Blocks w1 @ [?row]\<rparr>)" if "Storable a" "Storable b"
        by (rule sever [OF added [OF w1 row] that ab])
      then show ?thesis using w1
        by (simp add: BlockExists_def wp_exists h1 CreateBlock_def wp_insert h1' row
            del: wp_then add: wp_then [of "reject_if c x" for c x] wp_then [of "change f" for f] wp_then [of "insert_stmt f g" for f g])
    qed
    show ?thesis unfolding keeps_true [OF True] blockUser_def Let_def tail_def [symmetric]
      using True found
      by (simp add: wp_then [of "reject_if c x" for c x] wp_then [of "findBlockee x y" for x y] del: wp_then wp_bind)
        (auto intro!: wp_mono [OF wf_findBlockee [OF True e]] simp del: wp_bind)
  qed (simp add: keeps_wf_def wp_state)
qed

end
