(* ===== verification/Social_Claims.thy ===== *)
theory Social_Claims imports Social_Runs begin

text \<open>
  The properties of following and blocking together: runs of requests to the two services
  (\<open>social_step\<close>), a block and the ties it severs, and accepting all requests at once.
\<close>

section \<open>Requests\<close>

datatype social_call =
    CallFollow string string follow_options
  | CallUnfollow string string
  | CallUnfollowWithoutNotify string string
  | CallUnfollowQuiet string string
  | CallAccept string string
  | CallReject string string
  | CallCancel string string
  | CallRemoteReject string string
  | CallAcceptAll string
  | CallBlock string string
  | CallBlockSilent string string
  | CallUnblock string string
  | TimePasses int
  | ProfileChanges string "profile option"
  | FlagsChange string bool bool

fun social_step :: "follow_wiring \<Rightarrow> block_wiring \<Rightarrow> social \<Rightarrow> social_call \<Rightarrow> social" where
  "social_step e be w (CallFollow a b opts) = snd (Follow e (Some IsBlocked) a b opts w)"
| "social_step e be w (CallUnfollow a b) = snd (Unfollow e a b w)"
| "social_step e be w (CallUnfollowWithoutNotify a b) = snd (UnfollowWithoutNotify e a b w)"
| "social_step e be w (CallUnfollowQuiet a b) = snd (UnfollowQuiet e a b w)"
| "social_step e be w (CallAccept b a) = snd (AcceptRequest e (Some IsBlocked) b a w)"
| "social_step e be w (CallReject b a) = snd (RejectRequest e b a w)"
| "social_step e be w (CallCancel a b) = snd (CancelRequest e a b w)"
| "social_step e be w (CallRemoteReject a b) = snd (RemoteReject e a b w)"
| "social_step e be w (CallAcceptAll b) = snd (AcceptAllRequests (Suc (length (Requests w))) e (Some IsBlocked) b w)"
| "social_step e be w (CallBlock a b) = snd (Block be a b w)"
| "social_step e be w (CallBlockSilent a b) = snd (BlockSilent be a b w)"
| "social_step e be w (CallUnblock a b) = snd (Unblock be a b w)"
| "social_step e be w (TimePasses d) = w\<lparr>Clock := Clock w + d\<rparr>"
| "social_step e be w (ProfileChanges u p) = w\<lparr>Profiles := (Profiles w)(u := p)\<rparr>"
| "social_step e be w (FlagsChange u locked isBot) =
     w\<lparr>Members := (Members w)(u := map_option (\<lambda>m. m\<lparr>IsLocked := locked, IsBot := isBot\<rparr>) (Members w u))\<rparr>"

section \<open>The invariant along a run\<close>

lemma filter_block_pairs: "block_pair ` set (filter (\<lambda>r. block_pair r \<noteq> p) rs) = block_pair ` set rs - {p}"
  by auto

lemma keep_Unblock: "moves (keeps_wf {}) (Unblock be a b)"
proof -
  have del: "moves (keeps_wf {}) (DeleteBlock x)" for x
    unfolding DeleteBlock_def
  proof (rule keep.moves_then [OF calm_keeps [OF calm_stmt]], rule keep.moves_change)
    fix w :: social
    let ?w' = "w\<lparr>Blocks := filter (\<lambda>r. block_pair r \<noteq> block_pair x) (Blocks w)\<rparr>"
    have p: "fpairs ?w' = fpairs w" "rpairs ?w' = rpairs w" "bpairs ?w' = bpairs w - {block_pair x}"
      by (simp_all add: fpairs_def rpairs_def bpairs_def filter_block_pairs del: set_filter)
    have "ties_ok {} ?w'" if "ties_ok {} w" by (rule ties_shrink [OF that]) (simp_all add: p Diff_subset)
    then show "keeps_wf {} w ?w'" by (simp add: keeps_wf_def social_wf_def counts_ok_def members_ok_def healthy_def p)
  qed
  show ?thesis unfolding Unblock_def
    by (intro keep.moves_then keep.moves_bind keep.moves_case_option keep.moves_reject_if keep.moves_stop keep_when del keep_calm)
qed

lemma wf_environment:
  assumes w: "social_wf {} w"
  shows "social_wf {} (w\<lparr>Clock := c\<rparr>)" "social_wf {} (w\<lparr>Profiles := ps\<rparr>)"
    "social_wf {} (w\<lparr>Members := (Members w)(u := map_option (\<lambda>m. m\<lparr>IsLocked := l, IsBot := b\<rparr>) (Members w u))\<rparr>)"
      (is "social_wf {} ?w'")
proof -
  have t: "ties_ok {} w" using w by (simp add: social_wf_def)
  have "ties_ok {} (w\<lparr>Clock := c\<rparr>)" "ties_ok {} (w\<lparr>Profiles := ps\<rparr>)" "ties_ok {} ?w'"
    by (rule ties_shrink [OF t]; auto simp: fpairs_def rpairs_def bpairs_def)+
  then show "social_wf {} (w\<lparr>Clock := c\<rparr>)" "social_wf {} (w\<lparr>Profiles := ps\<rparr>)" "social_wf {} ?w'"
    using w by (auto simp: social_wf_def counts_ok_def members_ok_def healthy_def fpairs_def isMoved_def)
qed

lemma wf_step:
  assumes e: "wired_together e be" and w: "social_wf {} w"
  shows "social_wf {} (social_step e be w c)"
proof (cases c)
  case (CallFollow a b opts)
  then show ?thesis using keep_Follow [of "{}" e a b opts] w by (simp add: moves_def keeps_wf_def)
next
  case (CallAccept b a)
  then show ?thesis using keep_AcceptRequest [of "{}" e b a] w by (simp add: moves_def keeps_wf_def)
next
  case (CallAcceptAll b)
  then show ?thesis using keep_AcceptAll [of "{}" _ e b] w by (simp add: moves_def keeps_wf_def)
next
  case (CallBlock a b)
  then show ?thesis using keep_blockUser [OF e] w by (simp add: moves_def keeps_wf_def Block_def)
next
  case (CallBlockSilent a b)
  then show ?thesis using keep_blockUser [OF e] w by (simp add: moves_def keeps_wf_def BlockSilent_def)
next
  case (CallUnblock a b)
  then show ?thesis using keep_Unblock w by (simp add: moves_def keeps_wf_def)
qed (use w keep_unfollow [of "{}" e] keep_requests [of "{}" e] keep_RemoteReject [of "{}" e] wf_environment [OF w] in
    \<open>simp_all add: moves_def keeps_wf_def Unfollow_def UnfollowWithoutNotify_def UnfollowQuiet_def RejectRequest_def CancelRequest_def\<close>)

interpretation social: stepping "social_step e be" "\<lambda>w. wired_together e be \<and> social_wf {} w" for e be
  by unfold_locales (simp add: wf_step)

lemma wf_means:
  assumes "social_wf {} w"
  shows "healthy w \<and> counts_ok w
    \<and> (\<forall>a b. (a, b) \<in> fpairs w \<union> rpairs w \<longrightarrow> a \<noteq> b \<and> Members w a \<noteq> None \<and> Members w b \<noteq> None \<and> unblocked w (a, b))
    \<and> fpairs w \<inter> rpairs w = {}"
proof -
  have t: "ties_ok {} w" using assms by (simp add: social_wf_def)
  have "a \<noteq> b \<and> Members w a \<noteq> None \<and> Members w b \<noteq> None \<and> unblocked w (a, b)" if "(a, b) \<in> fpairs w \<union> rpairs w" for a b
    using t [unfolded ties_ok_def, THEN conjunct2, THEN bspec, OF that] by simp
  then show ?thesis using assms t by (simp add: social_wf_def ties_ok_def)
qed

text \<open>C6. While the database answers, no sequence of requests breaks the graph: nobody follows or asks to follow
  themselves, no pair is at once a following and a pending request, no following and no request goes across a
  block in either direction, both ends are users of the table, and the follower and following counters of every user are the
  numbers of rows.  It starts from a graph of that kind in which no user has moved to another account (\<open>social_wf\<close>): the code
  leaves the counters alone when one of the two users has moved, so from then on they are not the numbers of rows.\<close>

theorem social_graph_runs:
  assumes "wired_together e be" and "social_wf {} w"
  shows "healthy (run_steps (social_step e be) w cs) \<and> counts_ok (run_steps (social_step e be) w cs) \<and>
    (\<forall>a b. (a, b) \<in> fpairs (run_steps (social_step e be) w cs) \<union> rpairs (run_steps (social_step e be) w cs) \<longrightarrow>
       a \<noteq> b \<and> Members (run_steps (social_step e be) w cs) a \<noteq> None \<and> Members (run_steps (social_step e be) w cs) b \<noteq> None
       \<and> unblocked (run_steps (social_step e be) w cs) (a, b)) \<and>
    fpairs (run_steps (social_step e be) w cs) \<inter> rpairs (run_steps (social_step e be) w cs) = {}"
proof -
  have "wired_together e be \<and> social_wf {} (run_steps (social_step e be) w cs)"
    by (rule social.run_keeps) (simp add: assms)
  then show ?thesis by (intro wf_means) simp
qed

definition all_hooks :: follow_wiring where
  "all_hooks = \<lparr>Federation = True, Chart = True, Webhook = True, PackedWebhook = True, MainStream = True,
     MeUpdated = True, RelationReload = True, Notifications = True, InstanceRepo = True, InstanceStats = Some True,
     SilentRepo = True, Silenced = None, ForceRemote = False, Packer = None, IDTime = (\<lambda>_. None),
     NewID = (\<lambda>n. show_nat n)\<rparr>"

definition block_hooks :: block_wiring where
  "block_hooks = \<lparr>BlockFederation = True, QuoteRevoker = True, BlockReload = True, ListRepo = True,
     Unfollower = Some (UnfollowForBlock all_hooks), Canceller = Some (CancelFollowRequestsBetween all_hooks),
     Materializer = None, BlockNewID = (\<lambda>n. show_nat n)\<rparr>"

definition local_user :: "string \<Rightarrow> bool \<Rightarrow> member" where
  "local_user u locked = \<lparr>MemberID = u, MemberHost = None, IsLocked = locked, IsBot = False, MovedToURI = None, CreatedAt = None\<rparr>"

definition two_users :: social where
  \<comment> \<open>\<open>b\<close> approves followers by hand\<close>
  "two_users = \<lparr>Members = [''a'' \<mapsto> local_user ''a'' False, ''b'' \<mapsto> local_user ''b'' True], Profiles = Map.empty,
     Followings = [], Requests = [], Blocks = [], SilentFollows = Map.empty, FollowingCount = (\<lambda>_. 0),
     FollowersCount = (\<lambda>_. 0), InstanceCounts = Map.empty, ListOwners = [], ListMembers = [], Outbox = [],
     Faults = [], Serial = 0, Clock = 0\<rparr>"

lemma two_users_wf: "social_wf {} two_users"
proof -
  have "Storable ''a''" "Storable ''b''"
    by (simp_all add: Storable_def bytes_def valid_utf8.simps(2) rune_at.simps(2))
  moreover have "Members two_users u = Some m \<longleftrightarrow> u = ''a'' \<and> m = local_user ''a'' False \<or> u = ''b'' \<and> m = local_user ''b'' True" for u m
    by (auto simp: two_users_def)
  ultimately have "members_ok two_users"
    unfolding members_ok_def by (auto simp: local_user_def isMoved_def)
  then show ?thesis
    by (simp add: social_wf_def healthy_def ties_ok_def counts_ok_def two_users_def fpairs_def rpairs_def)
qed

lemma hooks_wired: "wired_together all_hooks block_hooks"
  by (simp add: wired_together_def wired_to_def materializer_ok_def block_hooks_def)

definition plain_follow :: follow_options where
  "plain_follow = \<lparr>OptWithReplies = False, OptSilent = False\<rparr>"

theorem social_graph_runs_witness:
  "counts_ok (run_steps (social_step all_hooks block_hooks) two_users
     [CallFollow ''a'' ''b'' plain_follow, CallAccept ''b'' ''a'', CallBlock ''b'' ''a''])"
  using social_graph_runs [OF hooks_wired two_users_wf] by blast

definition no_new :: "social \<Rightarrow> social \<Rightarrow> bool" where
  "no_new w w' = (fpairs w' \<subseteq> fpairs w \<and> rpairs w' \<subseteq> rpairs w)"

interpretation nonew: transition no_new
  by unfold_locales (auto simp: no_new_def)

lemma fewer_no_new: "moves fewer_rows m \<Longrightarrow> moves no_new m"
  unfolding moves_def no_new_def using fewer_rows_pairs by blast

lemma no_new_blocks:
  assumes "wired_to be (UnfollowForBlock e) (CancelFollowRequestsBetween e)"
  shows "moves no_new (blockUser be a b silent)" "moves no_new (Unblock be a b)"
proof -
  note quiet' = fewer_no_new [OF same_rows_fewer]
  have found: "moves same_rows (findBlockee be u)" for u
    unfolding findBlockee_def materializeUserIfMissing_def
    by (intro rows.moves_rules rows.moves_change quiet) (simp add: same_rows_def)
  have change: "moves no_new (change f)" if "\<And>w. Followings (f w) = Followings w \<and> Requests (f w) = Requests w" for f :: "social \<Rightarrow> social"
    using that by (intro nonew.moves_change) (simp add: no_new_def fpairs_def rpairs_def)
  show "moves no_new (blockUser be a b silent)"
    unfolding blockUser_def Let_def CreateBlock_def insert_stmt_def publishBlockReload_def
    by (intro nonew.moves_bind nonew.moves_then nonew.moves_reject_if nonew.moves_query nonew.moves_ret change
        quiet' [OF found] quiet' [OF quiet_find(8)] quiet' [OF quiet_stmt] quiet' [OF quiet_when [OF quiet_emit]]
        fewer_no_new [OF fol.severTies_fewer [OF assms]]) simp_all
  show "moves no_new (Unblock be a b)"
    unfolding Unblock_def DeleteBlock_def
    by (intro nonew.moves_bind nonew.moves_then nonew.moves_reject_if nonew.moves_stop nonew.moves_case_option change
        quiet' [OF quiet_find(5)] quiet' [OF quiet_stmt] quiet' [OF quiet_when [OF quiet_emit]]) simp_all
qed

lemma step_guarded:
  assumes "wired_to be (UnfollowForBlock e) (CancelFollowRequestsBetween e)"
  shows "guarded w (social_step e be w c) \<or> no_new w (social_step e be w c)"
proof (cases c)
  case (CallBlock a b)
  then show ?thesis using no_new_blocks(1) [OF assms] by (simp add: moves_def Block_def)
next
  case (CallBlockSilent a b)
  then show ?thesis using no_new_blocks(1) [OF assms] by (simp add: moves_def BlockSilent_def)
next
  case (CallUnblock a b)
  then show ?thesis using no_new_blocks(2) [OF assms] by (simp add: moves_def)
next
  case (CallUnfollow a b)
  then show ?thesis using fewer_guarded [OF fewer_unfollow] by (simp add: moves_def Unfollow_def)
next
  case (CallUnfollowWithoutNotify a b)
  then show ?thesis using fewer_guarded [OF fewer_unfollow] by (simp add: moves_def UnfollowWithoutNotify_def)
next
  case (CallUnfollowQuiet a b)
  then show ?thesis using fewer_guarded [OF fewer_unfollow] by (simp add: moves_def UnfollowQuiet_def)
next
  case (CallReject b a)
  then show ?thesis using fewer_guarded [OF fewer_requests(1)] by (simp add: moves_def RejectRequest_def)
next
  case (CallCancel a b)
  then show ?thesis using fewer_guarded [OF fewer_requests(2)] by (simp add: moves_def CancelRequest_def)
next
  case (CallRemoteReject a b)
  then show ?thesis using fewer_guarded [OF fewer_RemoteReject] by (simp add: moves_def)
qed (use blk.guarded_Follow blk.guarded_AcceptRequest blk.guarded_AcceptAll in
    \<open>simp_all add: moves_def no_new_def fpairs_def rpairs_def\<close>)

text \<open>C21. A block is never crossed by a new tie, even when database statements fail: whatever request is handled, a
  following or a pending request that was not there before is between two users neither of whom blocks the other.\<close>

theorem new_ties_are_unblocked:
  assumes "wired_to be (UnfollowForBlock e) (CancelFollowRequestsBetween e)"
    and "(a, b) \<in> (fpairs (social_step e be w c) - fpairs w) \<union> (rpairs (social_step e be w c) - rpairs w)"
  shows "unblocked w (a, b)"
proof (cases "guarded w (social_step e be w c)")
  case True
  then show ?thesis using assms(2) unfolding guarded_def by blast
next
  case False
  then have "no_new w (social_step e be w c)" using step_guarded [OF assms(1), of w c] by blast
  then show ?thesis using assms(2) unfolding no_new_def by blast
qed

lemma storable_ab: "Storable ''a''" "Storable ''b''"
  by (simp_all add: Storable_def bytes_def valid_utf8.simps(2) rune_at.simps(2))

lemma asking:
  "wp (Follow all_hooks (Some IsBlocked) ''a'' ''b'' plain_follow)
     (\<lambda>_ w'. (''a'', ''b'') \<in> rpairs w') (\<lambda>_ w'. (''a'', ''b'') \<in> rpairs w') two_users"
  by (simp add: Follow_def FindMember_def lookup_stmt_def storable_ab two_users_def FollowLoaded_def
      FollowingExists_def exists_stmt_def checkBlocks_def IsBlocked_def BlockExists_def decideApproval_def
      needsApprovalByRules_def local_user_def shouldAutoAcceptFollow_def FindProfile_def optional_def
      createRequest_def RequestExists_def Generate_def CreateRequest_def insert_stmt_def Let_def
      publishFollowerLite_def publishMeUpdated_def all_hooks_def noApproval_def new_relation_def relation_pair_def
      rpairs_def IsLocal_def)

theorem new_ties_are_unblocked_witness: "unblocked two_users (''a'', ''b'')"
proof (rule new_ties_are_unblocked [of block_hooks all_hooks _ _ _ "CallFollow ''a'' ''b'' plain_follow"])
  show "wired_to block_hooks (UnfollowForBlock all_hooks) (CancelFollowRequestsBetween all_hooks)"
    using hooks_wired by (simp add: wired_together_def)
  have "(''a'', ''b'') \<in> rpairs (social_step all_hooks block_hooks two_users (CallFollow ''a'' ''b'' plain_follow))"
    using asking by (simp add: wp_state)
  moreover have "(''a'', ''b'') \<notin> rpairs two_users" by (simp add: rpairs_def two_users_def)
  ultimately show "(''a'', ''b'') \<in> (fpairs (social_step all_hooks block_hooks two_users (CallFollow ''a'' ''b'' plain_follow)) - fpairs two_users)
     \<union> (rpairs (social_step all_hooks block_hooks two_users (CallFollow ''a'' ''b'' plain_follow)) - rpairs two_users)" by blast
qed

text \<open>C35. A block that is reported as created severs everything between the two users and nothing else: the block is
  there and was not there before, no following and no pending request is left in either direction, and every other
  following, request and block is as it was; a refused block (oneself, an unknown user, a user already blocked)
  leaves all of them as they were.\<close>

theorem Block_severs:
  assumes "wired_to be (UnfollowForBlock e) (CancelFollowRequestsBetween e)" and "healthy w"
  shows "case blockUser be a b silent w of
      (Val row, w') \<Rightarrow> a \<noteq> b \<and> block_pair row = (a, b) \<and> (a, b) \<notin> bpairs w \<and> bpairs w' = insert (a, b) (bpairs w)
        \<and> fpairs w' = fpairs w - {(a, b), (b, a)} \<and> rpairs w' = rpairs w - {(a, b), (b, a)}
    | (Stop x, w') \<Rightarrow> Followings w' = Followings w \<and> Requests w' = Requests w \<and> Blocks w' = Blocks w
        \<and> x \<in> {Err ErrSelfBlock, Err ErrBlockeeNotFound, Err ErrAlreadyBlocking, Err ErrStatement}"
  using fol.wp_blockUser [OF assms, of a b silent]
  by (auto simp: wp_def block_added_def same_rows_def split: prod.splits res.splits)

lemma blocking_works: "wp (blockUser block_hooks ''b'' ''a'' False) (\<lambda>_ _. True) (\<lambda>_ _. False) two_users"
  by (simp add: blockUser_def findBlockee_def FindMember_def lookup_stmt_def storable_ab two_users_def BlockExists_def
      exists_stmt_def CreateBlock_def insert_stmt_def Let_def severTies_def unfollowForBlock_def block_hooks_def
      best_effort_def UnfollowForBlock_def ignoring_def unfollow_def FollowingByPair_def removeFromLists_def
      ListsContainingMember_def cancelBetween_def CancelFollowRequestsBetween_def cancelOneFollowRequest_def
      RequestByPair_def publishBlockReload_def)

theorem Block_severs_witness:
  "\<exists>row w'. blockUser block_hooks ''b'' ''a'' False two_users = (Val row, w') \<and> (''b'', ''a'') \<in> bpairs w'"
proof -
  have "wired_to block_hooks (UnfollowForBlock all_hooks) (CancelFollowRequestsBetween all_hooks)" "healthy two_users"
    using hooks_wired two_users_wf by (simp_all add: wired_together_def social_wf_def)
  from Block_severs [OF this, of "''b''" "''a''" False] blocking_works show ?thesis
    by (auto simp: wp_def split: prod.splits res.splits)
qed

section \<open>Accepting everything\<close>

definition may_accept :: "follow_wiring \<Rightarrow> profile option \<Rightarrow> int \<Rightarrow> string \<Rightarrow> social \<Rightarrow> string \<Rightarrow> bool" where
  \<comment> \<open>whom the account-age setting lets through\<close>
  "may_accept e p now v w u = (\<not> RequiresFollowApproval e p (the (Members w u)) now
     \<or> AutoAcceptFollowed (the p) \<and> (v, u) \<in> fpairs w)"

definition accepted :: "(string \<times> string) set \<Rightarrow> social \<Rightarrow> social \<Rightarrow> bool" where
  "accepted A w w' = (social_wf {} w' \<and> fpairs w' = fpairs w \<union> A \<and> rpairs w' = rpairs w - A
     \<and> Members w' = Members w \<and> Profiles w' = Profiles w \<and> Clock w' = Clock w)"

lemma request_facts:
  assumes "social_wf {} w" "(u, v) \<in> rpairs w"
  shows "u \<noteq> v" "\<exists>m. Members w u = Some m \<and> MemberID m = u" "Storable u" "Storable v" "unblocked w (u, v)" "unblocked w (v, u)"
proof -
  from assms have t: "ties_ok {} w" and m: "members_ok w" by (simp_all add: social_wf_def)
  from t [unfolded ties_ok_def, THEN conjunct2, THEN bspec, of "(u, v)"] assms(2)
  have x: "u \<noteq> v" "Members w u \<noteq> None" "Members w v \<noteq> None" "unblocked w (u, v)" by auto
  then show "u \<noteq> v" "unblocked w (u, v)" "unblocked w (v, u)" by (simp_all add: unblocked_def)
  from x(2,3) m show "\<exists>m. Members w u = Some m \<and> MemberID m = u" "Storable u" "Storable v"
    unfolding members_ok_def by blast+
qed

lemma wp_AcceptRequest:
  assumes w: "social_wf {} w" and r: "(u, v) \<in> rpairs w"
  shows "wp (AcceptRequest e (Some IsBlocked) v u) (\<lambda>_ w'. accepted {(u, v)} w w') (\<lambda>_ _. False) w"
proof -
  have h: "healthy w" using w by (simp add: social_wf_def)
  note f = request_facts [OF w r]
  obtain req where req: "find (\<lambda>r. relation_pair r = (u, v)) (Requests w) = Some req"
    using r by (metis find_pair not_None_eq rpairs_def)
  have p: "relation_pair req = (u, v)" "req \<in> set (Requests w)" using find_pair_Some [OF req] by simp_all
  have "accepted {(u, v)} w w'" if w': "social_wf {} w'" and g: "aside (grown (req\<lparr>RelationID := i\<rparr>) w) w'" for w' i
    using w' g p(1)
    by (auto simp: accepted_def aside_def grown_def fpairs_def rpairs_def filter_pairs relation_pair_def)
  then have "wp (acceptFound e req) (\<lambda>_ w'. accepted {(u, v)} w w') (\<lambda>_ _. False) w"
    using wp_conj [OF wf_acceptFound [OF w p, of e] acceptFound_grows [OF w p, of e]] f(5)
    by (auto elim!: wp_mono)
  moreover have "checkBlocks (Some IsBlocked) v u w = (Val (), w)"
    using h f by (auto simp: checkBlocks_def IsBlocked_def BlockExists_def exists_stmt_def act_defs stmt_def healthy_def
        unblocked_def bpairs_def)
  ultimately show ?thesis using f(3,4) req h
    by (simp add: AcceptRequest_def wp_eval [of "checkBlocks (Some IsBlocked) v u"] RequestByPair_def wp_lookup)
qed

lemma wp_maySkip:
  assumes w: "social_wf {} w" and m: "Members w u = Some m" and uv: "Storable u" "Storable v"
  shows "wp (maySkipApproval e p now v m) Q E w = Q (may_accept e p now v w u) w"
proof -
  have "healthy w" "MemberID m = u" using w m by (auto simp: social_wf_def members_ok_def)
  then show ?thesis using m uv
    by (simp add: maySkipApproval_def may_accept_def FollowingExists_def wp_exists fpairs_def)
qed

lemma accepted_trans:
  assumes "accepted A w w1" "accepted B w1 w'"
  shows "accepted (A \<union> B) w w'"
  using assms by (auto simp: accepted_def)

lemma may_accept_later:
  assumes "accepted A w w1" "\<And>x. (v, x) \<notin> A"
  shows "may_accept e p now v w1 u = may_accept e p now v w u"
  using assms by (simp add: accepted_def may_accept_def)

lemma wp_acceptEach:
  assumes "social_wf {} w" and "distinct (map relation_pair reqs)"
    and "\<And>r. r \<in> set reqs \<Longrightarrow> FolloweeID r = v \<and> (FollowerID r, v) \<in> rpairs w"
  shows "wp (acceptEach e (Some IsBlocked) p now v reqs)
    (\<lambda>_ w'. accepted {(FollowerID r, v) | r. r \<in> set reqs \<and> may_accept e p now v w (FollowerID r)} w w') (\<lambda>_ _. False) w"
  using assms
proof (induction reqs arbitrary: w)
  case Nil
  then show ?case by (simp add: accepted_def)
next
  case (Cons r rs)
  let ?u = "FollowerID r" let ?ok = "may_accept e p now v w"
  have r: "(?u, v) \<in> rpairs w" "FolloweeID r = v" using Cons.prems(3) by auto
  note f = request_facts [OF Cons.prems(1) r(1)]
  obtain m where m: "Members w ?u = Some m" using f(2) by blast
  have h: "healthy w" using Cons.prems(1) by (simp add: social_wf_def)
  let ?A = "if ?ok ?u then {(?u, v)} else {}"
  have head: "wp (when_act (?ok ?u) (ignoring {ErrRequestNotFound, ErrBlocked, ErrBlocking} (AcceptRequest e (Some IsBlocked) v ?u)))
      (\<lambda>_ w1. accepted ?A w w1) (\<lambda>_ _. False) w"
    using wp_AcceptRequest [OF Cons.prems(1) r(1), of e] Cons.prems(1)
    by (auto simp: ignoring_def accepted_def elim!: wp_mono)
  have tail: "wp (acceptEach e (Some IsBlocked) p now v rs)
      (\<lambda>_ w'. accepted {(FollowerID x, v) | x. x \<in> set (r # rs) \<and> ?ok (FollowerID x)} w w') (\<lambda>_ _. False) w1"
    if a: "accepted ?A w w1" for w1
  proof -
    have "(FollowerID x, v) \<in> rpairs w1" if x: "x \<in> set rs" for x
    proof -
      have "relation_pair x \<noteq> relation_pair r" using Cons.prems(2) x by (metis distinct.simps(2) imageI list.set_map list.simps(9))
      then have "FollowerID x \<noteq> ?u" using Cons.prems(3) x r(2) by (auto simp: relation_pair_def)
      then show ?thesis using a Cons.prems(3) x by (auto simp: accepted_def)
    qed
    then have "wp (acceptEach e (Some IsBlocked) p now v rs)
      (\<lambda>_ w'. accepted {(FollowerID x, v) | x. x \<in> set rs \<and> may_accept e p now v w1 (FollowerID x)} w1 w') (\<lambda>_ _. False) w1"
      using a Cons.prems(2,3) by (intro Cons.IH) (auto simp: accepted_def)
    moreover have "may_accept e p now v w1 x = ?ok x" for x
      using a f(1) by (intro may_accept_later [OF a]) auto
    moreover have "?A \<union> {(FollowerID x, v) | x. x \<in> set rs \<and> ?ok (FollowerID x)}
        = {(FollowerID x, v) | x. x \<in> set (r # rs) \<and> ?ok (FollowerID x)}" by auto
    ultimately show ?thesis by (auto elim!: wp_mono dest: accepted_trans [OF a])
  qed
  have "wp (when_act (?ok ?u) (ignoring {ErrRequestNotFound, ErrBlocked, ErrBlocking} (AcceptRequest e (Some IsBlocked) v ?u)))
      (\<lambda>_. wp (acceptEach e (Some IsBlocked) p now v rs)
        (\<lambda>_ w'. accepted {(FollowerID x, v) | x. x \<in> set (r # rs) \<and> ?ok (FollowerID x)} w w') (\<lambda>_ _. False)) (\<lambda>_ _. False) w"
    by (rule wp_mono [OF head]) (erule tail, assumption)
  then show ?case unfolding acceptEach.simps wp_then [of _ "acceptEach x y z u v w" for x y z u v w] wp_bind [of "FindMember x" for x]
      wp_FindMember [OF h]
    by (simp add: f(3) m wp_maySkip [OF Cons.prems(1) m f(3,4)] del: wp_when)
qed

section \<open>The pages\<close>

definition newest_first :: "string \<Rightarrow> relation list \<Rightarrow> relation list" where
  "newest_first v rs = rev (sort_key RelationID (filter (\<lambda>r. FolloweeID r = v) rs))"

lemma wp_ListReceived:
  assumes "healthy w"
  shows "wp (ListReceived v 100 [] t) Q E w =
    Q (take 100 (filter (\<lambda>r. t \<noteq> [] \<longrightarrow> RelationID r < t) (newest_first v (Requests w)))) w"
proof -
  have "filter (\<lambda>r. t \<noteq> [] \<longrightarrow> RelationID r < t) (newest_first v rs) =
      rev (sort_key RelationID (filter (\<lambda>r. FolloweeID r = v \<and> (t \<noteq> [] \<longrightarrow> RelationID r < t)) rs))" for rs
    by (simp add: newest_first_def rev_filter [symmetric] filter_sort)
  then show ?thesis using assms by (simp add: ListReceived_def healthy_def page_limit_def Let_def)
qed

lemma below_last:
  \<comment> \<open>in a strictly falling list, what is below the last of a prefix is the rest\<close>
  assumes "sorted_wrt (\<lambda>a b. key b < (key a :: 'a :: linorder)) xs" "0 < n" "n \<le> length xs"
  shows "filter (\<lambda>x. key x < key (last (take n xs))) xs = drop n xs"
proof -
  let ?p = "take n xs" let ?q = "drop n xs"
  have s: "sorted_wrt (\<lambda>a b. key b < key a) (?p @ ?q)" using assms(1) by simp
  have ne: "?p \<noteq> []" using assms(2,3) by auto
  have "\<not> key x < key (last ?p)" if mem: "x \<in> set ?p" for x
  proof -
    obtain i where i: "i < length ?p" "x = ?p ! i" using mem unfolding in_set_conv_nth by blast
    have p: "sorted_wrt (\<lambda>a b. key b < key a) ?p" using s unfolding sorted_wrt_append by (rule conjunct1)
    show ?thesis
    proof (cases "i = length ?p - 1")
      case True
      then show ?thesis using i last_conv_nth [OF ne] by simp
    next
      case False
      then have "i < length ?p - 1" "length ?p - 1 < length ?p" using i by linarith+
      then have "key (?p ! (length ?p - 1)) < key (?p ! i)" by (rule sorted_wrt_nth_less [OF p])
      then show ?thesis unfolding i(2) last_conv_nth [OF ne] by (rule order_less_not_sym)
    qed
  qed
  then have p: "filter (\<lambda>x. key x < key (last ?p)) ?p = []" by (simp add: filter_empty_conv)
  have q: "filter (\<lambda>x. key x < key (last ?p)) ?q = ?q"
    using s last_in_set [OF ne] unfolding sorted_wrt_append filter_id_conv by blast
  have "filter (\<lambda>x. key x < key (last ?p)) xs = filter (\<lambda>x. key x < key (last ?p)) (?p @ ?q)"
    by (simp del: filter_append)
  also have "\<dots> = ?q" unfolding filter_append p q by simp
  finally show ?thesis .
qed

lemma newest_first_falling:
  assumes "distinct (map RelationID rs)"
  shows "sorted_wrt (\<lambda>a b. RelationID b < RelationID a) (newest_first v rs)"
proof -
  let ?s = "sort_key RelationID (filter (\<lambda>r. FolloweeID r = v) rs)"
  have "distinct (map RelationID (filter (\<lambda>r. FolloweeID r = v) rs))" using assms by (rule distinct_map_filter)
  then have "distinct (map RelationID ?s)" by (simp add: distinct_map)
  then have "sorted_wrt (<) (map RelationID ?s)" by (simp add: strict_sorted_iff)
  then show ?thesis by (simp add: newest_first_def sorted_wrt_rev sorted_wrt_map)
qed

lemma wp_receivedPages:
  assumes h: "healthy w" and d: "distinct (map RelationID (Requests w))" and ne: "\<forall>r \<in> set (Requests w). RelationID r \<noteq> []"
  shows "k \<le> length (newest_first v (Requests w)) \<Longrightarrow>
    length (newest_first v (Requests w)) < k + 100 * n \<Longrightarrow>
    k = 0 \<and> t = [] \<or> 0 < k \<and> t = RelationID (last (take k (newest_first v (Requests w)))) \<Longrightarrow>
    wp (receivedPages n v t acc) Q E w = Q (acc @ drop k (newest_first v (Requests w))) w"
proof (induction n arbitrary: k t acc)
  case (Suc n)
  let ?xs = "newest_first v (Requests w)"
  have fall: "sorted_wrt (\<lambda>a b. RelationID b < RelationID a) ?xs" by (rule newest_first_falling [OF d])
  have sub: "set ?xs \<subseteq> set (Requests w)" by (auto simp: newest_first_def)
  have rest: "filter (\<lambda>r. t \<noteq> [] \<longrightarrow> RelationID r < t) ?xs = drop k ?xs"
  proof (cases "k = 0")
    case False
    then have t: "t = RelationID (last (take k ?xs))" and k: "0 < k" using Suc.prems(3) by auto
    have "last (take k ?xs) \<in> set ?xs" using k Suc.prems(1) by (intro in_set_takeD [OF last_in_set]) auto
    then have "RelationID (last (take k ?xs)) \<noteq> []" using ne sub by blast
    then have "t \<noteq> []" unfolding t .
    then show ?thesis using below_last [OF fall k Suc.prems(1)] t by simp
  qed (use Suc.prems(3) in simp)
  show ?case
  proof (cases "length (drop k ?xs) < 100")
    case True
    then show ?thesis by (simp add: acceptAllPageSize_def wp_ListReceived [OF h] rest)
  next
    case False
    then have k: "k + 100 \<le> length ?xs" by simp
    have "last (take 100 (drop k ?xs)) = last (take (k + 100) ?xs)"
      using k by (simp add: take_add) 
    then have "wp (receivedPages n v (RelationID (last (take 100 (drop k ?xs)))) (acc @ take 100 (drop k ?xs))) Q E w
        = Q ((acc @ take 100 (drop k ?xs)) @ drop (k + 100) ?xs) w"
      using k Suc.prems(2) by (intro Suc.IH) simp_all
    moreover have "(acc @ take 100 (drop k ?xs)) @ drop (k + 100) ?xs = acc @ drop k ?xs"
      using append_take_drop_id [of 100 "drop k ?xs"] by (simp add: add.commute)
    ultimately show ?thesis using False
      by (simp add: acceptAllPageSize_def wp_ListReceived [OF h] rest del: append_assoc)
  qed
qed simp

text \<open>C36. Unlocking an account drains its requests: with more pages allowed than there are requests, the call returns
  without an error, and exactly the requests whose sender passes the account-age setting, or is followed by an
  owner who accepts followed people at once, have become followings; the others are still pending and nothing else
  has changed. The paging misses none of them and repeats none, however many there are.\<close>

theorem AcceptAllRequests_drains:
  assumes w: "social_wf {} w" and v: "Storable v"
    and keys: "distinct (map RelationID (Requests w))" "\<forall>r \<in> set (Requests w). RelationID r \<noteq> []"
    and pairs: "distinct (map relation_pair (Requests w))" and fuel: "length (Requests w) < fuel"
  shows "case AcceptAllRequests fuel e (Some IsBlocked) v w of (r, w') \<Rightarrow>
    let A = {(u, x) \<in> rpairs w. x = v \<and> may_accept e (Profiles w v) (Clock w) v w u} in
      r = Val () \<and> fpairs w' = fpairs w \<union> A \<and> rpairs w' = rpairs w - A \<and> counts_ok w'"
proof -
  let ?xs = "newest_first v (Requests w)" let ?p = "Profiles w v"
  let ?A = "{(u, x) \<in> rpairs w. x = v \<and> may_accept e ?p (Clock w) v w u}"
  have h: "healthy w" using w by (simp add: social_wf_def)
  have len: "length ?xs \<le> length (Requests w)" by (simp add: newest_first_def)
  have pages: "wp (receivedPages fuel v [] []) Q E w = Q ?xs w" for Q E
    using wp_receivedPages [OF h keys, of 0 v fuel "[]" "[]" Q E] fuel len by simp
  have mem: "set ?xs = {r \<in> set (Requests w). FolloweeID r = v}" by (auto simp: newest_first_def)
  have A: "?A = {(FollowerID r, v) | r. r \<in> set ?xs \<and> may_accept e ?p (Clock w) v w (FollowerID r)}"
    by (auto simp: mem rpairs_def relation_pair_def image_iff)
  have "distinct (map relation_pair (filter (\<lambda>r. FolloweeID r = v) (Requests w)))" by (rule distinct_map_filter [OF pairs])
  then have d: "distinct (map relation_pair ?xs)"
    by (simp add: newest_first_def distinct_map rev_map [symmetric])
  have "wp (acceptEach e (Some IsBlocked) ?p (Clock w) v ?xs) (\<lambda>_ w'. accepted ?A w w') (\<lambda>_ _. False) w"
    unfolding A using mem by (intro wp_acceptEach [OF w d]) (auto simp: rpairs_def relation_pair_def image_iff)
  moreover have "accepted ?A w w" if "?xs = []" using w that unfolding A accepted_def by simp
  ultimately have "wp (AcceptAllRequests fuel e (Some IsBlocked) v) (\<lambda>_ w'. accepted ?A w w') (\<lambda>_ _. False) w"
    by (simp add: AcceptAllRequests_def pages FindProfile_def wp_lookup h v)
  then show ?thesis by (auto simp: wp_def accepted_def social_wf_def Let_def split: prod.splits res.splits)
qed


definition asked :: social where
  "asked = two_users\<lparr>Requests := [\<lparr>RelationID = ''r1'', FollowerID = ''a'', FolloweeID = ''b'', FollowerHost = None,
     FolloweeHost = None, WithReplies = False\<rparr>]\<rparr>"

lemma asked_pairs: "rpairs asked = {(''a'', ''b'')}" "fpairs asked = {}" "bpairs asked = {}"
    "Members asked = Members two_users" "Profiles asked = Map.empty"
    "FollowingCount asked = (\<lambda>_. 0)" "FollowersCount asked = (\<lambda>_. 0)" "Faults asked = []"
  by (simp_all add: asked_def two_users_def rpairs_def fpairs_def bpairs_def relation_pair_def)

lemma asked_wf: "social_wf {} asked"
proof -
  have "members_ok asked" using two_users_wf by (simp add: social_wf_def members_ok_def asked_pairs)
  moreover have "Members two_users ''a'' \<noteq> None" "Members two_users ''b'' \<noteq> None" by (simp_all add: two_users_def)
  then have "ties_ok {} asked" by (simp add: ties_ok_def asked_pairs unblocked_def)
  ultimately show ?thesis by (simp add: social_wf_def healthy_def counts_ok_def asked_pairs)
qed

theorem AcceptAllRequests_drains_witness:
  "let w' = snd (AcceptAllRequests 2 all_hooks (Some IsBlocked) ''b'' asked) in
     fpairs w' = {(''a'', ''b'')} \<and> rpairs w' = {}"
proof -
  have "{(u, x) \<in> rpairs asked. x = ''b'' \<and> may_accept all_hooks (Profiles asked ''b'') (Clock asked) ''b'' asked u} = {(''a'', ''b'')}"
    by (auto simp: asked_pairs may_accept_def RequiresFollowApproval_def)
  moreover have "length (Requests asked) < 2" "distinct (map RelationID (Requests asked))"
    "\<forall>r \<in> set (Requests asked). RelationID r \<noteq> []" "distinct (map relation_pair (Requests asked))"
    by (simp_all add: asked_def)
  ultimately show ?thesis
    using AcceptAllRequests_drains [OF asked_wf storable_ab(2), of 2 all_hooks]
    by (auto simp add: asked_pairs(1,2) Let_def split: prod.splits)
qed

end
