(* ===== verification/Note_Store.thy ===== *)
theory Note_Store imports Note_Visibility Col_Fit begin

text \<open>
  What posting, voting and reacting share: the notes table behind its lookup, the statements of a database
  that may fail, and the gate in front of both services (find the note, promote it when the
  database does not have it, check that the user may read it, check that its author does not block
  the user): the first lines of \<open>Vote\<close> in core/poll/poll_service.go and of \<open>Create\<close> in
  core/reaction/reaction_service.go.

  \<open>Failing\<close> holds for each coming statement whether it fails (none when the list is used up), and
  the error types of the two packages are one type.  The answers of other services are arguments:
  \<open>Follows\<close> is the follow lookup of \<open>CanSeeNote\<close>, \<open>BlockChecker\<close> the answer of \<open>IsBlocked\<close>
  (an error or a truth value) and \<open>Promoter id\<close> the note that \<open>EnsureNote\<close> inserts, if it does.
\<close>

section \<open>State\<close>

record reactor = account +
  reactorHost :: "string option"

record target = note_row +
  TargetID :: string
  TargetUserHost :: "string option"
  TargetReplyID :: "string option"
  TargetRenoteID :: "string option"
  TargetChannelID :: "string option"
  TargetText :: "string option"
  TargetCW :: "string option"
  TargetFileIDs :: "string list"
  TargetHasPoll :: bool
  ReactionAcceptance :: "string option"
  LocalOnly :: bool
  ThreadID :: "string option"
  ReplyUserHost :: "string option"
  RenoteUserID :: "string option"
  RenoteUserHost :: "string option"
  RenoteChannelID :: "string option"
  NoteTags :: "string list"
  NoteEmojis :: "string list"
  MentionedRemoteUsers :: "(string \<times> string option \<times> string \<times> string) list"
  RepliesCount :: int
  RenoteCount :: int

datatype note_error =
    ErrNoteNotFound | ErrNoteNotVisible | ErrAuthorBlocks | ErrDatabase | ErrUniqueRow
  | ErrCancelled | ErrNoPoll | ErrInvalidChoice | ErrPollExpired | ErrAlreadyVoted
  | ErrAlreadyReacted | ErrReactionNotFound | ErrCannotReactToPureRenote
  | ErrNoteContentRequired | ErrReplyTargetNotFound | ErrRenoteTargetNotFound | ErrCannotReplyToInvisibleNote
  | ErrCannotRenoteInvisibleNote | ErrChannelNotFound | ErrCannotRenoteToAPureRenote | ErrCannotReplyToAPureRenote
  | ErrCannotReplyToSpecifiedVisibility | ErrCannotCreateAlreadyExpiredPoll | ErrNoSuchFile
  | ErrCannotRenoteOutsideOfChannel | ErrContainsProhibitedWords | ErrContainsTooManyMentions | ErrNoteAccessDenied

record store =
  Failing :: "bool list"
  Targets :: "string \<Rightarrow> target option"
  Drawn :: nat
  Now :: int

type_synonym ('z, 'a) note_act = "('z store_scheme, note_error, 'a) act"

record gate =
  Follows :: follow_repository
  BlockChecker :: "(user_id \<Rightarrow> user_id \<Rightarrow> unit + bool) option"
  Promoter :: "(string \<Rightarrow> target option) option"

section \<open>Statements\<close>

definition db :: "('z, unit) note_act" where
  "db w = (case Failing w of [] \<Rightarrow> (Val (), w)
     | f # fs \<Rightarrow> (if f then Stop (Err ErrDatabase) else Val (), w\<lparr>Failing := fs\<rparr>))"

definition read_row :: "bool \<Rightarrow> ('z store_scheme \<Rightarrow> 'a option) \<Rightarrow> ('z, 'a option) note_act" where
  \<comment> \<open>a key that cannot be stored is not found, without a statement\<close>
  "read_row ok f = (if \<not> ok then ret None else then_act db (query f))"

definition ignore_error :: "('z, unit) note_act \<Rightarrow> ('z, unit) note_act" where
  "ignore_error m = bind_act (attempt m) (\<lambda>_. ret ())"

definition perform :: "bool \<Rightarrow> ('z, unit) note_act \<Rightarrow> ('z, unit) note_act" where
  "perform b m = (if b then m else ret ())"

definition draw :: "(nat \<Rightarrow> string) \<Rightarrow> ('z, string) note_act" where
  "draw newID = bind_act (query Drawn) (\<lambda>n. then_act (change (\<lambda>w. w\<lparr>Drawn := Suc n\<rparr>)) (ret (newID n)))"

section \<open>The gate\<close>

definition FindNote :: "string \<Rightarrow> ('z, target option) note_act" where
  "FindNote i = read_row (Storable i) (\<lambda>w. Targets w i)"

definition materializeIfMissing :: "gate \<Rightarrow> string \<Rightarrow> ('z, bool) note_act" where
  \<comment> \<open>called when the lookup found nothing\<close>
  "materializeIfMissing g i = (case Promoter g of None \<Rightarrow> ret False
     | Some ensure \<Rightarrow> (case ensure i of None \<Rightarrow> ret False
         | Some t \<Rightarrow> then_act (change (\<lambda>w. w\<lparr>Targets := (Targets w)(i \<mapsto> t)\<rparr>)) (ret True)))"

definition loadTarget :: "gate \<Rightarrow> string \<Rightarrow> ('z, target) note_act" where
  "loadTarget g i = bind_act (FindNote i) (\<lambda>t. case t of Some t \<Rightarrow> ret t
     | None \<Rightarrow> bind_act (materializeIfMissing g i) (\<lambda>promoted.
         if \<not> promoted then stop_with (Err ErrNoteNotFound)
         else bind_act (FindNote i) (\<lambda>t'. case t' of None \<Rightarrow> stop_with (Err ErrNoteNotFound) | Some t \<Rightarrow> ret t)))"

definition may_read :: "gate \<Rightarrow> reactor \<Rightarrow> target \<Rightarrow> bool" where
  "may_read g u t = CanSeeNote (Some (account.truncate u)) (Some (note_row.truncate t)) (Follows g)"

definition checkAuthorBlocks :: "gate \<Rightarrow> reactor \<Rightarrow> target \<Rightarrow> ('z, unit) note_act" where
  "checkAuthorBlocks g u t = (case BlockChecker g of None \<Rightarrow> ret ()
     | Some isBlocked \<Rightarrow>
         if noteUserID t = accountID u then ret ()
         else (case isBlocked (noteUserID t) (accountID u) of
             Inl _ \<Rightarrow> stop_with (Err ErrDatabase)
           | Inr blocked \<Rightarrow> reject_if blocked ErrAuthorBlocks))"

definition open_to :: "gate \<Rightarrow> reactor \<Rightarrow> target \<Rightarrow> bool" where
  \<comment> \<open>readable, and the author is known not to block the user\<close>
  "open_to g u t = (may_read g u t \<and> (case BlockChecker g of None \<Rightarrow> True
     | Some isBlocked \<Rightarrow> noteUserID t = accountID u \<or> isBlocked (noteUserID t) (accountID u) = Inr False))"

section \<open>Reading a call\<close>

definition intact :: "'z store_scheme \<Rightarrow> bool" where
  \<comment> \<open>no statement is going to fail\<close>
  "intact w = (Failing w = [])"

lemma wp_db [simp]:
  "wp db Q E w = (case Failing w of [] \<Rightarrow> Q () w
     | f # fs \<Rightarrow> if f then E (Err ErrDatabase) (w\<lparr>Failing := fs\<rparr>) else Q () (w\<lparr>Failing := fs\<rparr>))"
  by (simp add: wp_def db_def split: list.splits)

lemma wp_perform [simp]: "wp (perform b m) Q E w = (if b then wp m Q E w else Q () w)"
  by (simp add: perform_def)

lemma wp_ignore_error [simp]:
  "wp (ignore_error m) Q E w = wp m (\<lambda>_. Q ()) (\<lambda>e w'. case e of Err _ \<Rightarrow> Q () w' | _ \<Rightarrow> E e w') w"
proof -
  have "wp (ret ()) Q E = Q ()" by (rule ext) simp
  then show ?thesis by (simp add: ignore_error_def)
qed

lemma wp_draw [simp]: "wp (draw f) Q E w = Q (f (Drawn w)) (w\<lparr>Drawn := Suc (Drawn w)\<rparr>)"
  by (simp add: draw_def)

lemma wp_read_row: "intact w \<Longrightarrow> wp (read_row ok f) Q E w = Q (if ok then f w else None) w"
  by (simp add: read_row_def intact_def)

lemma wp_FindNote: "intact w \<Longrightarrow> wp (FindNote i) Q E w = Q (if Storable i then Targets w i else None) w"
  unfolding FindNote_def by (rule wp_read_row)

lemma wp_checkAuthorBlocks:
  "wp (checkAuthorBlocks g u t) Q E w = (case BlockChecker g of None \<Rightarrow> Q () w
     | Some f \<Rightarrow> if noteUserID t = accountID u \<or> f (noteUserID t) (accountID u) = Inr False then Q () w
         else E (Err (if f (noteUserID t) (accountID u) = Inr True then ErrAuthorBlocks else ErrDatabase)) w)"
  by (auto simp: checkAuthorBlocks_def split: option.splits sum.splits)

definition promotes_itself :: "gate \<Rightarrow> bool" where
  \<comment> \<open>a promoted note has the id it was asked for, which the database can hold\<close>
  "promotes_itself g = (\<forall>f i t. Promoter g = Some f \<longrightarrow> f i = Some t \<longrightarrow> TargetID t = i \<and> Storable i)"

definition more_targets :: "gate \<Rightarrow> 'z store_scheme \<Rightarrow> 'z store_scheme \<Rightarrow> bool" where
  \<comment> \<open>at most a note has been promoted\<close>
  "more_targets g w w' = (w' = w \<or> (\<exists>i t. Targets w i = None \<and> (\<exists>f. Promoter g = Some f \<and> f i = Some t)
      \<and> w' = w\<lparr>Targets := (Targets w)(i \<mapsto> t)\<rparr>))"

lemma wp_loadTarget:
  assumes "intact w" and "promotes_itself g"
  shows "wp (loadTarget g i) (\<lambda>t w'. more_targets g w w' \<and> Storable i \<and> Targets w' i = Some t)
      (\<lambda>e w'. more_targets g w w' \<and> e = Err ErrNoteNotFound) w"
proof -
  have "intact (w\<lparr>Targets := (Targets w)(i \<mapsto> t)\<rparr>)" for t using assms(1) by (simp add: intact_def)
  then show ?thesis using assms unfolding promotes_itself_def
    by (cases "Targets w i"; cases "Promoter g")
      (auto simp: loadTarget_def wp_FindNote materializeIfMissing_def more_targets_def split: option.splits)
qed

end
