(* ===== verification/Poll_Service.thy ===== *)
theory Poll_Service imports Note_Store "HOL-Library.Char_ord" "HOL-Library.List_Lexorder" begin

text \<open>
  Voting on polls (core/poll/poll_service.go), the worker that announces their end
  (core/poll/expiry_worker.go), and the repository statements both use (repository/poll.go,
  poll_vote.go, the migration of \<open>poll_vote\<close> for its unique index).

  The state extends the notes with the rows of \<open>poll\<close> and \<open>poll_vote\<close>, the users' hosts, and
  \<open>PollOutbox\<close>, what has gone out: stream events, deliveries and notifications.  \<open>votes\<close> is a
  database array of 32-bit integers: an element can be NULL, an assignment past its end fills the gap
  with NULLs, and a sum out of range makes the statement fail.
\<close>

section \<open>State\<close>

record poll =
  PollNoteID :: string
  ExpiresAt :: "int option"
  Multiple :: bool
  Choices :: "string list"
  Votes :: "int option list"
  PollUserID :: string
  NotifiedAt :: "int option"

record vote =
  VoteID :: string
  VoteUserID :: string
  VoteNoteID :: string
  VoteChoice :: int

datatype poll_effect =
    PollVoted string int string | SendVote string string int string | SendPollUpdate string
  | PollEnded string string string

record poll_store = store +
  Polls :: "poll list"
  VoteRows :: "vote list"
  UserHosts :: "string \<Rightarrow> string option option"
  PollOutbox :: "poll_effect list"

type_synonym 'a poll_act = "(poll_store, note_error, 'a) act"

record poll_wiring = gate +
  EventPub :: bool
  PollFederation :: bool
  NewVoteID :: "nat \<Rightarrow> string"

definition tell :: "poll_effect \<Rightarrow> unit poll_act" where
  "tell x = change (\<lambda>w. w\<lparr>PollOutbox := PollOutbox w @ [x]\<rparr>)"

section \<open>Repositories\<close>

definition FindByNoteID :: "string \<Rightarrow> poll option poll_act" where
  "FindByNoteID i = read_row (Storable i) (\<lambda>w. find (\<lambda>p. PollNoteID p = i) (Polls w))"

definition int4 :: "int \<Rightarrow> bool" where
  "int4 x = (- (2 ^ 31) \<le> x \<and> x < 2 ^ 31)"

definition add_at :: "nat \<Rightarrow> int \<Rightarrow> int option list \<Rightarrow> int option list" where
  "add_at i d vs = (let vs' = vs @ replicate (Suc i - length vs) None in vs'[i := map_option ((+) d) (vs' ! i)])"

definition overflows :: "nat \<Rightarrow> int \<Rightarrow> int option list \<Rightarrow> bool" where
  "overflows i d vs = (i < length vs \<and> (case vs ! i of None \<Rightarrow> False | Some v \<Rightarrow> \<not> int4 (v + d)))"

definition update_poll :: "string \<Rightarrow> (poll \<Rightarrow> poll) \<Rightarrow> unit poll_act" where
  "update_poll i f = change (\<lambda>w. w\<lparr>Polls := map (\<lambda>p. if PollNoteID p = i then f p else p) (Polls w)\<rparr>)"

definition IncrementVote :: "string \<Rightarrow> int \<Rightarrow> int \<Rightarrow> unit poll_act" where
  "IncrementVote i choice delta = then_act db
     (bind_act (query (\<lambda>w. \<exists>p \<in> set (Polls w). PollNoteID p = i \<and> overflows (nat choice) delta (Votes p))) (\<lambda>bad.
     then_act (reject_if bad ErrDatabase) (update_poll i (\<lambda>p. p\<lparr>Votes := add_at (nat choice) delta (Votes p)\<rparr>))))"

definition UpdateVotes :: "string \<Rightarrow> int list \<Rightarrow> unit poll_act" where
  \<comment> \<open>the counts a remote server reports; one outside the column's 32 bits fails the statement if there is a row\<close>
  "UpdateVotes i counts = then_act db
     (bind_act (query (\<lambda>w. (\<exists>p \<in> set (Polls w). PollNoteID p = i) \<and> \<not> list_all int4 counts)) (\<lambda>bad.
     then_act (reject_if bad ErrDatabase) (update_poll i (\<lambda>p. p\<lparr>Votes := map Some counts\<rparr>))))"

definition ListExpiredUnnotified :: "int \<Rightarrow> int \<Rightarrow> poll list poll_act" where
  "ListExpiredUnnotified now limit = then_act db (query (\<lambda>w.
     take (if limit \<le> 0 then 100 else nat limit) (sort_key (\<lambda>p. the (ExpiresAt p))
       (filter (\<lambda>p. ExpiresAt p \<noteq> None \<and> the (ExpiresAt p) < now \<and> NotifiedAt p = None) (Polls w)))))"

definition MarkNotified :: "string \<Rightarrow> int \<Rightarrow> unit poll_act" where
  "MarkNotified i t = then_act db (update_poll i (\<lambda>p. p\<lparr>NotifiedAt := Some t\<rparr>))"

definition FindByUserAndChoice :: "string \<Rightarrow> string \<Rightarrow> int \<Rightarrow> vote option poll_act" where
  "FindByUserAndChoice u i choice = read_row (Storable u \<and> Storable i)
     (\<lambda>w. find (\<lambda>v. VoteUserID v = u \<and> VoteNoteID v = i \<and> VoteChoice v = choice) (VoteRows w))"

definition CountByUserAndNote :: "string \<Rightarrow> string \<Rightarrow> nat poll_act" where
  "CountByUserAndNote u i = then_act db (then_act (reject_if (\<not> Storable u \<or> \<not> Storable i) ErrDatabase)
     (query (\<lambda>w. length (filter (\<lambda>v. VoteUserID v = u \<and> VoteNoteID v = i) (VoteRows w)))))"

definition CreateVote :: "vote \<Rightarrow> unit poll_act" where
  \<comment> \<open>unique in user, note and choice\<close>
  "CreateVote v = then_act db (then_act (reject_if (\<not> Storable (VoteUserID v) \<or> \<not> Storable (VoteNoteID v)) ErrDatabase)
     (bind_act (query (\<lambda>w. \<exists>x \<in> set (VoteRows w). VoteUserID x = VoteUserID v
       \<and> VoteNoteID x = VoteNoteID v \<and> VoteChoice x = VoteChoice v)) (\<lambda>dup.
     then_act (reject_if dup ErrUniqueRow) (change (\<lambda>w. w\<lparr>VoteRows := VoteRows w @ [v]\<rparr>)))))"

definition ListVotes :: "string \<Rightarrow> vote list poll_act" where
  "ListVotes i = then_act db (query (\<lambda>w. sort_key VoteID (filter (\<lambda>v. VoteNoteID v = i) (VoteRows w))))"

section \<open>Voting\<close>

definition expired :: "poll \<Rightarrow> int \<Rightarrow> bool" where
  "expired p now = (case ExpiresAt p of None \<Rightarrow> False | Some e \<Rightarrow> \<not> now < e)"

definition findPoll :: "poll_wiring \<Rightarrow> reactor \<Rightarrow> string \<Rightarrow> (target \<times> poll) poll_act" where
  \<comment> \<open>the guards up to the poll row\<close>
  "findPoll e u noteID = bind_act (loadTarget (gate.truncate e) noteID) (\<lambda>t.
     then_act (reject_if (\<not> may_read (gate.truncate e) u t) ErrNoteNotVisible)
     (then_act (reject_if (\<not> TargetHasPoll t) ErrNoPoll)
     (then_act (checkAuthorBlocks (gate.truncate e) u t)
     (bind_act (FindByNoteID (TargetID t)) (\<lambda>p. case p of
         None \<Rightarrow> stop_with (Err ErrNoPoll) | Some p \<Rightarrow> ret (t, p))))))"

definition checkVote :: "reactor \<Rightarrow> target \<Rightarrow> poll \<Rightarrow> int \<Rightarrow> unit poll_act" where
  \<comment> \<open>expiry before range; a failing lookup counts as no vote yet\<close>
  "checkVote u t p choice = bind_act (query Now) (\<lambda>now.
     then_act (reject_if (expired p now) ErrPollExpired)
     (then_act (reject_if (choice < 0 \<or> int (length (Choices p)) \<le> choice) ErrInvalidChoice)
     (bind_act (attempt (FindByUserAndChoice (accountID u) (TargetID t) choice)) (\<lambda>r.
     then_act (reject_if (case r of Val (Some _) \<Rightarrow> True | _ \<Rightarrow> False) ErrAlreadyVoted)
     (if Multiple p then ret ()
      else bind_act (CountByUserAndNote (accountID u) (TargetID t)) (\<lambda>n. reject_if (0 < n) ErrAlreadyVoted))))))"

definition insertVote :: "poll_wiring \<Rightarrow> reactor \<Rightarrow> target \<Rightarrow> int \<Rightarrow> unit poll_act" where
  "insertVote e u t choice = bind_act (draw (NewVoteID e)) (\<lambda>i.
     CreateVote \<lparr>VoteID = i, VoteUserID = accountID u, VoteNoteID = TargetID t, VoteChoice = choice\<rparr>)"

definition announceVote :: "poll_wiring \<Rightarrow> reactor \<Rightarrow> target \<Rightarrow> poll \<Rightarrow> int \<Rightarrow> unit poll_act" where
  "announceVote e u t p choice =
     then_act (perform (EventPub e) (tell (PollVoted (TargetID t) choice (accountID u))))
     (perform (PollFederation e)
       (if TargetUserHost t \<noteq> None \<and> TargetUserHost t \<noteq> Some []
        then tell (SendVote (accountID u) (TargetID t) choice (Choices p ! nat choice))
        else tell (SendPollUpdate (TargetID t))))"

definition castVote :: "poll_wiring \<Rightarrow> reactor \<Rightarrow> target \<Rightarrow> poll \<Rightarrow> int \<Rightarrow> unit poll_act" where
  \<comment> \<open>a failed increment is dropped\<close>
  "castVote e u t p choice = then_act (insertVote e u t choice)
     (then_act (ignore_error (IncrementVote (TargetID t) choice 1)) (announceVote e u t p choice))"

definition Vote :: "poll_wiring \<Rightarrow> reactor \<Rightarrow> string \<Rightarrow> int \<Rightarrow> unit poll_act" where
  "Vote e u noteID choice = bind_act (findPoll e u noteID) (\<lambda>(t, p).
     then_act (checkVote u t p choice) (castVote e u t p choice))"

section \<open>Announcing the end\<close>

record poll_worker =
  WorkerVotes :: bool
  WorkerNotes :: bool
  WorkerUsers :: bool
  Notifier :: "(string \<Rightarrow> bool) option"
  BatchSize :: int

definition NewExpiryWorker :: "bool \<Rightarrow> bool \<Rightarrow> bool \<Rightarrow> (string \<Rightarrow> bool) option \<Rightarrow> int \<Rightarrow> poll_worker" where
  "NewExpiryWorker votes notes users notifier batch = \<lparr>WorkerVotes = votes, WorkerNotes = notes, WorkerUsers = users,
     Notifier = notifier, BatchSize = (if batch \<le> 0 then 100 else batch)\<rparr>"

definition pollTargets :: "poll_worker \<Rightarrow> poll \<Rightarrow> string list poll_act" where
  \<comment> \<open>the author and the voters, each once; the code's set has no order, here it is the rows'\<close>
  "pollTargets k p = (if \<not> WorkerVotes k then ret [PollUserID p]
     else bind_act (attempt (ListVotes (PollNoteID p))) (\<lambda>r. ret (case r of
         Val vs \<Rightarrow> remdups (PollUserID p # map VoteUserID vs) | Stop _ \<Rightarrow> [PollUserID p])))"

definition pollVisibility :: "poll_worker \<Rightarrow> poll \<Rightarrow> string poll_act" where
  "pollVisibility k p = (if \<not> WorkerNotes k then ret []
     else bind_act (attempt (FindNote (PollNoteID p))) (\<lambda>r. ret (case r of
         Val (Some t) \<Rightarrow> noteVisibility t | _ \<Rightarrow> [])))"

definition isLocalUser :: "poll_worker \<Rightarrow> string \<Rightarrow> bool poll_act" where
  "isLocalUser k uid = (if \<not> WorkerUsers k then ret True
     else bind_act (attempt (read_row (Storable uid) (\<lambda>w. UserHosts w uid))) (\<lambda>r. ret (case r of
         Val (Some h) \<Rightarrow> h = None \<or> h = Some [] | _ \<Rightarrow> False)))"

fun notifyUsers :: "poll_worker \<Rightarrow> string \<Rightarrow> string \<Rightarrow> string list \<Rightarrow> unit poll_act" where
  "notifyUsers k i vis [] = ret ()"
| "notifyUsers k i vis (uid # uids) = then_act
     (bind_act (isLocalUser k uid) (\<lambda>here. perform (here \<and> (case Notifier k of None \<Rightarrow> False | Some accepts \<Rightarrow> accepts uid))
        (tell (PollEnded uid i vis))))
     (notifyUsers k i vis uids)"

definition notifyOne :: "poll_worker \<Rightarrow> poll \<Rightarrow> int \<Rightarrow> unit poll_act" where
  "notifyOne k p now = bind_act (pollTargets k p) (\<lambda>uids. bind_act (pollVisibility k p) (\<lambda>vis.
     then_act (notifyUsers k (PollNoteID p) vis uids) (ignore_error (MarkNotified (PollNoteID p) now))))"

fun notifyEach :: "poll_worker \<Rightarrow> nat option \<Rightarrow> int \<Rightarrow> poll list \<Rightarrow> unit poll_act" where
  \<comment> \<open>the context is cancelled after so many polls, if it is\<close>
  "notifyEach k cancel now [] = ret ()"
| "notifyEach k cancel now (p # ps) = (if cancel = Some 0 then stop_with (Err ErrCancelled)
     else then_act (notifyOne k p now) (notifyEach k (map_option (\<lambda>n. n - 1) cancel) now ps))"

definition Tick :: "poll_worker \<Rightarrow> nat option \<Rightarrow> unit poll_act" where
  "Tick k cancel = bind_act (query Now) (\<lambda>now. bind_act (ListExpiredUnnotified now (BatchSize k))
     (\<lambda>ps. notifyEach k cancel now ps))"

end
