(* ===== verification/Poll_Claims.thy ===== *)
theory Poll_Claims imports Poll_Service begin

text \<open>
  Properties of polls: the invariant of every run of votes, ticks of the worker and passing time on
  a database whose statements succeed; the announcement of every expired poll; and what two
  concurrent votes of one user do to a single-choice poll.
\<close>

section \<open>Runs\<close>

datatype poll_event = VoteBy reactor string int | Ticking "nat option" | Later nat

fun poll_step :: "poll_wiring \<Rightarrow> poll_worker \<Rightarrow> poll_store \<Rightarrow> poll_event \<Rightarrow> poll_store" where
  "poll_step e k w (VoteBy u i c) = snd (Vote e u i c w)"
| "poll_step e k w (Ticking cancel) = snd (Tick k cancel w)"
| "poll_step e k w (Later d) = w\<lparr>Now := Now w + int d\<rparr>"

definition votes_for :: "poll_store \<Rightarrow> string \<Rightarrow> int \<Rightarrow> nat" where
  "votes_for w i c = length (filter (\<lambda>v. VoteNoteID v = i \<and> VoteChoice v = c) (VoteRows w))"

definition votes_of :: "poll_store \<Rightarrow> string \<Rightarrow> string \<Rightarrow> nat" where
  "votes_of w i u = length (filter (\<lambda>v. VoteUserID v = u \<and> VoteNoteID v = i) (VoteRows w))"

definition endings :: "poll_store \<Rightarrow> string \<Rightarrow> string \<Rightarrow> nat" where
  \<comment> \<open>how often the user was told that the poll has ended\<close>
  "endings w i u = length (filter (\<lambda>x. case x of PollEnded v j _ \<Rightarrow> v = u \<and> j = i | _ \<Rightarrow> False) (PollOutbox w))"

definition here_user :: "poll_store \<Rightarrow> string \<Rightarrow> bool" where
  "here_user w u = (Storable u \<and> (UserHosts w u = Some None \<or> UserHosts w u = Some (Some [])))"

definition takes_part :: "poll_store \<Rightarrow> poll \<Rightarrow> string \<Rightarrow> bool" where
  "takes_part w p u = (u = PollUserID p \<or> (\<exists>v \<in> set (VoteRows w). VoteNoteID v = PollNoteID p \<and> VoteUserID v = u))"

definition tally_ok :: "poll_store \<Rightarrow> poll \<Rightarrow> bool" where
  \<comment> \<open>the counters are the numbers of votes, up to the largest integer of the column\<close>
  "tally_ok w p = (length (Votes p) = length (Choices p) \<and>
     (\<forall>i < length (Choices p). Votes p ! i = Some (min (int (votes_for w (PollNoteID p) (int i))) (2 ^ 31 - 1))))"

definition single_ok :: "poll_store \<Rightarrow> poll \<Rightarrow> bool" where
  "single_ok w p = (Multiple p \<or> (\<forall>u. votes_of w (PollNoteID p) u \<le> 1))"

definition ended_ok :: "poll_store \<Rightarrow> poll \<Rightarrow> bool" where
  "ended_ok w p = (case NotifiedAt p of
       None \<Rightarrow> (\<forall>u. endings w (PollNoteID p) u = 0)
     | Some _ \<Rightarrow> expired p (Now w) \<and> (\<forall>u. endings w (PollNoteID p) u = of_bool (takes_part w p u \<and> here_user w u)))"

definition poll_rows_ok :: "poll_store \<Rightarrow> bool" where
  "poll_rows_ok w = (distinct (map PollNoteID (Polls w))
     \<and> distinct (map (\<lambda>v. (VoteUserID v, VoteNoteID v, VoteChoice v)) (VoteRows w))
     \<and> (\<forall>v \<in> set (VoteRows w). \<exists>p \<in> set (Polls w). PollNoteID p = VoteNoteID v
          \<and> 0 \<le> VoteChoice v \<and> VoteChoice v < int (length (Choices p))))"

definition polls_wf :: "poll_store \<Rightarrow> bool" where
  "polls_wf w = (intact w \<and> poll_rows_ok w \<and> (\<forall>p \<in> set (Polls w). tally_ok w p \<and> single_ok w p \<and> ended_ok w p))"

definition full_worker :: "poll_worker \<Rightarrow> bool" where
  \<comment> \<open>everything wired, and the notifier accepts every user\<close>
  "full_worker k = (WorkerVotes k \<and> WorkerUsers k \<and> (\<exists>f. Notifier k = Some f \<and> (\<forall>u. f u)) \<and> 0 < BatchSize k)"

section \<open>A vote\<close>

definition same_polls :: "poll_store \<Rightarrow> poll_store \<Rightarrow> bool" where
  \<comment> \<open>at most a note has been promoted\<close>
  "same_polls w w' = (\<exists>ts. w' = w\<lparr>Targets := ts\<rparr>)"

lemma polls_wf_targets [simp]: "polls_wf (w\<lparr>Targets := ts\<rparr>) = polls_wf w"
  by (simp add: polls_wf_def intact_def poll_rows_ok_def tally_ok_def single_ok_def ended_ok_def votes_for_def
      votes_of_def endings_def takes_part_def here_user_def cong: option.case_cong)

lemma more_targets_same: "more_targets g w w' \<Longrightarrow> same_polls w w'"
  by (cases w) (auto simp: more_targets_def same_polls_def)

lemma wp_findPoll:
  assumes w: "intact w" and g: "promotes_itself (gate.truncate e)"
  shows "wp (findPoll e u i)
      (\<lambda>(t, p) w'. same_polls w w' \<and> p \<in> set (Polls w) \<and> PollNoteID p = TargetID t \<and> Storable (TargetID t)
         \<and> open_to (gate.truncate e) u t \<and> TargetHasPoll t)
      (\<lambda>_ w'. same_polls w w') w"
proof -
  let ?g = "gate.truncate e"
  have "wp (loadTarget ?g i) (\<lambda>t w'. same_polls w w') (\<lambda>_ w'. same_polls w w') w"
    using wp_loadTarget [OF w g] by (rule wp_mono) (auto dest: more_targets_same)
  moreover have "wp (findPoll e u i) Q E w = wp (loadTarget ?g i) (\<lambda>t w'. wp (then_act (reject_if (\<not> may_read ?g u t) ErrNoteNotVisible)
     (then_act (reject_if (\<not> TargetHasPoll t) ErrNoPoll)
     (then_act (checkAuthorBlocks ?g u t)
     (bind_act (FindByNoteID (TargetID t)) (\<lambda>p. case p of
         None \<Rightarrow> stop_with (Err ErrNoPoll) | Some p \<Rightarrow> ret (t, p)))))) Q E w') E w" for Q E
    by (simp only: findPoll_def wp_bind)
  moreover have "intact w'" "Polls w' = Polls w" if "same_polls w w'" for w'
    using w that by (auto simp: same_polls_def intact_def)
  ultimately show ?thesis
    by (auto elim!: wp_mono simp: wp_checkAuthorBlocks open_to_def FindByNoteID_def wp_read_row find_Some_iff
        split: option.splits)
qed


definition may_vote :: "poll_store \<Rightarrow> reactor \<Rightarrow> poll \<Rightarrow> int \<Rightarrow> bool" where
  "may_vote w u p c = (\<not> expired p (Now w) \<and> 0 \<le> c \<and> c < int (length (Choices p))
     \<and> (Multiple p \<or> votes_of w (PollNoteID p) (accountID u) = 0))"

lemma wp_checkVote:
  assumes "intact w" "PollNoteID p = TargetID t"
  shows "wp (checkVote u t p c) (\<lambda>_ w'. w' = w \<and> may_vote w u p c) (\<lambda>_ w'. w' = w) w"
  using assms
  by (auto simp: checkVote_def FindByUserAndChoice_def wp_read_row CountByUserAndNote_def may_vote_def votes_of_def
      intact_def expired_def split: option.splits)

definition counted_vote :: "string \<Rightarrow> int \<Rightarrow> poll \<Rightarrow> poll" where
  \<comment> \<open>the row after a successful or overflowing increment\<close>
  "counted_vote i c p = (if PollNoteID p = i \<and> \<not> overflows (nat c) 1 (Votes p)
     then p\<lparr>Votes := add_at (nat c) 1 (Votes p)\<rparr> else p)"

definition with_vote :: "vote \<Rightarrow> poll_effect list \<Rightarrow> poll_store \<Rightarrow> poll_store" where
  "with_vote v xs w = w\<lparr>Drawn := Suc (Drawn w), VoteRows := VoteRows w @ [v],
     Polls := map (counted_vote (VoteNoteID v) (VoteChoice v)) (Polls w), PollOutbox := PollOutbox w @ xs\<rparr>"

lemma unique_row:
  assumes "distinct (map f xs)" "x \<in> set xs" "y \<in> set xs" "f x = f y"
  shows "x = y"
  using assms by (auto simp: distinct_map inj_on_def)

lemma counted_all:
  assumes "distinct (map PollNoteID ps)" "p \<in> set ps"
  shows "(if \<exists>q \<in> set ps. PollNoteID q = PollNoteID p \<and> overflows (nat c) 1 (Votes q) then ps
      else map (\<lambda>q. if PollNoteID q = PollNoteID p then q\<lparr>Votes := add_at (nat c) 1 (Votes q)\<rparr> else q) ps)
    = map (counted_vote (PollNoteID p) c) ps"
proof -
  have eq: "q = p" if "q \<in> set ps" "PollNoteID q = PollNoteID p" for q
    using unique_row [OF assms(1) that(1) assms(2) that(2)] .
  show ?thesis
  proof (cases "overflows (nat c) 1 (Votes p)")
    case True
    then have "map (counted_vote (PollNoteID p) c) ps = map id ps"
      by (intro map_cong refl) (auto simp: counted_vote_def dest: eq)
    then show ?thesis using True assms(2) by auto
  next
    case False
    then have "\<not> (\<exists>q \<in> set ps. PollNoteID q = PollNoteID p \<and> overflows (nat c) 1 (Votes q))" using eq by blast
    then show ?thesis using False by (auto simp: counted_vote_def dest: eq)
  qed
qed

lemma wp_insertVote:
  assumes "intact w"
  shows "wp (insertVote e u t c)
      (\<lambda>_ w'. \<exists>v. w' = w\<lparr>Drawn := Suc (Drawn w), VoteRows := VoteRows w @ [v]\<rparr> \<and> VoteUserID v = accountID u
         \<and> VoteNoteID v = TargetID t \<and> VoteChoice v = c
         \<and> (\<forall>x \<in> set (VoteRows w). (VoteUserID x, VoteNoteID x, VoteChoice x) \<noteq> (accountID u, TargetID t, c)))
      (\<lambda>_ w'. w' = w\<lparr>Drawn := Suc (Drawn w)\<rparr>) w"
  using assms by (auto simp: insertVote_def CreateVote_def intact_def)

lemma wp_count:
  assumes "intact w" "distinct (map PollNoteID (Polls w))" "p \<in> set (Polls w)"
  shows "wp (ignore_error (IncrementVote (PollNoteID p) c 1)) Q E w
    = Q () (w\<lparr>Polls := map (counted_vote (PollNoteID p) c) (Polls w)\<rparr>)"
  unfolding counted_all [OF assms(2,3), of c, symmetric] using assms(1)
  by (auto simp: IncrementVote_def update_poll_def intact_def)

lemma wp_announceVote:
  "wp (announceVote e u t p c) (\<lambda>_ w'. \<exists>xs. w' = w\<lparr>PollOutbox := PollOutbox w @ xs\<rparr>
      \<and> (\<forall>x \<in> set xs. \<forall>a b vis. x \<noteq> PollEnded a b vis)) (\<lambda>_ _. False) w"
proof -
  have "\<exists>xs. w\<lparr>PollOutbox := PollOutbox w @ ys\<rparr> = w\<lparr>PollOutbox := PollOutbox w @ xs\<rparr> \<and> (\<forall>x \<in> set xs. \<forall>a b vis. x \<noteq> PollEnded a b vis)"
    if "\<forall>x \<in> set ys. \<forall>a b vis. x \<noteq> PollEnded a b vis" for ys using that by blast
  from this [of "[]"] this [of "[_]"] this [of "[_, _]"] show ?thesis
    by (simp add: announceVote_def tell_def)
qed

lemma wp_castVote:
  \<comment> \<open>\<open>p0\<close> is the row the checks have seen\<close>
  assumes w: "intact w" and d: "distinct (map PollNoteID (Polls w))" and p: "p \<in> set (Polls w)" "PollNoteID p = TargetID t"
  shows "wp (castVote e u t p0 c)
      (\<lambda>_ w'. \<exists>v xs. w' = with_vote v xs w \<and> VoteUserID v = accountID u \<and> VoteNoteID v = PollNoteID p \<and> VoteChoice v = c
         \<and> (\<forall>x \<in> set (VoteRows w). (VoteUserID x, VoteNoteID x, VoteChoice x) \<noteq> (accountID u, PollNoteID p, c))
         \<and> (\<forall>x \<in> set xs. \<forall>a b vis. x \<noteq> PollEnded a b vis))
      (\<lambda>_ w'. w' = w\<lparr>Drawn := Suc (Drawn w)\<rparr>) w"
proof -
  have tail: "wp (then_act (ignore_error (IncrementVote (TargetID t) c 1)) (announceVote e u t p0 c))
      (\<lambda>_ w''. \<exists>xs. w'' = w'\<lparr>Polls := map (counted_vote (PollNoteID p) c) (Polls w'), PollOutbox := PollOutbox w' @ xs\<rparr>
         \<and> (\<forall>x \<in> set xs. \<forall>a b vis. x \<noteq> PollEnded a b vis)) (\<lambda>_ _. False) w'"
    if "intact w'" "Polls w' = Polls w" for w'
  proof -
    have "distinct (map PollNoteID (Polls w'))" "p \<in> set (Polls w')" using that(2) d p(1) by simp_all
    note count = wp_count [OF that(1) this, of c, unfolded p(2)]
    show ?thesis unfolding wp_then count p(2) by (rule wp_mono [OF wp_announceVote]) auto
  qed
  show ?thesis unfolding castVote_def wp_then [of "insertVote e u t c"]
  proof (rule wp_mono [OF wp_insertVote [OF w]], elim exE conjE, goal_cases)
    case (1 _ w' v)
    then have "intact w'" "Polls w' = Polls w" using w by (simp_all add: intact_def)
    from tail [OF this] show ?case
      by (rule wp_mono) (use 1 p(2) in \<open>auto simp: with_vote_def intro!: exI [of _ v]\<close>)
  qed
qed


lemma with_vote_counts:
  "votes_for (with_vote v xs w) i c = votes_for w i c + of_bool (VoteNoteID v = i \<and> VoteChoice v = c)"
  "votes_of (with_vote v xs w) i u = votes_of w i u + of_bool (VoteUserID v = u \<and> VoteNoteID v = i)"
  by (simp_all add: votes_for_def votes_of_def with_vote_def)

lemma with_vote_endings:
  "\<forall>x \<in> set xs. \<forall>a b vis. x \<noteq> PollEnded a b vis \<Longrightarrow> endings (with_vote v xs w) i u = endings w i u"
  by (auto simp: endings_def with_vote_def filter_empty_conv split: poll_effect.splits)

lemma counted_fields [simp]:
  "PollNoteID (counted_vote i c p) = PollNoteID p" "Choices (counted_vote i c p) = Choices p"
  "Multiple (counted_vote i c p) = Multiple p" "ExpiresAt (counted_vote i c p) = ExpiresAt p"
  "NotifiedAt (counted_vote i c p) = NotifiedAt p" "PollUserID (counted_vote i c p) = PollUserID p"
  by (simp_all add: counted_vote_def)

lemma expired_counted [simp]: "expired (counted_vote i c p) now = expired p now"
  by (simp add: expired_def)

lemma with_vote_parts [simp]:
  "PollNoteID ` set (Polls (with_vote v xs w)) = PollNoteID ` set (Polls w)" "Now (with_vote v xs w) = Now w"
  "intact (with_vote v xs w) = intact w" "here_user (with_vote v xs w) = here_user w"
  "VoteRows (with_vote v xs w) = VoteRows w @ [v]"
  "Polls (with_vote v xs w) = map (counted_vote (VoteNoteID v) (VoteChoice v)) (Polls w)"
  by (auto simp: with_vote_def intact_def here_user_def fun_eq_iff image_iff)

lemma tally_with_vote:
  assumes "tally_ok w p" and c: "0 \<le> VoteChoice v"
    and r: "PollNoteID p = VoteNoteID v \<Longrightarrow> VoteChoice v < int (length (Choices p))"
  shows "tally_ok (with_vote v xs w) (counted_vote (VoteNoteID v) (VoteChoice v) p)"
proof -
  have len: "length (Votes p) = length (Choices p)"
    and cnt: "\<And>i. i < length (Choices p) \<Longrightarrow> Votes p ! i = Some (min (int (votes_for w (PollNoteID p) (int i))) (2 ^ 31 - 1))"
    using assms(1) by (auto simp: tally_ok_def)
  let ?c = "nat (VoteChoice v)" let ?q = "counted_vote (VoteNoteID v) (VoteChoice v) p"
  show ?thesis
  proof (cases "PollNoteID p = VoteNoteID v")
    case id: True
    then have True: "PollNoteID p = VoteNoteID v \<and> ?c < length (Choices p)" using r c by simp
    let ?n = "int (votes_for w (PollNoteID p) (VoteChoice v))"
    have v: "Votes p ! ?c = Some (min ?n (2 ^ 31 - 1))" using cnt [of ?c] True c by simp
    have o: "overflows ?c 1 (Votes p) = (2 ^ 31 - 1 \<le> ?n)"
      using True len v by (auto simp: overflows_def int4_def)
    have "Votes ?q = (if 2 ^ 31 - 1 \<le> ?n then Votes p else (Votes p)[?c := Some (1 + ?n)])"
      using True len v o by (auto simp: counted_vote_def add_at_def Let_def)
    then show ?thesis using True len cnt v c
      by (auto simp: tally_ok_def with_vote_counts nth_list_update)
  next
    case False
    then have "?q = p" by (simp add: counted_vote_def)
    then show ?thesis using False len cnt by (auto simp: tally_ok_def with_vote_counts)
  qed
qed

lemma polls_wf_vote:
  assumes w: "polls_wf w" and p: "p \<in> set (Polls w)" and v: "VoteNoteID v = PollNoteID p"
    and may: "may_vote w u p (VoteChoice v)" "accountID u = VoteUserID v"
    and new: "\<forall>x \<in> set (VoteRows w). (VoteUserID x, VoteNoteID x, VoteChoice x) \<noteq> (VoteUserID v, VoteNoteID v, VoteChoice v)"
    and quiet: "\<forall>x \<in> set xs. \<forall>a b vis. x \<noteq> PollEnded a b vis"
  shows "polls_wf (with_vote v xs w)"
proof -
  let ?w = "with_vote v xs w"
  from w have ps: "distinct (map PollNoteID (Polls w))" by (simp add: polls_wf_def poll_rows_ok_def)
  have c: "0 \<le> VoteChoice v" "VoteChoice v < int (length (Choices p))" using may(1) by (simp_all add: may_vote_def)
  have same: "q = p" if "q \<in> set (Polls w)" "PollNoteID q = VoteNoteID v" for q
    using unique_row [OF ps that(1) p] that(2) v by simp
  have "poll_rows_ok ?w"
    using w p v c new unfolding polls_wf_def poll_rows_ok_def by (auto simp: o_def image_iff)
  moreover have "tally_ok ?w (counted_vote (VoteNoteID v) (VoteChoice v) q)" if "q \<in> set (Polls w)" for q
    using w that c same [OF that] by (intro tally_with_vote) (auto simp: polls_wf_def)
  moreover have "single_ok ?w (counted_vote (VoteNoteID v) (VoteChoice v) q)" if "q \<in> set (Polls w)" for q
    using w that may same [OF that] by (auto simp: polls_wf_def single_ok_def with_vote_counts may_vote_def)
  moreover have "ended_ok ?w (counted_vote (VoteNoteID v) (VoteChoice v) q)" if "q \<in> set (Polls w)" for q
  proof (cases "PollNoteID q = VoteNoteID v")
    case True
    with same [OF that] may(1) have "\<not> expired q (Now w)" by (simp add: may_vote_def)
    then show ?thesis using w that by (auto simp: polls_wf_def ended_ok_def with_vote_endings [OF quiet] split: option.splits)
  next
    case False
    then have "takes_part ?w (counted_vote (VoteNoteID v) (VoteChoice v) q) = takes_part w q"
      by (auto simp: takes_part_def fun_eq_iff)
    then show ?thesis using w that by (auto simp: polls_wf_def ended_ok_def with_vote_endings [OF quiet] split: option.splits)
  qed
  ultimately show ?thesis using w by (auto simp: polls_wf_def)
qed

lemma polls_wf_Vote:
  assumes w: "polls_wf w" and g: "promotes_itself (gate.truncate e)"
  shows "polls_wf (snd (Vote e u i c w))"
proof -
  have i: "intact w" using w by (simp add: polls_wf_def)
  have drawn: "polls_wf (w'\<lparr>Drawn := n\<rparr>) = polls_wf w'" for w' n
    by (simp add: polls_wf_def intact_def poll_rows_ok_def tally_ok_def single_ok_def ended_ok_def votes_for_def
        votes_of_def endings_def takes_part_def here_user_def cong: option.case_cong)
  have rest: "wp (then_act (checkVote u t p c) (castVote e u t p c)) (\<lambda>_. polls_wf) (\<lambda>_. polls_wf) w'"
    if w': "same_polls w w'" and p: "p \<in> set (Polls w)" "PollNoteID p = TargetID t" for t p w'
  proof -
    have wf: "polls_wf w'" and p': "p \<in> set (Polls w')" using w w' p(1) by (auto simp: same_polls_def)
    then have it: "intact w'" and d: "distinct (map PollNoteID (Polls w'))" by (simp_all add: polls_wf_def poll_rows_ok_def)
    have "wp (castVote e u t p c) (\<lambda>_. polls_wf) (\<lambda>_. polls_wf) w'" if may: "may_vote w' u p c"
      by (rule wp_mono [OF wp_castVote [OF it d p' p(2)]])
        (use wf may p' in \<open>auto simp: drawn intro!: polls_wf_vote [of _ p _ u]\<close>)
    then show ?thesis unfolding wp_then using wf by (auto intro!: wp_mono [OF wp_checkVote [OF it p(2)]])
  qed
  have "wp (Vote e u i c) (\<lambda>_. polls_wf) (\<lambda>_. polls_wf) w"
    unfolding Vote_def wp_bind
  proof (rule wp_mono [OF wp_findPoll [OF i g]], goal_cases)
    case (1 x w')
    then show ?case using rest by (cases x) (simp del: wp_then)
  next
    case (2 x w')
    then show ?case using w by (auto simp: same_polls_def)
  qed
  then show ?thesis by (simp add: wp_state)
qed

section \<open>A tick\<close>

definition told :: "string list \<Rightarrow> string \<Rightarrow> string \<Rightarrow> poll_store \<Rightarrow> poll_store" where
  "told uids i vis w = w\<lparr>PollOutbox := PollOutbox w @ map (\<lambda>u. PollEnded u i vis) uids\<rparr>"

lemma outbox_only [simp]:
  "intact (w\<lparr>PollOutbox := xs\<rparr>) = intact w" "here_user (w\<lparr>PollOutbox := xs\<rparr>) = here_user w"
  "intact (told us i vis w) = intact w" "here_user (told us i vis w) = here_user w"
  by (simp_all add: told_def intact_def here_user_def fun_eq_iff)

lemma wp_isLocalUser:
  assumes "intact w" "WorkerUsers k"
  shows "wp (isLocalUser k u) Q E w = Q (here_user w u) w"
  using assms by (auto simp: isLocalUser_def wp_read_row here_user_def split: option.splits)

lemma wp_notifyUsers:
  assumes "intact w" "full_worker k"
  shows "wp (notifyUsers k i vis uids) Q E w = Q () (told (filter (here_user w) uids) i vis w)"
  using assms(1)
proof (induction uids arbitrary: w)
  case (Cons u uids)
  have k: "WorkerUsers k" "(case Notifier k of None \<Rightarrow> False | Some accepts \<Rightarrow> accepts u) = True"
    using assms(2) by (auto simp: full_worker_def)
  show ?case using Cons
    by (auto simp: wp_isLocalUser [OF Cons.prems k(1)] k(2) tell_def told_def)
qed (simp add: told_def)

definition announced :: "poll_store \<Rightarrow> poll \<Rightarrow> int \<Rightarrow> string list \<Rightarrow> string \<Rightarrow> poll_store" where
  \<comment> \<open>the state after \<open>notifyOne\<close>\<close>
  "announced w p now uids vis = (told uids (PollNoteID p) vis w)\<lparr>Polls :=
     map (\<lambda>q. if PollNoteID q = PollNoteID p then q\<lparr>NotifiedAt := Some now\<rparr> else q) (Polls w)\<rparr>"

lemma wp_notifyOne:
  assumes w: "intact w" and k: "full_worker k"
  shows "wp (notifyOne k p now) (\<lambda>_ w'. \<exists>uids vis. w' = announced w p now uids vis \<and> distinct uids
      \<and> set uids = {u. takes_part w p u \<and> here_user w u}) (\<lambda>_ _. False) w"
proof -
  let ?vs = "sort_key VoteID (filter (\<lambda>v. VoteNoteID v = PollNoteID p) (VoteRows w))"
  let ?us = "remdups (PollUserID p # map VoteUserID ?vs)"
  have t: "wp (pollTargets k p) Q E w = Q ?us w" for Q E
    using w k by (simp add: pollTargets_def full_worker_def ListVotes_def intact_def)
  have us: "set ?us = {u. takes_part w p u}" by (auto simp: takes_part_def)
  have "\<exists>vis. \<forall>Q E. wp (pollVisibility k p) Q E w = Q vis w"
    using w by (auto simp: pollVisibility_def wp_FindNote split: option.splits)
  then obtain vis where v: "\<And>Q E. wp (pollVisibility k p) Q E w = Q vis w" by blast
  have "intact (told us' i vis w) = intact w" for us' i by simp
  then have "wp (notifyOne k p now) Q E w = Q () (announced w p now (filter (here_user w) ?us) vis)" for Q E
    using w by (simp add: notifyOne_def t v wp_notifyUsers [OF w k] MarkNotified_def intact_def update_poll_def announced_def
        del: filter.simps remdups.simps) (simp add: told_def)
  then show ?thesis using us by (auto intro!: exI [of _ "filter (here_user w) ?us"] exI [of _ vis])
qed


definition mark :: "int \<Rightarrow> string set \<Rightarrow> poll \<Rightarrow> poll" where
  "mark now ids q = (if PollNoteID q \<in> ids then q\<lparr>NotifiedAt := Some now\<rparr> else q)"

lemma mark_fields [simp]:
  "PollNoteID (mark now ids p) = PollNoteID p" "Choices (mark now ids p) = Choices p" "Votes (mark now ids p) = Votes p"
  "Multiple (mark now ids p) = Multiple p" "ExpiresAt (mark now ids p) = ExpiresAt p" "PollUserID (mark now ids p) = PollUserID p"
  "expired (mark now ids p) t = expired p t" "takes_part w (mark now ids p) u = takes_part w p u"
  by (simp_all add: mark_def expired_def takes_part_def)

lemma mark_twice: "mark now A (mark now B p) = mark now (A \<union> B) p"
  by (simp add: mark_def)

lemma mark_none [simp]: "mark now {} = id"
  by (simp add: mark_def fun_eq_iff)

lemma announced_parts [simp]:
  "Polls (announced w p now uids vis) = map (mark now {PollNoteID p}) (Polls w)"
  "VoteRows (announced w p now uids vis) = VoteRows w" "Now (announced w p now uids vis) = Now w"
  "intact (announced w p now uids vis) = intact w" "here_user (announced w p now uids vis) = here_user w"
  by (auto simp: announced_def told_def mark_def intact_def here_user_def fun_eq_iff)

lemma announced_endings:
  assumes "distinct uids"
  shows "endings (announced w p now uids vis) i u = endings w i u + of_bool (i = PollNoteID p \<and> u \<in> set uids)"
proof -
  have "length (filter (\<lambda>v. v = u) uids) = of_bool (u \<in> set uids)"
    using assms by (induction uids) auto
  then show ?thesis by (auto simp: endings_def announced_def told_def filter_map o_def)
qed

lemma polls_wf_announced:
  assumes w: "polls_wf w" and p: "p \<in> set (Polls w)" "NotifiedAt p = None" "expired p (Now w)"
    and u: "distinct uids" "set uids = {u. takes_part w p u \<and> here_user w u}"
  shows "polls_wf (announced w p now uids vis)"
proof -
  let ?w = "announced w p now uids vis"
  have ps: "distinct (map PollNoteID (Polls w))" using w by (simp add: polls_wf_def poll_rows_ok_def)
  have "poll_rows_ok ?w" using w unfolding polls_wf_def poll_rows_ok_def by (auto simp: o_def)
  moreover have "tally_ok ?w (mark now {PollNoteID p} q)" "single_ok ?w (mark now {PollNoteID p} q)" if "q \<in> set (Polls w)" for q
    using w that by (auto simp: polls_wf_def tally_ok_def single_ok_def votes_for_def votes_of_def)
  moreover have "ended_ok ?w (mark now {PollNoteID p} q)" if q: "q \<in> set (Polls w)" for q
  proof -
    have part: "takes_part ?w q = takes_part w q" by (simp add: takes_part_def fun_eq_iff)
    show ?thesis
    proof (cases "PollNoteID q = PollNoteID p")
      case True
      then have "q = p" using unique_row [OF ps q p(1)] by simp
      then show ?thesis using w p u part
        by (auto simp: polls_wf_def ended_ok_def mark_def expired_def announced_endings takes_part_def split: option.splits)
    next
      case False
      then show ?thesis using w q part
        by (auto simp: polls_wf_def ended_ok_def mark_def announced_endings [OF u(1)] split: option.splits)
    qed
  qed
  ultimately show ?thesis using w by (auto simp: polls_wf_def)
qed

definition after_tick :: "int \<Rightarrow> nat \<Rightarrow> poll list \<Rightarrow> poll_store \<Rightarrow> poll_store \<Rightarrow> bool" where
  "after_tick now n ps w w' = (polls_wf w' \<and> Now w' = Now w \<and> VoteRows w' = VoteRows w \<and> here_user w' = here_user w
     \<and> Polls w' = map (mark now (PollNoteID ` set (take n ps))) (Polls w))"

lemma wp_notifyEach:
  assumes "full_worker k"
  shows "polls_wf w \<Longrightarrow> distinct (map PollNoteID ps) \<Longrightarrow>
    \<forall>p \<in> set ps. p \<in> set (Polls w) \<and> NotifiedAt p = None \<and> expired p (Now w) \<Longrightarrow>
    wp (notifyEach k cancel now ps) (\<lambda>_ w'. after_tick now (length ps) ps w w') (\<lambda>_ w'. cancel \<noteq> None \<and> (\<exists>n. after_tick now n ps w w')) w"
proof (induction ps arbitrary: cancel w)
  case Nil
  then show ?case by (simp add: after_tick_def)
next
  case (Cons p ps)
  show ?case
  proof (cases "cancel = Some 0")
    case True
    then show ?thesis using Cons.prems(1) by (auto simp: after_tick_def intro!: exI [of _ 0])
  next
    case False
    let ?c = "map_option (\<lambda>n. n - 1) cancel"
    have i: "intact w" using Cons.prems(1) by (simp add: polls_wf_def)
    have p: "p \<in> set (Polls w)" "NotifiedAt p = None" "expired p (Now w)" using Cons.prems(3) by simp_all
    have rest: "wp (notifyEach k ?c now ps) (\<lambda>_ w''. after_tick now (length (p # ps)) (p # ps) w w'')
        (\<lambda>_ w''. cancel \<noteq> None \<and> (\<exists>n. after_tick now n (p # ps) w w'')) w'"
      if w': "w' = announced w p now uids vis" and u: "distinct uids" "set uids = {u. takes_part w p u \<and> here_user w u}" for w' uids vis
    proof -
      have "polls_wf w'" unfolding w' by (rule polls_wf_announced [OF Cons.prems(1) p u])
      moreover have "q \<in> set (Polls w') \<and> NotifiedAt q = None \<and> expired q (Now w')" if q: "q \<in> set ps" for q
      proof -
        have "PollNoteID q \<noteq> PollNoteID p" using Cons.prems(2) q by (metis distinct.simps(2) imageI list.set_map list.simps(9))
        then have "mark now {PollNoteID p} q = q" by (simp add: mark_def)
        then show ?thesis using Cons.prems(3) q unfolding w' by (auto intro!: image_eqI [of _ _ q])
      qed
      ultimately have "wp (notifyEach k ?c now ps) (\<lambda>_ w''. after_tick now (length ps) ps w' w'')
          (\<lambda>_ w''. ?c \<noteq> None \<and> (\<exists>n. after_tick now n ps w' w'')) w'"
        using Cons.prems(2) by (intro Cons.IH) auto
      moreover have "after_tick now n ps w' w'' \<Longrightarrow> after_tick now (Suc n) (p # ps) w w''" for n w''
        by (auto simp: after_tick_def w' mark_twice insert_commute)
      ultimately show ?thesis by (auto elim!: wp_mono)
    qed
    have split: "notifyEach k cancel now (p # ps) = then_act (notifyOne k p now) (notifyEach k ?c now ps)" using False by simp
    show ?thesis unfolding split wp_then
      by (rule wp_mono [OF wp_notifyOne [OF i assms]]) (elim exE conjE, erule (2) rest, simp)
  qed
qed

definition pending :: "poll_store \<Rightarrow> poll list" where
  "pending w = filter (\<lambda>p. ExpiresAt p \<noteq> None \<and> the (ExpiresAt p) < Now w \<and> NotifiedAt p = None) (Polls w)"

lemma wp_Tick:
  assumes w: "polls_wf w" and k: "full_worker k"
  shows "wp (Tick k cancel) (\<lambda>_ w'. after_tick (Now w) (length (pending w)) (take (nat (BatchSize k)) (sort_key (\<lambda>p. the (ExpiresAt p)) (pending w))) w w')
     (\<lambda>_ w'. cancel \<noteq> None \<and> polls_wf w' \<and> Now w' = Now w) w"
proof -
  let ?ps = "take (nat (BatchSize k)) (sort_key (\<lambda>p. the (ExpiresAt p)) (pending w))"
  have i: "intact w" and d: "distinct (map PollNoteID (Polls w))" using w by (simp_all add: polls_wf_def poll_rows_ok_def)
  have list: "wp (ListExpiredUnnotified (Now w) (BatchSize k)) Q E w = Q ?ps w" for Q E
    using i k by (simp add: ListExpiredUnnotified_def intact_def full_worker_def pending_def)
  have sub: "set ?ps \<subseteq> set (pending w)" using set_take_subset by fastforce
  have "distinct (map PollNoteID (pending w))" unfolding pending_def by (rule distinct_map_filter [OF d])
  then have "distinct (map PollNoteID (sort_key (\<lambda>p. the (ExpiresAt p)) (pending w)))" by (simp add: distinct_map)
  then have "distinct (map PollNoteID ?ps)" by (simp add: take_map [symmetric])
  moreover have "\<forall>p \<in> set ?ps. p \<in> set (Polls w) \<and> NotifiedAt p = None \<and> expired p (Now w)"
    using sub by (auto simp: pending_def expired_def)
  ultimately have "wp (notifyEach k cancel (Now w) ?ps) (\<lambda>_ w'. after_tick (Now w) (length ?ps) ?ps w w')
      (\<lambda>_ w'. cancel \<noteq> None \<and> (\<exists>n. after_tick (Now w) n ?ps w w')) w"
    by (intro wp_notifyEach [OF k w])
  then show ?thesis unfolding Tick_def wp_bind wp_query list
    by (rule wp_mono) (auto simp: after_tick_def pending_def)
qed

lemma polls_wf_later: "polls_wf w \<Longrightarrow> polls_wf (w\<lparr>Now := Now w + int d\<rparr>)"
proof -
  let ?w = "w\<lparr>Now := Now w + int d\<rparr>"
  assume w: "polls_wf w"
  have same: "intact ?w = intact w" "poll_rows_ok ?w = poll_rows_ok w" "tally_ok ?w p = tally_ok w p" "single_ok ?w p = single_ok w p"
    "endings ?w i u = endings w i u" "takes_part ?w p u = takes_part w p u" "here_user ?w u = here_user w u" for p i u
    by (simp_all add: intact_def poll_rows_ok_def tally_ok_def single_ok_def votes_for_def votes_of_def endings_def
        takes_part_def here_user_def)
  have "expired p (Now w) \<Longrightarrow> expired p (Now ?w)" for p by (auto simp: expired_def split: option.splits)
  then have "ended_ok w p \<Longrightarrow> ended_ok ?w p" for p by (auto simp: ended_ok_def same split: option.splits)
  then show ?thesis using w by (auto simp: polls_wf_def same)
qed

lemma polls_wf_step:
  assumes "promotes_itself (gate.truncate e)" "full_worker k" "polls_wf w"
  shows "polls_wf (poll_step e k w x)"
proof (cases x)
  case (VoteBy u i c)
  then show ?thesis using polls_wf_Vote [OF assms(3,1)] by simp
next
  case (Ticking cancel)
  have "wp (Tick k cancel) (\<lambda>_. polls_wf) (\<lambda>_. polls_wf) w"
    by (rule wp_mono [OF wp_Tick [OF assms(3,2)]]) (auto simp: after_tick_def)
  then show ?thesis using Ticking by (simp add: wp_state)
next
  case (Later d)
  then show ?thesis using polls_wf_later [OF assms(3)] by simp
qed

definition poll_environment :: "poll_wiring \<Rightarrow> poll_worker \<Rightarrow> bool" where
  "poll_environment e k = (promotes_itself (gate.truncate e) \<and> full_worker k)"

interpretation polls: stepping "poll_step e k" "\<lambda>w. poll_environment e k \<and> polls_wf w" for e k
  by unfold_locales (auto simp: poll_environment_def intro: polls_wf_step)

text \<open>C3. Polls stay consistent through every sequence of votes, ticks of the worker and passing time: every counter is
  the number of votes for its choice (up to the largest integer of the column), nobody has two votes for a
  choice or two votes in a single-choice poll, every vote is for a choice that exists, and a local author or voter
  has been told of the end exactly once when the poll is marked and never before.  It starts from a consistent state with
  a fully wired worker, and no statement fails.  \<open>UpdateVotes\<close>, by which the server of a remote poll overwrites its counts, is no
  step: afterwards the counts are what that server says.\<close>

theorem polls_run:
  assumes "promotes_itself (gate.truncate e)" "full_worker k" "polls_wf w"
  shows "let w' = run_steps (poll_step e k) w es in poll_rows_ok w' \<and>
    (\<forall>p \<in> set (Polls w'). tally_ok w' p \<and> single_ok w' p \<and> ended_ok w' p)"
  using polls.run_keeps [of e k w es] assms by (simp add: poll_environment_def polls_wf_def Let_def)

section \<open>Every expired poll is announced\<close>

lemma filter_mark:
  "filter (\<lambda>p. ExpiresAt p \<noteq> None \<and> the (ExpiresAt p) < t \<and> NotifiedAt p = None) (map (mark now ids) qs)
    = filter (\<lambda>p. PollNoteID p \<notin> ids)
        (filter (\<lambda>p. ExpiresAt p \<noteq> None \<and> the (ExpiresAt p) < t \<and> NotifiedAt p = None) qs)"
proof (induction qs)
  case (Cons q qs)
  have "mark now ids q = q \<or> PollNoteID q \<in> ids \<and> NotifiedAt (mark now ids q) = Some now" by (simp add: mark_def)
  moreover have "PollNoteID q \<in> ids \<Longrightarrow> NotifiedAt (mark now ids q) = Some now" by (simp add: mark_def)
  ultimately show ?case using Cons by auto
qed simp

lemma pending_after_tick:
  assumes w: "polls_wf w" and a: "after_tick (Now w) (length (pending w)) ps w w'"
    and ps: "set ps \<subseteq> set (pending w)" "distinct ps" "length ps \<le> length (pending w)"
  shows "length (pending w') = length (pending w) - length ps"
proof -
  let ?ids = "PollNoteID ` set ps"
  have d: "distinct (map PollNoteID (Polls w))" using w by (simp add: polls_wf_def poll_rows_ok_def)
  then have dp: "distinct (map PollNoteID (pending w))" unfolding pending_def by (rule distinct_map_filter)
  have "pending w' = filter (\<lambda>p. PollNoteID p \<notin> ?ids) (pending w)"
    using a ps(3) filter_mark [of "Now w" "Now w" "PollNoteID ` set (take (length (pending w)) ps)" "Polls w"]
    by (simp add: after_tick_def pending_def)
  moreover have "length (filter (\<lambda>p. PollNoteID p \<in> ?ids) (pending w)) = length ps"
  proof -
    have "set (filter (\<lambda>p. PollNoteID p \<in> ?ids) (pending w)) = set ps"
      using ps(1) unique_row [OF dp] by auto
    moreover have "distinct (filter (\<lambda>p. PollNoteID p \<in> ?ids) (pending w))" using dp by (simp add: distinct_map)
    ultimately show ?thesis using ps(2) by (metis distinct_card)
  qed
  ultimately show ?thesis
    using sum_length_filter_compl [of "\<lambda>p. PollNoteID p \<in> ?ids" "pending w"] by simp
qed

section \<open>Two votes at once\<close>

lemma castVote_returns:
  assumes "intact w" "Storable (accountID u)" "Storable (TargetID t)"
    and "\<forall>x \<in> set (VoteRows w). (VoteUserID x, VoteNoteID x, VoteChoice x) \<noteq> (accountID u, TargetID t, c)"
  shows "wp (castVote e u t p c) (\<lambda>_ _. True) (\<lambda>_ _. False) w"
  using assms
  by (auto simp: castVote_def insertVote_def CreateVote_def intact_def IncrementVote_def update_poll_def announceVote_def tell_def)

lemma checkVote_passes:
  assumes "intact w" "PollNoteID p = TargetID t" "Storable (accountID u)" "Storable (TargetID t)" "may_vote w u p c" "\<not> Multiple p"
  shows "wp (checkVote u t p c) (\<lambda>_ w'. w' = w) (\<lambda>_ _. False) w"
  using assms
  by (auto simp: checkVote_def FindByUserAndChoice_def wp_read_row CountByUserAndNote_def may_vote_def votes_of_def
      intact_def expired_def filter_empty_conv find_None_iff split: option.splits)

lemma Tick_drains:
  assumes w: "polls_wf w" and k: "full_worker k"
  shows "let w' = snd (Tick k None w) in polls_wf w' \<and> Now w' = Now w
    \<and> length (pending w') = length (pending w) - nat (BatchSize k)"
proof -
  let ?ps = "take (nat (BatchSize k)) (sort_key (\<lambda>p. the (ExpiresAt p)) (pending w))"
  have d: "distinct (map PollNoteID (pending w))"
    using w unfolding polls_wf_def poll_rows_ok_def pending_def by (blast intro: distinct_map_filter)
  then have "distinct (pending w)" by (simp add: distinct_map)
  then have "distinct ?ps" by simp
  moreover have "set ?ps \<subseteq> set (pending w)" using set_take_subset by fastforce
  moreover have "length ?ps \<le> length (pending w)" by simp
  ultimately have p: "length (pending w') = length (pending w) - length ?ps"
    if "after_tick (Now w) (length (pending w)) ?ps w w'" for w'
    by (intro pending_after_tick [OF w that])
  have "wp (Tick k None) (\<lambda>_ w'. polls_wf w' \<and> Now w' = Now w \<and> length (pending w') = length (pending w) - length ?ps)
     (\<lambda>_ _. False) w"
  proof (rule wp_mono [OF wp_Tick [OF w k]], goal_cases)
    case (1 _ w')
    then have "polls_wf w'" "Now w' = Now w" by (simp_all add: after_tick_def)
    with p [OF 1] show ?case by blast
  qed simp
  then show ?thesis by (auto simp: wp_def Let_def split: prod.splits res.splits)
qed

text \<open>C25. Nobody is forgotten: after as many ticks of the worker as the backlog has batches, every poll that had expired
  has been announced, to its local author and local voters exactly once and to nobody else.\<close>

theorem every_ending_is_announced:
  assumes "polls_wf w" "full_worker k" "length (pending w) \<le> m * nat (BatchSize k)"
  shows "let w' = run_steps (poll_step e k) w (replicate m (Ticking None)) in
    \<forall>p \<in> set (Polls w'). (case ExpiresAt p of None \<Rightarrow> False | Some t \<Rightarrow> t < Now w) \<longrightarrow>
      (\<forall>u. endings w' (PollNoteID p) u = of_bool (takes_part w' p u \<and> here_user w' u))"
proof -
  have "polls_wf w' \<and> Now w' = Now w \<and> length (pending w') = length (pending w) - m * nat (BatchSize k)"
    if "w' = run_steps (poll_step e k) w (replicate m (Ticking None))" for w'
    using assms(1,3) that
  proof (induction m arbitrary: w)
    case (Suc m)
    let ?w = "snd (Tick k None w)"
    have t: "polls_wf ?w" "Now ?w = Now w" "length (pending ?w) = length (pending w) - nat (BatchSize k)"
      using Tick_drains [OF Suc.prems(1) assms(2)] by (simp_all add: Let_def)
    then have "length (pending ?w) \<le> m * nat (BatchSize k)" using Suc.prems(2) by simp
    from Suc.IH [OF t(1) this] show ?case using t Suc.prems(3) by simp
  qed simp
  from this [OF refl] have w': "polls_wf w' \<and> Now w' = Now w \<and> pending w' = []"
    if "w' = run_steps (poll_step e k) w (replicate m (Ticking None))" for w'
    using assms(3) that by simp
  show ?thesis unfolding Let_def
  proof (intro ballI impI allI)
    fix p u
    let ?w = "run_steps (poll_step e k) w (replicate m (Ticking None))"
    assume p: "p \<in> set (Polls ?w)" and t: "case ExpiresAt p of None \<Rightarrow> False | Some t \<Rightarrow> t < Now w"
    from t obtain x where x: "ExpiresAt p = Some x" "x < Now w" by (auto split: option.splits)
    then have "NotifiedAt p \<noteq> None" using w' [OF refl] p by (auto simp: pending_def filter_empty_conv)
    then show "endings ?w (PollNoteID p) u = of_bool (takes_part ?w p u \<and> here_user ?w u)"
      using w' [OF refl] p by (auto simp: polls_wf_def ended_ok_def split: option.splits)
  qed
qed

text \<open>C37. Two votes of one user for different choices of a single-choice poll that are handled at the same time are both
  counted: each passes its check before the other is inserted, and the unique index does not cover the
  pair of user and note.\<close>

theorem single_choice_race:
  assumes w: "polls_wf w" and p: "p \<in> set (Polls w)" "PollNoteID p = TargetID t" "\<not> Multiple p"
    and s: "Storable (accountID u)" "Storable (TargetID t)" and may: "may_vote w u p c" "may_vote w u p d" "c \<noteq> d"
  shows "wp (then_act (then_act (checkVote u t p c) (checkVote u t p d))
             (then_act (castVote e u t p c) (castVote e u t p d)))
           (\<lambda>_ w'. votes_of w' (PollNoteID p) (accountID u) = 2) (\<lambda>_ _. False) w"
proof -
  have i: "intact w" and ps: "distinct (map PollNoteID (Polls w))" using w by (simp_all add: polls_wf_def poll_rows_ok_def)
  have none: "(VoteUserID x, VoteNoteID x, VoteChoice x) \<noteq> (accountID u, TargetID t, b)" if "x \<in> set (VoteRows w)" for x b
    using may(1) p that by (auto simp: may_vote_def votes_of_def filter_empty_conv)
  have first: "wp (castVote e u t p c) (\<lambda>_ w'. \<exists>v xs. w' = with_vote v xs w \<and> VoteUserID v = accountID u
      \<and> VoteNoteID v = PollNoteID p \<and> VoteChoice v = c) (\<lambda>_ _. False) w"
    using wp_conj [OF wp_castVote [OF i ps p(1,2), of e u p c] castVote_returns [OF i s, of c e p]] none
    by (auto elim!: wp_mono)
  have second: "wp (castVote e u t p d) (\<lambda>_ w''. votes_of w'' (PollNoteID p) (accountID u) = 2) (\<lambda>_ _. False) w'"
    if w': "w' = with_vote v xs w" and v: "VoteUserID v = accountID u" "VoteNoteID v = PollNoteID p" "VoteChoice v = c" for w' v xs
  proof -
    let ?q = "counted_vote (PollNoteID p) c p"
    have i': "intact w'" and ps': "distinct (map PollNoteID (Polls w'))" and q: "?q \<in> set (Polls w')" "PollNoteID ?q = TargetID t"
      using i ps p v unfolding w' by (simp_all add: o_def)
    have n: "\<forall>x \<in> set (VoteRows w'). (VoteUserID x, VoteNoteID x, VoteChoice x) \<noteq> (accountID u, TargetID t, d)"
      using none may(3) v unfolding w' by auto
    have "votes_of w' (PollNoteID p) (accountID u) = 1" using may(1) p(3) v unfolding w' by (simp add: with_vote_counts may_vote_def)
    then show ?thesis
      using wp_conj [OF wp_castVote [OF i' ps' q, of e u p d] castVote_returns [OF i' s n, of e p]]
      by (auto elim!: wp_mono simp: with_vote_counts)
  qed
  have casts: "wp (then_act (castVote e u t p c) (castVote e u t p d))
      (\<lambda>_ w'. votes_of w' (PollNoteID p) (accountID u) = 2) (\<lambda>_ _. False) w"
    unfolding wp_then by (rule wp_mono [OF first]) (auto intro: second)
  have "wp (then_act (checkVote u t p c) (checkVote u t p d)) (\<lambda>_ w'. w' = w) (\<lambda>_ _. False) w"
    unfolding wp_then using checkVote_passes [OF i p(2) s may(2) p(3)]
    by (auto intro!: wp_mono [OF checkVote_passes [OF i p(2) s may(1) p(3)]])
  then show ?thesis
    unfolding wp_then [of "then_act (checkVote u t p c) (checkVote u t p d)"] by (rule wp_mono) (auto simp: casts simp del: wp_then)
qed


section \<open>A concrete poll\<close>

definition some_poll :: poll where
  "some_poll = \<lparr>PollNoteID = ''n'', ExpiresAt = Some 10, Multiple = False, Choices = [''x'', ''y''],
     Votes = [Some 0, Some 0], PollUserID = ''a'', NotifiedAt = None\<rparr>"

definition some_note :: target where
  "some_note = \<lparr>noteUserID = ''a'', noteVisibility = NoteVisibilityPublic, noteReplyUserID = None, noteMentions = [],
     noteVisibleUserIDs = [], noteUser = None, TargetID = ''n'', TargetUserHost = None, TargetReplyID = None,
     TargetRenoteID = None, TargetChannelID = None, TargetText = Some ''?'', TargetCW = None, TargetFileIDs = [],
     TargetHasPoll = True, ReactionAcceptance = None, LocalOnly = False, ThreadID = None, ReplyUserHost = None,
     RenoteUserID = None, RenoteUserHost = None, RenoteChannelID = None, NoteTags = [], NoteEmojis = [],
     MentionedRemoteUsers = [], RepliesCount = 0, RenoteCount = 0\<rparr>"

definition some_polls :: "int \<Rightarrow> poll_store" where
  "some_polls now = \<lparr>Failing = [], Targets = [''n'' \<mapsto> some_note], Drawn = 0, Now = now, Polls = [some_poll], VoteRows = [],
     UserHosts = [''a'' \<mapsto> None, ''b'' \<mapsto> None], PollOutbox = []\<rparr>"

definition bare_polls :: poll_wiring where
  "bare_polls = \<lparr>Follows = None, BlockChecker = Some (\<lambda>a b. Inr False), Promoter = None, EventPub = True,
     PollFederation = True, NewVoteID = show_nat\<rparr>"

definition bare_worker :: poll_worker where
  "bare_worker = NewExpiryWorker True True True (Some (\<lambda>_. True)) 0"

definition some_voter :: reactor where
  "some_voter = \<lparr>accountID = ''b'', accountRequireSignin = False, accountHiddenBefore = None,
     accountFollowersOnlyBefore = None, reactorHost = None\<rparr>"

lemma storable_letters: "Storable ''a''" "Storable ''b''" "Storable ''n''"
  by (simp_all add: Storable_def bytes_def valid_utf8.simps(2) rune_at.simps(2))

lemma some_polls_wf: "polls_wf (some_polls now)"
  by (auto simp: polls_wf_def some_polls_def some_poll_def intact_def poll_rows_ok_def tally_ok_def single_ok_def ended_ok_def
      votes_for_def votes_of_def endings_def less_Suc_eq)

lemma bare_polls_ok: "promotes_itself (gate.truncate bare_polls)" "full_worker bare_worker"
  by (simp_all add: promotes_itself_def bare_polls_def gate.truncate_def full_worker_def bare_worker_def NewExpiryWorker_def)

theorem polls_run_witness:
  "let w' = run_steps (poll_step bare_polls bare_worker) (some_polls 5)
      [VoteBy some_voter ''n'' 1, VoteBy some_voter ''n'' 0, Later 6, Ticking None, Ticking None] in
    \<forall>p \<in> set (Polls w'). tally_ok w' p \<and> single_ok w' p \<and> ended_ok w' p"
  using polls_run [OF bare_polls_ok some_polls_wf] unfolding Let_def by blast

theorem every_ending_is_announced_witness:
  "let w' = run_steps (poll_step bare_polls bare_worker) (some_polls 11) (replicate 1 (Ticking None)) in
    \<forall>p \<in> set (Polls w'). (case ExpiresAt p of None \<Rightarrow> False | Some t \<Rightarrow> t < 11) \<longrightarrow>
      (\<forall>u. endings w' (PollNoteID p) u = of_bool (takes_part w' p u \<and> here_user w' u))"
proof -
  have "length (pending (some_polls 11)) \<le> 1 * nat (BatchSize bare_worker)"
    by (simp add: pending_def some_polls_def bare_worker_def NewExpiryWorker_def)
  moreover have "Now (some_polls 11) = 11" by (simp add: some_polls_def)
  ultimately show ?thesis
    using every_ending_is_announced [OF some_polls_wf bare_polls_ok(2), of 11 1 bare_polls] by (simp only: simp_thms)
qed

theorem single_choice_race_witness:
  "wp (then_act (then_act (checkVote some_voter some_note some_poll 0) (checkVote some_voter some_note some_poll 1))
        (then_act (castVote bare_polls some_voter some_note some_poll 0) (castVote bare_polls some_voter some_note some_poll 1)))
     (\<lambda>_ w'. votes_of w' ''n'' ''b'' = 2) (\<lambda>_ _. False) (some_polls 5)"
proof -
  have "may_vote (some_polls 5) some_voter some_poll c" if "0 \<le> c" "c < 2" for c
    using that by (simp add: may_vote_def some_poll_def some_polls_def expired_def votes_of_def)
  then show ?thesis
    using single_choice_race [OF some_polls_wf, of some_poll 5 some_note some_voter 0 1 bare_polls]
    by (simp add: some_poll_def some_polls_def some_note_def some_voter_def storable_letters)
qed
end
