(* ===== verification/Reaction_Text.thy ===== *)
theory Reaction_Text imports Col_Fit "HOL-Library.Char_ord" begin

text \<open>
  The text of a reaction (core/reaction/reaction_service.go, misc/reactionlegacy): legacy aliases,
  custom emoji shortcodes, the canonical form that is stored, and what a note accepts.

  Strings are bytes.  The emoji table (\<open>table name host\<close>, \<open>None\<close> when the lookup fails) and the test
  that a text consists of emoji only (\<open>gomoji.RemoveEmojis(raw) == ""\<close>, a third-party package) are
  arguments.  The shortcode pattern \<open>^:([\w+\-]+)(?:@([\w.\-]+))?:$\<close> is deterministic, since
  neither character class holds \<open>@\<close> or the colon, so greedy scanning decides it.
\<close>

section \<open>Shortcodes\<close>

definition uni :: "nat \<Rightarrow> string" where
  \<comment> \<open>one code point\<close>
  "uni r = text_of (encode_rune r)"

definition FallbackReaction :: string where "FallbackReaction = uni 0x2764"

definition reactionMaxRunes :: int where "reactionMaxRunes = 260"

definition legacies :: "(string \<times> nat) list" where
  "legacies = [(''like'', 0x1F44D), (''love'', 0x2764), (''laugh'', 0x1F606), (''hmm'', 0x1F914), (''surprise'', 0x1F62E),
     (''congrats'', 0x1F389), (''angry'', 0x1F4A2), (''confused'', 0x1F625), (''rip'', 0x1F607), (''pudding'', 0x1F36E),
     (''star'', 0x2B50)]"

definition Convert :: "string \<Rightarrow> string option" where
  "Convert key = map_option uni (map_of legacies key)"

definition word_char :: "char \<Rightarrow> bool" where
  "word_char c = (let b = of_char c in c = CHR ''_'' \<or> between 0x61 0x7A b \<or> between 0x41 0x5A b \<or> between 0x30 0x39 b)"

definition name_char :: "char \<Rightarrow> bool" where
  "name_char c = (word_char c \<or> c = CHR ''+'' \<or> c = CHR ''-'')"

definition host_char :: "char \<Rightarrow> bool" where
  "host_char c = (word_char c \<or> c = CHR ''.'' \<or> c = CHR ''-'')"

definition customEmojiPattern :: "string \<Rightarrow> (string \<times> string) option" where
  \<comment> \<open>the name and the host, which is empty when the pattern has none\<close>
  "customEmojiPattern s = (case s of [] \<Rightarrow> None | c # r \<Rightarrow>
     let name = takeWhile name_char r; r1 = dropWhile name_char r in
     if c \<noteq> CHR '':'' \<or> name = [] then None
     else if r1 = '':'' then Some (name, [])
     else case r1 of [] \<Rightarrow> None | d # r2 \<Rightarrow>
       let host = takeWhile host_char r2; r3 = dropWhile host_char r2 in
       if d = CHR ''@'' \<and> host \<noteq> [] \<and> r3 = '':'' then Some (name, host) else None)"

definition shortcode :: "string \<Rightarrow> string" where
  "shortcode name = '':'' @ name @ '':''"

definition shortcode_at :: "string \<Rightarrow> string \<Rightarrow> string" where
  "shortcode_at name host = '':'' @ name @ ''@'' @ host @ '':''"

definition ConvertLegacy :: "string \<Rightarrow> string" where
  "ConvertLegacy raw = (case Convert raw of Some v \<Rightarrow> v
     | None \<Rightarrow> (case customEmojiPattern raw of
         Some (name, host) \<Rightarrow> if host = [] \<or> host = ''.'' then shortcode name else raw
       | None \<Rightarrow> raw))"

section \<open>Variation selectors\<close>

function remove_all :: "'a list \<Rightarrow> 'a list \<Rightarrow> 'a list" where
  \<comment> \<open>\<open>strings.ReplaceAll(s, old, "")\<close>\<close>
  "remove_all old [] = []"
| "remove_all old (c # cs) =
     (if old \<noteq> [] \<and> take (length old) (c # cs) = old then remove_all old (drop (length old) (c # cs))
      else c # remove_all old cs)"
  by pat_completeness auto
termination by (relation "measure (length \<circ> snd)") auto

fun contains :: "'a list \<Rightarrow> 'a list \<Rightarrow> bool" where
  \<comment> \<open>\<open>strings.Contains(s, sub)\<close>\<close>
  "contains sub [] = (sub = [])"
| "contains sub (c # cs) = (take (length sub) (c # cs) = sub \<or> contains sub cs)"

definition stripVariationSelector :: "string \<Rightarrow> string" where
  "stripVariationSelector s = (if contains (uni 0x200D) s then s else remove_all (uni 0xFE0F) s)"

section \<open>Normal forms\<close>

record emoji =
  EmojiRoles :: "string list"
  EmojiSensitive :: bool
  PublicURL :: string
  OriginalURL :: string

type_synonym emoji_table = "string \<Rightarrow> string option \<Rightarrow> emoji option"

definition normalizeReactionForFilter :: "string \<Rightarrow> string" where
  "normalizeReactionForFilter raw = (case Convert raw of Some v \<Rightarrow> v
     | None \<Rightarrow> (case customEmojiPattern raw of
         Some (name, host) \<Rightarrow> if host = [] \<or> host = ''.'' then shortcode_at name ''.'' else shortcode_at name host
       | None \<Rightarrow> stripVariationSelector raw))"

definition actor_host :: "string option \<Rightarrow> string" where
  "actor_host h = (case h of None \<Rightarrow> [] | Some x \<Rightarrow> x)"

definition resolveReactionValue :: "emoji_table \<Rightarrow> (string \<Rightarrow> bool) \<Rightarrow> string \<Rightarrow> string option \<Rightarrow> string \<times> emoji option" where
  "resolveReactionValue table only raw actorHost =
     (if raw = [] then (FallbackReaction, None)
      else case Convert raw of Some v \<Rightarrow> (v, None)
      | None \<Rightarrow> (case customEmojiPattern raw of
          Some (name, h) \<Rightarrow>
            let h1 = if h = ''.'' then [] else h;
                host = if h1 = [] then actor_host actorHost else h1 in
            (case table name (if host = [] then None else Some host) of
               Some e \<Rightarrow> (if host = [] then shortcode_at name ''.'' else shortcode_at name host, Some e)
             | None \<Rightarrow> (FallbackReaction, None))
        | None \<Rightarrow> if \<not> only raw then (FallbackReaction, None) else (stripVariationSelector raw, None)))"

definition resolveReaction :: "emoji_table \<Rightarrow> (string \<Rightarrow> bool) \<Rightarrow> string \<Rightarrow> string option \<Rightarrow> string \<times> emoji option" where
  "resolveReaction table only raw actorHost = (case resolveReactionValue table only raw actorHost of
     (r, e) \<Rightarrow> if \<not> Fits r reactionMaxRunes then (FallbackReaction, None) else (r, e))"

definition reactionVariants :: "string \<Rightarrow> string list" where
  "reactionVariants normalized = (case customEmojiPattern normalized of
     Some (name, host) \<Rightarrow> if host = ''.'' then [normalized, shortcode name] else [normalized]
   | None \<Rightarrow> [normalized])"

definition decodeReactionForStream :: "string \<Rightarrow> string" where
  "decodeReactionForStream raw = (case customEmojiPattern raw of
     None \<Rightarrow> raw
   | Some (name, host) \<Rightarrow> shortcode_at name (if host \<noteq> [] \<and> host \<noteq> ''.'' then host else ''.''))"

definition resolveStreamEmoji :: "emoji_table \<Rightarrow> string \<Rightarrow> (string \<times> string) option" where
  \<comment> \<open>the name and the address\<close>
  "resolveStreamEmoji table reaction = (case customEmojiPattern reaction of
     None \<Rightarrow> None
   | Some (name, h) \<Rightarrow> let host = if h = ''.'' then [] else h in
       (case table name (if host = [] then None else Some host) of
          None \<Rightarrow> None
        | Some e \<Rightarrow> Some (name @ ''@'' @ (if host = [] then ''.'' else host),
            if PublicURL e = [] then OriginalURL e else PublicURL e)))"

section \<open>What a note accepts\<close>

definition reactorHasAllowedRole :: "(string \<Rightarrow> string list option) option \<Rightarrow> string \<Rightarrow> string list \<Rightarrow> bool" where
  \<comment> \<open>no provider lets everybody through, a failing one nobody\<close>
  "reactorHasAllowedRole roles uid allowed = (case roles of None \<Rightarrow> True
     | Some f \<Rightarrow> (case f uid of None \<Rightarrow> False | Some rs \<Rightarrow> \<exists>r \<in> set rs. r \<in> set allowed))"

definition applyReactionAcceptance ::
    "(string \<Rightarrow> string list option) option \<Rightarrow> (string \<Rightarrow> bool) option \<Rightarrow> string \<Rightarrow> string option \<Rightarrow> string option
      \<Rightarrow> string \<Rightarrow> emoji option \<Rightarrow> string" where
  "applyReactionAcceptance roles silenced uid host acceptance reaction emoji =
     (let acc = (case acceptance of None \<Rightarrow> [] | Some a \<Rightarrow> a);
          remote = (host \<noteq> None \<and> host \<noteq> Some []) in
      if acc = ''likeOnly'' \<or> (acc = ''likeOnlyForRemote'' \<or> acc = ''nonSensitiveOnlyForLocalLikeOnlyForRemote'') \<and> remote
      then FallbackReaction
      else case emoji of None \<Rightarrow> reaction
        | Some e \<Rightarrow>
          if EmojiRoles e \<noteq> [] \<and> \<not> reactorHasAllowedRole roles uid (EmojiRoles e) then FallbackReaction
          else if remote \<and> (case silenced of None \<Rightarrow> False | Some f \<Rightarrow> f (the host)) then FallbackReaction
          else if (acc = ''nonSensitiveOnly'' \<or> acc = ''nonSensitiveOnlyForLocalLikeOnlyForRemote'') \<and> EmojiSensitive e
          then FallbackReaction
          else reaction)"


section \<open>Searching text by code point\<close>

declare remove_all.simps(2) [simp del]

lemma remove_all_skip:
  "x \<notin> set ys \<Longrightarrow> remove_all (x # p) (ys @ s) = ys @ remove_all (x # p) s"
  by (induction ys) (auto simp: remove_all.simps(2))

lemma contains_skip: "x \<notin> set ys \<Longrightarrow> contains (x # p) (ys @ s) = contains (x # p) s"
  by (induction ys) auto

lemma remove_all_map: "inj f \<Longrightarrow> remove_all (map f p) (map f s) = map f (remove_all p s)"
proof (induction p s rule: remove_all.induct)
  case (2 p c cs)
  let ?t = "take (length p) (c # cs) = p"
  have t: "take (length p) (f c # map f cs) = map f p \<longleftrightarrow> ?t"
    using 2(3) by (metis (no_types, lifting) inj_map_eq_map list.simps(9) take_map)
  show ?case
  proof (cases "p \<noteq> [] \<and> ?t")
    case True
    have "drop (length p) (f c # map f cs) = map f (drop (length p) (c # cs))" using drop_map [of "length p" f "c # cs"] by simp
    then show ?thesis using 2(1) [OF True 2(3)] True t by (simp add: remove_all.simps(2))
  next
    case False
    then show ?thesis using 2(2) [OF False 2(3)] t by (auto simp: remove_all.simps(2))
  qed
qed simp

lemma contains_map: "inj f \<Longrightarrow> contains (map f p) (map f s) = contains p s"
proof (induction s)
  case (Cons c cs)
  have "take (length p) (f c # map f cs) = map f p \<longleftrightarrow> take (length p) (c # cs) = p"
    using Cons(2) by (metis (no_types, lifting) inj_map_eq_map list.simps(9) take_map)
  then show ?case using Cons by simp
qed simp

lemma encode_lead: "0x80 \<le> x \<Longrightarrow> 0xC0 \<le> hd (encode_scalar x)"
  by (simp add: encode_scalar_def)

lemma encode_trail: "b \<in> set (tl (encode_scalar x)) \<Longrightarrow> b < 0xC0"
  by (auto simp: encode_scalar_def split: if_splits)

lemma encode_prefix:
  assumes "scalar x" "scalar c" "take (length (encode_scalar x)) (encode_scalar c @ s) = encode_scalar x"
  shows "c = x"
proof -
  have "encode_scalar c @ s = encode_scalar x @ drop (length (encode_scalar x)) (encode_scalar c @ s)"
    using assms(3) by (metis append_take_drop_id)
  then have "rune_at (encode_scalar c @ s) = rune_at (encode_scalar x @ drop (length (encode_scalar x)) (encode_scalar c @ s))"
    by simp
  then show ?thesis using rune_at_scalar [OF assms(1)] rune_at_scalar [OF assms(2)] by simp
qed

lemma encode_split:
  assumes "0x80 \<le> x"
  shows "\<exists>q p. encode_scalar x = q # p \<and> (\<forall>c. q \<notin> set (tl (encode_scalar c)))"
proof (cases "encode_scalar x")
  case (Cons q p)
  then have "q \<notin> set (tl (encode_scalar c))" for c using encode_lead [OF assms] encode_trail [of q c] by auto
  then show ?thesis using Cons by blast
qed simp

lemma remove_all_encoded:
  assumes x: "scalar x" "0x80 \<le> x"
  shows "\<forall>c \<in> set cs. scalar c \<Longrightarrow> remove_all (encode_scalar x) (encode_runes cs) = encode_runes (filter (\<lambda>c. c \<noteq> x) cs)"
proof (induction cs)
  case (Cons c cs)
  obtain q p where q: "encode_scalar x = q # p" "\<forall>c. q \<notin> set (tl (encode_scalar c))" using encode_split [OF x(2)] by blast
  obtain a t where a: "encode_scalar c = a # t" by (cases "encode_scalar c") simp_all
  have e: "encode_rune c = a # t" using Cons.prems a by (simp add: encode_rune_scalar)
  show ?case
  proof (cases "c = x")
    case True
    then show ?thesis using Cons a e q(1) by (simp add: remove_all.simps(2))
  next
    case False
    then have "take (length (q # p)) (a # t @ encode_runes cs) \<noteq> q # p"
      using encode_prefix [OF x(1), of c "encode_runes cs"] Cons.prems a q(1) by auto
    then show ?thesis using False Cons e q(1) remove_all_skip [of q t p] q(2) [rule_format, of c] a
      by (auto simp add: remove_all.simps(2))
  qed
qed simp

lemma contains_encoded:
  assumes x: "scalar x" "0x80 \<le> x"
  shows "\<forall>c \<in> set cs. scalar c \<Longrightarrow> contains (encode_scalar x) (encode_runes cs) = (x \<in> set cs)"
proof (induction cs)
  case (Cons c cs)
  obtain q p where q: "encode_scalar x = q # p" "\<forall>c. q \<notin> set (tl (encode_scalar c))" using encode_split [OF x(2)] by blast
  obtain a t where a: "encode_scalar c = a # t" by (cases "encode_scalar c") simp_all
  have e: "encode_rune c = a # t" using Cons.prems a by (simp add: encode_rune_scalar)
  show ?case
  proof (cases "c = x")
    case True
    then show ?thesis using a e q(1) by simp
  next
    case False
    then have "take (length (q # p)) (a # t @ encode_runes cs) \<noteq> q # p"
      using encode_prefix [OF x(1), of c "encode_runes cs"] Cons.prems a q(1) by auto
    then show ?thesis using False Cons e q(1) contains_skip [of q t p] q(2) [rule_format, of c] a by auto
  qed
qed (use encode_scalar_nonempty in simp)

lemma bytes_uni: "scalar x \<Longrightarrow> bytes (uni x) = encode_scalar x"
  unfolding uni_def by (simp add: encode_rune_scalar bytes_text_of encode_scalar_bytes)

lemma uni_nonempty: "scalar x \<Longrightarrow> uni x \<noteq> []"
proof -
  assume "scalar x"
  from bytes_uni [OF this] show ?thesis by (metis encode_scalar_nonempty bytes_def list.map_disc_iff)
qed

lemma inj_of_char: "inj (of_char :: char \<Rightarrow> nat)"
  by (simp add: inj_def)

lemma bytes_inj: "bytes a = bytes b \<Longrightarrow> a = b"
  by (simp add: bytes_def inj_map_eq_map [OF inj_of_char])

text \<open>Dropping the variation selectors of a reaction is an operation on its code points: on valid text nothing but
  the selectors goes, and a text with a zero-width joiner keeps them.\<close>

theorem strip_runes:
  assumes "valid_utf8 (bytes s)"
  shows "stripVariationSelector s = (if 0x200D \<in> set (runes (bytes s)) then s
     else text_of (encode_runes (filter (\<lambda>r. r \<noteq> 0xFE0F) (runes (bytes s)))))"
proof -
  note rs = encode_runes_valid [OF assms]
  have sc: "scalar 0x200D" "scalar 0xFE0F" by (simp_all add: scalar_def between_def)
  have c: "contains (uni 0x200D) s \<longleftrightarrow> 0x200D \<in> set (runes (bytes s))"
    using contains_map [OF inj_of_char, of "uni 0x200D" s] contains_encoded [OF sc(1), of "runes (bytes s)"] rs
    by (simp add: bytes_uni [OF sc(1)] flip: bytes_def)
  have "bytes (remove_all (uni 0xFE0F) s) = encode_runes (filter (\<lambda>r. r \<noteq> 0xFE0F) (runes (bytes s)))"
    using remove_all_map [OF inj_of_char, of "uni 0xFE0F" s] remove_all_encoded [OF sc(2), of "runes (bytes s)"] rs
    by (simp add: bytes_uni [OF sc(2)] flip: bytes_def)
  then have "remove_all (uni 0xFE0F) s = text_of (encode_runes (filter (\<lambda>r. r \<noteq> 0xFE0F) (runes (bytes s))))"
    by (intro bytes_inj) (simp add: bytes_text_of encode_runes_bytes)
  then show ?thesis using c by (simp add: stripVariationSelector_def)
qed

theorem strip_runes_witness:
  "stripVariationSelector (text_of [0xE2, 0x9D, 0xA4, 0xEF, 0xB8, 0x8F]) = text_of (encode_runes [0x2764])"
proof -
  have "bytes (text_of [0xE2, 0x9D, 0xA4, 0xEF, 0xB8, 0x8F]) = [0xE2, 0x9D, 0xA4, 0xEF, 0xB8, 0x8F]"
    by (rule bytes_text_of) simp
  moreover have "valid_utf8 [0xE2, 0x9D, 0xA4, 0xEF, 0xB8, 0x8F]" "runes [0xE2, 0x9D, 0xA4, 0xEF, 0xB8, 0x8F] = [0x2764, 0xFE0F]"
    by (simp_all add: valid_utf8.simps(2) runes.simps(2) rune_at.simps(2) between_def second3_def rune3_def)
  ultimately show ?thesis using strip_runes [of "text_of [0xE2, 0x9D, 0xA4, 0xEF, 0xB8, 0x8F]"] by simp
qed

section \<open>Resolving twice\<close>

lemma pattern_words: "name_char c \<Longrightarrow> c \<noteq> CHR '':'' \<and> c \<noteq> CHR ''@''" "host_char c \<Longrightarrow> c \<noteq> CHR '':''"
  by (auto simp: name_char_def host_char_def word_char_def between_def)

lemma pattern_shortcode_at:
  assumes "n \<noteq> []" "\<forall>c \<in> set n. name_char c" "h \<noteq> []" "\<forall>c \<in> set h. host_char c"
  shows "customEmojiPattern (shortcode_at n h) = Some (n, h)"
proof -
  have stop: "\<not> name_char CHR ''@''" "\<not> host_char CHR '':''" using pattern_words by blast+
  have "takeWhile name_char (n @ CHR ''@'' # h @ '':'') = n" "dropWhile name_char (n @ CHR ''@'' # h @ '':'') = CHR ''@'' # h @ '':''"
    "takeWhile host_char (h @ '':'') = h" "dropWhile host_char (h @ '':'') = '':''"
    using assms stop by (simp_all add: takeWhile_append2 dropWhile_append2)
  then show ?thesis using assms by (simp add: customEmojiPattern_def shortcode_at_def Let_def)
qed

lemma pattern_parts:
  assumes "customEmojiPattern s = Some (n, h)"
  shows "n \<noteq> []" "\<forall>c \<in> set n. name_char c" "\<forall>c \<in> set h. host_char c" "hd s = CHR '':''"
  using assms unfolding customEmojiPattern_def
  by (auto simp: Let_def split: list.splits if_splits dest: set_takeWhileD)


definition emoji_test :: "(string \<Rightarrow> bool) \<Rightarrow> bool" where
  \<comment> \<open>what the test for emoji promises: it holds of emoji, an alias or a shortcode is not one, and a text that
    passes is valid and still passes without its variation selectors\<close>
  "emoji_test only = ((\<forall>r \<in> insert 0x2764 (snd ` set legacies). only (uni r)) \<and>
     (\<forall>s. only s \<and> s \<noteq> [] \<longrightarrow> valid_utf8 (bytes s) \<and> Convert s = None \<and> customEmojiPattern s = None
        \<and> stripVariationSelector s \<noteq> [] \<and> only (stripVariationSelector s)))"

lemma strip_strip:
  assumes "valid_utf8 (bytes s)"
  shows "stripVariationSelector (stripVariationSelector s) = stripVariationSelector s"
proof (cases "0x200D \<in> set (runes (bytes s))")
  case False
  let ?rs = "filter (\<lambda>r. r \<noteq> 0xFE0F) (runes (bytes s))"
  have b: "bytes (text_of (encode_runes ?rs)) = encode_runes ?rs" by (simp add: bytes_text_of encode_runes_bytes)
  have r: "runes (encode_runes ?rs) = ?rs" using encode_runes_valid [OF assms] by (intro runes_encode_runes) auto
  have "valid_utf8 (bytes (text_of (encode_runes ?rs)))" unfolding b by (rule valid_encode_runes)
  from strip_runes [OF this] strip_runes [OF assms] False show ?thesis by (simp add: b r)
qed (simp add: strip_runes [OF assms])

lemma strip_uni:
  assumes "scalar r" "r \<noteq> 0x200D" "r \<noteq> 0xFE0F"
  shows "stripVariationSelector (uni r) = uni r"
proof -
  have u: "uni r = text_of (encode_runes [r])" by (simp add: uni_def)
  have b: "bytes (uni r) = encode_runes [r]" unfolding u by (rule bytes_text_of) (rule encode_runes_bytes)
  have r: "runes (encode_runes [r]) = [r]" using assms(1) by (intro runes_encode_runes) simp
  have "valid_utf8 (bytes (uni r))" unfolding b by (rule valid_encode_runes)
  from strip_runes [OF this] show ?thesis unfolding b r using assms(2,3) by (simp add: u)
qed

lemma legacy_codes: "r \<in> insert 0x2764 (snd ` set legacies) \<Longrightarrow> scalar r \<and> r \<noteq> 0x200D \<and> r \<noteq> 0xFE0F"
  by (auto simp: legacies_def scalar_def between_def)

lemma fits_uni: "scalar r \<Longrightarrow> r \<noteq> 0 \<Longrightarrow> Fits (uni r) reactionMaxRunes"
proof -
  assume r: "scalar r" "r \<noteq> 0"
  have b: "bytes (uni r) = encode_runes [r]" unfolding bytes_uni [OF r(1)] by (simp add: encode_rune_scalar r(1))
  have "valid_utf8 (bytes (uni r))" "runes (bytes (uni r)) = [r]"
    unfolding b using valid_encode_runes [of "[r]"] runes_encode_runes [of "[r]"] r(1) by simp_all
  moreover have "0 \<notin> set (bytes (uni r))" unfolding bytes_uni [OF r(1)] using r(2) by (auto simp: encode_scalar_def)
  then have "CHR 0x00 \<notin> set (uni r)" by (force simp: bytes_def)
  ultimately show ?thesis by (simp add: Fits_def Storable_def rune_count_def reactionMaxRunes_def)
qed

lemma resolve_emoji:
  assumes "emoji_test only" "r \<in> insert 0x2764 (snd ` set legacies)"
  shows "resolveReaction t only (uni r) None = (uni r, None)"
proof -
  have c: "scalar r" "r \<noteq> 0x200D" "r \<noteq> 0xFE0F" using legacy_codes [OF assms(2)] by simp_all
  moreover have "r \<noteq> 0" using assms(2) by (auto simp: legacies_def)
  moreover have ne: "uni r \<noteq> []" using c(1) by (rule uni_nonempty)
  moreover have "only (uni r)" using assms by (auto simp: emoji_test_def)
  moreover have "Convert (uni r) = None" "customEmojiPattern (uni r) = None"
    using assms(1) \<open>only (uni r)\<close> ne by (simp_all add: emoji_test_def)
  ultimately show ?thesis by (simp add: resolveReaction_def resolveReactionValue_def strip_uni fits_uni)
qed

text \<open>The canonical form of a reaction is stable: for a local user, resolving what was stored gives the stored
  reaction and the same emoji again, whether the input was an alias, a shortcode, an emoji or something else.\<close>

theorem resolveReaction_stable:
  assumes "emoji_test only"
  shows "resolveReaction t only (fst (resolveReaction t only raw None)) None = resolveReaction t only raw None"
proof -
  have fallback: "resolveReaction t only FallbackReaction None = (FallbackReaction, None)"
    unfolding FallbackReaction_def by (rule resolve_emoji [OF assms]) simp
  have custom: "resolveReaction t only (shortcode_at n h) None = (shortcode_at n h, Some e)"
    if p: "customEmojiPattern (shortcode_at n h) = Some (n, h)" and f: "Fits (shortcode_at n h) reactionMaxRunes"
      and e: "t n (if h = ''.'' then None else Some h) = Some e" and h: "h \<noteq> []" for n h e
  proof -
    have "map_of legacies (shortcode_at n h) = None" by (simp add: legacies_def shortcode_at_def)
    then show ?thesis using p f e h
      by (auto simp: resolveReaction_def resolveReactionValue_def Convert_def Let_def actor_host_def shortcode_at_def)
  qed
  obtain r x where v: "resolveReactionValue t only raw None = (r, x)" by fastforce
  show ?thesis
  proof (cases "Fits r reactionMaxRunes")
    case False
    then show ?thesis using v fallback by (simp add: resolveReaction_def)
  next
    case fits: True
    then have res: "resolveReaction t only raw None = (r, x)" using v by (simp add: resolveReaction_def)
    consider "r = FallbackReaction" "x = None"
      | c where "c \<in> insert 0x2764 (snd ` set legacies)" "r = uni c" "x = None"
      | n h e where "customEmojiPattern (shortcode_at n h) = Some (n, h)" "h \<noteq> []" "r = shortcode_at n h" "x = Some e"
          "t n (if h = ''.'' then None else Some h) = Some e"
      | "only raw" "raw \<noteq> []" "r = stripVariationSelector raw" "x = None"
    proof (cases "raw = []")
      case True
      then show ?thesis using v that(1) by (simp add: resolveReactionValue_def)
    next
      case raw: False
      show ?thesis
      proof (cases "Convert raw")
        case (Some u)
        then obtain c where "map_of legacies raw = Some c" "u = uni c" by (auto simp: Convert_def)
        then show ?thesis using v raw Some that(2) [of c] map_of_SomeD [of legacies raw c]
          by (force simp: resolveReactionValue_def)
      next
        case None
        show ?thesis
        proof (cases "customEmojiPattern raw")
          case none: None
          then show ?thesis using v raw None that(1,4) by (auto simp: resolveReactionValue_def split: if_splits)
        next
          case (Some nh)
          obtain n h where nh: "nh = (n, h)" by fastforce
          note parts = pattern_parts [OF Some [unfolded nh]]
          let ?h = "if h = [] then ''.'' else h"
          have "customEmojiPattern (shortcode_at n ?h) = Some (n, ?h)"
            using parts by (intro pattern_shortcode_at) (auto simp: host_char_def)
          moreover have "?h \<noteq> []" by simp
          moreover have "(r, x) = (case t n (if ?h = ''.'' then None else Some ?h) of
              None \<Rightarrow> (FallbackReaction, None) | Some e \<Rightarrow> (shortcode_at n ?h, Some e))"
            using v raw None Some nh
            by (cases "h = []"; cases "h = ''.''") (auto simp: resolveReactionValue_def Let_def actor_host_def split: option.splits)
          ultimately show ?thesis using that(1) that(3) [of n ?h]
            by (cases "t n (if ?h = ''.'' then None else Some ?h)") simp_all
        qed
      qed
    qed
    then show ?thesis
    proof cases
      case 1
      then show ?thesis using res fallback by simp
    next
      case 2
      then show ?thesis using res resolve_emoji [OF assms] by simp
    next
      case 3
      then show ?thesis using res custom fits by simp
    next
      case 4
      let ?s = "stripVariationSelector raw"
      have s: "valid_utf8 (bytes raw)" "only ?s" "?s \<noteq> []" using assms 4 by (auto simp: emoji_test_def)
      then have "Convert ?s = None" "customEmojiPattern ?s = None" using assms by (auto simp: emoji_test_def)
      then show ?thesis using res 4 s fits by (simp add: resolveReaction_def resolveReactionValue_def strip_strip)
    qed
  qed
qed

definition alias_emoji :: "string \<Rightarrow> bool" where
  \<comment> \<open>a test that knows the emoji of the aliases\<close>
  "alias_emoji s = (s \<in> uni ` set (map snd legacies))"

lemma alias_emoji_ok: "emoji_test alias_emoji"
proof -
  have u: "valid_utf8 (bytes (uni r)) \<and> Convert (uni r) = None \<and> customEmojiPattern (uni r) = None
      \<and> stripVariationSelector (uni r) \<noteq> [] \<and> stripVariationSelector (uni r) = uni r"
    if r: "r \<in> snd ` set legacies" for r
  proof -
    have c: "scalar r" "r \<noteq> 0x200D" "r \<noteq> 0xFE0F" using legacy_codes [of r] r by simp_all
    have "0x80 \<le> r" using r by (auto simp: legacies_def)
    then have "0xC0 \<le> hd (bytes (uni r))" unfolding bytes_uni [OF c(1)] by (rule encode_lead)
    moreover have ne: "uni r \<noteq> []" using c(1) by (rule uni_nonempty)
    ultimately have hd: "0xC0 \<le> (of_char (hd (uni r)) :: nat)" by (simp add: bytes_def hd_map)
    have "hd k \<noteq> hd (uni r)" if "k \<in> fst ` set legacies" for k
    proof -
      have "\<forall>k \<in> fst ` set legacies. (of_char (hd k) :: nat) < 192" by (simp add: legacies_def)
      then show ?thesis using that hd by (metis not_less)
    qed
    then have "map_of legacies (uni r) = None" unfolding map_of_eq_None_iff by blast
    moreover have "(of_char (CHR '':'') :: nat) < 192" by simp
    then have "hd (uni r) \<noteq> CHR '':''" using hd by (metis not_less)
    then have "customEmojiPattern (uni r) = None" using pattern_parts(4) [of "uni r"] by (cases "customEmojiPattern (uni r)") auto
    moreover have "valid_utf8 (bytes (uni r))" unfolding bytes_uni [OF c(1)]
      using valid_encode_runes [of "[r]"] c(1) by (simp add: encode_rune_scalar)
    ultimately show ?thesis using strip_uni [OF c] ne by (simp add: Convert_def)
  qed
  have a: "0x2764 \<in> snd ` set legacies" by (simp add: legacies_def)
  show ?thesis unfolding emoji_test_def alias_emoji_def using u a by (auto simp: insert_absorb)
qed

theorem resolveReaction_stable_witness:
  "fst (resolveReaction (\<lambda>_ _. None) alias_emoji (fst (resolveReaction (\<lambda>_ _. None) alias_emoji ''like'' None)) None) = uni 0x1F44D"
proof -
  have "scalar 0x1F44D" by (simp add: scalar_def between_def)
  then have "fst (resolveReaction (\<lambda>_ _. None) alias_emoji ''like'' None) = uni 0x1F44D"
    by (simp add: resolveReaction_def resolveReactionValue_def Convert_def legacies_def fits_uni)
  then show ?thesis using resolveReaction_stable [OF alias_emoji_ok, of "\<lambda>_ _. None" "''like''"] by simp
qed

end
