(* ===== verification/Reaction_Service.thy ===== *)
theory Reaction_Service imports Note_Store Reaction_Text "HOL-Library.AList" begin

text \<open>
  Reacting to notes (core/reaction/reaction_service.go), the two strategies for the counts a note
  carries (core/reaction/count_writer.go), and the repository statements they use
  (repository/note_reaction.go, \<open>IncrementReaction\<close> of repository/note.go).

  The state extends the notes with the rows of \<open>note_reaction\<close>; \<open>Counts i r\<close> is the entry of reaction
  \<open>r\<close> in the \<open>reactions\<close> object of note \<open>i\<close> (0 when it has none: the statement removes an entry that
  would not be positive), taken as unbounded; \<open>Buffer i\<close> holds the fields of the Redis hash
  \<open>reaction-buffer:i\<close>.  A canonical reaction has no brace, comma, quote or backslash, so the path
  \<open>{reaction}\<close> of the statement names that one entry.
\<close>

section \<open>State\<close>

record reaction_row =
  ReactionRowID :: string
  ReactionUserID :: string
  ReactionNoteID :: string
  Reaction :: string

datatype reaction_effect =
    NotifyReaction string string string string | DropReactionNotice string string string
  | SendLike string string string | SendUndoLike string string string
  | ChartReaction string string | WebhookReaction string string string
  | StreamReacted string string string "(string \<times> string) option" | StreamUnreacted string string string
  | RankInChannel string string | RankGlobal string | RankPerUser string string

record reaction_store = store +
  ReactionRows :: "reaction_row list"
  Counts :: "string \<Rightarrow> string \<Rightarrow> int"
  Buffer :: "string \<Rightarrow> (string \<times> int) list"
  RedisDown :: bool
  ReactionOutbox :: "reaction_effect list"

type_synonym 'a reaction_act = "(reaction_store, note_error, 'a) act"

record reaction_wiring = gate +
  Emojis :: emoji_table
  EmojiOnly :: "string \<Rightarrow> bool"
  RolesOf :: "(string \<Rightarrow> string list option) option"
  MediaSilenced :: "(string \<Rightarrow> bool) option"
  Buffered :: bool
  ReactionNotifications :: bool
  ReactionFederation :: bool
  ReactionChart :: bool
  ReactionWebhook :: bool
  NoteStream :: bool
  Featured :: bool
  Sampled :: "nat \<Rightarrow> bool"
  NoteTime :: "string \<Rightarrow> int option"
  NewReactionID :: "nat \<Rightarrow> string"

definition send :: "reaction_effect \<Rightarrow> unit reaction_act" where
  "send x = change (\<lambda>w. w\<lparr>ReactionOutbox := ReactionOutbox w @ [x]\<rparr>)"

section \<open>Repositories\<close>

definition row_pair :: "reaction_row \<Rightarrow> string \<times> string" where
  "row_pair r = (ReactionUserID r, ReactionNoteID r)"

definition FindByPair :: "string \<Rightarrow> string \<Rightarrow> reaction_row option reaction_act" where
  "FindByPair u i = read_row (Storable u \<and> Storable i) (\<lambda>w. find (\<lambda>r. row_pair r = (u, i)) (ReactionRows w))"

definition CreateReaction :: "reaction_row \<Rightarrow> unit reaction_act" where
  \<comment> \<open>unique in its id, and in user and note\<close>
  "CreateReaction r = then_act db
     (then_act (reject_if (\<not> Storable (ReactionUserID r) \<or> \<not> Storable (ReactionNoteID r) \<or> \<not> Fits (Reaction r) reactionMaxRunes) ErrDatabase)
     (bind_act (query (\<lambda>w. ReactionRowID r \<in> ReactionRowID ` set (ReactionRows w) \<or> row_pair r \<in> row_pair ` set (ReactionRows w))) (\<lambda>dup.
     then_act (reject_if dup ErrUniqueRow) (change (\<lambda>w. w\<lparr>ReactionRows := ReactionRows w @ [r]\<rparr>)))))"

definition DeleteReaction :: "reaction_row \<Rightarrow> nat reaction_act" where
  \<comment> \<open>by primary key; the number of rows it removed\<close>
  "DeleteReaction r = then_act db (bind_act (query (\<lambda>w. length (filter (\<lambda>x. ReactionRowID x = ReactionRowID r) (ReactionRows w))))
     (\<lambda>n. then_act (change (\<lambda>w. w\<lparr>ReactionRows := filter (\<lambda>x. ReactionRowID x \<noteq> ReactionRowID r) (ReactionRows w)\<rparr>)) (ret n)))"

definition IncrementReaction :: "string \<Rightarrow> string \<Rightarrow> int \<Rightarrow> unit reaction_act" where
  "IncrementReaction i r delta = then_act db (change (\<lambda>w. if Targets w i = None then w
     else w\<lparr>Counts := (Counts w)(i := (Counts w i)(r := (if Counts w i r + delta > 0 then Counts w i r + delta else 0)))\<rparr>))"

section \<open>Counting\<close>

definition buffered :: "(string \<times> int) list \<Rightarrow> string \<Rightarrow> int" where
  "buffered hash r = (case map_of hash r of None \<Rightarrow> 0 | Some d \<Rightarrow> d)"

definition HIncrBy :: "string \<Rightarrow> string \<Rightarrow> int \<Rightarrow> unit reaction_act" where
  "HIncrBy i r delta = bind_act (query RedisDown) (\<lambda>down. then_act (reject_if down ErrDatabase)
     (change (\<lambda>w. w\<lparr>Buffer := (Buffer w)(i := AList.update r (buffered (Buffer w i) r + delta) (Buffer w i))\<rparr>)))"

definition Increment :: "reaction_wiring \<Rightarrow> string \<Rightarrow> string \<Rightarrow> int \<Rightarrow> unit reaction_act" where
  "Increment e i r delta = (if Buffered e then HIncrBy i r delta else IncrementReaction i r delta)"

fun applyDeltas :: "string \<Rightarrow> (string \<times> int) list \<Rightarrow> unit reaction_act" where
  "applyDeltas i [] = ret ()"
| "applyDeltas i ((r, d) # ds) = then_act (ignore_error (IncrementReaction i r d)) (applyDeltas i ds)"

definition flushKey :: "string \<Rightarrow> unit reaction_act" where
  \<comment> \<open>the script reads the hash and deletes it\<close>
  "flushKey i = bind_act (query RedisDown) (\<lambda>down. then_act (reject_if down ErrDatabase)
     (bind_act (query (\<lambda>w. Buffer w i)) (\<lambda>hash.
     then_act (change (\<lambda>w. w\<lparr>Buffer := (Buffer w)(i := [])\<rparr>)) (applyDeltas i hash))))"

fun Flush :: "string list \<Rightarrow> unit reaction_act" where
  \<comment> \<open>over the keys that the scan yields, in its order\<close>
  "Flush [] = ret ()"
| "Flush (i # is) = then_act (ignore_error (flushKey i)) (Flush is)"

definition MergeReactions :: "(string \<Rightarrow> int) \<Rightarrow> (string \<times> int) list \<Rightarrow> string \<Rightarrow> int" where
  \<comment> \<open>what a reader sees of an entry: one that is buffered and not positive disappears\<close>
  "MergeReactions counts hash r = (case map_of hash r of None \<Rightarrow> counts r
     | Some d \<Rightarrow> if counts r + d \<le> 0 then 0 else counts r + d)"

section \<open>Creating\<close>

definition isPureRenote :: "target \<Rightarrow> bool" where
  "isPureRenote t = (TargetRenoteID t \<noteq> None \<and> (TargetText t = None \<or> TargetText t = Some []) \<and>
     (TargetCW t = None \<or> TargetCW t = Some []) \<and> TargetFileIDs t = [] \<and> \<not> TargetHasPoll t \<and>
     (TargetReplyID t = None \<or> TargetReplyID t = Some []))"

definition chooseReaction :: "reaction_wiring \<Rightarrow> reactor \<Rightarrow> target \<Rightarrow> string \<Rightarrow> string" where
  "chooseReaction e u t raw = (case resolveReaction (Emojis e) (EmojiOnly e) raw (reactorHost u) of
     (r, emoji) \<Rightarrow> applyReactionAcceptance (RolesOf e) (MediaSilenced e) (accountID u) (reactorHost u) (ReactionAcceptance t) r emoji)"

definition announceRemoval :: "reaction_wiring \<Rightarrow> reactor \<Rightarrow> target \<Rightarrow> string \<Rightarrow> unit reaction_act" where
  "announceRemoval e u t old =
     then_act (perform (ReactionFederation e) (send (SendUndoLike (accountID u) (TargetID t) old)))
     (then_act (perform (ReactionNotifications e \<and> noteUserID t \<noteq> accountID u)
        (send (DropReactionNotice (noteUserID t) (accountID u) (TargetID t))))
     (perform (NoteStream e) (send (StreamUnreacted (TargetID t) (accountID u) (decodeReactionForStream old)))))"

definition removeReaction :: "reaction_wiring \<Rightarrow> reactor \<Rightarrow> target \<Rightarrow> reaction_row \<Rightarrow> unit reaction_act" where
  \<comment> \<open>the row, then its count; a row that is gone already stops here\<close>
  "removeReaction e u t existing = bind_act (DeleteReaction existing) (\<lambda>n.
     then_act (reject_if (n = 0) ErrReactionNotFound)
     (then_act (ignore_error (Increment e (TargetID t) (Reaction existing) (- 1)))
     (announceRemoval e u t (Reaction existing))))"

definition replaceExisting :: "reaction_wiring \<Rightarrow> reactor \<Rightarrow> target \<Rightarrow> string \<Rightarrow> unit reaction_act" where
  \<comment> \<open>a failing lookup counts as no reaction yet\<close>
  "replaceExisting e u t reaction = bind_act (attempt (FindByPair (accountID u) (TargetID t))) (\<lambda>r. case r of
       Val (Some existing) \<Rightarrow> then_act (reject_if (Reaction existing = reaction) ErrAlreadyReacted) (removeReaction e u t existing)
     | _ \<Rightarrow> ret ())"

definition insertReaction :: "reaction_wiring \<Rightarrow> reactor \<Rightarrow> target \<Rightarrow> string \<Rightarrow> unit reaction_act" where
  \<comment> \<open>somebody else's row of the same pair is reported as a reaction already there\<close>
  "insertReaction e u t reaction = bind_act (draw (NewReactionID e)) (\<lambda>i.
     bind_act (attempt (CreateReaction \<lparr>ReactionRowID = i, ReactionUserID = accountID u, ReactionNoteID = TargetID t, Reaction = reaction\<rparr>))
       (\<lambda>r. case r of Stop (Err ErrUniqueRow) \<Rightarrow> stop_with (Err ErrAlreadyReacted) | Stop x \<Rightarrow> stop_with x | Val _ \<Rightarrow> ret ()))"

definition featuredMaxNoteAge :: int where "featuredMaxNoteAge = 3 * 24 * 3600 * 1000"

definition updateFeaturedOnReaction :: "reaction_wiring \<Rightarrow> target \<Rightarrow> string \<Rightarrow> unit reaction_act" where
  "updateFeaturedOnReaction e t uid = bind_act (query Now) (\<lambda>now. bind_act (query Drawn) (\<lambda>n.
     if \<not> Featured e \<or> \<not> Sampled e n \<or> noteUserID t = uid
        \<or> (case NoteTime e (TargetID t) of None \<Rightarrow> True | Some created \<Rightarrow> featuredMaxNoteAge \<le> now - created) then ret ()
     else if TargetChannelID t \<noteq> None \<and> TargetChannelID t \<noteq> Some []
     then perform (TargetReplyID t = None) (send (RankInChannel (the (TargetChannelID t)) (TargetID t)))
     else perform (noteVisibility t = NoteVisibilityPublic \<and> TargetUserHost t = None \<and> TargetReplyID t = None)
       (then_act (send (RankGlobal (TargetID t))) (send (RankPerUser (noteUserID t) (TargetID t))))))"

definition announceReaction :: "reaction_wiring \<Rightarrow> reactor \<Rightarrow> target \<Rightarrow> string \<Rightarrow> unit reaction_act" where
  "announceReaction e u t reaction =
     then_act (perform (ReactionNotifications e \<and> noteUserID t \<noteq> accountID u)
        (send (NotifyReaction (noteUserID t) (accountID u) (TargetID t) reaction)))
     (then_act (perform (ReactionFederation e) (send (SendLike (accountID u) (TargetID t) reaction)))
     (then_act (perform (ReactionChart e) (send (ChartReaction (accountID u) (TargetID t))))
     (then_act (perform (ReactionWebhook e) (send (WebhookReaction (TargetID t) (accountID u) reaction)))
     (then_act (perform (NoteStream e) (send (StreamReacted (TargetID t) (accountID u) (decodeReactionForStream reaction)
        (resolveStreamEmoji (Emojis e) reaction))))
     (updateFeaturedOnReaction e t (accountID u))))))"

definition addReaction :: "reaction_wiring \<Rightarrow> reactor \<Rightarrow> target \<Rightarrow> string \<Rightarrow> unit reaction_act" where
  "addReaction e u t reaction = then_act (insertReaction e u t reaction)
     (then_act (ignore_error (Increment e (TargetID t) reaction 1)) (announceReaction e u t reaction))"

definition reactionTarget :: "reaction_wiring \<Rightarrow> reactor \<Rightarrow> string \<Rightarrow> target reaction_act" where
  "reactionTarget e u noteID = bind_act (loadTarget (gate.truncate e) noteID) (\<lambda>t.
     then_act (reject_if (\<not> may_read (gate.truncate e) u t) ErrNoteNotVisible)
     (then_act (checkAuthorBlocks (gate.truncate e) u t)
     (then_act (reject_if (isPureRenote t) ErrCannotReactToPureRenote) (ret t))))"

definition Create :: "reaction_wiring \<Rightarrow> reactor \<Rightarrow> string \<Rightarrow> string \<Rightarrow> string reaction_act" where
  "Create e u noteID raw = bind_act (reactionTarget e u noteID) (\<lambda>t.
     let reaction = chooseReaction e u t raw in
     then_act (replaceExisting e u t reaction) (then_act (addReaction e u t reaction) (ret reaction)))"

section \<open>Deleting\<close>

definition Delete :: "reaction_wiring \<Rightarrow> reactor \<Rightarrow> string \<Rightarrow> unit reaction_act" where
  "Delete e u noteID = bind_act (FindNote noteID) (\<lambda>t. case t of
       None \<Rightarrow> stop_with (Err ErrNoteNotFound)
     | Some t \<Rightarrow> bind_act (FindByPair (accountID u) (TargetID t)) (\<lambda>existing. case existing of
           None \<Rightarrow> stop_with (Err ErrReactionNotFound)
         | Some r \<Rightarrow> removeReaction e u t r))"

end
