(* ===== verification/Reaction_Claims.thy ===== *)
theory Reaction_Claims imports Reaction_Service begin

text \<open>
  Properties of reactions: the invariant of every run of reacting, taking back and flushing; the
  refinement of the direct counts by the buffered ones; and what a reaction taken back while its
  creation is still under way does to the direct count.
\<close>

section \<open>The invariant\<close>

definition rows_with :: "reaction_store \<Rightarrow> string \<Rightarrow> string \<Rightarrow> int" where
  "rows_with w i r = int (length (filter (\<lambda>x. ReactionNoteID x = i \<and> Reaction x = r) (ReactionRows w)))"

definition total :: "reaction_store \<Rightarrow> string \<Rightarrow> string \<Rightarrow> int" where
  \<comment> \<open>the stored count and what is buffered for it\<close>
  "total w i r = Counts w i r + buffered (Buffer w i) r"

definition row_ok :: "reaction_store \<Rightarrow> reaction_row \<Rightarrow> bool" where
  \<comment> \<open>its note exists and, if it takes hearts only, the reaction is one\<close>
  "row_ok w x = (case Targets w (ReactionNoteID x) of None \<Rightarrow> False
     | Some t \<Rightarrow> ReactionAcceptance t = Some ''likeOnly'' \<longrightarrow> Reaction x = FallbackReaction)"

definition buffer_ok :: "reaction_wiring \<Rightarrow> reaction_store \<Rightarrow> bool" where
  "buffer_ok e w = (\<forall>i. distinct (map fst (Buffer w i)) \<and> (Buffer w i \<noteq> [] \<longrightarrow> Buffered e \<and> Targets w i \<noteq> None))"

definition reactions_ok :: "reaction_wiring \<Rightarrow> reaction_store \<Rightarrow> bool" where
  "reactions_ok e w = (intact w \<and> \<not> RedisDown w \<and> (\<forall>i t. Targets w i = Some t \<longrightarrow> TargetID t = i)
     \<and> distinct (map ReactionRowID (ReactionRows w)) \<and> distinct (map row_pair (ReactionRows w))
     \<and> (\<forall>x \<in> set (ReactionRows w). row_ok w x) \<and> buffer_ok e w \<and> (\<forall>i r. total w i r = rows_with w i r))"

lemma ready:
  assumes "reactions_ok e w"
  shows "intact w" "\<not> RedisDown w" "buffer_ok e w" "distinct (map ReactionRowID (ReactionRows w))" "distinct (map row_pair (ReactionRows w))"
  using assms unfolding reactions_ok_def by blast+

lemma ready_row: "reactions_ok e w \<Longrightarrow> x \<in> set (ReactionRows w) \<Longrightarrow> Targets w (ReactionNoteID x) \<noteq> None"
  unfolding reactions_ok_def row_ok_def by (metis option.simps(4))

section \<open>Counting\<close>

lemma buffered_update [simp]:
  "buffered (AList.update r d hash) s = (if s = r then d else buffered hash s)"
  by (simp add: buffered_def update_conv')

definition counted :: "reaction_wiring \<Rightarrow> string \<Rightarrow> string \<Rightarrow> int \<Rightarrow> reaction_store \<Rightarrow> reaction_store" where
  "counted e i r d w = (if Buffered e
     then w\<lparr>Buffer := (Buffer w)(i := AList.update r (buffered (Buffer w i) r + d) (Buffer w i))\<rparr>
     else w\<lparr>Counts := (Counts w)(i := (Counts w i)(r := Counts w i r + d))\<rparr>)"

lemma counted_parts [simp]:
  "Failing (counted e i r d w) = Failing w" "RedisDown (counted e i r d w) = RedisDown w"
  "Targets (counted e i r d w) = Targets w" "ReactionRows (counted e i r d w) = ReactionRows w"
  "intact (counted e i r d w) = intact w"
  by (simp_all add: counted_def intact_def)

lemma total_counted: "total (counted e i r d w) j s = total w j s + (if j = i \<and> s = r then d else 0)"
  by (auto simp: total_def counted_def)

lemma buffer_ok_counted: "buffer_ok e w \<Longrightarrow> Targets w i \<noteq> None \<Longrightarrow> buffer_ok e (counted e i r d w)"
  by (auto simp: buffer_ok_def counted_def distinct_update)

lemma direct_total: "buffer_ok e w \<Longrightarrow> \<not> Buffered e \<Longrightarrow> total w i r = Counts w i r"
  by (auto simp: buffer_ok_def total_def buffered_def)

lemma wp_Increment:
  assumes "intact w" "\<not> RedisDown w" "Targets w i \<noteq> None" "buffer_ok e w" "0 \<le> total w i r + d"
  shows "wp (ignore_error (Increment e i r d)) Q E w = Q () (counted e i r d w)"
proof -
  have "(if 0 < Counts w i r + d then Counts w i r + d else 0) = Counts w i r + d" if "\<not> Buffered e"
    using assms(5) direct_total [OF assms(4) that, of i r] by simp
  then show ?thesis using assms
    by (cases "Buffered e") (auto simp: Increment_def HIncrBy_def IncrementReaction_def counted_def intact_def)
qed

section \<open>Removing and adding a row\<close>

definition tells_only :: "unit reaction_act \<Rightarrow> bool" where
  \<comment> \<open>the call returns and only adds to what goes out\<close>
  "tells_only m = (\<forall>w. \<exists>xs. m w = (Val (), w\<lparr>ReactionOutbox := xs\<rparr>))"

lemma tells_ret: "tells_only (ret ())"
proof -
  have "\<exists>xs. (Val (), w) = (Val (), w\<lparr>ReactionOutbox := xs\<rparr>)" for w :: reaction_store
    by (rule exI [of _ "ReactionOutbox w"]) simp
  then show ?thesis by (simp add: tells_only_def ret_def)
qed

lemma tells_send: "tells_only (send x)"
  by (auto simp: tells_only_def send_def change_def)

lemma tells_perform: "tells_only m \<Longrightarrow> tells_only (perform b m)"
  by (simp add: perform_def tells_ret)

lemma tells_query: "(\<And>a. tells_only (f a)) \<Longrightarrow> tells_only (bind_act (query g) f)"
  by (simp add: tells_only_def bind_act_def query_def)

lemma tells_if: "tells_only m \<Longrightarrow> tells_only n \<Longrightarrow> tells_only (if b then m else n)"
  by simp

lemma tells_then:
  assumes "tells_only m" "tells_only n"
  shows "tells_only (then_act m n)"
  unfolding tells_only_def
proof
  fix w
  obtain xs ys where "m w = (Val (), w\<lparr>ReactionOutbox := xs\<rparr>)"
    "n (w\<lparr>ReactionOutbox := xs\<rparr>) = (Val (), w\<lparr>ReactionOutbox := xs, ReactionOutbox := ys\<rparr>)"
    using assms unfolding tells_only_def by metis
  then show "\<exists>xs. then_act m n w = (Val (), w\<lparr>ReactionOutbox := xs\<rparr>)" by (simp add: then_act_def bind_act_def) blast
qed

lemmas tells = tells_ret tells_send tells_perform tells_query tells_if tells_then

lemma tells_announceRemoval: "tells_only (announceRemoval e u t r)"
  unfolding announceRemoval_def by (intro tells)

lemma tells_announceReaction: "tells_only (announceReaction e u t r)"
  unfolding announceReaction_def updateFeaturedOnReaction_def by (intro tells)

lemma wp_tells:
  assumes "tells_only m"
  shows "wp m (\<lambda>_ w'. \<exists>xs. w' = w\<lparr>ReactionOutbox := xs\<rparr>) (\<lambda>_ _. False) w"
proof -
  obtain xs where "m w = (Val (), w\<lparr>ReactionOutbox := xs\<rparr>)" using assms unfolding tells_only_def by blast
  then show ?thesis by (auto simp: wp_def)
qed

lemma reactions_ok_outbox [simp]: "reactions_ok e (w\<lparr>ReactionOutbox := xs\<rparr>) = reactions_ok e w"
  by (simp add: reactions_ok_def intact_def row_ok_def buffer_ok_def total_def rows_with_def cong: option.case_cong)

lemma reactions_ok_drawn [simp]: "reactions_ok e (w\<lparr>Drawn := n\<rparr>) = reactions_ok e w"
  by (simp add: reactions_ok_def intact_def row_ok_def buffer_ok_def total_def rows_with_def cong: option.case_cong)

definition without :: "reaction_row \<Rightarrow> reaction_store \<Rightarrow> reaction_store" where
  "without x w = w\<lparr>ReactionRows := filter (\<lambda>y. ReactionRowID y \<noteq> ReactionRowID x) (ReactionRows w)\<rparr>"

lemma removed_one:
  assumes "distinct (map ReactionRowID xs)" "x \<in> set xs"
  shows "length (filter (\<lambda>y. ReactionRowID y = ReactionRowID x) xs) = 1"
    and "int (length (filter P (filter (\<lambda>y. ReactionRowID y \<noteq> ReactionRowID x) xs))) = int (length (filter P xs)) - of_bool (P x)"
proof -
  have same: "y = x" if "y \<in> set xs" "ReactionRowID y = ReactionRowID x" for y
    using assms that by (auto simp: distinct_map inj_on_def)
  have d: "distinct xs" using assms(1) by (simp add: distinct_map)
  have "filter (\<lambda>y. ReactionRowID y = ReactionRowID x) xs = filter (\<lambda>y. y = x) xs" by (rule filter_cong) (auto dest: same)
  moreover have "filter (\<lambda>y. y = x) xs = [x]" using d assms(2) by (induction xs) (auto simp: filter_empty_conv)
  ultimately show "length (filter (\<lambda>y. ReactionRowID y = ReactionRowID x) xs) = 1" by simp
  have "filter (\<lambda>y. ReactionRowID y \<noteq> ReactionRowID x) xs = filter (\<lambda>y. y \<noteq> x) xs" by (rule filter_cong) (auto dest: same)
  moreover have "int (length (filter P (filter (\<lambda>y. y \<noteq> x) xs))) = int (length (filter P xs)) - of_bool (P x)"
  proof -
    have "length (filter P xs) = length (filter P (filter (\<lambda>y. y \<noteq> x) xs)) + length (filter P (filter (\<lambda>y. y = x) xs))"
      using sum_length_filter_compl [of "\<lambda>y. y \<noteq> x" "filter P xs"] by (simp add: conj_commute)
    moreover have "filter (\<lambda>y. y = x) xs = [x]" using d assms(2) by (induction xs) (auto simp: filter_empty_conv)
    ultimately show ?thesis by simp
  qed
  ultimately show "int (length (filter P (filter (\<lambda>y. ReactionRowID y \<noteq> ReactionRowID x) xs))) = int (length (filter P xs)) - of_bool (P x)"
    by simp
qed

lemma reactions_ok_without:
  assumes w: "reactions_ok e w" and x: "x \<in> set (ReactionRows w)"
  shows "reactions_ok e (counted e (ReactionNoteID x) (Reaction x) (- 1) (without x w))"
    and "0 \<le> total (without x w) (ReactionNoteID x) (Reaction x) + - 1"
proof -
  let ?i = "ReactionNoteID x" let ?r = "Reaction x" let ?w = "without x w"
  have d: "distinct (map ReactionRowID (ReactionRows w))" and ok: "row_ok w x" and b: "buffer_ok e w"
    using w x by (auto simp: reactions_ok_def)
  then have t: "Targets w ?i \<noteq> None" by (auto simp: row_ok_def split: option.splits)
  have rows: "rows_with ?w i r = rows_with w i r - of_bool (ReactionNoteID x = i \<and> Reaction x = r)" for i r
    using removed_one(2) [OF d x, of "\<lambda>x. ReactionNoteID x = i \<and> Reaction x = r"] by (simp add: rows_with_def without_def)
  have tot: "total ?w i r = total w i r" "buffer_ok e ?w = buffer_ok e w" "Targets ?w = Targets w" for i r
    by (simp_all add: total_def without_def buffer_ok_def)
  have "1 \<le> rows_with w ?i ?r" using x by (auto simp: rows_with_def Suc_le_eq length_greater_0_conv filter_empty_conv)
  then show "0 \<le> total ?w ?i ?r + - 1" using w tot by (simp add: reactions_ok_def)
  have "buffer_ok e (counted e ?i ?r (- 1) ?w)" using b t tot by (intro buffer_ok_counted) simp_all
  moreover have "total (counted e ?i ?r (- 1) ?w) i r = rows_with (counted e ?i ?r (- 1) ?w) i r" for i r
    using w rows [of i r] tot by (auto simp: total_counted reactions_ok_def rows_with_def)
  ultimately show "reactions_ok e (counted e ?i ?r (- 1) ?w)"
    using w by (auto simp: reactions_ok_def without_def intact_def row_ok_def distinct_map_filter)
qed

lemma wp_removeReaction:
  assumes w: "reactions_ok e w" and x: "x \<in> set (ReactionRows w)" "ReactionNoteID x = TargetID t"
  shows "wp (removeReaction e u t x) (\<lambda>_ w'. reactions_ok e w' \<and> Targets w' = Targets w
      \<and> ReactionRows w' = ReactionRows (without x w)) (\<lambda>_ _. False) w"
proof -
  let ?w = "without x w"
  note after = reactions_ok_without [OF w x(1)]
  have d: "distinct (map ReactionRowID (ReactionRows w))" using w by (simp add: reactions_ok_def)
  have "intact ?w" "\<not> RedisDown ?w" "Targets ?w (TargetID t) \<noteq> None" "buffer_ok e ?w"
    using ready [OF w] ready_row [OF w x(1)] x(2) by (simp_all add: without_def intact_def buffer_ok_def)
  then have inc: "wp (ignore_error (Increment e (TargetID t) (Reaction x) (- 1))) Q E ?w = Q () (counted e (TargetID t) (Reaction x) (- 1) ?w)" for Q E
    using after(2) x(2) by (intro wp_Increment) simp_all
  have "wp (removeReaction e u t x) Q E w = wp (announceRemoval e u t (Reaction x)) Q E (counted e (TargetID t) (Reaction x) (- 1) ?w)" for Q E
    using w removed_one(1) [OF d x(1)]
    by (simp add: removeReaction_def DeleteReaction_def reactions_ok_def intact_def del: wp_ignore_error flip: without_def) (simp only: inc)
  then show ?thesis using after(1) x(2)
    by (auto intro!: wp_mono [OF wp_tells [OF tells_announceRemoval]] simp: without_def)
qed


definition with_row :: "reaction_row \<Rightarrow> reaction_store \<Rightarrow> reaction_store" where
  "with_row x w = w\<lparr>Drawn := Suc (Drawn w), ReactionRows := ReactionRows w @ [x]\<rparr>"

lemma wp_insertReaction:
  assumes "intact w"
  shows "wp (insertReaction e u t r) (\<lambda>_ w'. \<exists>x. w' = with_row x w \<and> row_pair x = (accountID u, TargetID t) \<and> Reaction x = r
       \<and> ReactionRowID x \<notin> ReactionRowID ` set (ReactionRows w) \<and> row_pair x \<notin> row_pair ` set (ReactionRows w))
     (\<lambda>_ w'. w' = w\<lparr>Drawn := Suc (Drawn w)\<rparr>) w"
  using assms
  by (auto simp: insertReaction_def CreateReaction_def intact_def with_row_def row_pair_def split: res.splits stop.splits note_error.splits)

lemma reactions_ok_with:
  assumes w: "reactions_ok e w" and x: "row_ok w x"
    and new: "ReactionRowID x \<notin> ReactionRowID ` set (ReactionRows w)" "row_pair x \<notin> row_pair ` set (ReactionRows w)"
  shows "reactions_ok e (counted e (ReactionNoteID x) (Reaction x) 1 (with_row x w))"
    and "0 \<le> total (with_row x w) (ReactionNoteID x) (Reaction x) + 1"
proof -
  let ?i = "ReactionNoteID x" let ?r = "Reaction x" let ?w = "with_row x w"
  have t: "Targets w ?i \<noteq> None" using x by (auto simp: row_ok_def split: option.splits)
  have rows: "rows_with ?w i r = rows_with w i r + of_bool (ReactionNoteID x = i \<and> Reaction x = r)" for i r
    by (simp add: rows_with_def with_row_def)
  have tot: "total ?w i r = total w i r" "buffer_ok e ?w = buffer_ok e w" "Targets ?w = Targets w" for i r
    by (simp_all add: total_def with_row_def buffer_ok_def)
  show "0 \<le> total ?w ?i ?r + 1" using w tot by (simp add: reactions_ok_def rows_with_def)
  have "buffer_ok e (counted e ?i ?r 1 ?w)" using w t tot by (intro buffer_ok_counted) (simp_all add: reactions_ok_def)
  moreover have "total (counted e ?i ?r 1 ?w) i r = rows_with (counted e ?i ?r 1 ?w) i r" for i r
    using w rows [of i r] tot by (auto simp: total_counted reactions_ok_def rows_with_def)
  ultimately show "reactions_ok e (counted e ?i ?r 1 ?w)"
    using w x new by (auto simp: reactions_ok_def with_row_def intact_def row_ok_def)
qed

lemma wp_addReaction:
  assumes w: "reactions_ok e w" and t: "Targets w (TargetID t) = Some t" and r: "ReactionAcceptance t = Some ''likeOnly'' \<Longrightarrow> r = FallbackReaction"
  shows "wp (addReaction e u t r) (\<lambda>_ w'. reactions_ok e w' \<and> Targets w' = Targets w
      \<and> (\<exists>x. ReactionRows w' = ReactionRows w @ [x] \<and> row_pair x = (accountID u, TargetID t) \<and> Reaction x = r))
    (\<lambda>_ w'. w' = w\<lparr>Drawn := Suc (Drawn w)\<rparr>) w"
proof -
  have tail: "wp (then_act (ignore_error (Increment e (TargetID t) r 1)) (announceReaction e u t r))
      (\<lambda>_ w'. reactions_ok e w' \<and> Targets w' = Targets w \<and> ReactionRows w' = ReactionRows w @ [x]) (\<lambda>_ _. False) (with_row x w)"
    if x: "row_pair x = (accountID u, TargetID t)" "Reaction x = r"
      "ReactionRowID x \<notin> ReactionRowID ` set (ReactionRows w)" "row_pair x \<notin> row_pair ` set (ReactionRows w)" for x
  proof -
    have ok: "row_ok w x" using x(1,2) t r by (auto simp: row_ok_def row_pair_def)
    note after = reactions_ok_with [OF w ok x(3,4)]
    have "intact (with_row x w)" "\<not> RedisDown (with_row x w)" "Targets (with_row x w) (TargetID t) \<noteq> None" "buffer_ok e (with_row x w)"
      using ready [OF w] t by (simp_all add: with_row_def intact_def buffer_ok_def)
    then have inc: "wp (ignore_error (Increment e (TargetID t) r 1)) Q E (with_row x w) = Q () (counted e (TargetID t) r 1 (with_row x w))" for Q E
      using after(2) x(1,2) by (intro wp_Increment) (simp_all add: row_pair_def)
    show ?thesis unfolding wp_then inc
      by (rule wp_mono [OF wp_tells [OF tells_announceReaction]]) (use after(1) x(1,2) in \<open>auto simp: row_pair_def with_row_def\<close>)
  qed
  have i: "intact w" using w by (simp add: reactions_ok_def)
  show ?thesis unfolding addReaction_def wp_then [of "insertReaction e u t r"]
  proof (rule wp_mono [OF wp_insertReaction [OF i]], elim exE conjE, goal_cases)
    case (1 _ w' x)
    show ?case unfolding 1(1) by (rule wp_mono [OF tail [OF 1(2-5)]]) (use 1 in auto)
  qed
qed

lemma wp_FindByPair: "intact w \<Longrightarrow> wp (FindByPair u i) Q E w
    = Q (if Storable u \<and> Storable i then find (\<lambda>r. row_pair r = (u, i)) (ReactionRows w) else None) w"
  unfolding FindByPair_def by (rule wp_read_row)

lemma wp_replaceExisting:
  assumes w: "reactions_ok e w"
  shows "wp (replaceExisting e u t r) (\<lambda>_ w'. reactions_ok e w' \<and> Targets w' = Targets w
      \<and> filter (\<lambda>x. row_pair x \<noteq> (accountID u, TargetID t)) (ReactionRows w') = filter (\<lambda>x. row_pair x \<noteq> (accountID u, TargetID t)) (ReactionRows w))
    (\<lambda>_ w'. w' = w) w"
proof -
  have i: "intact w" and d: "distinct (map row_pair (ReactionRows w))" and di: "distinct (map ReactionRowID (ReactionRows w))"
    using w by (simp_all add: reactions_ok_def)
  have rest: "filter (\<lambda>y. row_pair y \<noteq> row_pair x) (ReactionRows (without x w)) = filter (\<lambda>y. row_pair y \<noteq> row_pair x) (ReactionRows w)"
    if x: "x \<in> set (ReactionRows w)" for x
  proof -
    have "ReactionRowID y = ReactionRowID x \<Longrightarrow> row_pair y = row_pair x" if "y \<in> set (ReactionRows w)" for y
      using di that x by (auto simp: distinct_map inj_on_def)
    then show ?thesis by (auto simp: without_def intro!: filter_cong)
  qed
  let ?found = "if Storable (accountID u) \<and> Storable (TargetID t) then find (\<lambda>x. row_pair x = (accountID u, TargetID t)) (ReactionRows w) else None"
  show ?thesis
  proof (cases ?found)
    case None
    then show ?thesis using w by (simp add: replaceExisting_def wp_FindByPair [OF i])
  next
    case (Some x)
    then have x: "x \<in> set (ReactionRows w)" "row_pair x = (accountID u, TargetID t)" by (auto simp: find_Some_iff split: if_splits)
    have "wp (removeReaction e u t x) (\<lambda>_ w'. reactions_ok e w' \<and> Targets w' = Targets w
        \<and> filter (\<lambda>x. row_pair x \<noteq> (accountID u, TargetID t)) (ReactionRows w') = filter (\<lambda>x. row_pair x \<noteq> (accountID u, TargetID t)) (ReactionRows w))
        (\<lambda>_ w'. w' = w) w"
    proof (rule wp_mono [OF wp_removeReaction [OF w x(1)]], goal_cases)
      case 1
      then show ?case using x(2) by (simp add: row_pair_def)
    next
      case (2 _ w')
      then show ?case using rest [OF x(1), unfolded x(2)] by simp
    qed simp
    then show ?thesis using Some by (simp add: replaceExisting_def wp_FindByPair [OF i])
  qed
qed

lemma accepts_hearts:
  "ReactionAcceptance t = Some ''likeOnly'' \<Longrightarrow> chooseReaction e u t raw = FallbackReaction"
  by (auto simp: chooseReaction_def applyReactionAcceptance_def Let_def split: prod.splits)

definition same_reactions :: "reaction_store \<Rightarrow> reaction_store \<Rightarrow> bool" where
  "same_reactions w w' = (\<exists>ts. w' = w\<lparr>Targets := ts\<rparr>)"

lemma reactions_ok_more:
  assumes w: "reactions_ok e w" and m: "more_targets g w w'" and g: "promotes_itself g"
  shows "reactions_ok e w'"
proof (cases "w' = w")
  case False
  then obtain i t f where t: "Targets w i = None" "Promoter g = Some f" "f i = Some t" "w' = w\<lparr>Targets := (Targets w)(i \<mapsto> t)\<rparr>"
    using m by (auto simp: more_targets_def)
  then have "TargetID t = i" using g by (simp add: promotes_itself_def)
  moreover have "row_ok w' x" if "row_ok w x" for x
    using that t by (auto simp: row_ok_def split: option.splits if_splits)
  ultimately show ?thesis using w t
    by (auto simp: reactions_ok_def intact_def buffer_ok_def total_def rows_with_def)
qed (use w in simp)

lemma wp_reactionTarget:
  assumes w: "reactions_ok e w" and g: "promotes_itself (gate.truncate e)"
  shows "wp (reactionTarget e u i) (\<lambda>t w'. reactions_ok e w' \<and> ReactionRows w' = ReactionRows w \<and> Targets w' i = Some t
       \<and> TargetID t = i \<and> open_to (gate.truncate e) u t \<and> \<not> isPureRenote t)
     (\<lambda>_ w'. reactions_ok e w' \<and> ReactionRows w' = ReactionRows w) w"
proof -
  let ?g = "gate.truncate e"
  have i: "intact w" using w by (simp add: reactions_ok_def)
  have rows: "ReactionRows w' = ReactionRows w" if "more_targets ?g w w'" for w'
    using that by (auto simp: more_targets_def)
  have "wp (loadTarget ?g i) (\<lambda>t w'. reactions_ok e w' \<and> ReactionRows w' = ReactionRows w \<and> Targets w' i = Some t)
      (\<lambda>_ w'. reactions_ok e w' \<and> ReactionRows w' = ReactionRows w) w"
    by (rule wp_mono [OF wp_loadTarget [OF i g]]) (auto intro: reactions_ok_more [OF w _ g] dest: rows)
  then show ?thesis unfolding reactionTarget_def wp_bind
    by (rule wp_mono) (auto simp: wp_checkAuthorBlocks open_to_def reactions_ok_def split: option.splits)
qed

text \<open>What a reaction does to the rows: the user's row on the note is the chosen reaction, and no other row changes.\<close>

definition reacted :: "reaction_wiring \<Rightarrow> reactor \<Rightarrow> string \<Rightarrow> string \<Rightarrow> string \<Rightarrow> reaction_store \<Rightarrow> reaction_store \<Rightarrow> bool" where
  "reacted e u i raw r w w' = (\<exists>t x. Targets w' i = Some t \<and> open_to (gate.truncate e) u t \<and> \<not> isPureRenote t
     \<and> r = chooseReaction e u t raw \<and> row_pair x = (accountID u, i) \<and> Reaction x = r
     \<and> filter (\<lambda>y. row_pair y = (accountID u, i)) (ReactionRows w') = [x]
     \<and> filter (\<lambda>y. row_pair y \<noteq> (accountID u, i)) (ReactionRows w') = filter (\<lambda>y. row_pair y \<noteq> (accountID u, i)) (ReactionRows w))"

lemma only_row:
  "distinct (map f (xs @ [x])) \<Longrightarrow> filter (\<lambda>y. f y = f x) (xs @ [x]) = [x]"
  by (auto simp: filter_empty_conv image_iff)

lemma wp_Create:
  assumes w: "reactions_ok e w" and g: "promotes_itself (gate.truncate e)"
  shows "wp (Create e u i raw) (\<lambda>r w'. reactions_ok e w' \<and> reacted e u i raw r w w') (\<lambda>_ w'. reactions_ok e w') w"
proof -
  let ?mine = "(accountID u, i)"
  have body: "wp (then_act (replaceExisting e u t r) (then_act (addReaction e u t r) (ret r)))
      (\<lambda>r w'. reactions_ok e w' \<and> reacted e u i raw r w w') (\<lambda>_ w'. reactions_ok e w') w1"
    if w1: "reactions_ok e w1" "ReactionRows w1 = ReactionRows w" "Targets w1 i = Some t" "TargetID t = i"
      and t: "open_to (gate.truncate e) u t" "\<not> isPureRenote t" and r: "r = chooseReaction e u t raw" for w1 t r
  proof -
    have heart: "ReactionAcceptance t = Some ''likeOnly'' \<Longrightarrow> r = FallbackReaction" using accepts_hearts r by simp
    have add: "wp (then_act (addReaction e u t r) (ret r)) (\<lambda>r w'. reactions_ok e w' \<and> reacted e u i raw r w w')
        (\<lambda>_ w'. reactions_ok e w') w2"
      if w2: "reactions_ok e w2" "Targets w2 = Targets w1"
        "filter (\<lambda>x. row_pair x \<noteq> ?mine) (ReactionRows w2) = filter (\<lambda>x. row_pair x \<noteq> ?mine) (ReactionRows w1)" for w2
    proof -
      have t2: "Targets w2 (TargetID t) = Some t" using w2(2) w1(3,4) by simp
      have "reacted e u i raw r w w3"
        if "reactions_ok e w3" "Targets w3 = Targets w2" "ReactionRows w3 = ReactionRows w2 @ [x]" "row_pair x = ?mine" "Reaction x = r" for w3 x
      proof -
        have "distinct (map row_pair (ReactionRows w2 @ [x]))" using that(1,3) by (simp add: reactions_ok_def)
        then have "filter (\<lambda>y. row_pair y = ?mine) (ReactionRows w3) = [x]" using only_row [of row_pair "ReactionRows w2" x] that(3,4) by simp
        then show ?thesis using that t t2 r w1(2,4) w2(3) unfolding reacted_def by (intro exI [of _ t] exI [of _ x]) simp
      qed
      then show ?thesis unfolding wp_then
        by (intro wp_mono [OF wp_addReaction [OF w2(1) t2 heart]]) (use w1(4) w2(1) in auto)
    qed
    show ?thesis unfolding wp_then [of "replaceExisting e u t r"]
      by (rule wp_mono [OF wp_replaceExisting [OF w1(1)]]) (use add w1 in \<open>auto simp del: wp_then\<close>)
  qed
  show ?thesis unfolding Create_def wp_bind
    by (rule wp_mono [OF wp_reactionTarget [OF w g]]) (use body in \<open>auto simp: Let_def simp del: wp_then\<close>)
qed


lemma wp_Delete:
  assumes w: "reactions_ok e w"
  shows "wp (Delete e u i) (\<lambda>_. reactions_ok e) (\<lambda>_. reactions_ok e) w"
proof -
  note i = ready(1) [OF w]
  have "wp (removeReaction e u t x) (\<lambda>_. reactions_ok e) (\<lambda>_. reactions_ok e) w"
    if "find (\<lambda>r. row_pair r = (accountID u, TargetID t)) (ReactionRows w) = Some x" for t x
  proof -
    have x: "x \<in> set (ReactionRows w)" "ReactionNoteID x = TargetID t" using that by (auto simp: find_Some_iff row_pair_def)
    show ?thesis by (rule wp_mono [OF wp_removeReaction [OF w x]]) simp_all
  qed
  then show ?thesis using w
    by (auto simp: Delete_def wp_FindNote [OF i] wp_FindByPair [OF i] split: option.splits)
qed

section \<open>Flushing\<close>

lemma wp_applyDeltas:
  "intact w \<Longrightarrow> Targets w i \<noteq> None \<Longrightarrow> distinct (map fst ds) \<Longrightarrow> \<forall>r. 0 \<le> Counts w i r + buffered ds r \<or> r \<notin> fst ` set ds \<Longrightarrow>
    wp (applyDeltas i ds) Q E w = Q () (w\<lparr>Counts := (Counts w)(i := (\<lambda>r. Counts w i r + buffered ds r))\<rparr>)"
proof (induction ds arbitrary: w)
  case Nil
  have "w\<lparr>Counts := Counts w\<rparr> = w" by simp
  then show ?case by (simp add: buffered_def)
next
  case (Cons rd ds)
  obtain r d where rd: "rd = (r, d)" by fastforce
  let ?w = "w\<lparr>Counts := (Counts w)(i := (Counts w i)(r := Counts w i r + d))\<rparr>"
  have new: "r \<notin> fst ` set ds" "buffered ds r = 0"
    using Cons.prems(3) rd map_of_eq_None_iff [of ds r] by (simp_all add: buffered_def)
  have split: "buffered (rd # ds) s = (if s = r then d else buffered ds s)" for s by (simp add: rd buffered_def)
  have pos: "0 \<le> Counts w i r + d" using Cons.prems(4) split [of r] rd by force
  then have "(if 0 < Counts w i r + d then Counts w i r + d else 0) = Counts w i r + d" by simp
  then have one: "wp (ignore_error (IncrementReaction i r d)) Q E w = Q () ?w" for Q E
    using Cons.prems(1,2) by (auto simp: IncrementReaction_def intact_def)
  have rest: "wp (applyDeltas i ds) Q E ?w = Q () (?w\<lparr>Counts := (Counts ?w)(i := (\<lambda>s. Counts ?w i s + buffered ds s))\<rparr>)"
  proof (rule Cons.IH)
    have "0 \<le> Counts w i s + buffered ds s" if mem: "s \<in> fst ` set ds" for s
    proof -
      have "s \<noteq> r" using new(1) mem by blast
      moreover have "s \<in> fst ` set (rd # ds)" using mem by simp
      ultimately show ?thesis using Cons.prems(4) [rule_format, of s] split [of s] by simp
    qed
    then show "\<forall>s. 0 \<le> Counts ?w i s + buffered ds s \<or> s \<notin> fst ` set ds" using new(1) by auto
  qed (use Cons.prems rd in \<open>simp_all add: intact_def\<close>)
  have last: "?w\<lparr>Counts := (Counts ?w)(i := (\<lambda>s. Counts ?w i s + buffered ds s))\<rparr>
      = w\<lparr>Counts := (Counts w)(i := (\<lambda>s. Counts w i s + buffered (rd # ds) s))\<rparr>"
    using new by (simp add: fun_eq_iff split)
  show ?case unfolding rd applyDeltas.simps wp_then one rest using last by (simp only: rd)
qed

lemma wp_flushKey:
  assumes w: "reactions_ok e w"
  shows "wp (flushKey i) (\<lambda>_ w'. reactions_ok e w' \<and> ReactionRows w' = ReactionRows w \<and> Targets w' = Targets w
      \<and> Buffer w' = (Buffer w)(i := []) \<and> total w' = total w \<and> ReactionOutbox w' = ReactionOutbox w \<and> Drawn w' = Drawn w \<and> Now w' = Now w) (\<lambda>_ _. False) w"
proof (cases "Buffer w i = []")
  case True
  then have b: "(Buffer w)(i := []) = Buffer w" by (simp add: fun_upd_idem)
  then have "w\<lparr>Buffer := (Buffer w)(i := [])\<rparr> = w" by simp
  then show ?thesis using w ready(2) [OF w] True by (simp add: flushKey_def b)
next
  case False
  let ?h = "Buffer w i" let ?w = "w\<lparr>Buffer := (Buffer w)(i := [])\<rparr>"
  let ?v = "?w\<lparr>Counts := (Counts w)(i := (\<lambda>r. Counts w i r + buffered ?h r))\<rparr>"
  have t: "Targets w i \<noteq> None" "distinct (map fst ?h)" using ready(3) [OF w] False by (auto simp: buffer_ok_def)
  have pos: "0 \<le> Counts w i r + buffered ?h r" for r
    using w by (simp add: reactions_ok_def total_def rows_with_def) 
  have deltas: "wp (applyDeltas i ?h) Q E ?w = Q () ?v" for Q E
    using wp_applyDeltas [of ?w i ?h Q E] t ready(1) [OF w] pos by (simp add: intact_def)
  have tot: "total ?v = total w" by (auto simp: total_def fun_eq_iff buffered_def)
  have rows: "rows_with ?v = rows_with w" by (simp add: rows_with_def fun_eq_iff)
  have "buffer_ok e ?v" using ready(3) [OF w] by (auto simp: buffer_ok_def)
  then have "reactions_ok e ?v"
    using w tot rows unfolding reactions_ok_def by (simp add: intact_def row_ok_def)
  then show ?thesis using tot ready(2) [OF w] by (simp add: flushKey_def deltas)
qed


lemma wp_Flush:
  assumes "reactions_ok e w"
  shows "wp (Flush is) (\<lambda>_ w'. reactions_ok e w' \<and> ReactionRows w' = ReactionRows w \<and> Targets w' = Targets w
      \<and> Buffer w' = (\<lambda>i. if i \<in> set is then [] else Buffer w i) \<and> total w' = total w \<and> ReactionOutbox w' = ReactionOutbox w \<and> Drawn w' = Drawn w \<and> Now w' = Now w) (\<lambda>_ _. False) w"
  using assms
proof (induction "is" arbitrary: w)
  case (Cons i "is")
  show ?case unfolding Flush.simps wp_then wp_ignore_error
  proof (rule wp_mono [OF wp_flushKey [OF Cons.prems, of i]], elim conjE, goal_cases)
    case (1 _ w')
    show ?case by (rule wp_mono [OF Cons.IH [OF 1(1)]]) (auto simp: 1 fun_eq_iff)
  qed simp
qed simp

section \<open>Runs\<close>

datatype reaction_event = React reactor string string | Unreact reactor string | FlushKeys "string list"

fun reaction_step :: "reaction_wiring \<Rightarrow> reaction_store \<Rightarrow> reaction_event \<Rightarrow> reaction_store" where
  "reaction_step e w (React u i raw) = snd (Create e u i raw w)"
| "reaction_step e w (Unreact u i) = snd (Delete e u i w)"
| "reaction_step e w (FlushKeys is) = snd (Flush is w)"

lemma reactions_ok_step:
  assumes "promotes_itself (gate.truncate e)" "reactions_ok e w"
  shows "reactions_ok e (reaction_step e w x)"
proof (cases x)
  case (React u i raw)
  have "wp (Create e u i raw) (\<lambda>_. reactions_ok e) (\<lambda>_. reactions_ok e) w"
    by (rule wp_mono [OF wp_Create [OF assms(2,1)]]) simp_all
  then show ?thesis using React by (simp add: wp_state)
next
  case (Unreact u i)
  then show ?thesis using wp_Delete [OF assms(2), of u i] by (simp add: wp_state)
next
  case (FlushKeys "is")
  have "wp (Flush is) (\<lambda>_. reactions_ok e) (\<lambda>_. reactions_ok e) w"
    by (rule wp_mono [OF wp_Flush [OF assms(2)]]) simp_all
  then show ?thesis using FlushKeys by (simp add: wp_state)
qed

interpretation reactions: stepping "reaction_step e" "\<lambda>w. promotes_itself (gate.truncate e) \<and> reactions_ok e w" for e
  by unfold_locales (auto intro: reactions_ok_step)

lemma shown_count:
  assumes "reactions_ok e w"
  shows "MergeReactions (Counts w i) (Buffer w i) r = rows_with w i r"
proof -
  have "total w i r = rows_with w i r" using assms by (simp add: reactions_ok_def)
  moreover have "0 \<le> rows_with w i r" by (simp add: rows_with_def)
  ultimately show ?thesis by (auto simp: MergeReactions_def total_def buffered_def split: option.splits)
qed

lemma rows_ok:
  assumes "reactions_ok e w"
  shows "distinct (map row_pair (ReactionRows w))" "\<forall>x \<in> set (ReactionRows w). row_ok w x"
  using assms by (simp_all add: reactions_ok_def)

text \<open>C5. Through every sequence of reacting, taking back and flushing, with either way of counting: a user has at most
  one reaction on a note, every reaction is on a note that exists, a note that takes hearts only has
  nothing else, and the count a reader is shown for a reaction is the number of its rows.\<close>

theorem reactions_run:
  assumes "promotes_itself (gate.truncate e)" "reactions_ok e w"
  shows "let w' = run_steps (reaction_step e) w es in distinct (map row_pair (ReactionRows w'))
    \<and> (\<forall>x \<in> set (ReactionRows w'). row_ok w' x)
    \<and> (\<forall>i r. MergeReactions (Counts w' i) (Buffer w' i) r = rows_with w' i r)"
  using reactions.run_keeps [of e w es] assms by (simp add: Let_def shown_count rows_ok)

text \<open>What a successful reaction does: the note is one the user may react to, the stored reaction is the one chosen
  from the text that was sent, it is the user's only row on the note, no other row changes, and the
  counts shown for the note are those of the new rows.\<close>

theorem Create_effect:
  assumes "reactions_ok e w" "promotes_itself (gate.truncate e)"
  shows "wp (Create e u i raw)
      (\<lambda>r w'. reacted e u i raw r w w' \<and> (\<forall>s. MergeReactions (Counts w' i) (Buffer w' i) s = rows_with w' i s))
      (\<lambda>_ w'. \<forall>s. MergeReactions (Counts w' i) (Buffer w' i) s = rows_with w' i s) w"
  by (rule wp_mono [OF wp_Create [OF assms]]) (auto intro: shown_count)

section \<open>Buffered and direct counting\<close>

definition apart :: "reaction_store \<Rightarrow> reaction_store \<Rightarrow> bool" where
  \<comment> \<open>the same but for the counts, where the database and Redis answer\<close>
  "apart s t = (intact s \<and> intact t \<and> \<not> RedisDown s \<and> \<not> RedisDown t \<and> Targets t = Targets s \<and> Drawn t = Drawn s
     \<and> Now t = Now s \<and> ReactionRows t = ReactionRows s \<and> ReactionOutbox t = ReactionOutbox s)"

lemma agree_db: "agree apart db db"
  by (auto simp: agree_def db_def apart_def intact_def)

lemma agree_read_row: "(\<And>s t. apart s t \<Longrightarrow> f s = f t) \<Longrightarrow> agree apart (read_row ok f) (read_row ok f)"
  unfolding read_row_def by (intro agree_rules agree_db agree_query) blast

lemma agree_FindNote: "agree apart (FindNote i) (FindNote i)"
  unfolding FindNote_def by (rule agree_read_row) (simp add: apart_def)

lemma agree_FindByPair: "agree apart (FindByPair u i) (FindByPair u i)"
  unfolding FindByPair_def by (rule agree_read_row) (simp add: apart_def)

lemma agree_materializeIfMissing: "agree apart (materializeIfMissing g i) (materializeIfMissing g i)"
  unfolding materializeIfMissing_def by (intro agree_rules agree_change) (auto simp: apart_def intact_def)

lemma agree_loadTarget: "agree apart (loadTarget g i) (loadTarget g i)"
  unfolding loadTarget_def by (intro agree_rules agree_FindNote agree_materializeIfMissing)

lemma agree_checkAuthorBlocks: "agree apart (checkAuthorBlocks g u t) (checkAuthorBlocks g u t)"
  unfolding checkAuthorBlocks_def by (intro agree_rules)

lemma agree_send: "agree apart (send x) (send x)"
  unfolding send_def by (rule agree_change) (auto simp: apart_def intact_def)

lemma agree_perform: "agree R m n \<Longrightarrow> agree R (perform b m) (perform b n)"
  by (simp add: perform_def agree_ret)

lemma agree_draw: "agree apart (draw f) (draw f)"
  unfolding draw_def by (intro agree_rules agree_query agree_change) (auto simp: apart_def intact_def)

lemma agree_ignore_error: "agree R m n \<Longrightarrow> agree R (ignore_error m) (ignore_error n)"
  unfolding ignore_error_def by (intro agree_rules)

lemma agree_Increment: "agree apart (Increment e i r d) (Increment f i r d)"
proof -
  have "fst (Increment g i r d w) = Val () \<and> apart w (snd (Increment g i r d w))" if "intact w" "\<not> RedisDown w" for g w
    using that by (simp add: Increment_def HIncrBy_def IncrementReaction_def db_def act_defs apart_def intact_def)
  then show ?thesis unfolding agree_def by (simp add: apart_def)
qed

lemma agree_DeleteReaction: "agree apart (DeleteReaction x) (DeleteReaction x)"
  unfolding DeleteReaction_def by (intro agree_rules agree_db agree_query agree_change) (auto simp: apart_def intact_def)

lemma agree_CreateReaction: "agree apart (CreateReaction x) (CreateReaction x)"
  unfolding CreateReaction_def by (intro agree_rules agree_db agree_query agree_change) (auto simp: apart_def intact_def)

lemma gate_Buffered [simp]: "gate.truncate (e\<lparr>Buffered := b\<rparr>) = gate.truncate e"
  by (simp add: gate.truncate_def)

lemma announce_Buffered [simp]:
  "announceRemoval (e\<lparr>Buffered := b\<rparr>) = announceRemoval e" "announceReaction (e\<lparr>Buffered := b\<rparr>) = announceReaction e"
  "insertReaction (e\<lparr>Buffered := b\<rparr>) = insertReaction e" "chooseReaction (e\<lparr>Buffered := b\<rparr>) = chooseReaction e"
  "reactionTarget (e\<lparr>Buffered := b\<rparr>) = reactionTarget e"
  by (simp_all add: fun_eq_iff announceRemoval_def announceReaction_def updateFeaturedOnReaction_def insertReaction_def
      chooseReaction_def reactionTarget_def)

lemma agree_announceRemoval: "agree apart (announceRemoval e u t r) (announceRemoval e u t r)"
  unfolding announceRemoval_def by (intro agree_rules agree_perform agree_send)

lemma agree_announceReaction: "agree apart (announceReaction e u t r) (announceReaction e u t r)"
  unfolding announceReaction_def updateFeaturedOnReaction_def
  by (intro agree_rules agree_perform agree_send agree_query) (simp_all add: apart_def)

lemma agree_removeReaction: "agree apart (removeReaction e u t x) (removeReaction (e\<lparr>Buffered := b\<rparr>) u t x)"
  unfolding removeReaction_def announce_Buffered
  by (intro agree_rules agree_DeleteReaction agree_ignore_error agree_Increment agree_announceRemoval)

lemma agree_insertReaction: "agree apart (insertReaction e u t r) (insertReaction e u t r)"
  unfolding insertReaction_def by (intro agree_rules agree_draw agree_CreateReaction) (auto intro!: agree_rules split: stop.splits note_error.splits)

lemma agree_reactionTarget: "agree apart (reactionTarget e u i) (reactionTarget e u i)"
  unfolding reactionTarget_def by (intro agree_rules agree_loadTarget agree_checkAuthorBlocks)

lemma agree_Create: "agree apart (Create e u i raw) (Create (e\<lparr>Buffered := b\<rparr>) u i raw)"
  unfolding Create_def replaceExisting_def addReaction_def Let_def announce_Buffered
  by (intro agree_rules agree_reactionTarget agree_FindByPair agree_removeReaction agree_insertReaction
      agree_ignore_error agree_Increment agree_announceReaction)

lemma agree_Delete: "agree apart (Delete e u i) (Delete (e\<lparr>Buffered := b\<rparr>) u i)"
  unfolding Delete_def by (intro agree_rules agree_FindNote agree_FindByPair agree_removeReaction)

lemma apart_step:
  assumes "reactions_ok e s" "reactions_ok (e\<lparr>Buffered := b\<rparr>) t" "apart s t"
  shows "apart (reaction_step e s x) (reaction_step (e\<lparr>Buffered := b\<rparr>) t x)"
proof (cases x)
  case (FlushKeys "is")
  have flush: "apart w (snd (Flush is w))" if "reactions_ok f w" for f w
  proof -
    have "wp (Flush is) (\<lambda>_. apart w) (\<lambda>_. apart w) w"
      by (rule wp_mono [OF wp_Flush [OF that]]) (use ready [OF that] in \<open>auto simp: apart_def dest: ready\<close>)
    then show ?thesis by (simp add: wp_state)
  qed
  have "apart s (snd (Flush is s))" "apart t (snd (Flush is t))" using flush assms(1,2) by blast+
  then show ?thesis using assms(3) FlushKeys by (simp add: apart_def)
qed (use agreeD [OF agree_Create assms(3)] agreeD [OF agree_Delete assms(3)] in simp_all)

lemma apart_run:
  "promotes_itself (gate.truncate e) \<Longrightarrow> reactions_ok e s \<Longrightarrow> reactions_ok (e\<lparr>Buffered := b\<rparr>) t \<Longrightarrow> apart s t \<Longrightarrow>
    apart (run_steps (reaction_step e) s es) (run_steps (reaction_step (e\<lparr>Buffered := b\<rparr>)) t es)"
proof (induction es arbitrary: s t)
  case (Cons x es)
  then show ?case by (simp add: apart_step reactions_ok_step)
qed simp

text \<open>C16. Buffering the counts is invisible: after the same requests the buffered and the direct service have the same
  reactions and have told everybody the same, what a reader is shown under buffering is what the direct
  count stores, and flushing the notes' keys makes the stored counts themselves equal.\<close>

theorem buffered_refines_direct:
  assumes "promotes_itself (gate.truncate e)" "reactions_ok (e\<lparr>Buffered := False\<rparr>) w"
  shows "let b = run_steps (reaction_step (e\<lparr>Buffered := True\<rparr>)) w es;
             d = run_steps (reaction_step (e\<lparr>Buffered := False\<rparr>)) w es;
             f = reaction_step (e\<lparr>Buffered := True\<rparr>) b (FlushKeys is) in
    ReactionRows b = ReactionRows d \<and> Targets b = Targets d \<and> ReactionOutbox b = ReactionOutbox d \<and>
    (\<forall>i. MergeReactions (Counts b i) (Buffer b i) = Counts d i) \<and> (\<forall>i \<in> set is. Counts f i = Counts d i)"
proof -
  let ?b = "e\<lparr>Buffered := True\<rparr>" and ?d = "e\<lparr>Buffered := False\<rparr>"
  let ?wb = "run_steps (reaction_step ?b) w es" and ?wd = "run_steps (reaction_step ?d) w es"
  let ?f = "snd (Flush is ?wb)"
  have g: "promotes_itself (gate.truncate ?b)" "promotes_itself (gate.truncate ?d)" using assms(1) by simp_all
  have w: "reactions_ok ?b w" using assms(2) by (auto simp: reactions_ok_def buffer_ok_def)
  have ok: "reactions_ok ?b ?wb" "reactions_ok ?d ?wd"
    using reactions.run_keeps [of ?b w es] reactions.run_keeps [of ?d w es] g w assms(2) by simp_all
  have "apart w w" using ready [OF w] by (simp add: apart_def)
  then have a: "apart ?wb ?wd" using apart_run [OF g(1) w, of False w es] assms(2) by simp
  have "buffer_ok ?d ?wd" using ready(3) [OF ok(2)] .
  then have direct: "Counts ?wd i r = rows_with ?wd i r" for i r
    using direct_total [of ?d ?wd i r] ok(2) by (simp add: reactions_ok_def)
  have same: "rows_with ?wd = rows_with ?wb" using a by (simp add: apart_def rows_with_def fun_eq_iff)
  have "wp (Flush is) (\<lambda>_ v. \<forall>i \<in> set is. \<forall>r. Counts v i r = rows_with ?wb i r) (\<lambda>_ _. False) ?wb"
  proof (rule wp_mono [OF wp_Flush [OF ok(1)]], elim conjE, goal_cases)
    case (1 _ v)
    have "total ?wb i r = rows_with ?wb i r" for i r using ok(1) by (simp add: reactions_ok_def)
    moreover have "total v i r = Counts v i r" if "i \<in> set is" for i r using 1(4) that by (simp add: total_def buffered_def)
    ultimately show ?case using 1(5) by metis
  qed simp
  then have "Counts ?f i r = rows_with ?wb i r" if "i \<in> set is" for i r using that by (auto simp: wp_def split: prod.splits res.splits)
  then show ?thesis using a same shown_count [OF ok(1)] direct by (simp add: Let_def apart_def fun_eq_iff)
qed

section \<open>Taking back what is still being added\<close>

lemma find_append_new: "\<forall>y \<in> set xs. \<not> P y \<Longrightarrow> P x \<Longrightarrow> find P (xs @ [x]) = Some x"
  by (induction xs) auto

lemma wp_direct:
  assumes "intact w" "\<not> Buffered e" "Targets w i \<noteq> None"
  shows "wp (ignore_error (Increment e i r d)) Q E w
    = Q () (w\<lparr>Counts := (Counts w)(i := (Counts w i)(r := (if Counts w i r + d > 0 then Counts w i r + d else 0)))\<rparr>)"
  using assms by (auto simp: Increment_def IncrementReaction_def intact_def)

lemma removed_row:
  assumes "intact w" "length (filter (\<lambda>y. ReactionRowID y = ReactionRowID x) (ReactionRows w)) = 1"
  shows "wp (removeReaction e u t x) Q E w
    = wp (then_act (ignore_error (Increment e (TargetID t) (Reaction x) (- 1))) (announceRemoval e u t (Reaction x))) Q E (without x w)"
  using assms by (simp add: removeReaction_def DeleteReaction_def intact_def del: wp_ignore_error flip: without_def)

text \<open>C38. Counting directly, a reaction that its user takes back between the insertion of its row and the count of it
  leaves a count of 1 with no row behind it: the decrement comes first and is cut off at 0.\<close>

theorem lost_decrement:
  assumes w: "reactions_ok e w" "\<not> Buffered e" and t: "Targets w (TargetID t) = Some t" "Storable (accountID u)" "Storable (TargetID t)"
    and r: "rows_with w (TargetID t) r = 0" "Fits r reactionMaxRunes"
    and new: "(accountID u, TargetID t) \<notin> row_pair ` set (ReactionRows w)" "NewReactionID e (Drawn w) \<notin> ReactionRowID ` set (ReactionRows w)"
  shows "wp (then_act (insertReaction e u t r) (then_act (Delete e u (TargetID t)) (ignore_error (Increment e (TargetID t) r 1))))
     (\<lambda>_ w'. rows_with w' (TargetID t) r = 0 \<and> Counts w' (TargetID t) r = 1) (\<lambda>_ _. False) w"
proof -
  have i: "intact w" and b: "buffer_ok e w" using ready [OF w(1)] by simp_all
  have c: "Counts w (TargetID t) r = 0" using direct_total [OF b w(2)] w(1) r(1) by (simp add: reactions_ok_def)
  let ?x = "\<lparr>ReactionRowID = NewReactionID e (Drawn w), ReactionUserID = accountID u, ReactionNoteID = TargetID t, Reaction = r\<rparr>"
  have ins: "wp (insertReaction e u t r) Q E w = Q () (with_row ?x w)" for Q E
    using i t r(2) new by (simp add: insertReaction_def CreateReaction_def intact_def row_pair_def with_row_def)
  let ?i = "TargetID t" let ?v = "with_row ?x w" let ?u = "without ?x ?v"
  have pair: "find (\<lambda>x. row_pair x = (accountID u, ?i)) (ReactionRows ?v) = Some ?x"
  proof -
    have "\<forall>y \<in> set (ReactionRows w). row_pair y \<noteq> (accountID u, ?i)" using new(1) by (metis image_eqI)
    moreover have "row_pair ?x = (accountID u, ?i)" by (simp add: row_pair_def)
    moreover have "ReactionRows ?v = ReactionRows w @ [?x]" by (simp add: with_row_def)
    ultimately show ?thesis using find_append_new [of "ReactionRows w" "\<lambda>x. row_pair x = (accountID u, ?i)" ?x] by (simp only: simp_thms)
  qed
  have rows: "ReactionRows ?u = ReactionRows w" "length (filter (\<lambda>x. ReactionRowID x = ReactionRowID ?x) (ReactionRows ?v)) = 1"
  proof -
    have "\<forall>y \<in> set (ReactionRows w). ReactionRowID y \<noteq> ReactionRowID ?x" using new(2) by force
    then show "ReactionRows ?u = ReactionRows w" "length (filter (\<lambda>x. ReactionRowID x = ReactionRowID ?x) (ReactionRows ?v)) = 1"
      by (simp_all add: with_row_def without_def filter_id_conv filter_empty_conv)
  qed
  have parts: "intact ?v" "intact ?u" "Targets ?v = Targets w" "Targets ?u = Targets w" "Counts ?u = Counts w"
    using i by (simp_all add: with_row_def without_def intact_def)
  let ?z = "\<lambda>k. (\<lambda>v. intact v \<and> Targets v = Targets w \<and> ReactionRows v = ReactionRows w \<and> Counts v ?i r = k)"
  have dec: "wp (ignore_error (Increment e ?i r (- 1))) (\<lambda>_. ?z 0) (\<lambda>_ _. False) ?u"
    using parts rows c w(2) t(1) by (simp add: wp_direct intact_def del: wp_ignore_error)
  have tail: "wp (announceRemoval e u t r) (\<lambda>_. ?z 0) (\<lambda>_ _. False) v" if "?z 0 v" for v
    by (rule wp_mono [OF wp_tells [OF tells_announceRemoval]]) (use that in \<open>auto simp: intact_def\<close>)
  have del: "wp (removeReaction e u t ?x) (\<lambda>_. ?z 0) (\<lambda>_ _. False) ?v"
  proof -
    have "wp (removeReaction e u t ?x) Q E ?v = wp (then_act (ignore_error (Increment e ?i r (- 1))) (announceRemoval e u t r)) Q E ?u" for Q E
      unfolding removed_row [OF parts(1) rows(2)] by simp
    then show ?thesis unfolding wp_then by (simp only:) (rule wp_mono [OF dec]; use tail in blast)
  qed
  then have "wp (Delete e u ?i) (\<lambda>_. ?z 0) (\<lambda>_ _. False) ?v"
    using parts t pair by (simp add: Delete_def wp_FindNote wp_FindByPair)
  then show ?thesis unfolding wp_then ins
    by (rule wp_mono) (use w(2) t(1) r(1) in \<open>simp_all add: wp_direct rows_with_def del: wp_ignore_error\<close>)
qed

section \<open>A concrete note\<close>

definition some_target :: target where
  "some_target = \<lparr>noteUserID = ''a'', noteVisibility = NoteVisibilityPublic, noteReplyUserID = None, noteMentions = [],
     noteVisibleUserIDs = [], noteUser = None, TargetID = ''n'', TargetUserHost = None, TargetReplyID = None,
     TargetRenoteID = None, TargetChannelID = None, TargetText = Some ''hi'', TargetCW = None, TargetFileIDs = [],
     TargetHasPoll = False, ReactionAcceptance = None, LocalOnly = False, ThreadID = None, ReplyUserHost = None,
     RenoteUserID = None, RenoteUserHost = None, RenoteChannelID = None, NoteTags = [], NoteEmojis = [],
     MentionedRemoteUsers = [], RepliesCount = 0, RenoteCount = 0\<rparr>"

definition some_reactions :: reaction_store where
  "some_reactions = \<lparr>Failing = [], Targets = [''n'' \<mapsto> some_target], Drawn = 0, Now = 0, ReactionRows = [],
     Counts = (\<lambda>_ _. 0), Buffer = (\<lambda>_. []), RedisDown = False, ReactionOutbox = []\<rparr>"

definition bare_reactions :: reaction_wiring where
  "bare_reactions = \<lparr>Follows = None, BlockChecker = Some (\<lambda>a b. Inr False), Promoter = None, Emojis = (\<lambda>_ _. None),
     EmojiOnly = (\<lambda>_. False), RolesOf = None, MediaSilenced = None, Buffered = False, ReactionNotifications = True,
     ReactionFederation = True, ReactionChart = True, ReactionWebhook = True, NoteStream = True, Featured = True,
     Sampled = (\<lambda>_. False), NoteTime = (\<lambda>_. None), NewReactionID = show_nat\<rparr>"

definition some_reactor :: reactor where
  "some_reactor = \<lparr>accountID = ''b'', accountRequireSignin = False, accountHiddenBefore = None,
     accountFollowersOnlyBefore = None, reactorHost = None\<rparr>"

lemma some_reactions_ok: "reactions_ok (bare_reactions\<lparr>Buffered := b\<rparr>) some_reactions" "reactions_ok bare_reactions some_reactions"
  by (simp_all add: reactions_ok_def some_reactions_def intact_def buffer_ok_def total_def rows_with_def buffered_def some_target_def)

lemma bare_reactions_ok: "promotes_itself (gate.truncate bare_reactions)"
  by (simp add: promotes_itself_def bare_reactions_def gate.truncate_def)

lemma bare_wired: "\<not> Buffered bare_reactions"
  by (simp add: bare_reactions_def)

theorem reactions_run_witness:
  "let w' = run_steps (reaction_step bare_reactions) some_reactions
      [React some_reactor ''n'' '''', React some_reactor ''n'' ''x'', FlushKeys [''n''], Unreact some_reactor ''n''] in
    distinct (map row_pair (ReactionRows w')) \<and> (\<forall>i r. MergeReactions (Counts w' i) (Buffer w' i) r = rows_with w' i r)"
  using reactions_run [OF bare_reactions_ok some_reactions_ok(2)] by (simp only: Let_def) blast

theorem Create_effect_witness:
  "wp (Create bare_reactions some_reactor ''n'' '''')
      (\<lambda>r w'. reacted bare_reactions some_reactor ''n'' '''' r some_reactions w'
        \<and> (\<forall>s. MergeReactions (Counts w' ''n'') (Buffer w' ''n'') s = rows_with w' ''n'' s))
      (\<lambda>_ w'. \<forall>s. MergeReactions (Counts w' ''n'') (Buffer w' ''n'') s = rows_with w' ''n'' s) some_reactions"
  by (rule Create_effect [OF some_reactions_ok(2) bare_reactions_ok])

theorem buffered_refines_direct_witness:
  "let es = [React some_reactor ''n'' '''', FlushKeys [''n''], Unreact some_reactor ''n'', React some_reactor ''n'' ''''];
       b = run_steps (reaction_step (bare_reactions\<lparr>Buffered := True\<rparr>)) some_reactions es;
       d = run_steps (reaction_step (bare_reactions\<lparr>Buffered := False\<rparr>)) some_reactions es in
    ReactionRows b = ReactionRows d \<and> (\<forall>i. MergeReactions (Counts b i) (Buffer b i) = Counts d i)"
  using buffered_refines_direct [OF bare_reactions_ok some_reactions_ok(1)] unfolding Let_def by blast

theorem lost_decrement_witness:
  "wp (then_act (insertReaction bare_reactions some_reactor some_target FallbackReaction)
        (then_act (Delete bare_reactions some_reactor ''n'') (ignore_error (Increment bare_reactions ''n'' FallbackReaction 1))))
     (\<lambda>_ w'. rows_with w' ''n'' FallbackReaction = 0 \<and> Counts w' ''n'' FallbackReaction = 1) (\<lambda>_ _. False) some_reactions"
proof -
  have "Storable ''b''" "Storable ''n''" by (simp_all add: Storable_def bytes_def valid_utf8.simps(2) rune_at.simps(2))
  moreover have "Fits FallbackReaction reactionMaxRunes"
    unfolding FallbackReaction_def by (rule fits_uni) (simp_all add: scalar_def)
  ultimately show ?thesis
    using lost_decrement [OF some_reactions_ok(2), of some_target some_reactor FallbackReaction]
    by (simp add: some_reactions_def some_target_def some_reactor_def rows_with_def bare_wired del: wp_then wp_ignore_error)
qed
end
