(* ===== verification/Note_Text.thy ===== *)
theory Note_Text imports Reaction_Text begin

text \<open>
  The texts of a note: white space (\<open>strings.TrimSpace\<close>, \<open>strings.Fields\<close>), the word filters of
  misc/keyword/keyword.go, and the tags a note is stored with (misc/hashtag/extract.go).

  Arguments stand for what is not modelled: whether a regular expression of Go's \<open>regexp\<close> matches
  (\<open>None\<close> when it does not compile) and the search normalisation (NFKC and lower case).
\<close>

section \<open>White space\<close>

function rune_chunks :: "nat list \<Rightarrow> (nat \<times> nat list) list" where
  \<comment> \<open>the runes of a text, each with its bytes\<close>
  "rune_chunks [] = []"
| "rune_chunks (b # bs) = (let (r, w) = rune_at (b # bs) in (r, take w (b # bs)) # rune_chunks (drop w (b # bs)))"
  by pat_completeness auto
termination
  by (relation "measure length") (auto dest!: rune_width_pos)

declare rune_chunks.simps(2) [simp del]

definition IsSpace :: "nat \<Rightarrow> bool" where
  "IsSpace r = (between 9 13 r \<or> between 0x2000 0x200A r
     \<or> r \<in> {0x20, 0x85, 0xA0, 0x1680, 0x2028, 0x2029, 0x202F, 0x205F, 0x3000})"

definition unchunk :: "(nat \<times> nat list) list \<Rightarrow> string" where
  "unchunk cs = text_of (concat (map snd cs))"

definition trim :: "('a \<Rightarrow> bool) \<Rightarrow> 'a list \<Rightarrow> 'a list" where
  "trim p xs = rev (dropWhile p (rev (dropWhile p xs)))"

definition TrimSpace :: "string \<Rightarrow> string" where
  "TrimSpace s = unchunk (trim (IsSpace \<circ> fst) (rune_chunks (bytes s)))"

function words_by :: "('a \<Rightarrow> bool) \<Rightarrow> 'a list \<Rightarrow> 'a list list" where
  \<comment> \<open>the maximal runs of what is no separator\<close>
  "words_by p [] = []"
| "words_by p (x # xs) = (if p x then words_by p xs
     else takeWhile (Not \<circ> p) (x # xs) # words_by p (dropWhile (Not \<circ> p) (x # xs)))"
  by pat_completeness auto
termination
  by (relation "measure (length \<circ> snd)") (auto simp: le_imp_less_Suc length_dropWhile_le)

definition Fields :: "string \<Rightarrow> string list" where
  "Fields s = map unchunk (words_by (IsSpace \<circ> fst) (rune_chunks (bytes s)))"

section \<open>Word filters\<close>

type_synonym regexps = "string \<Rightarrow> (string \<Rightarrow> bool) option"

definition newline :: char where "newline = CHR 0x0A"

definition regexpFilterRe :: "string \<Rightarrow> (string \<times> string) option" where
  \<comment> \<open>the pattern goes up to the last slash; a dot is no newline\<close>
  "regexpFilterRe s = (case s of [] \<Rightarrow> None | c # r \<Rightarrow>
     let flags = rev (takeWhile (\<lambda>d. d \<noteq> CHR ''/'') (rev r)); body = dropWhile (\<lambda>d. d \<noteq> CHR ''/'') (rev r) in
     if c \<noteq> CHR ''/'' \<or> newline \<in> set r \<or> length body < 2 then None else Some (rev (tl body), flags))"

definition compileRegex :: "regexps \<Rightarrow> string \<Rightarrow> string \<Rightarrow> (string \<Rightarrow> bool) option" where
  "compileRegex re pattern flags = (let inline = filter (\<lambda>f. f \<in> {CHR ''i'', CHR ''m'', CHR ''s''}) flags in
     re (if inline \<noteq> [] then ''(?'' @ inline @ '')'' @ pattern else pattern))"

definition matchRegex :: "regexps \<Rightarrow> string \<Rightarrow> string \<Rightarrow> string \<Rightarrow> bool" where
  "matchRegex re text pattern flags = (case compileRegex re pattern flags of None \<Rightarrow> False | Some f \<Rightarrow> f text)"

fun IsKeyWordIncluded :: "regexps \<Rightarrow> string \<Rightarrow> string list \<Rightarrow> bool" where
  "IsKeyWordIncluded re text [] = False"
| "IsKeyWordIncluded re text (flt # rest) =
     (if text = [] then False
      else if flt = [] then IsKeyWordIncluded re text rest
      else case regexpFilterRe flt of
          Some (pattern, flags) \<Rightarrow> matchRegex re text pattern flags \<or> IsKeyWordIncluded re text rest
        | None \<Rightarrow> (Fields flt \<noteq> [] \<and> (\<forall>w \<in> set (Fields flt). contains w text)) \<or> IsKeyWordIncluded re text rest)"

datatype matcher_entry = Regex "string \<Rightarrow> bool" | Words "string list"

fun Compile :: "regexps \<Rightarrow> string list \<Rightarrow> matcher_entry list option" where
  \<comment> \<open>\<open>None\<close>: some expression does not compile\<close>
  "Compile re [] = Some []"
| "Compile re (flt # rest) =
     (if flt = [] then Compile re rest
      else case regexpFilterRe flt of
          Some (pattern, flags) \<Rightarrow> (case compileRegex re pattern flags of None \<Rightarrow> None
            | Some f \<Rightarrow> map_option ((#) (Regex f)) (Compile re rest))
        | None \<Rightarrow> if Fields flt = [] then Compile re rest else map_option ((#) (Words (Fields flt))) (Compile re rest))"

fun entry_matches :: "string \<Rightarrow> matcher_entry \<Rightarrow> bool" where
  "entry_matches text (Regex f) = f text"
| "entry_matches text (Words ws) = (\<forall>w \<in> set ws. contains w text)"

definition Match :: "matcher_entry list \<Rightarrow> string \<Rightarrow> bool" where
  "Match m text = (text \<noteq> [] \<and> (\<exists>e \<in> set m. entry_matches text e))"

lemma Match_Cons: "Match (x # m) text = (text \<noteq> [] \<and> (entry_matches text x \<or> Match m text))"
  by (auto simp: Match_def)

lemma no_text [simp]: "IsKeyWordIncluded re [] filters = False" "Match m [] = False"
  by (cases filters) (simp_all add: Match_def)

lemma Compile_matches: "Compile re filters = Some m \<Longrightarrow> Match m text = IsKeyWordIncluded re text filters"
proof (induction filters arbitrary: m)
  case Nil
  then show ?case by (simp add: Match_def)
next
  case (Cons flt rest)
  then show ?case
    by (auto simp: Match_Cons matchRegex_def split: if_splits option.splits prod.splits)
qed

text \<open>A precompiled filter list matches exactly the texts that the list itself matches.\<close>

theorem Compile_refines_filters:
  assumes "Compile re filters = Some m"
  shows "Match m text = IsKeyWordIncluded re text filters"
  using assms by (rule Compile_matches)

section \<open>Tags\<close>

definition MaxNoteTags :: nat where "MaxNoteTags = 32"
definition MaxTagLength :: int where "MaxTagLength = 128"

definition dedup :: "'a list \<Rightarrow> 'a list" where
  \<comment> \<open>each element at its first place\<close>
  "dedup xs = rev (remdups (rev xs))"

definition NormalizeNoteTags :: "(string \<Rightarrow> string) \<Rightarrow> string list \<Rightarrow> string list" where
  "NormalizeNoteTags nfkc tags =
     (let capped = take MaxNoteTags (dedup (filter (\<lambda>t. rune_count t \<le> MaxTagLength) tags)) in
      dedup (filter (\<lambda>n. n \<noteq> [] \<and> CHR 0x00 \<notin> set n \<and> rune_count n \<le> MaxTagLength) (map nfkc capped)))"

lemma set_dedup [simp]: "set (dedup xs) = set xs"
  by (simp add: dedup_def)

lemma distinct_dedup [simp]: "distinct (dedup xs)"
  by (simp add: dedup_def)

lemma length_dedup: "length (dedup xs) \<le> length xs"
  by (simp add: dedup_def length_remdups_leq [THEN order_trans])

text \<open>The tags a note is stored with fit their column: at most 32, none twice, none empty, each storable and of at
  most 128 characters.\<close>

theorem NormalizeNoteTags_fit:
  assumes "\<And>t. valid_utf8 (bytes (nfkc t))"
  shows "length (NormalizeNoteTags nfkc tags) \<le> 32 \<and> distinct (NormalizeNoteTags nfkc tags)
    \<and> list_all (\<lambda>n. n \<noteq> [] \<and> Fits n 128) (NormalizeNoteTags nfkc tags)"
proof -
  let ?capped = "take MaxNoteTags (dedup (filter (\<lambda>t. rune_count t \<le> MaxTagLength) tags))"
  have "length ?capped \<le> 32" by (simp add: MaxNoteTags_def)
  then have "length (map nfkc ?capped) \<le> 32" by simp
  then have "length (NormalizeNoteTags nfkc tags) \<le> 32"
    unfolding NormalizeNoteTags_def Let_def by (meson length_dedup length_filter_le order_trans)
  moreover have "list_all (\<lambda>n. n \<noteq> [] \<and> Fits n 128) (NormalizeNoteTags nfkc tags)"
    using assms by (auto simp: NormalizeNoteTags_def Let_def list_all_iff Fits_def Storable_def MaxTagLength_def)
  ultimately show ?thesis by (simp add: NormalizeNoteTags_def Let_def)
qed

end
