(* ===== verification/Note_Mentions.thy ===== *)
theory Note_Mentions imports Note_Text Note_Store begin

text \<open>
  The mentions of a new note: the second half of core/note/note_create_service.go.  Mentions are
  looked up in the user table first; those that it does not know and those whose user is due for a
  re-sync go to the remote server, a bounded number of them.

  \<open>MentionsIn text\<close> are the mention nodes of the parsed text in order (user name and host, which is
  empty without one): the parser of activitypub/mfm is not modelled.  The answers of the user table,
  of the resolver and of the policies are arguments.  The remote lookups run in parallel under a
  deadline and stop for a host that cannot be reached; here each has one of the three outcomes that
  the caller can tell apart.
\<close>

section \<open>Environment\<close>

record mention_user =
  MentionUserID :: string
  MentionUserLocal :: bool

datatype fetched = Fetched string | FetchFailed | NotTried

record mention_wiring =
  MentionsIn :: "string \<Rightarrow> (string \<times> string) list"
  Lower :: "string \<Rightarrow> string"
  Puny :: "string \<Rightarrow> string"
  LocalHost :: string
  UserTable :: "(string \<Rightarrow> (string \<Rightarrow> mention_user option) option) option"
  Resolver :: "(string \<times> string \<Rightarrow> fetched) option"
  Resyncer :: "((mention_user \<Rightarrow> bool) \<times> (mention_user \<Rightarrow> fetched)) option"
  PolicyLimit :: "(string \<Rightarrow> rat option) option"

section \<open>Extraction\<close>

definition appendUniqueID :: "string list \<Rightarrow> string \<Rightarrow> string list" where
  "appendUniqueID ids i = (if i = [] \<or> i \<in> set ids then ids else ids @ [i])"

definition ExtractMentionStructs :: "mention_wiring \<Rightarrow> string \<Rightarrow> (string \<times> string) list" where
  "ExtractMentionStructs e text = (if text = [] then [] else dedup (MentionsIn e text))"

definition ExtractMentions :: "mention_wiring \<Rightarrow> string \<Rightarrow> string list" where
  "ExtractMentions e text = map (\<lambda>(name, host). if host \<noteq> [] then name @ ''@'' @ host else name) (ExtractMentionStructs e text)"

definition extractNoteMentions :: "mention_wiring \<Rightarrow> string option \<Rightarrow> string option \<Rightarrow> string list \<Rightarrow> (string \<times> string) list" where
  "extractNoteMentions e text cw choices = dedup (concat (map (ExtractMentionStructs e)
     (case_option [] (\<lambda>t. [t]) text @ case_option [] (\<lambda>c. [c]) cw @ choices)))"

section \<open>Resolution\<close>

record resolved =
  MentionName :: string
  MentionHost :: string
  ResolvedID :: string
  Fetchable :: bool
  StaleUser :: "mention_user option"

definition mentionLookupHost :: "mention_wiring \<Rightarrow> string \<Rightarrow> string option \<Rightarrow> string" where
  "mentionLookupHost e h authorHost = (let h1 = (if h = [] \<and> authorHost \<noteq> None then the authorHost else h) in
     if h1 = [] then [] else if LocalHost e \<noteq> [] \<and> Puny e h1 = LocalHost e then [] else Puny e h1)"

definition lookup_mention :: "mention_wiring \<Rightarrow> (string \<Rightarrow> (string \<Rightarrow> mention_user option) option) \<Rightarrow> string option \<Rightarrow> string \<times> string \<Rightarrow> resolved" where
  \<comment> \<open>a lookup of the host that failed leaves the mention alone\<close>
  "lookup_mention e table authorHost m = (case m of (name, host) \<Rightarrow>
     let h = mentionLookupHost e host authorHost;
         none = \<lparr>MentionName = name, MentionHost = h, ResolvedID = [], Fetchable = False, StaleUser = None\<rparr> in
     case table h of None \<Rightarrow> none
     | Some users \<Rightarrow> (case users (Lower e name) of
         Some u \<Rightarrow> none\<lparr>ResolvedID := MentionUserID u,
           StaleUser := (if h \<noteq> [] \<and> (case Resyncer e of None \<Rightarrow> False | Some (needs, _) \<Rightarrow> needs u) then Some u else None)\<rparr>
       | None \<Rightarrow> none\<lparr>Fetchable := (h \<noteq> [])\<rparr>))"

definition lookupMentionsInDB :: "mention_wiring \<Rightarrow> (string \<times> string) list \<Rightarrow> string option \<Rightarrow> resolved list" where
  "lookupMentionsInDB e mentions authorHost = (case UserTable e of None \<Rightarrow> []
     | Some table \<Rightarrow> map (lookup_mention e table authorHost) mentions)"

definition userIDs :: "resolved list \<Rightarrow> string list" where
  "userIDs rs = foldl appendUniqueID [] (map ResolvedID rs)"

definition localUserIDs :: "resolved list \<Rightarrow> string set" where
  "localUserIDs rs = {ResolvedID r | r. r \<in> set rs \<and> ResolvedID r \<noteq> [] \<and> MentionHost r = []}"

definition acct_of :: "mention_wiring \<Rightarrow> resolved \<Rightarrow> string \<times> string" where
  "acct_of e r = (Lower e (MentionName r), MentionHost r)"

definition fetchableAccts :: "mention_wiring \<Rightarrow> resolved list \<Rightarrow> (string \<times> string) list" where
  "fetchableAccts e rs = dedup (map (acct_of e) (filter Fetchable rs))"

definition hasRemoteWork :: "resolved list \<Rightarrow> bool" where
  "hasRemoteWork rs = (\<exists>r \<in> set rs. Fetchable r \<or> StaleUser r \<noteq> None)"

definition fetch_one :: "mention_wiring \<Rightarrow> (string \<times> string \<Rightarrow> fetched) \<Rightarrow> resolved \<Rightarrow> resolved" where
  \<comment> \<open>a failed re-sync drops the mention, one that was not tried keeps it\<close>
  "fetch_one e resolver r =
     (if Fetchable r then (case resolver (acct_of e r) of Fetched i \<Rightarrow> r\<lparr>ResolvedID := i, Fetchable := False, StaleUser := None\<rparr>
        | _ \<Rightarrow> r\<lparr>Fetchable := False, StaleUser := None\<rparr>)
      else case StaleUser r of None \<Rightarrow> r
      | Some u \<Rightarrow> (case Resyncer e of None \<Rightarrow> r\<lparr>StaleUser := None\<rparr>
          | Some (_, resync) \<Rightarrow> (case resync u of
              Fetched i \<Rightarrow> r\<lparr>ResolvedID := (if i = [] then ResolvedID r else i), StaleUser := None\<rparr>
            | FetchFailed \<Rightarrow> r\<lparr>ResolvedID := [], StaleUser := None\<rparr>
            | NotTried \<Rightarrow> r\<lparr>StaleUser := None\<rparr>)))"

definition fetchRemoteMentions :: "mention_wiring \<Rightarrow> resolved list \<Rightarrow> resolved list" where
  "fetchRemoteMentions e rs = (case Resolver e of None \<Rightarrow> rs
     | Some resolver \<Rightarrow> if hasRemoteWork rs then map (fetch_one e resolver) rs else rs)"

section \<open>The limit\<close>

definition DefaultMentionLimit :: int where "DefaultMentionLimit = 20"

definition MentionLimitFor :: "mention_wiring \<Rightarrow> string \<Rightarrow> int" where
  "MentionLimitFor e u = (case PolicyLimit e of None \<Rightarrow> DefaultMentionLimit
     | Some p \<Rightarrow> if u = [] then DefaultMentionLimit
         else (case p u of None \<Rightarrow> DefaultMentionLimit | Some v \<Rightarrow> \<lfloor>v\<rfloor>))"

definition mention_targets :: "string \<Rightarrow> string list \<Rightarrow> string \<Rightarrow> target option \<Rightarrow> string list \<Rightarrow> string set" where
  "mention_targets u visible vis reply ids = set ids
     \<union> (case reply of Some t \<Rightarrow> if noteUserID t \<noteq> u then {noteUserID t} else {} | None \<Rightarrow> {})
     \<union> (if vis = NoteVisibilitySpecified then set visible else {})"

definition mentionTargetCount :: "string \<Rightarrow> string list \<Rightarrow> string \<Rightarrow> target option \<Rightarrow> string list \<Rightarrow> nat" where
  "mentionTargetCount u visible vis reply ids = card (mention_targets u visible vis reply ids)"

definition checkMentionLimit :: "mention_wiring \<Rightarrow> string \<Rightarrow> string list \<Rightarrow> string \<Rightarrow> target option \<Rightarrow> string list \<Rightarrow> bool" where
  \<comment> \<open>too many\<close>
  "checkMentionLimit e u visible vis reply ids = (let n = mentionTargetCount u visible vis reply ids in
     0 < n \<and> MentionLimitFor e u < int n)"

definition resolveMentions :: "mention_wiring \<Rightarrow> string \<Rightarrow> string option \<Rightarrow> string list \<Rightarrow> string \<Rightarrow> target option
    \<Rightarrow> (string \<times> string) list \<Rightarrow> resolved list option" where
  \<comment> \<open>\<open>None\<close>: too many mentions; nothing is fetched then\<close>
  "resolveMentions e u authorHost visible vis reply mentions =
     (let rs = lookupMentionsInDB e mentions authorHost in
      if checkMentionLimit e u visible vis reply (userIDs rs) then None
      else if hasRemoteWork rs \<and> Resolver e \<noteq> None then
        (if MentionLimitFor e u < int (mentionTargetCount u visible vis reply (userIDs rs) + length (fetchableAccts e rs)) then None
         else Some (fetchRemoteMentions e rs))
      else Some rs)"

section \<open>What is stored\<close>

definition noteMentionIDs :: "string \<Rightarrow> string \<Rightarrow> string list \<Rightarrow> target option \<Rightarrow> string list \<Rightarrow> string list" where
  \<comment> \<open>with the author of the note replied to and the recipients of a direct note\<close>
  "noteMentionIDs u vis visible reply ids =
     (let m1 = (case reply of Some t \<Rightarrow> if noteUserID t \<noteq> u then appendUniqueID ids (noteUserID t) else ids | None \<Rightarrow> ids) in
      if vis = NoteVisibilitySpecified then foldl appendUniqueID m1 visible else m1)"

definition allMentionsLocal :: "string list \<Rightarrow> string set \<Rightarrow> target option \<Rightarrow> bool" where
  "allMentionsLocal ms locals reply = (\<forall>i \<in> set ms. i \<in> locals
     \<or> (case reply of Some t \<Rightarrow> noteUserID t = i \<and> TargetUserHost t = None | None \<Rightarrow> False))"


section \<open>The limit holds for what is stored\<close>

lemma append_unique [simp]:
  "set (appendUniqueID ids i) = set ids \<union> ({i} - {[]})" "distinct (appendUniqueID ids i) = distinct ids"
  by (auto simp: appendUniqueID_def)

lemma append_uniques [simp]:
  "set (foldl appendUniqueID ids is) = set ids \<union> (set is - {[]})" "distinct (foldl appendUniqueID ids is) = distinct ids"
  by (induction "is" arbitrary: ids) auto

lemma set_userIDs [simp]: "set (userIDs rs) = ResolvedID ` set rs - {[]}" "distinct (userIDs rs)"
  by (auto simp: userIDs_def)

lemma noteMentionIDs_targets:
  assumes "distinct ids" "set visible' \<subseteq> set visible \<union> (case reply of Some t \<Rightarrow> if noteUserID t \<noteq> u then {noteUserID t} else {} | None \<Rightarrow> {})"
  shows "distinct (noteMentionIDs u vis visible' reply ids)"
    and "set (noteMentionIDs u vis visible' reply ids) \<subseteq> mention_targets u visible vis reply ids"
  using assms by (auto simp: noteMentionIDs_def mention_targets_def Let_def split: option.splits if_splits)

lemma finite_targets [simp]: "finite (mention_targets u visible vis reply ids)"
  by (auto simp: mention_targets_def split: option.splits)

definition resync_keeps_ids :: "mention_wiring \<Rightarrow> bool" where
  \<comment> \<open>a re-synced user is the same row\<close>
  "resync_keeps_ids e = (\<forall>needs resync. Resyncer e = Some (needs, resync) \<longrightarrow>
     (\<forall>v i. resync v = Fetched i \<longrightarrow> i = [] \<or> i = MentionUserID v))"

lemma fetched_ids:
  assumes k: "resync_keeps_ids e" and r: "r \<in> set (lookupMentionsInDB e ms h)"
  shows "ResolvedID (fetch_one e resolver r) \<in> {[], ResolvedID r}
    \<or> (Fetchable r \<and> resolver (acct_of e r) = Fetched (ResolvedID (fetch_one e resolver r)))"
proof -
  have "MentionUserID v = ResolvedID r" if "StaleUser r = Some v" for v
    using r that by (auto simp: lookupMentionsInDB_def lookup_mention_def Let_def split: option.splits prod.splits if_splits)
  moreover have "i = [] \<or> i = MentionUserID v" if "Resyncer e = Some (needs, resync)" "resync v = Fetched i" for needs resync v i
    using k that by (simp add: resync_keeps_ids_def)
  ultimately have "resync v = Fetched i \<Longrightarrow> i = [] \<or> i = ResolvedID r" if "StaleUser r = Some v" "Resyncer e = Some (needs, resync)" for needs resync v i
    using that by metis
  then show ?thesis by (auto simp: fetch_one_def split: fetched.splits option.splits)
qed

lemma fetch_adds_accts:
  assumes "resync_keeps_ids e" "rs = lookupMentionsInDB e ms h"
  shows "card (mention_targets u visible vis reply (userIDs (fetchRemoteMentions e rs)))
    \<le> card (mention_targets u visible vis reply (userIDs rs)) + length (fetchableAccts e rs)"
proof (cases "Resolver e = None \<or> \<not> hasRemoteWork rs")
  case True
  then show ?thesis by (auto simp: fetchRemoteMentions_def split: option.splits)
next
  case False
  then obtain resolver where res: "Resolver e = Some resolver" "fetchRemoteMentions e rs = map (fetch_one e resolver) rs"
    by (auto simp: fetchRemoteMentions_def)
  define new where "new = (\<lambda>a. case resolver a of Fetched i \<Rightarrow> i | _ \<Rightarrow> [])"
  have "ResolvedID (fetch_one e resolver r) \<in> insert [] (ResolvedID ` set rs) \<union> new ` set (fetchableAccts e rs)" if "r \<in> set rs" for r
    using fetched_ids [OF assms(1), of r ms h resolver] that assms(2) by (auto simp: fetchableAccts_def new_def image_iff)
  then have "mention_targets u visible vis reply (userIDs (fetchRemoteMentions e rs))
      \<subseteq> mention_targets u visible vis reply (userIDs rs) \<union> new ` set (fetchableAccts e rs)"
    unfolding res(2) mention_targets_def by (auto split: option.splits)
  then have "card (mention_targets u visible vis reply (userIDs (fetchRemoteMentions e rs)))
      \<le> card (mention_targets u visible vis reply (userIDs rs) \<union> new ` set (fetchableAccts e rs))"
    by (intro card_mono) auto
  also have "\<dots> \<le> card (mention_targets u visible vis reply (userIDs rs)) + card (new ` set (fetchableAccts e rs))"
    by (rule card_Un_le)
  also have "card (new ` set (fetchableAccts e rs)) \<le> length (fetchableAccts e rs)"
    by (meson List.finite_set card_image_le card_length le_trans)
  finally show ?thesis by simp
qed

lemma resolved_within:
  assumes "resolveMentions e u h visible vis reply ms = Some rs" "resync_keeps_ids e"
  shows "int (card (mention_targets u visible vis reply (userIDs rs))) \<le> max 0 (MentionLimitFor e u)"
  using assms fetch_adds_accts [OF assms(2) refl, of u visible vis reply ms h]
  by (auto simp: resolveMentions_def Let_def checkMentionLimit_def mentionTargetCount_def split: if_splits)

text \<open>The mention limit covers everybody a note is stored with: the mentions that resolve, those fetched from remote
  servers, the author replied to and the recipients of a direct note together stay within the author's limit,
  and no remote server is asked for a note that is over it.\<close>

theorem mentions_within_limit:
  assumes "resolveMentions e u h visible vis reply ms = Some rs" "resync_keeps_ids e"
    and "set visible' \<subseteq> set visible \<union> (case reply of Some t \<Rightarrow> if noteUserID t \<noteq> u then {noteUserID t} else {} | None \<Rightarrow> {})"
  shows "distinct (noteMentionIDs u vis visible' reply (userIDs rs))
    \<and> int (length (noteMentionIDs u vis visible' reply (userIDs rs))) \<le> max 0 (MentionLimitFor e u)"
proof -
  let ?m = "noteMentionIDs u vis visible' reply (userIDs rs)"
  have d: "distinct ?m" "set ?m \<subseteq> mention_targets u visible vis reply (userIDs rs)"
    using noteMentionIDs_targets [OF _ assms(3)] by simp_all
  then have "length ?m \<le> card (mention_targets u visible vis reply (userIDs rs))"
    using card_mono [OF finite_targets d(2)] distinct_card [OF d(1)] by simp
  then show ?thesis using d(1) resolved_within [OF assms(1,2)] by simp
qed

definition some_mentions :: mention_wiring where
  \<comment> \<open>a known local user, a stale remote one and an unknown one\<close>
  "some_mentions = \<lparr>MentionsIn = (\<lambda>t. [(''a'', []), (''b'', ''x''), (''c'', ''x'')]), Lower = id, Puny = id, LocalHost = ''l'',
     UserTable = Some (\<lambda>h. Some (\<lambda>n. if n = ''c'' then None else Some \<lparr>MentionUserID = n, MentionUserLocal = (h = [])\<rparr>)),
     Resolver = Some (\<lambda>_. Fetched ''9''), Resyncer = Some (\<lambda>_. True, \<lambda>_. FetchFailed), PolicyLimit = Some (\<lambda>_. Some 3)\<rparr>"

theorem mentions_within_limit_witness:
  "int (length (noteMentionIDs ''u'' NoteVisibilityPublic [] None
      (userIDs (the (resolveMentions some_mentions ''u'' None [] NoteVisibilityPublic None (MentionsIn some_mentions [])))))) \<le> 3"
proof -
  have r: "resolveMentions some_mentions ''u'' None [] NoteVisibilityPublic None (MentionsIn some_mentions [])
      = Some (the (resolveMentions some_mentions ''u'' None [] NoteVisibilityPublic None (MentionsIn some_mentions [])))"
    by code_simp
  have "resync_keeps_ids some_mentions" by (simp add: resync_keeps_ids_def some_mentions_def)
  moreover have "MentionLimitFor some_mentions ''u'' = 3" by (simp add: MentionLimitFor_def some_mentions_def)
  ultimately show ?thesis using mentions_within_limit [OF r, of "[]"] by simp
qed

end
