(* ===== verification/Note_Create.thy ===== *)
theory Note_Create imports Note_Mentions Poll_Service begin

text \<open>
  Posting and deleting notes: core/note/note_create_service.go (its first half; the mentions are in
  \<open>Note_Mentions\<close>), core/note/note_delete_service.go, and the statements of repository/note.go they use.

  The state extends the one of the polls with \<open>NotesCount\<close>, the users' numbers of notes, and
  \<open>NoteOutbox\<close>, the hooks that have been called.  The targets of a reply and a renote are loaded by
  two goroutines; the model loads one after the other.  The hooks run asynchronously after the last
  statement; the outbox has them in the order in which they are started.  Counters are 16 bits wide:
  a statement that would leave their range fails.
\<close>

section \<open>Input, environment and state\<close>

record poll_input =
  InChoices :: "string list"
  InMultiple :: bool
  InExpiresAt :: "int option"

record create_input =
  InText :: "string option"
  InCW :: "string option"
  InVisibility :: string
  InVisibleUserIDs :: "string list"
  InLocalOnly :: bool
  InReactionAcceptance :: "string option"
  InFileIDs :: "string list"
  InReplyID :: "string option"
  InRenoteID :: "string option"
  InChannelID :: "string option"
  InPoll :: "poll_input option"
  NoExtractMentions :: bool
  NoExtractHashtags :: bool
  NoExtractEmojis :: bool

record poster = reactor +
  IsBot :: bool

record note_meta =
  SensitiveWords :: "string list"
  ProhibitedWords :: "string list"

datatype note_effect =
    FanOut string | NotifyNote string | FederateNote string | ChannelPosted string string string
  | AntennaNote string | IndexNote string | ChartNote string | HashtagNote string | WebhookNote string
  | MainEvent string string string | RankRenoteInChannel string string | RankRenote string string
  | FederateDelete string string | UnindexNote string | ChartDelete string | PurgeTimelines string string
  | NoteDeleted string | DropNoteNotices string | ModeratorLog string string

record note_store = poll_store +
  NotesCount :: "string \<Rightarrow> int"
  NoteOutbox :: "note_effect list"

type_synonym 'a create_act = "(note_store, note_error, 'a) act"

record create_wiring = gate +
  Silenced :: "(string \<Rightarrow> bool) option"
  Meta :: "note_meta option"
  Regexps :: regexps
  DriveFiles :: "(string \<Rightarrow> string option option) option"
  ChannelCheck :: "(string \<Rightarrow> unit + bool) option"
  ChannelAllowsRenote :: "(string \<Rightarrow> bool option) option"
  Mentioning :: mention_wiring
  RemoteRows :: "(string \<Rightarrow> (string \<times> string option \<times> string \<times> string) option) option"
  HashtagsIn :: "string list \<Rightarrow> string list"
  SearchNorm :: "string \<Rightarrow> string"
  EmojiCodes :: "string \<Rightarrow> string \<Rightarrow> string list"
  NewNoteID :: "nat \<Rightarrow> string"
  NoteHooks :: "string set"
  RenoteRanking :: bool
  RenoteSampled :: "nat \<Rightarrow> bool"
  RenoteAge :: "string \<Rightarrow> int option"
  ThreadMutes :: "(string \<Rightarrow> string \<Rightarrow> bool) option"
  HostOf :: "string \<Rightarrow> string option option"

definition emit :: "note_effect \<Rightarrow> unit create_act" where
  "emit x = change (\<lambda>w. w\<lparr>NoteOutbox := NoteOutbox w @ [x]\<rparr>)"

definition hook :: "create_wiring \<Rightarrow> string \<Rightarrow> note_effect \<Rightarrow> unit create_act" where
  "hook e name x = perform (name \<in> NoteHooks e) (emit x)"

section \<open>Statements\<close>

definition all_fit :: "int \<Rightarrow> string list \<Rightarrow> bool" where
  "all_fit n xs = (\<forall>x \<in> set xs. Fits x n)"

definition present_texts :: "string option list \<Rightarrow> string list" where
  "present_texts xs = List.map_filter id xs"

definition row_fits :: "target \<Rightarrow> bool" where
  \<comment> \<open>the column types of \<open>model/note.go\<close>\<close>
  "row_fits t = (all_fit 32 (TargetID t # noteUserID t # TargetFileIDs t @ noteVisibleUserIDs t @ noteMentions t)
     \<and> all_fit 32 (present_texts [TargetReplyID t, TargetRenoteID t, TargetChannelID t, noteReplyUserID t, RenoteUserID t, RenoteChannelID t])
     \<and> all_fit 128 (present_texts [TargetUserHost t, ReplyUserHost t, RenoteUserHost t]) \<and> all_fit 256 (present_texts [ThreadID t])
     \<and> (case TargetText t of None \<Rightarrow> True | Some x \<Rightarrow> Storable x) \<and> (case TargetCW t of None \<Rightarrow> True | Some x \<Rightarrow> Fits x 512)
     \<and> (case ReactionAcceptance t of None \<Rightarrow> True | Some x \<Rightarrow> Fits x 64) \<and> all_fit 128 (NoteTags t @ NoteEmojis t)
     \<and> noteVisibility t \<in> {NoteVisibilityPublic, NoteVisibilityHome, NoteVisibilityFollowers, NoteVisibilitySpecified})"

definition InsertNote :: "target \<Rightarrow> unit create_act" where
  "InsertNote t = then_act db (then_act (reject_if (\<not> row_fits t) ErrDatabase)
     (bind_act (query (\<lambda>w. Targets w (TargetID t) \<noteq> None)) (\<lambda>dup.
     then_act (reject_if dup ErrUniqueRow) (change (\<lambda>w. w\<lparr>Targets := (Targets w)(TargetID t \<mapsto> t)\<rparr>)))))"

definition update_note :: "string \<Rightarrow> (target \<Rightarrow> target) \<Rightarrow> unit create_act" where
  "update_note i f = change (\<lambda>w. w\<lparr>Targets := (Targets w)(i := map_option f (Targets w i))\<rparr>)"

definition int2 :: "int \<Rightarrow> bool" where
  "int2 x = (- (2 ^ 15) \<le> x \<and> x < 2 ^ 15)"

definition stepped :: "int \<Rightarrow> int \<Rightarrow> int" where
  "stepped x delta = (if delta < 0 then max (x + delta) 0 else x + delta)"

definition IncrementReplies :: "string \<Rightarrow> int \<Rightarrow> unit create_act" where
  "IncrementReplies i delta = then_act db
     (bind_act (query (\<lambda>w. case Targets w i of None \<Rightarrow> False | Some t \<Rightarrow> \<not> int2 (stepped (RepliesCount t) delta))) (\<lambda>bad.
     then_act (reject_if bad ErrDatabase) (update_note i (\<lambda>t. t\<lparr>RepliesCount := stepped (RepliesCount t) delta\<rparr>))))"

definition IncrementRenotes :: "string \<Rightarrow> int \<Rightarrow> unit create_act" where
  "IncrementRenotes i delta = then_act db
     (bind_act (query (\<lambda>w. case Targets w i of None \<Rightarrow> False | Some t \<Rightarrow> \<not> int2 (stepped (RenoteCount t) delta))) (\<lambda>bad.
     then_act (reject_if bad ErrDatabase) (update_note i (\<lambda>t. t\<lparr>RenoteCount := stepped (RenoteCount t) delta\<rparr>))))"

definition DeleteNote :: "string \<Rightarrow> unit create_act" where
  \<comment> \<open>no error when the row is gone; its poll and votes go with it\<close>
  "DeleteNote i = then_act db (change (\<lambda>w. w\<lparr>Targets := (Targets w)(i := None),
     Polls := filter (\<lambda>p. PollNoteID p \<noteq> i) (Polls w), VoteRows := filter (\<lambda>v. VoteNoteID v \<noteq> i) (VoteRows w)\<rparr>))"

definition CreatePoll :: "poll \<Rightarrow> unit create_act" where
  "CreatePoll p = then_act db (then_act (reject_if (\<not> all_fit 256 (Choices p)) ErrDatabase)
     (bind_act (query (\<lambda>w. PollNoteID p \<in> PollNoteID ` set (Polls w) \<or> Targets w (PollNoteID p) = None)) (\<lambda>bad.
     then_act (reject_if bad ErrDatabase) (change (\<lambda>w. w\<lparr>Polls := Polls w @ [p]\<rparr>)))))"

definition IncrementNotesCount :: "string \<Rightarrow> int \<Rightarrow> unit create_act" where
  "IncrementNotesCount u d = then_act db (change (\<lambda>w. w\<lparr>NotesCount := (NotesCount w)(u := NotesCount w u + d)\<rparr>))"

section \<open>Before the database is touched\<close>

definition trimText :: "string option \<Rightarrow> string option" where
  "trimText text = (case text of None \<Rightarrow> None | Some t \<Rightarrow> if TrimSpace t = [] then None else Some (TrimSpace t))"

definition hasContent :: "create_input \<Rightarrow> bool" where
  "hasContent inp = (trimText (InText inp) \<noteq> None \<or> InRenoteID inp \<noteq> None \<or> InFileIDs inp \<noteq> [] \<or> InPoll inp \<noteq> None)"

definition normalizeChannelID :: "string option \<Rightarrow> string option" where
  "normalizeChannelID c = (if c = Some [] then None else c)"

definition effectiveChannel :: "create_input \<Rightarrow> target option \<Rightarrow> string option" where
  \<comment> \<open>a reply moves to the channel of the note it replies to\<close>
  "effectiveChannel inp reply = (case reply of None \<Rightarrow> normalizeChannelID (InChannelID inp)
     | Some t \<Rightarrow> normalizeChannelID (TargetChannelID t))"

definition IsPureRenote :: "target \<Rightarrow> bool" where
  "IsPureRenote t = (TargetRenoteID t \<noteq> None \<and> TargetText t \<in> {None, Some []} \<and> TargetCW t \<in> {None, Some []}
     \<and> TargetFileIDs t = [] \<and> \<not> TargetHasPoll t \<and> TargetReplyID t \<in> {None, Some []})"

definition sameChannel :: "string option \<Rightarrow> string option \<Rightarrow> bool" where
  "sameChannel a b = (a = b)"

definition hits_words :: "regexps \<Rightarrow> string list \<Rightarrow> string option \<Rightarrow> bool" where
  "hits_words re words text = (case text of None \<Rightarrow> False | Some t \<Rightarrow> t \<noteq> [] \<and> IsKeyWordIncluded re t words)"

definition matchesSensitiveWords :: "regexps \<Rightarrow> note_meta option \<Rightarrow> string option \<Rightarrow> string option \<Rightarrow> bool" where
  "matchesSensitiveWords re meta text cw = (case meta of None \<Rightarrow> False
     | Some m \<Rightarrow> hits_words re (SensitiveWords m) cw \<or> hits_words re (SensitiveWords m) text)"

definition checkProhibitedWords :: "regexps \<Rightarrow> note_meta option \<Rightarrow> string option \<Rightarrow> string option \<Rightarrow> string list \<Rightarrow> bool" where
  "checkProhibitedWords re meta text cw choices = (case meta of None \<Rightarrow> False
     | Some m \<Rightarrow> hits_words re (ProhibitedWords m) cw \<or> hits_words re (ProhibitedWords m) text
         \<or> (\<exists>c \<in> set choices. hits_words re (ProhibitedWords m) (Some c)))"

definition demote_if :: "bool \<Rightarrow> string option \<Rightarrow> string \<Rightarrow> string" where
  "demote_if b channel vis = (if vis = NoteVisibilityPublic \<and> channel = None \<and> b then NoteVisibilityHome else vis)"

definition startVisibility :: "create_wiring \<Rightarrow> poster \<Rightarrow> create_input \<Rightarrow> string option \<Rightarrow> string" where
  \<comment> \<open>the default, the channel, silencing and the sensitive words, in this order\<close>
  "startVisibility e u inp channel =
     (let v0 = (if InVisibility inp = [] then NoteVisibilityPublic else InVisibility inp);
          v1 = (if channel \<noteq> None then NoteVisibilityPublic else v0);
          v2 = demote_if (case Silenced e of None \<Rightarrow> False | Some f \<Rightarrow> f (accountID u)) channel v1 in
      demote_if (matchesSensitiveWords (Regexps e) (Meta e) (trimText (InText inp)) (InCW inp)) channel v2)"

section \<open>Guards\<close>

definition checkFileIDs :: "create_wiring \<Rightarrow> string \<Rightarrow> string list \<Rightarrow> unit create_act" where
  "checkFileIDs e u ids = (case DriveFiles e of None \<Rightarrow> ret ()
     | Some owner \<Rightarrow> if ids = [] then ret ()
         else then_act db (reject_if (\<exists>i \<in> set ids. owner i \<noteq> Some (Some u)) ErrNoSuchFile))"

definition narrowForRenote :: "string \<Rightarrow> string \<Rightarrow> string" where
  "narrowForRenote targetVis vis =
     (if targetVis = NoteVisibilityHome then (if vis = NoteVisibilityPublic then NoteVisibilityHome else vis)
      else if targetVis = NoteVisibilityFollowers
      then (if vis = NoteVisibilityPublic \<or> vis = NoteVisibilityHome then NoteVisibilityFollowers else vis)
      else vis)"

definition checkRenoteOutsideOfChannel :: "create_wiring \<Rightarrow> create_input \<Rightarrow> target \<Rightarrow> unit create_act" where
  \<comment> \<open>a channel that cannot be read does not forbid anything\<close>
  "checkRenoteOutsideOfChannel e inp t = reject_if
     (TargetChannelID t \<noteq> None \<and> \<not> sameChannel (TargetChannelID t) (normalizeChannelID (InChannelID inp))
        \<and> (case ChannelAllowsRenote e of None \<Rightarrow> False | Some f \<Rightarrow> f (the (TargetChannelID t)) = Some False))
     ErrCannotRenoteOutsideOfChannel"

definition loadRef :: "gate \<Rightarrow> string option \<Rightarrow> (note_error, target) res option create_act" where
  "loadRef g i = (case i of None \<Rightarrow> ret None | Some i \<Rightarrow> bind_act (attempt (loadTarget g i)) (\<lambda>r. ret (Some r)))"

definition found :: "(note_error, target) res option \<Rightarrow> target option" where
  "found r = (case r of Some (Val t) \<Rightarrow> Some t | _ \<Rightarrow> None)"

definition report :: "note_error \<Rightarrow> (note_error, target) res \<Rightarrow> target create_act" where
  \<comment> \<open>only a missing row is reported as one\<close>
  "report missing r = (case r of Val t \<Rightarrow> ret t
     | Stop (Err ErrNoteNotFound) \<Rightarrow> stop_with (Err missing) | Stop x \<Rightarrow> stop_with x)"

definition renoteGate :: "create_wiring \<Rightarrow> poster \<Rightarrow> create_input \<Rightarrow> string option \<Rightarrow> string \<times> bool
    \<Rightarrow> (note_error, target) res option \<Rightarrow> (string \<times> bool) create_act" where
  "renoteGate e u inp channel vl renote = (case renote of None \<Rightarrow> ret vl
     | Some r \<Rightarrow> bind_act (report ErrRenoteTargetNotFound r) (\<lambda>t.
         then_act (reject_if (\<not> may_read (gate.truncate e) (reactor.truncate u) t) ErrCannotRenoteInvisibleNote)
         (then_act (reject_if (noteVisibility t = NoteVisibilityFollowers \<and> noteUserID t \<noteq> accountID u) ErrCannotRenoteInvisibleNote)
         (then_act (reject_if (noteVisibility t = NoteVisibilitySpecified) ErrCannotRenoteInvisibleNote)
         (then_act (reject_if (IsPureRenote t) ErrCannotRenoteToAPureRenote)
         (then_act (checkAuthorBlocks (gate.truncate e) (reactor.truncate u) t)
         (then_act (checkRenoteOutsideOfChannel e inp t)
         (ret (narrowForRenote (noteVisibility t) (fst vl), snd vl \<or> LocalOnly t \<and> channel = None)))))))))"

definition replyGate :: "create_wiring \<Rightarrow> poster \<Rightarrow> string option \<Rightarrow> string \<times> bool
    \<Rightarrow> (note_error, target) res option \<Rightarrow> (string \<times> bool) create_act" where
  "replyGate e u channel vl reply = (case reply of None \<Rightarrow> ret vl
     | Some r \<Rightarrow> bind_act (report ErrReplyTargetNotFound r) (\<lambda>t.
         then_act (reject_if (\<not> may_read (gate.truncate e) (reactor.truncate u) t) ErrCannotReplyToInvisibleNote)
         (then_act (reject_if (IsPureRenote t) ErrCannotReplyToAPureRenote)
         (then_act (reject_if (noteVisibility t = NoteVisibilitySpecified \<and> fst vl \<noteq> NoteVisibilitySpecified) ErrCannotReplyToSpecifiedVisibility)
         (then_act (checkAuthorBlocks (gate.truncate e) (reactor.truncate u) t)
         (ret (ClampVisibilityForReply (noteVisibility t) (fst vl), snd vl \<or> LocalOnly t \<and> channel = None)))))))"

definition checkPoll :: "create_input \<Rightarrow> unit create_act" where
  "checkPoll inp = bind_act (query Now) (\<lambda>now. reject_if
     (case InPoll inp of None \<Rightarrow> False | Some p \<Rightarrow> (case InExpiresAt p of None \<Rightarrow> False | Some x \<Rightarrow> x < now))
     ErrCannotCreateAlreadyExpiredPoll)"

definition checkChannel :: "create_wiring \<Rightarrow> create_input \<Rightarrow> unit create_act" where
  "checkChannel e inp = (case normalizeChannelID (InChannelID inp) of None \<Rightarrow> ret ()
     | Some c \<Rightarrow> (case ChannelCheck e of None \<Rightarrow> ret ()
         | Some f \<Rightarrow> (case f c of Inl _ \<Rightarrow> stop_with (Err ErrDatabase) | Inr ok \<Rightarrow> reject_if (\<not> ok) ErrChannelNotFound)))"

definition poll_choices :: "create_input \<Rightarrow> string list" where
  "poll_choices inp = (case InPoll inp of None \<Rightarrow> [] | Some p \<Rightarrow> InChoices p)"

definition note_mentions :: "create_wiring \<Rightarrow> create_input \<Rightarrow> (string \<times> string) list" where
  "note_mentions e inp = (if NoExtractMentions inp then []
     else extractNoteMentions (Mentioning e) (trimText (InText inp)) (InCW inp) (poll_choices inp))"

definition checkContent :: "create_wiring \<Rightarrow> poster \<Rightarrow> create_input \<Rightarrow> string \<Rightarrow> target option \<Rightarrow> resolved list create_act" where
  \<comment> \<open>the words, then the mentions\<close>
  "checkContent e u inp vis reply =
     then_act (reject_if (checkProhibitedWords (Regexps e) (Meta e) (trimText (InText inp)) (InCW inp) (poll_choices inp)) ErrContainsProhibitedWords)
     (case resolveMentions (Mentioning e) (accountID u) (reactorHost u) (InVisibleUserIDs inp) vis reply (note_mentions e inp) of
        None \<Rightarrow> stop_with (Err ErrContainsTooManyMentions) | Some rs \<Rightarrow> ret rs)"

section \<open>The row\<close>

definition threadOf :: "target \<Rightarrow> string" where
  "threadOf t = (if ThreadID t \<noteq> None \<and> ThreadID t \<noteq> Some [] then the (ThreadID t) else TargetID t)"

definition recipients :: "poster \<Rightarrow> create_input \<Rightarrow> string option \<Rightarrow> string \<Rightarrow> target option \<Rightarrow> string list" where
  \<comment> \<open>of a direct note, with the author replied to\<close>
  "recipients u inp channel vis reply =
     (let v0 = (if channel = None \<and> vis = NoteVisibilitySpecified then InVisibleUserIDs inp else []) in
      case reply of None \<Rightarrow> v0
      | Some t \<Rightarrow> if vis = NoteVisibilitySpecified \<and> noteUserID t \<noteq> accountID u \<and> noteUserID t \<notin> set v0 then v0 @ [noteUserID t] else v0)"

definition storedMentions :: "create_wiring \<Rightarrow> poster \<Rightarrow> create_input \<Rightarrow> string \<Rightarrow> string list \<Rightarrow> target option \<Rightarrow> resolved list \<Rightarrow> string list" where
  \<comment> \<open>without a user table the names themselves\<close>
  "storedMentions e u inp vis visible reply rs = (if UserTable (Mentioning e) \<noteq> None
     then noteMentionIDs (accountID u) vis visible reply (userIDs rs)
     else if NoExtractMentions inp then []
     else (case trimText (InText inp) of None \<Rightarrow> [] | Some t \<Rightarrow> ExtractMentions (Mentioning e) t))"

definition mentionedRemoteUsers :: "create_wiring \<Rightarrow> string list \<Rightarrow> (string \<times> string option \<times> string \<times> string) list" where
  "mentionedRemoteUsers e ms = (case RemoteRows e of None \<Rightarrow> []
     | Some row \<Rightarrow> concat (map (\<lambda>i. case row i of None \<Rightarrow> [] | Some r \<Rightarrow> [r]) (dedup ms)))"

definition noteTags :: "create_wiring \<Rightarrow> create_input \<Rightarrow> string list" where
  "noteTags e inp = (if NoExtractHashtags inp then [] else NormalizeNoteTags (SearchNorm e) (HashtagsIn e
     (case_option [] (\<lambda>t. [t]) (trimText (InText inp)) @ case_option [] (\<lambda>t. [t]) (InCW inp) @ poll_choices inp)))"

definition noteEmojis :: "create_wiring \<Rightarrow> create_input \<Rightarrow> string list" where
  "noteEmojis e inp = (if NoExtractEmojis inp then []
     else EmojiCodes e (case_option [] id (trimText (InText inp))) (case_option [] id (InCW inp)))"

definition buildNote :: "create_wiring \<Rightarrow> poster \<Rightarrow> create_input \<Rightarrow> string option \<Rightarrow> string \<times> bool \<Rightarrow> target option \<Rightarrow> target option
    \<Rightarrow> resolved list \<Rightarrow> string \<Rightarrow> target" where
  "buildNote e u inp channel vl reply renote rs i =
     (let visible = recipients u inp channel (fst vl) reply;
          mentions = storedMentions e u inp (fst vl) visible reply rs in
      \<lparr>noteUserID = accountID u, noteVisibility = fst vl, noteReplyUserID = map_option noteUserID reply, noteMentions = mentions,
       noteVisibleUserIDs = visible, noteUser = Some (account.truncate u), TargetID = i, TargetUserHost = reactorHost u,
       TargetReplyID = InReplyID inp, TargetRenoteID = InRenoteID inp, TargetChannelID = channel,
       TargetText = trimText (InText inp), TargetCW = InCW inp, TargetFileIDs = InFileIDs inp, TargetHasPoll = False,
       ReactionAcceptance = InReactionAcceptance inp, LocalOnly = snd vl, ThreadID = map_option threadOf reply,
       ReplyUserHost = Option.bind reply TargetUserHost, RenoteUserID = map_option noteUserID renote,
       RenoteUserHost = Option.bind renote TargetUserHost, RenoteChannelID = Option.bind renote TargetChannelID,
       NoteTags = noteTags e inp, NoteEmojis = noteEmojis e inp,
       MentionedRemoteUsers = (if UserTable (Mentioning e) = None \<or> mentions = []
          \<or> allMentionsLocal mentions (localUserIDs rs) reply then [] else mentionedRemoteUsers e mentions),
       RepliesCount = 0, RenoteCount = 0\<rparr>)"

section \<open>Storing it\<close>

definition newPoll :: "poster \<Rightarrow> string \<Rightarrow> poll_input \<Rightarrow> poll" where
  "newPoll u i p = \<lparr>PollNoteID = i, ExpiresAt = InExpiresAt p, Multiple = InMultiple p, Choices = InChoices p,
     Votes = replicate (length (InChoices p)) (Some 0), PollUserID = accountID u, NotifiedAt = None\<rparr>"

definition updateFeaturedOnRenote :: "create_wiring \<Rightarrow> target \<Rightarrow> unit create_act" where
  "updateFeaturedOnRenote e t = bind_act (query Drawn) (\<lambda>n.
     if \<not> RenoteRanking e \<or> \<not> RenoteSampled e n \<or> (case RenoteAge e (TargetID t) of None \<Rightarrow> True | Some age \<Rightarrow> 3 * 24 * 3600 * 1000 \<le> age) then ret ()
     else if TargetChannelID t \<noteq> None \<and> TargetChannelID t \<noteq> Some []
     then perform (TargetReplyID t = None) (emit (RankRenoteInChannel (the (TargetChannelID t)) (TargetID t)))
     else perform (noteVisibility t = NoteVisibilityPublic \<and> TargetUserHost t = None \<and> TargetReplyID t = None)
       (emit (RankRenote (TargetID t) (noteUserID t))))"

definition countReferences :: "create_wiring \<Rightarrow> poster \<Rightarrow> target option \<Rightarrow> target option \<Rightarrow> unit create_act" where
  "countReferences e u reply renote =
     then_act (case reply of None \<Rightarrow> ret () | Some t \<Rightarrow> ignore_error (IncrementReplies (TargetID t) 1))
     (case renote of None \<Rightarrow> ret () | Some t \<Rightarrow>
        perform (noteUserID t \<noteq> accountID u \<and> \<not> IsBot u)
          (then_act (ignore_error (IncrementRenotes (TargetID t) 1)) (updateFeaturedOnRenote e t)))"

definition storePoll :: "poster \<Rightarrow> create_input \<Rightarrow> target \<Rightarrow> target create_act" where
  \<comment> \<open>two more statements, either of which can fail with the note already stored\<close>
  "storePoll u inp t = (case InPoll inp of None \<Rightarrow> ret t
     | Some p \<Rightarrow> if InChoices p = [] then ret t
         else then_act (CreatePoll (newPoll u (TargetID t) p))
           (then_act db (then_act (update_note (TargetID t) (\<lambda>t. t\<lparr>TargetHasPoll := True\<rparr>)) (ret (t\<lparr>TargetHasPoll := True\<rparr>)))))"

section \<open>Telling everybody\<close>

definition stream_viewer :: "string \<Rightarrow> account" where
  "stream_viewer u = \<lparr>accountID = u, accountRequireSignin = False, accountHiddenBefore = None, accountFollowersOnlyBefore = None\<rparr>"

definition pushable :: "create_wiring \<Rightarrow> string \<Rightarrow> target \<Rightarrow> bool" where
  "pushable e u t = canSeeNoteForStream (Some (stream_viewer u)) (Some (note_row.truncate t)) (Follows e)"

definition isThreadMuted :: "create_wiring \<Rightarrow> string \<Rightarrow> target \<Rightarrow> bool" where
  "isThreadMuted e u t = (case ThreadMutes e of None \<Rightarrow> False | Some f \<Rightarrow> f u (threadOf t))"

definition mainTo :: "create_wiring \<Rightarrow> poster \<Rightarrow> target \<Rightarrow> string \<Rightarrow> target option \<Rightarrow> bool \<Rightarrow> unit create_act" where
  \<comment> \<open>to the local author of the note replied to or renoted\<close>
  "mainTo e u t kind ref muted = (case ref of None \<Rightarrow> ret () | Some r \<Rightarrow>
     perform (TargetUserHost r = None \<and> noteUserID r \<noteq> accountID u \<and> pushable e (noteUserID r) t \<and> \<not> muted)
       (emit (MainEvent (noteUserID r) kind (TargetID t))))"

fun mainMentions :: "create_wiring \<Rightarrow> poster \<Rightarrow> target \<Rightarrow> string list \<Rightarrow> unit create_act" where
  "mainMentions e u t [] = ret ()"
| "mainMentions e u t (m # ms) = then_act
     (perform (m \<noteq> accountID u \<and> HostOf e m = Some None \<and> pushable e m t \<and> \<not> isThreadMuted e m t)
        (emit (MainEvent m ''mention'' (TargetID t))))
     (mainMentions e u t ms)"

definition publishNoteMainEvents :: "create_wiring \<Rightarrow> poster \<Rightarrow> target \<Rightarrow> target option \<Rightarrow> target option \<Rightarrow> unit create_act" where
  "publishNoteMainEvents e u t reply renote = perform (''main'' \<in> NoteHooks e)
     (then_act (mainTo e u t ''reply'' reply (case reply of None \<Rightarrow> False | Some r \<Rightarrow> isThreadMuted e (noteUserID r) r))
     (then_act (mainTo e u t ''renote'' renote False)
     (if UserTable (Mentioning e) = None then ret () else mainMentions e u t (noteMentions t))))"

definition runHooks :: "create_wiring \<Rightarrow> poster \<Rightarrow> string option \<Rightarrow> target \<Rightarrow> target option \<Rightarrow> target option \<Rightarrow> unit create_act" where
  "runHooks e u channel t reply renote = (let i = TargetID t in
     then_act (hook e ''fanout'' (FanOut i)) (then_act (hook e ''notification'' (NotifyNote i))
     (then_act (hook e ''federation'' (FederateNote i))
     (then_act (perform (ChannelCheck e \<noteq> None \<and> channel \<noteq> None) (emit (ChannelPosted (the channel) i (accountID u))))
     (then_act (hook e ''antenna'' (AntennaNote i)) (then_act (hook e ''index'' (IndexNote i))
     (then_act (hook e ''chart'' (ChartNote i)) (then_act (hook e ''hashtag'' (HashtagNote i))
     (then_act (hook e ''webhook'' (WebhookNote i))
     (then_act (publishNoteMainEvents e u t reply renote)
     (ignore_error (IncrementNotesCount (accountID u) 1))))))))))))"

section \<open>Create\<close>

definition checkNote :: "create_wiring \<Rightarrow> poster \<Rightarrow> create_input \<Rightarrow> (note_error, target) res option \<Rightarrow> (note_error, target) res option
    \<Rightarrow> ((string \<times> bool) \<times> resolved list) create_act" where
  \<comment> \<open>every guard behind the two lookups, in the order in which errors are reported\<close>
  "checkNote e u inp reply renote = (let channel = effectiveChannel inp (found reply) in
     then_act (checkFileIDs e (accountID u) (InFileIDs inp))
     (bind_act (renoteGate e u inp channel (startVisibility e u inp channel, InLocalOnly inp \<or> channel \<noteq> None) renote) (\<lambda>vl1.
     bind_act (replyGate e u channel vl1 reply) (\<lambda>vl.
     then_act (checkPoll inp) (then_act (checkChannel e inp)
     (bind_act (checkContent e u inp (fst vl) (found reply)) (\<lambda>rs. ret (vl, rs))))))))"

definition storeNote :: "create_wiring \<Rightarrow> poster \<Rightarrow> create_input \<Rightarrow> string \<times> bool \<Rightarrow> resolved list \<Rightarrow> target option \<Rightarrow> target option \<Rightarrow> target create_act" where
  "storeNote e u inp vl rs reply renote = (let channel = effectiveChannel inp reply in
     bind_act (draw (NewNoteID e)) (\<lambda>i. let t = buildNote e u inp channel vl reply renote rs i in
     then_act (InsertNote t)
     (then_act (countReferences e u reply renote)
     (bind_act (storePoll u inp t) (\<lambda>t1.
     bind_act (attempt (FindNote i)) (\<lambda>r. let final = (case r of Val (Some t2) \<Rightarrow> t2 | _ \<Rightarrow> t1) in
     then_act (runHooks e u channel final reply renote) (ret final)))))))"

definition CreateNote :: "create_wiring \<Rightarrow> poster \<Rightarrow> create_input \<Rightarrow> target create_act" where
  "CreateNote e u inp = then_act (reject_if (\<not> hasContent inp) ErrNoteContentRequired)
     (bind_act (loadRef (gate.truncate e) (InReplyID inp)) (\<lambda>reply.
     bind_act (loadRef (gate.truncate e) (InRenoteID inp)) (\<lambda>renote.
     bind_act (checkNote e u inp reply renote) (\<lambda>(vl, rs).
     storeNote e u inp vl rs (found reply) (found renote)))))"

section \<open>Delete\<close>

record delete_wiring =
  DeleteHooks :: "string set"
  AuthorLookup :: bool

definition findOwnNote :: "string \<Rightarrow> bool \<Rightarrow> string \<Rightarrow> target create_act" where
  "findOwnNote actor isModerator i = bind_act (FindNote i) (\<lambda>t. case t of None \<Rightarrow> stop_with (Err ErrNoteNotFound)
     | Some t \<Rightarrow> then_act (reject_if (\<not> isModerator \<and> noteUserID t \<noteq> actor) ErrNoteAccessDenied) (ret t))"

definition removeNote :: "target \<Rightarrow> unit create_act" where
  "removeNote t = then_act (DeleteNote (TargetID t))
     (case TargetReplyID t of None \<Rightarrow> ret () | Some p \<Rightarrow> ignore_error (IncrementReplies p (- 1)))"

definition resolveAuthor :: "delete_wiring \<Rightarrow> string \<Rightarrow> target \<Rightarrow> string create_act" where
  \<comment> \<open>the lookup only fills in the rest of the row\<close>
  "resolveAuthor d actor t = then_act (perform (AuthorLookup d \<and> noteUserID t \<noteq> actor) (ignore_error db)) (ret (noteUserID t))"

definition announceDeletion :: "delete_wiring \<Rightarrow> string \<Rightarrow> bool \<Rightarrow> string \<Rightarrow> target \<Rightarrow> unit create_act" where
  \<comment> \<open>in the author's name, also when a moderator deletes\<close>
  "announceDeletion d actor isModerator author t = (let i = TargetID t; hook = (\<lambda>name x. perform (name \<in> DeleteHooks d) (emit x)) in
     then_act (hook ''federation'' (FederateDelete author i)) (then_act (hook ''index'' (UnindexNote i))
     (then_act (hook ''chart'' (ChartDelete i)) (then_act (hook ''timeline'' (PurgeTimelines i author))
     (then_act (hook ''stream'' (NoteDeleted i)) (then_act (hook ''notification'' (DropNoteNotices i))
     (perform (isModerator \<and> noteUserID t \<noteq> actor) (hook ''moderator'' (ModeratorLog actor i)))))))))"

definition DeleteAs :: "delete_wiring \<Rightarrow> string \<Rightarrow> bool \<Rightarrow> string \<Rightarrow> unit create_act" where
  "DeleteAs d actor isModerator i = bind_act (findOwnNote actor isModerator i) (\<lambda>t.
     bind_act (resolveAuthor d actor t) (\<lambda>author.
     then_act (removeNote t) (announceDeletion d actor isModerator author t)))"

definition DeleteOwn :: "delete_wiring \<Rightarrow> string \<Rightarrow> string \<Rightarrow> unit create_act" where
  "DeleteOwn d u i = DeleteAs d u False i"

end
