(* ===== verification/Note_Claims.thy ===== *)
theory Note_Claims imports Note_Create begin

text \<open>
  Properties of posting and deleting: what a stored note has passed and how wide it is, who is told
  of it, what a refused request leaves behind, and the counters of replies.
\<close>

section \<open>Loading the two targets\<close>

definition beside_notes :: "note_store \<Rightarrow> note_store \<Rightarrow> bool" where
  "beside_notes w w' = (Drawn w' = Drawn w \<and> Now w' = Now w \<and> Polls w' = Polls w \<and> VoteRows w' = VoteRows w
     \<and> UserHosts w' = UserHosts w \<and> PollOutbox w' = PollOutbox w \<and> NotesCount w' = NotesCount w \<and> NoteOutbox w' = NoteOutbox w)"

definition quiet :: "note_store \<Rightarrow> note_store \<Rightarrow> bool" where
  \<comment> \<open>statements have run, nothing has changed\<close>
  "quiet w w' = (beside_notes w w' \<and> Targets w' = Targets w)"

definition promotes :: "gate \<Rightarrow> string \<Rightarrow> target \<Rightarrow> bool" where
  "promotes g i t = (case Promoter g of None \<Rightarrow> False | Some ensure \<Rightarrow> ensure i = Some t)"

definition grown :: "gate \<Rightarrow> note_store \<Rightarrow> note_store \<Rightarrow> bool" where
  \<comment> \<open>notes may have been promoted\<close>
  "grown g w w' = (beside_notes w w' \<and> (\<forall>i. Targets w' i = Targets w i
     \<or> (Targets w i = None \<and> (\<exists>t. Targets w' i = Some t \<and> promotes g i t))))"

lemma beside_notes_refl [simp]: "beside_notes w w"
  by (simp add: beside_notes_def)

lemma quiet_refl [simp]: "quiet w w"
  by (simp add: quiet_def)

lemma quiet_failing [simp]: "quiet w (w\<lparr>Failing := fs\<rparr>)"
  by (simp add: quiet_def beside_notes_def)

lemma quiet_trans [trans]: "quiet u v \<Longrightarrow> quiet v w \<Longrightarrow> quiet u w"
  by (simp add: quiet_def beside_notes_def)

lemma grown_trans [trans]: "grown g u v \<Longrightarrow> grown g v w \<Longrightarrow> grown g u w"
  by (auto simp: grown_def beside_notes_def) (metis option.distinct(1))+

lemma quiet_grown: "quiet u v \<Longrightarrow> grown g u v"
  by (simp add: quiet_def grown_def)

interpretation loading: transition "grown g" for g
  by unfold_locales (auto intro: grown_trans quiet_grown)

interpretation reading: transition quiet
  by unfold_locales (auto intro: quiet_trans)

lemma quiet_db: "moves quiet db"
  by (auto simp: moves_def db_def split: list.splits)

lemma grown_db: "moves (grown g) db"
  using quiet_db quiet_grown by (simp add: moves_def)

lemma grown_FindNote: "moves (grown g) (FindNote i)"
  unfolding FindNote_def read_row_def by (intro loading.moves_rules grown_db)

lemma promoted_grown: "Targets w i = None \<Longrightarrow> promotes g i t \<Longrightarrow> grown g w (w\<lparr>Targets := (Targets w)(i \<mapsto> t)\<rparr>)"
  by (auto simp: grown_def beside_notes_def)

lemma FindNote_result:
  "wp (FindNote i) (\<lambda>t w'. quiet w w' \<and> t = (if Storable i then Targets w i else None)) (\<lambda>x w'. quiet w w' \<and> (\<exists>e. x = Err e)) w"
  by (auto simp: FindNote_def read_row_def quiet_def beside_notes_def split: list.splits)

definition missing_or_down :: "note_error stop \<Rightarrow> bool" where
  "missing_or_down x = (x = Err ErrNoteNotFound \<or> x = Err ErrDatabase)"

lemma loadTarget_result:
  assumes "promotes_itself g"
  shows "wp (loadTarget g i) (\<lambda>t w'. grown g w w' \<and> Targets w' i = Some t) (\<lambda>x w'. grown g w w' \<and> missing_or_down x) w"
proof -
  have "Storable i" if "Promoter g = Some f" "f i = Some t" for f t
    using assms that by (simp add: promotes_itself_def)
  then show ?thesis
    by (cases "Targets w i"; cases "Promoter g")
      (auto simp: loadTarget_def FindNote_def read_row_def materializeIfMissing_def missing_or_down_def grown_def beside_notes_def
        promotes_def split: list.splits option.splits)
qed

definition referenced :: "gate \<Rightarrow> note_store \<Rightarrow> string option \<Rightarrow> target option \<Rightarrow> bool" where
  \<comment> \<open>the note the request names, as it was before the request\<close>
  "referenced g w i t = (case i of None \<Rightarrow> t = None
     | Some i \<Rightarrow> (\<exists>x. t = Some x \<and> (Targets w i = Some x \<or> (Targets w i = None \<and> promotes g i x))))"

definition loaded :: "gate \<Rightarrow> note_store \<Rightarrow> string option \<Rightarrow> (note_error, target) res option \<Rightarrow> bool" where
  "loaded g w i r = (case r of None \<Rightarrow> i = None
     | Some (Val t) \<Rightarrow> i \<noteq> None \<and> referenced g w i (Some t) | Some (Stop x) \<Rightarrow> i \<noteq> None \<and> missing_or_down x)"

lemma grownD: "grown g w w' \<Longrightarrow> Targets w' i = Some t \<Longrightarrow> Targets w i = Some t \<or> (Targets w i = None \<and> promotes g i t)"
  unfolding grown_def by (metis option.inject)

lemma grownN: "grown g w w' \<Longrightarrow> Targets w' i = None \<Longrightarrow> Targets w i = None"
  unfolding grown_def by metis

lemma loadRef_result:
  assumes "promotes_itself g"
  shows "wp (loadRef g i) (\<lambda>r w'. grown g w w' \<and> loaded g w i r) (\<lambda>_ _. False) w"
proof (cases i)
  case (Some j)
  have "wp (bind_act (attempt (loadTarget g j)) (\<lambda>r. ret (Some r))) (\<lambda>r w'. grown g w w' \<and> loaded g w i r) (\<lambda>_ _. False) w"
    unfolding wp_bind wp_attempt wp_ret
    by (rule wp_mono [OF loadTarget_result [OF assms]])
      (auto simp: Some loaded_def referenced_def missing_or_down_def dest: grownD split: stop.splits)
  then show ?thesis using Some by (simp add: loadRef_def)
qed (simp add: loadRef_def loaded_def loading.refl_R)

lemma referenced_grown: "grown g w v \<Longrightarrow> referenced g v i t \<Longrightarrow> referenced g w i t"
  by (auto simp: referenced_def dest: grownD grownN split: option.splits)

lemma loaded_grown: "grown g w v \<Longrightarrow> loaded g v i r \<Longrightarrow> loaded g w i r"
  by (auto simp: loaded_def dest: referenced_grown split: option.splits res.splits)

lemma found_loaded: "loaded g w i r \<Longrightarrow> (\<forall>x. r \<noteq> Some (Stop x)) \<Longrightarrow> referenced g w i (found r)"
  by (auto simp: loaded_def found_def referenced_def split: option.splits res.splits)


section \<open>The guards\<close>

definition renote_allowed :: "create_wiring \<Rightarrow> poster \<Rightarrow> create_input \<Rightarrow> target \<Rightarrow> bool" where
  "renote_allowed e u inp t = (open_to (gate.truncate e) (reactor.truncate u) t \<and> \<not> IsPureRenote t
     \<and> noteVisibility t \<noteq> NoteVisibilitySpecified \<and> (noteVisibility t = NoteVisibilityFollowers \<longrightarrow> noteUserID t = accountID u)
     \<and> (case TargetChannelID t of None \<Rightarrow> True | Some c \<Rightarrow> Some c = normalizeChannelID (InChannelID inp)
        \<or> (case ChannelAllowsRenote e of None \<Rightarrow> True | Some f \<Rightarrow> f c \<noteq> Some False)))"

definition reply_allowed :: "create_wiring \<Rightarrow> poster \<Rightarrow> string \<Rightarrow> target \<Rightarrow> bool" where
  \<comment> \<open>a direct note is answered by a direct note\<close>
  "reply_allowed e u vis t = (open_to (gate.truncate e) (reactor.truncate u) t \<and> \<not> IsPureRenote t
     \<and> (noteVisibility t = NoteVisibilitySpecified \<longrightarrow> vis = NoteVisibilitySpecified))"

definition own_files :: "create_wiring \<Rightarrow> poster \<Rightarrow> string list \<Rightarrow> bool" where
  "own_files e u ids = (case DriveFiles e of None \<Rightarrow> True | Some owner \<Rightarrow> \<forall>i \<in> set ids. owner i = Some (Some (accountID u)))"

definition channel_exists :: "create_wiring \<Rightarrow> create_input \<Rightarrow> bool" where
  "channel_exists e inp = (case normalizeChannelID (InChannelID inp) of None \<Rightarrow> True
     | Some c \<Rightarrow> (case ChannelCheck e of None \<Rightarrow> True | Some f \<Rightarrow> f c = Inr True))"

definition poll_open :: "create_input \<Rightarrow> int \<Rightarrow> bool" where
  "poll_open inp now = (case InPoll inp of None \<Rightarrow> True | Some p \<Rightarrow> (case InExpiresAt p of None \<Rightarrow> True | Some x \<Rightarrow> now \<le> x))"

lemma renoteGate_result:
  "wp (renoteGate e u inp channel vl renote)
     (\<lambda>vl' w'. w' = w \<and> (case renote of None \<Rightarrow> vl' = vl
        | Some r \<Rightarrow> \<exists>t. r = Val t \<and> renote_allowed e u inp t
            \<and> vl' = (narrowForRenote (noteVisibility t) (fst vl), snd vl \<or> LocalOnly t \<and> channel = None)))
     (\<lambda>_ w'. w' = w) w"
  by (auto simp: renoteGate_def report_def renote_allowed_def open_to_def wp_checkAuthorBlocks checkRenoteOutsideOfChannel_def
      sameChannel_def split: option.splits res.splits stop.splits note_error.splits)

lemma replyGate_result:
  "wp (replyGate e u channel vl reply)
     (\<lambda>vl' w'. w' = w \<and> (case reply of None \<Rightarrow> vl' = vl
        | Some r \<Rightarrow> \<exists>t. r = Val t \<and> reply_allowed e u (fst vl) t
            \<and> vl' = (ClampVisibilityForReply (noteVisibility t) (fst vl), snd vl \<or> LocalOnly t \<and> channel = None)))
     (\<lambda>_ w'. w' = w) w"
  by (auto simp: replyGate_def report_def reply_allowed_def open_to_def wp_checkAuthorBlocks
      split: option.splits res.splits stop.splits note_error.splits)

lemma checkFileIDs_result:
  "wp (checkFileIDs e u ids) (\<lambda>_ w'. quiet w w' \<and> (case DriveFiles e of None \<Rightarrow> True | Some owner \<Rightarrow> \<forall>i \<in> set ids. owner i = Some (Some u)))
     (\<lambda>_ w'. quiet w w') w"
  by (auto simp: checkFileIDs_def split: option.splits list.splits)

lemma checkChannel_result: "wp (checkChannel e inp) (\<lambda>_ w'. w' = w \<and> channel_exists e inp) (\<lambda>_ w'. w' = w) w"
  by (auto simp: checkChannel_def channel_exists_def split: option.splits sum.splits)

lemma checkPoll_result: "wp (checkPoll inp) (\<lambda>_ w'. w' = w \<and> poll_open inp (Now w)) (\<lambda>_ w'. w' = w) w"
  by (auto simp: checkPoll_def poll_open_def split: option.splits)

definition content_allowed :: "create_wiring \<Rightarrow> poster \<Rightarrow> create_input \<Rightarrow> string \<Rightarrow> target option \<Rightarrow> resolved list \<Rightarrow> bool" where
  "content_allowed e u inp vis reply rs =
     (\<not> checkProhibitedWords (Regexps e) (Meta e) (trimText (InText inp)) (InCW inp) (poll_choices inp)
      \<and> resolveMentions (Mentioning e) (accountID u) (reactorHost u) (InVisibleUserIDs inp) vis reply (note_mentions e inp) = Some rs)"

lemma checkContent_result:
  "wp (checkContent e u inp vis reply) (\<lambda>rs w'. w' = w \<and> content_allowed e u inp vis reply rs) (\<lambda>_ w'. w' = w) w"
  by (auto simp: checkContent_def content_allowed_def split: option.splits)

definition finalVisibility :: "create_wiring \<Rightarrow> poster \<Rightarrow> create_input \<Rightarrow> target option \<Rightarrow> target option \<Rightarrow> string" where
  "finalVisibility e u inp reply renote =
     (let v0 = startVisibility e u inp (effectiveChannel inp reply);
          v1 = (case renote of None \<Rightarrow> v0 | Some t \<Rightarrow> narrowForRenote (noteVisibility t) v0) in
      case reply of None \<Rightarrow> v1 | Some t \<Rightarrow> ClampVisibilityForReply (noteVisibility t) v1)"

definition finalLocalOnly :: "create_input \<Rightarrow> target option \<Rightarrow> target option \<Rightarrow> bool" where
  "finalLocalOnly inp reply renote = (InLocalOnly inp \<or> effectiveChannel inp reply \<noteq> None
     \<or> (\<exists>t \<in> set_option reply \<union> set_option renote. LocalOnly t))"

definition passed :: "create_wiring \<Rightarrow> poster \<Rightarrow> create_input \<Rightarrow> int \<Rightarrow> target option \<Rightarrow> target option \<Rightarrow> resolved list \<Rightarrow> bool" where
  \<comment> \<open>every guard, over the two notes\<close>
  "passed e u inp now reply renote rs =
     (hasContent inp \<and> own_files e u (InFileIDs inp) \<and> poll_open inp now \<and> channel_exists e inp
      \<and> (\<forall>t \<in> set_option renote. renote_allowed e u inp t)
      \<and> (\<forall>t \<in> set_option reply. reply_allowed e u (let v = startVisibility e u inp (effectiveChannel inp reply) in
           case renote of None \<Rightarrow> v | Some r \<Rightarrow> narrowForRenote (noteVisibility r) v) t)
      \<and> content_allowed e u inp (finalVisibility e u inp reply renote) reply rs)"

lemma found_simps [simp]: "found None = None" "found (Some (Val t)) = Some t"
  by (simp_all add: found_def)

lemma checkNote_result:
  assumes "hasContent inp"
  shows "wp (checkNote e u inp reply renote)
     (\<lambda>(vl, rs) w'. quiet w w' \<and> (\<forall>x. reply \<noteq> Some (Stop x)) \<and> (\<forall>x. renote \<noteq> Some (Stop x))
        \<and> vl = (finalVisibility e u inp (found reply) (found renote), finalLocalOnly inp (found reply) (found renote))
        \<and> passed e u inp (Now w) (found reply) (found renote) rs)
     (\<lambda>_ w'. quiet w w') w"
proof -
  let ?c = "effectiveChannel inp (found reply)" and ?v = "startVisibility e u inp (effectiveChannel inp (found reply))"
  have content: "wp (bind_act (checkContent e u inp vis rep) (\<lambda>rs. ret (vl, rs)))
      (\<lambda>(vl', rs) w'. w' = v \<and> vl' = vl \<and> content_allowed e u inp vis rep rs) (\<lambda>_ w'. w' = v) v" for vis rep vl v
    unfolding wp_bind wp_ret by (rule wp_mono [OF checkContent_result]) auto
  have tail: "wp (then_act (checkPoll inp) (then_act (checkChannel e inp) (bind_act (checkContent e u inp vis rep) (\<lambda>rs. ret (vl, rs)))))
      (\<lambda>(vl', rs) w'. w' = v \<and> vl' = vl \<and> content_allowed e u inp vis rep rs \<and> poll_open inp (Now v) \<and> channel_exists e inp)
      (\<lambda>_ w'. w' = v) v" for vis rep vl v
    unfolding wp_then
    by (rule wp_mono [OF checkPoll_result], elim conjE, hypsubst, rule wp_mono [OF checkChannel_result], elim conjE, hypsubst,
        rule wp_mono [OF content]) auto
  have gates: "wp (bind_act (renoteGate e u inp ?c (?v, InLocalOnly inp \<or> ?c \<noteq> None) renote) (\<lambda>vl1.
      bind_act (replyGate e u ?c vl1 reply) (\<lambda>vl. then_act (checkPoll inp) (then_act (checkChannel e inp)
        (bind_act (checkContent e u inp (fst vl) (found reply)) (\<lambda>rs. ret (vl, rs)))))))
      (\<lambda>(vl, rs) w'. w' = v \<and> (\<forall>x. reply \<noteq> Some (Stop x)) \<and> (\<forall>x. renote \<noteq> Some (Stop x))
        \<and> vl = (finalVisibility e u inp (found reply) (found renote), finalLocalOnly inp (found reply) (found renote))
        \<and> (own_files e u (InFileIDs inp) \<longrightarrow> passed e u inp (Now v) (found reply) (found renote) rs))
      (\<lambda>_ w'. w' = v) v" for v
    unfolding wp_bind [of "renoteGate e u inp ?c (?v, InLocalOnly inp \<or> ?c \<noteq> None) renote"] wp_bind [of "replyGate e u ?c vl1 reply" for vl1]
  proof (rule wp_mono [OF renoteGate_result], goal_cases)
    case (1 vl1 v1)
    then have v1: "v1 = v" by simp
    show ?case unfolding v1
    proof (rule wp_mono [OF replyGate_result], goal_cases)
      case (1 vl v2)
      then have v2: "v2 = v" by simp
      show ?case unfolding v2
        by (rule wp_mono [OF tail]) (use 1 \<open>v1 = v \<and> _\<close> assms in \<open>auto simp: passed_def finalVisibility_def finalLocalOnly_def Let_def
          split: option.splits prod.splits\<close>)
    qed simp
  qed simp
  show ?thesis unfolding checkNote_def Let_def wp_then [of "checkFileIDs e (accountID u) (InFileIDs inp)"]
  proof (rule wp_mono [OF checkFileIDs_result], goal_cases)
    case (1 _ v)
    then have "Now v = Now w" "own_files e u (InFileIDs inp)" by (simp_all add: quiet_def beside_notes_def own_files_def)
    then show ?case by (intro wp_mono [OF gates]) (use 1 in auto)
  qed simp
qed


section \<open>Storing\<close>

definition same_note :: "target \<Rightarrow> target \<Rightarrow> bool" where
  \<comment> \<open>but for the counters and the poll flag\<close>
  "same_note x y = (x\<lparr>TargetHasPoll := False, RepliesCount := 0, RenoteCount := 0\<rparr>
     = y\<lparr>TargetHasPoll := False, RepliesCount := 0, RenoteCount := 0\<rparr>)"

definition same_notes :: "note_store \<Rightarrow> note_store \<Rightarrow> bool" where
  "same_notes v w = (\<forall>i. rel_option same_note (Targets v i) (Targets w i))"

lemma same_note_refl [simp]: "same_note x x"
  by (simp add: same_note_def)

lemma same_note_updates [simp]:
  "same_note x (x\<lparr>TargetHasPoll := b\<rparr>)" "same_note x (x\<lparr>RepliesCount := n\<rparr>)" "same_note x (x\<lparr>RenoteCount := n\<rparr>)"
  by (simp_all add: same_note_def)

lemma same_note_trans: "same_note x y \<Longrightarrow> same_note y z \<Longrightarrow> same_note x z"
  by (simp add: same_note_def)

interpretation keeping: transition same_notes
proof unfold_locales
  fix v w x
  show "same_notes v v" by (simp add: same_notes_def option.rel_refl)
  show "same_notes v x" if "same_notes v w" "same_notes w x"
    using that unfolding same_notes_def by (metis (full_types) option.rel_transp same_note_trans transpE transpI)
qed

lemma same_notes_beside [simp]: "Targets w' = Targets w \<Longrightarrow> same_notes w w'"
  by (simp add: same_notes_def option.rel_refl)

lemma keeps_update: "(\<And>t. same_note t (f t)) \<Longrightarrow> always same_notes (update_note i f)"
  unfolding update_note_def
  by (rule keeping.always_change) (auto simp: same_notes_def option.rel_map option.rel_refl)

lemma keeps_emit: "always same_notes (emit x)"
  unfolding emit_def by (rule keeping.always_change) simp

lemma keeps_perform: "always same_notes m \<Longrightarrow> always same_notes (perform b m)"
  by (simp add: perform_def keeping.always_ret)

lemma keeps_hook: "always same_notes (hook e name x)"
  by (simp add: hook_def keeps_perform keeps_emit)

lemma keeps_db: "wp db (\<lambda>_. same_notes w) (\<lambda>x w'. same_notes w w' \<and> x = Err ErrDatabase) w"
  by (auto split: list.splits)

lemma keeps_counter:
  assumes "\<And>t. same_note t (f t)"
  shows "always same_notes (ignore_error (then_act db (bind_act (query p) (\<lambda>bad. then_act (reject_if bad ErrDatabase) (update_note i f)))))"
  unfolding always_def wp_ignore_error wp_then [of db]
proof (intro allI wp_mono [OF keeps_db])
  fix w v
  assume v: "same_notes w v"
  have "wp (update_note i f) (\<lambda>_. same_notes w) (\<lambda>_ _. False) v"
    by (rule wp_mono [OF always_wp [OF keeps_update [OF assms]]]) (auto intro: keeping.trans_R [OF v])
  then show "wp (bind_act (query p) (\<lambda>bad. then_act (reject_if bad ErrDatabase) (update_note i f)))
     (\<lambda>_. same_notes w) (\<lambda>e w'. case e of Err _ \<Rightarrow> same_notes w w' | _ \<Rightarrow> False) v"
    using v by (auto elim!: wp_mono)
qed auto

lemma keeps_counts:
  "always same_notes (ignore_error (IncrementReplies i d))" "always same_notes (ignore_error (IncrementRenotes i d))"
  unfolding IncrementReplies_def IncrementRenotes_def by (rule keeps_counter, simp)+

lemma keeps_notes_count: "always same_notes (ignore_error (IncrementNotesCount u d))"
  by (auto simp: always_def IncrementNotesCount_def split: list.splits)

lemma keeps_ranking: "always same_notes (updateFeaturedOnRenote e t)"
  unfolding updateFeaturedOnRenote_def by (intro keeping.always_rules keeps_perform keeps_emit)

lemma keeps_countReferences: "always same_notes (countReferences e u reply renote)"
  unfolding countReferences_def by (intro keeping.always_rules keeps_perform keeps_counts keeps_ranking)

lemma keeps_mainMentions: "always same_notes (mainMentions e u t ms)"
  by (induction ms) (auto intro!: keeping.always_rules keeps_perform keeps_emit)

lemma keeps_runHooks: "always same_notes (runHooks e u c t reply renote)"
  unfolding runHooks_def publishNoteMainEvents_def mainTo_def Let_def
  by (intro keeping.always_rules keeps_perform keeps_hook keeps_emit keeps_mainMentions keeps_notes_count)

lemma keeps_CreatePoll: "wp (CreatePoll p) (\<lambda>_. same_notes w) (\<lambda>_. same_notes w) w"
  by (auto simp: CreatePoll_def split: list.splits)

lemma keeps_storePoll:
  "wp (storePoll u inp t) (\<lambda>t' w'. same_notes w w' \<and> same_note t t') (\<lambda>_ w'. same_notes w w' \<and> poll_choices inp \<noteq> []) w"
proof -
  have "wp (then_act db (then_act (update_note (TargetID t) (\<lambda>t. t\<lparr>TargetHasPoll := True\<rparr>)) (ret (t\<lparr>TargetHasPoll := True\<rparr>))))
      (\<lambda>t' w'. same_notes w w' \<and> same_note t t') (\<lambda>_. same_notes w) v" if v: "same_notes w v" for v
  proof -
    have flag: "wp (update_note (TargetID t) (\<lambda>t. t\<lparr>TargetHasPoll := True\<rparr>)) (\<lambda>_. same_notes w) (\<lambda>_ _. False) x" if "same_notes w x" for x
      by (rule wp_mono [OF always_wp [OF keeps_update]]) (auto intro: keeping.trans_R [OF that])
    show ?thesis unfolding wp_then [of db]
      by (rule wp_mono [OF keeps_db]) (auto intro!: wp_mono [OF flag] intro: keeping.trans_R [OF v])
  qed
  then have "wp (then_act (CreatePoll (newPoll u (TargetID t) p)) (then_act db (then_act (update_note (TargetID t) (\<lambda>t. t\<lparr>TargetHasPoll := True\<rparr>)) (ret (t\<lparr>TargetHasPoll := True\<rparr>)))))
      (\<lambda>t' w'. same_notes w w' \<and> same_note t t') (\<lambda>_. same_notes w) w" for p
    unfolding wp_then [of "CreatePoll (newPoll u (TargetID t) p)"] by (intro wp_mono [OF keeps_CreatePoll])
  then show ?thesis
    by (auto simp: storePoll_def poll_choices_def keeping.refl_R simp del: wp_then split: option.splits elim!: wp_mono)
qed


definition stored :: "target \<Rightarrow> note_store \<Rightarrow> note_store \<Rightarrow> bool" where
  \<comment> \<open>the row is new, and no other row has changed but for its counters\<close>
  "stored b w w' = (Targets w (TargetID b) = None \<and> row_fits b \<and> same_notes (w\<lparr>Targets := (Targets w)(TargetID b \<mapsto> b)\<rparr>) w')"

lemma stored_keeps: "stored b w v \<Longrightarrow> same_notes v w' \<Longrightarrow> stored b w w'"
  unfolding stored_def by (blast intro: keeping.trans_R)

lemma stored_row: "stored b w w' \<Longrightarrow> \<exists>y. Targets w' (TargetID b) = Some y \<and> same_note b y"
  by (auto simp: stored_def same_notes_def option_rel_Some1 dest!: spec [of _ "TargetID b"])

lemma InsertNote_result:
  "wp (InsertNote b) (\<lambda>_ w'. stored b w w') (\<lambda>_. quiet w) w"
  by (auto simp: InsertNote_def stored_def same_notes_def option.rel_refl split: list.splits)

definition idle :: "note_store \<Rightarrow> note_store \<Rightarrow> bool" where
  \<comment> \<open>at most an id has been drawn\<close>
  "idle w w' = (Targets w' = Targets w \<and> Polls w' = Polls w \<and> VoteRows w' = VoteRows w
     \<and> NotesCount w' = NotesCount w \<and> NoteOutbox w' = NoteOutbox w)"

lemma quiet_idle: "quiet w w' \<Longrightarrow> idle w w'" "quiet (w\<lparr>Drawn := n\<rparr>) w' \<Longrightarrow> idle w w'"
  by (simp_all add: quiet_def beside_notes_def idle_def)

definition the_note :: "create_wiring \<Rightarrow> poster \<Rightarrow> create_input \<Rightarrow> target option \<Rightarrow> target option \<Rightarrow> resolved list \<Rightarrow> string \<Rightarrow> target" where
  "the_note e u inp reply renote rs i = buildNote e u inp (effectiveChannel inp reply)
     (finalVisibility e u inp reply renote, finalLocalOnly inp reply renote) reply renote rs i"

lemma TargetID_build [simp]: "TargetID (buildNote e u inp channel vl reply renote rs i) = i"
  by (simp add: buildNote_def Let_def)

lemma storeNote_result:
  fixes w :: note_store and e u inp vl reply renote rs
  defines "b \<equiv> buildNote e u inp (effectiveChannel inp reply) vl reply renote rs (NewNoteID e (Drawn w))"
  shows "wp (storeNote e u inp vl rs reply renote) (\<lambda>t w'. stored b w w' \<and> same_note b t)
     (\<lambda>_ w'. idle w w' \<or> (stored b w w' \<and> poll_choices inp \<noteq> [])) w"
proof -
  let ?c = "effectiveChannel inp reply" and ?i = "NewNoteID e (Drawn w)"
  have id: "TargetID b = ?i" by (simp add: b_def)
  have hooks: "wp (then_act (runHooks e u ?c t reply renote) (ret t)) (\<lambda>t' w'. stored b w w' \<and> t' = t) (\<lambda>_ _. False) v"
    if "stored b w v" for v t
    unfolding wp_then by (rule wp_mono [OF always_wp [OF keeps_runHooks]]) (auto intro: stored_keeps [OF that])
  have reload: "wp (bind_act (attempt (FindNote ?i)) (\<lambda>r. let final = (case r of Val (Some t2) \<Rightarrow> t2 | _ \<Rightarrow> t1) in
      then_act (runHooks e u ?c final reply renote) (ret final))) (\<lambda>t w'. stored b w w' \<and> same_note b t) (\<lambda>_ _. False) v"
    if v: "stored b w v" and t1: "same_note b t1" for v t1
  proof -
    obtain y where y: "Targets v ?i = Some y" "same_note b y" using stored_row [OF v] by (auto simp: id)
    have row: "t2 = y" if "quiet v v'" "Targets v' ?i = Some t2" for v' t2 using that y(1) by (simp add: quiet_def)
    have q: "stored b w v'" if "quiet v v'" for v' using that v by (auto intro: stored_keeps simp: quiet_def)
    show ?thesis unfolding wp_bind wp_attempt Let_def
      by (rule wp_mono [OF FindNote_result]) (use y t1 in \<open>auto intro!: wp_mono [OF hooks] q simp del: wp_then split: option.splits\<close>)
  qed
  have poll: "wp (bind_act (storePoll u inp b) (\<lambda>t1. bind_act (attempt (FindNote ?i)) (\<lambda>r.
      let final = (case r of Val (Some t2) \<Rightarrow> t2 | _ \<Rightarrow> t1) in then_act (runHooks e u ?c final reply renote) (ret final))))
      (\<lambda>t w'. stored b w w' \<and> same_note b t) (\<lambda>_ w'. stored b w w' \<and> poll_choices inp \<noteq> []) v" if v: "stored b w v" for v
    unfolding wp_bind [of "storePoll u inp b"]
    by (rule wp_mono [OF keeps_storePoll]) (auto intro!: wp_mono [OF reload] stored_keeps [OF v] simp del: wp_bind)
  have rest: "wp (then_act (countReferences e u reply renote) (bind_act (storePoll u inp b) (\<lambda>t1. bind_act (attempt (FindNote ?i)) (\<lambda>r.
      let final = (case r of Val (Some t2) \<Rightarrow> t2 | _ \<Rightarrow> t1) in then_act (runHooks e u ?c final reply renote) (ret final)))))
      (\<lambda>t w'. stored b w w' \<and> same_note b t) (\<lambda>_ w'. stored b w w' \<and> poll_choices inp \<noteq> []) v" if v: "stored b w v" for v
    unfolding wp_then [of "countReferences e u reply renote"]
    by (rule wp_mono [OF always_wp [OF keeps_countReferences]]) (auto intro!: poll stored_keeps [OF v] simp del: wp_bind)
  let ?w = "w\<lparr>Drawn := Suc (Drawn w)\<rparr>"
  have same: "stored b ?w v = stored b w v" for v by (simp add: stored_def same_notes_def)
  have "wp (InsertNote b) (\<lambda>_ w'. stored b w w') (\<lambda>_. idle w) ?w"
    using InsertNote_result [of b ?w] by (auto simp: same elim!: wp_mono intro: quiet_idle)
  then have "wp (then_act (InsertNote b) (then_act (countReferences e u reply renote) (bind_act (storePoll u inp b) (\<lambda>t1. bind_act (attempt (FindNote ?i)) (\<lambda>r.
      let final = (case r of Val (Some t2) \<Rightarrow> t2 | _ \<Rightarrow> t1) in then_act (runHooks e u ?c final reply renote) (ret final))))))
      (\<lambda>t w'. stored b w w' \<and> same_note b t) (\<lambda>_ w'. idle w w' \<or> (stored b w w' \<and> poll_choices inp \<noteq> [])) ?w"
    unfolding wp_then [of "InsertNote b"] by (rule wp_mono) (auto elim!: wp_mono intro!: wp_mono [OF rest] simp del: wp_bind wp_then)
  then show ?thesis unfolding storeNote_def Let_def wp_bind [of "draw (NewNoteID e)"] wp_draw b_def by (simp only: Let_def)
qed


definition created :: "create_wiring \<Rightarrow> poster \<Rightarrow> create_input \<Rightarrow> note_store \<Rightarrow> target \<Rightarrow> note_store \<Rightarrow> bool" where
  "created e u inp w t w' = (\<exists>reply renote rs i v. referenced (gate.truncate e) w (InReplyID inp) reply
     \<and> referenced (gate.truncate e) w (InRenoteID inp) renote \<and> passed e u inp (Now w) reply renote rs \<and> grown (gate.truncate e) w v
     \<and> stored (the_note e u inp reply renote rs i) v w' \<and> same_note (the_note e u inp reply renote rs i) t)"

definition refused :: "create_wiring \<Rightarrow> create_input \<Rightarrow> note_store \<Rightarrow> note_store \<Rightarrow> bool" where
  \<comment> \<open>nothing is left but what was promoted, or the poll of a stored note failed\<close>
  "refused e inp w w' = (\<exists>v. grown (gate.truncate e) w v
     \<and> (idle v w' \<or> (poll_choices inp \<noteq> [] \<and> (\<exists>b. stored b v w'))))"

lemma CreateNote_result:
  assumes p: "promotes_itself (gate.truncate e)"
  shows "wp (CreateNote e u inp) (created e u inp w) (\<lambda>_. refused e inp w) w"
proof -
  let ?g = "gate.truncate e" let ?Q = "created e u inp w" let ?E = "\<lambda>_. refused e inp w"
  have store: "wp (storeNote e u inp vl rs (found reply) (found renote)) ?Q ?E v"
    if v: "grown ?g w v" and l: "loaded ?g w (InReplyID inp) reply" "loaded ?g w (InRenoteID inp) renote"
      "\<forall>x. reply \<noteq> Some (Stop x)" "\<forall>x. renote \<noteq> Some (Stop x)"
      and ok: "vl = (finalVisibility e u inp (found reply) (found renote), finalLocalOnly inp (found reply) (found renote))"
        "passed e u inp (Now w) (found reply) (found renote) rs" for v vl rs reply renote
  proof (rule wp_mono [OF storeNote_result], goal_cases)
    case (1 t w')
    show ?case unfolding created_def
      by (rule exI [of _ "found reply"], rule exI [of _ "found renote"], rule exI [of _ rs], rule exI [of _ "NewNoteID e (Drawn v)"],
          rule exI [of _ v]) (use 1 v l ok in \<open>simp add: found_loaded the_note_def\<close>)
  qed (use v in \<open>auto simp: refused_def\<close>)
  have stay: "?E x v" if "grown ?g w v" for x v using that by (auto simp: refused_def idle_def)
  have check: "wp (bind_act (checkNote e u inp reply renote) (\<lambda>(vl, rs). storeNote e u inp vl rs (found reply) (found renote))) ?Q ?E v"
    if v: "grown ?g w v" and l: "loaded ?g w (InReplyID inp) reply" "loaded ?g w (InRenoteID inp) renote" and c: "hasContent inp" for v reply renote
  proof -
    have n: "Now v = Now w" using v by (simp add: grown_def beside_notes_def)
    show ?thesis unfolding wp_bind
    proof (rule wp_mono [OF checkNote_result [OF c]], goal_cases)
      case (1 a v')
      obtain vl rs where a: "a = (vl, rs)" by fastforce
      have "grown ?g w v'" using 1 by (auto simp: a intro: grown_trans [OF v] quiet_grown)
      then show ?case unfolding a split_conv by (rule store) (use 1 l n in \<open>simp_all add: a\<close>)
    qed (auto intro: stay grown_trans [OF v] quiet_grown)
  qed
  have second: "wp (bind_act (loadRef ?g (InRenoteID inp)) (\<lambda>renote. bind_act (checkNote e u inp reply renote)
      (\<lambda>(vl, rs). storeNote e u inp vl rs (found reply) (found renote)))) ?Q ?E v"
    if v: "grown ?g w v" and l: "loaded ?g w (InReplyID inp) reply" and c: "hasContent inp" for v reply
    unfolding wp_bind [of "loadRef ?g (InRenoteID inp)"]
    by (rule wp_mono [OF loadRef_result [OF p]]) (auto intro!: check c l intro: grown_trans [OF v] loaded_grown [OF v] simp del: wp_bind)
  have "wp (bind_act (loadRef ?g (InReplyID inp)) (\<lambda>reply. bind_act (loadRef ?g (InRenoteID inp)) (\<lambda>renote.
      bind_act (checkNote e u inp reply renote) (\<lambda>(vl, rs). storeNote e u inp vl rs (found reply) (found renote))))) ?Q ?E w"
    if c: "hasContent inp"
    unfolding wp_bind [of "loadRef ?g (InReplyID inp)"]
    by (rule wp_mono [OF loadRef_result [OF p]]) (auto intro!: second c simp del: wp_bind)
  moreover have "?E x w" for x by (rule stay) (rule loading.refl_R)
  ultimately show ?thesis unfolding CreateNote_def wp_then wp_reject_if by simp
qed

text \<open>C2. A note is stored only when the request has passed every guard, over the notes it names as they are in the
  database: the author of neither blocks the poster, the poster may read both, neither is a pure renote, nothing
  direct and nobody else's followers-only note is renoted, a direct note is answered by a direct note, the files are
  the poster's, the channel exists, no prohibited word occurs, the mentions are within the limit; and what is
  returned and stored is the row built from them.\<close>

theorem CreateNote_allowed:
  assumes "promotes_itself (gate.truncate e)"
  shows "wp (CreateNote e u inp) (\<lambda>t w'. \<exists>reply renote rs i.
        referenced (gate.truncate e) w (InReplyID inp) reply \<and> referenced (gate.truncate e) w (InRenoteID inp) renote
        \<and> passed e u inp (Now w) reply renote rs \<and> same_note (the_note e u inp reply renote rs i) t
        \<and> (\<exists>y. Targets w' i = Some y \<and> same_note (the_note e u inp reply renote rs i) y)) (\<lambda>_ _. True) w"
proof (rule wp_mono [OF CreateNote_result [OF assms]], unfold created_def, elim exE conjE, goal_cases)
  case (1 t w' reply renote rs i v)
  have "TargetID (the_note e u inp reply renote rs i) = i" by (simp add: the_note_def)
  then have "\<exists>y. Targets w' i = Some y \<and> same_note (the_note e u inp reply renote rs i) y"
    using stored_row [OF 1(5)] by (metis)
  then show ?case using 1 by blast
qed simp


section \<open>How wide a stored note is\<close>

definition at_most :: "string \<Rightarrow> string \<Rightarrow> bool" where
  "at_most v w = (case (width_of v, width_of w) of (Some a, Some b) \<Rightarrow> a \<le> b | _ \<Rightarrow> False)"

definition visibility_word :: "string \<Rightarrow> bool" where
  "visibility_word v = (v \<in> {NoteVisibilityPublic, NoteVisibilityHome, NoteVisibilityFollowers, NoteVisibilitySpecified})"

lemma words: "visibility_word v \<longleftrightarrow> v = ''public'' \<or> v = ''home'' \<or> v = ''followers'' \<or> v = ''specified''"
  by (simp add: visibility_word_def visibility_names)

lemma clamp_at_most:
  assumes "visibility_word t"
  shows "visibility_word (ClampVisibilityForReply t v) \<Longrightarrow> t \<noteq> NoteVisibilitySpecified \<Longrightarrow> visibility_word v"
    and "visibility_word v \<Longrightarrow> at_most (ClampVisibilityForReply t v) t \<and> at_most (ClampVisibilityForReply t v) v"
  using assms unfolding words
  by (auto simp: ClampVisibilityForReply_def at_most_def width_of_def visibility_names width_defs)

lemma narrow_at_most:
  assumes "visibility_word t" "t \<noteq> NoteVisibilitySpecified"
  shows "visibility_word (narrowForRenote t v) \<Longrightarrow> visibility_word v"
    and "visibility_word v \<Longrightarrow> at_most (narrowForRenote t v) t \<and> at_most (narrowForRenote t v) v"
  using assms unfolding words
  by (auto simp: narrowForRenote_def at_most_def width_of_def visibility_names width_defs split: if_splits)

lemma at_most_trans [trans]: "at_most u v \<Longrightarrow> at_most v w \<Longrightarrow> at_most u w"
  by (auto simp: at_most_def split: option.splits)

lemma at_most_refl: "visibility_word v \<Longrightarrow> at_most v v"
  by (auto simp: words at_most_def width_of_def visibility_names)

lemma visibility_built [simp]: "noteVisibility (the_note e u inp reply renote rs i) = finalVisibility e u inp reply renote"
  by (simp add: the_note_def buildNote_def Let_def)

definition requested :: "create_input \<Rightarrow> string" where
  "requested inp = (if InVisibility inp = [] then NoteVisibilityPublic else InVisibility inp)"

definition restrained :: "create_wiring \<Rightarrow> poster \<Rightarrow> create_input \<Rightarrow> bool" where
  \<comment> \<open>the poster is silenced, or a sensitive word occurs\<close>
  "restrained e u inp = ((case Silenced e of None \<Rightarrow> False | Some f \<Rightarrow> f (accountID u))
     \<or> matchesSensitiveWords (Regexps e) (Meta e) (trimText (InText inp)) (InCW inp))"

lemma start_at_most:
  assumes "visibility_word (startVisibility e u inp c)"
  shows "c = None \<Longrightarrow> at_most (startVisibility e u inp c) (requested inp)"
    and "c = None \<Longrightarrow> restrained e u inp \<Longrightarrow> at_most (startVisibility e u inp c) NoteVisibilityHome"
  using assms unfolding words
  by (auto simp: startVisibility_def demote_if_def requested_def restrained_def at_most_def width_of_def visibility_names width_defs Let_def
      split: if_splits)

definition worded :: "gate \<Rightarrow> note_store \<Rightarrow> bool" where
  "worded g w = ((\<forall>i t. Targets w i = Some t \<longrightarrow> visibility_word (noteVisibility t))
     \<and> (\<forall>i t. promotes g i t \<longrightarrow> visibility_word (noteVisibility t)))"

lemma worded_referenced: "worded g w \<Longrightarrow> referenced g w i (Some t) \<Longrightarrow> visibility_word (noteVisibility t)"
  by (auto simp: worded_def referenced_def split: option.splits)

lemma final_at_most:
  assumes "visibility_word (finalVisibility e u inp reply renote)" "passed e u inp now reply renote rs"
    and "\<forall>t \<in> set_option reply \<union> set_option renote. visibility_word (noteVisibility t)"
  shows "at_most (finalVisibility e u inp reply renote) (startVisibility e u inp (effectiveChannel inp reply))"
    and "\<forall>t \<in> set_option reply \<union> set_option renote. at_most (finalVisibility e u inp reply renote) (noteVisibility t)"
    and "visibility_word (startVisibility e u inp (effectiveChannel inp reply))"
proof -
  let ?v0 = "startVisibility e u inp (effectiveChannel inp reply)"
  let ?v1 = "case renote of None \<Rightarrow> ?v0 | Some t \<Rightarrow> narrowForRenote (noteVisibility t) ?v0"
  have f: "finalVisibility e u inp reply renote = (case reply of None \<Rightarrow> ?v1 | Some t \<Rightarrow> ClampVisibilityForReply (noteVisibility t) ?v1)"
    by (simp add: finalVisibility_def Let_def)
  have w1: "visibility_word ?v1"
  proof (cases reply)
    case (Some t)
    have "noteVisibility t = NoteVisibilitySpecified \<Longrightarrow> ?v1 = NoteVisibilitySpecified"
      using assms(2) unfolding Some by (simp add: passed_def reply_allowed_def Let_def)
    moreover have "visibility_word (noteVisibility t)" using assms(3) Some by simp
    moreover have c: "finalVisibility e u inp reply renote = ClampVisibilityForReply (noteVisibility t) ?v1"
      using f by (simp only: Some option.case)
    moreover have "visibility_word (ClampVisibilityForReply (noteVisibility t) ?v1)"
      using assms(1) unfolding c .
    ultimately show ?thesis using clamp_at_most(1) by (cases "noteVisibility t = NoteVisibilitySpecified") (simp add: visibility_word_def, blast)
  qed (use assms(1) f in simp)
  have r: "visibility_word (noteVisibility t) \<and> noteVisibility t \<noteq> NoteVisibilitySpecified" if "renote = Some t" for t
    using assms(2,3) that by (simp add: passed_def renote_allowed_def)
  show w0: "visibility_word ?v0"
  proof (cases renote)
    case (Some t)
    then have "visibility_word (narrowForRenote (noteVisibility t) ?v0)" using w1 by simp
    then show ?thesis using narrow_at_most(1) r [OF Some] by blast
  qed (use w1 in simp)
  have one: "at_most ?v1 ?v0" "\<forall>t \<in> set_option renote. at_most ?v1 (noteVisibility t)"
    using r narrow_at_most(2) [OF _ _ w0] at_most_refl [OF w0] by (cases renote; force)+
  have two: "at_most (finalVisibility e u inp reply renote) ?v1"
    "\<forall>t \<in> set_option reply. at_most (finalVisibility e u inp reply renote) (noteVisibility t)"
    using assms(3) clamp_at_most(2) [OF _ w1] at_most_refl [OF w1] unfolding f by (cases reply; force)+
  show "at_most (finalVisibility e u inp reply renote) ?v0" using two(1) one(1) by (rule at_most_trans)
  show "\<forall>t \<in> set_option reply \<union> set_option renote. at_most (finalVisibility e u inp reply renote) (noteVisibility t)"
    using two one(2) at_most_trans [OF two(1)] by blast
qed

text \<open>C7. A note never shows more than it may: outside channels it is at most as wide as requested, and at most home when the
  poster is silenced or a sensitive word occurs; anywhere it is at most as wide as the note it replies to
  and the note it renotes.  In a channel the code makes every note public, whatever was requested, so there only the last
  bound holds.\<close>

theorem CreateNote_visibility:
  assumes "promotes_itself (gate.truncate e)" "worded (gate.truncate e) w"
  shows "wp (CreateNote e u inp) (\<lambda>t w'. \<exists>reply renote.
      referenced (gate.truncate e) w (InReplyID inp) reply \<and> referenced (gate.truncate e) w (InRenoteID inp) renote
      \<and> (\<forall>r \<in> set_option reply \<union> set_option renote. at_most (noteVisibility t) (noteVisibility r))
      \<and> (effectiveChannel inp reply = None \<longrightarrow> at_most (noteVisibility t) (requested inp)
          \<and> (restrained e u inp \<longrightarrow> at_most (noteVisibility t) NoteVisibilityHome))) (\<lambda>_ _. True) w"
proof (rule wp_mono [OF CreateNote_result [OF assms(1)]], unfold created_def, elim exE conjE, goal_cases)
  case (1 t w' reply renote rs i v)
  let ?f = "finalVisibility e u inp reply renote"
  have t: "noteVisibility t = ?f" using 1(6) by (auto simp: same_note_def the_note_def buildNote_def Let_def dest: arg_cong [of _ _ noteVisibility])
  have "visibility_word ?f" using 1(5) by (simp add: stored_def row_fits_def visibility_word_def)
  moreover have "\<forall>r \<in> set_option reply \<union> set_option renote. visibility_word (noteVisibility r)"
    using worded_referenced [OF assms(2)] 1(1,2) by (auto simp: elem_set)
  ultimately have f: "at_most ?f (startVisibility e u inp (effectiveChannel inp reply))"
      "\<forall>r \<in> set_option reply \<union> set_option renote. at_most ?f (noteVisibility r)"
      "visibility_word (startVisibility e u inp (effectiveChannel inp reply))"
    using final_at_most [OF _ 1(3)] by blast+
  have "effectiveChannel inp reply = None \<longrightarrow> at_most ?f (requested inp) \<and> (restrained e u inp \<longrightarrow> at_most ?f NoteVisibilityHome)"
    using start_at_most [OF f(3)] at_most_trans [OF f(1)] by blast
  with f(2) 1(1,2) show ?case unfolding t
    by (intro exI [of _ reply] exI [of _ renote] conjI)
qed simp


section \<open>Who reads a direct note\<close>

lemma becomes_direct:
  "narrowForRenote x v = NoteVisibilitySpecified \<longleftrightarrow> v = NoteVisibilitySpecified"
  "ClampVisibilityForReply x v = NoteVisibilitySpecified \<longleftrightarrow> v = NoteVisibilitySpecified \<or> x = NoteVisibilitySpecified"
  by (auto simp: narrowForRenote_def ClampVisibilityForReply_def visibility_names)

lemma public_stays:
  assumes "passed e u inp now reply renote rs" "finalVisibility e u inp reply renote = NoteVisibilitySpecified"
  shows "effectiveChannel inp reply = None"
proof (rule ccontr)
  assume "effectiveChannel inp reply \<noteq> None"
  then obtain c where "effectiveChannel inp reply = Some c" by auto
  then have "startVisibility e u inp (effectiveChannel inp reply) \<noteq> NoteVisibilitySpecified"
    by (simp add: startVisibility_def demote_if_def Let_def visibility_names)
  then show False
    using assms by (cases renote; cases reply) (simp_all add: finalVisibility_def passed_def reply_allowed_def becomes_direct Let_def)
qed

lemma readers_built:
  assumes "noteVisibility n = NoteVisibilitySpecified"
  shows "CanSeeNote (Some v) (Some n) F = (accountID v = noteUserID n \<or> accountID v \<in> set (noteVisibleUserIDs n))"
  using assms by (simp add: CanSeeNote_def CanSeeNoteFunc_def visibility_names)

text \<open>C14. Among the signed-in accounts a direct note is readable by its author, the recipients that were named and the author it replies to, whom nobody has
  to name, and by nobody else.\<close>

theorem direct_note_readers:
  assumes "promotes_itself (gate.truncate e)"
  shows "wp (CreateNote e u inp) (\<lambda>t w'. \<exists>reply. referenced (gate.truncate e) w (InReplyID inp) reply
      \<and> (noteVisibility t = NoteVisibilitySpecified \<longrightarrow> (\<forall>v F. CanSeeNote (Some v) (Some (note_row.truncate t)) F =
          (accountID v = accountID u \<or> accountID v \<in> set (InVisibleUserIDs inp) \<or> (\<exists>r. reply = Some r \<and> accountID v = noteUserID r)))))
    (\<lambda>_ _. True) w"
proof (rule wp_mono [OF CreateNote_result [OF assms]], unfold created_def, elim exE conjE, goal_cases)
  case (1 t w' reply renote rs i v)
  let ?b = "the_note e u inp reply renote rs i"
  have same: "noteVisibility t = noteVisibility ?b" "noteUserID t = noteUserID ?b" "noteVisibleUserIDs t = noteVisibleUserIDs ?b"
    using 1(6) by (auto simp: same_note_def dest: arg_cong [of _ _ noteVisibility] arg_cong [of _ _ noteUserID] arg_cong [of _ _ noteVisibleUserIDs])
  have b: "noteUserID ?b = accountID u" "noteVisibleUserIDs ?b = recipients u inp (effectiveChannel inp reply) (finalVisibility e u inp reply renote) reply"
    by (simp_all add: the_note_def buildNote_def Let_def)
  have "CanSeeNote (Some v) (Some (note_row.truncate t)) F =
      (accountID v = accountID u \<or> accountID v \<in> set (InVisibleUserIDs inp) \<or> (\<exists>r. reply = Some r \<and> accountID v = noteUserID r))"
    if d: "noteVisibility t = NoteVisibilitySpecified" for v F
  proof -
    have f: "finalVisibility e u inp reply renote = NoteVisibilitySpecified" using d same(1) by simp
    have c: "effectiveChannel inp reply = None" by (rule public_stays [OF 1(3) f])
    have "CanSeeNote (Some v) (Some (note_row.truncate t)) F = (accountID v = accountID u \<or> accountID v \<in> set (noteVisibleUserIDs ?b))"
      using readers_built [of "note_row.truncate t" v F] d same(2,3) b(1) by (simp add: note_row.truncate_def)
    then show ?thesis unfolding b(2) f c by (auto simp: recipients_def Let_def split: option.splits if_splits)
  qed
  then show ?case using 1(1) by blast
qed simp

section \<open>What a refused request leaves\<close>

text \<open>C26. A request without a poll that is refused, or whose statements fail, leaves nothing behind: no note, no counter and no
  message to anybody; only the notes it names may have been promoted.\<close>

theorem refused_leaves_nothing:
  assumes "promotes_itself (gate.truncate e)" "poll_choices inp = []"
  shows "wp (CreateNote e u inp) (\<lambda>_ _. True) (\<lambda>_ w'. \<exists>v. grown (gate.truncate e) w v \<and> idle v w') w"
  by (rule wp_mono [OF CreateNote_result [OF assms(1)]]) (use assms(2) in \<open>auto simp: refused_def\<close>)

text \<open>When the statement that stores the poll fails, the request is refused but its note stays, without its poll, and nobody
  is told of it: the statements are not one transaction.\<close>

theorem failed_poll_leaves_note:
  assumes "Failing w = [False, True]" "Targets w (NewNoteID e (Drawn w)) = None" "poll_choices inp \<noteq> []"
    and b: "b = buildNote e u inp (effectiveChannel inp None) vl None None rs (NewNoteID e (Drawn w))" "row_fits b"
  shows "wp (storeNote e u inp vl rs None None) (\<lambda>_ _. False)
     (\<lambda>x w'. x = Err ErrDatabase \<and> Targets w' (TargetID b) = Some b \<and> \<not> TargetHasPoll b \<and> NoteOutbox w' = NoteOutbox w) w"
proof -
  obtain p where p: "InPoll inp = Some p" "InChoices p \<noteq> []" using assms(3) by (auto simp: poll_choices_def split: option.splits)
  have h: "\<not> TargetHasPoll b" by (simp add: b(1) buildNote_def Let_def)
  have ins: "wp (InsertNote b) Q E (w\<lparr>Drawn := Suc (Drawn w)\<rparr>) = Q () (w\<lparr>Drawn := Suc (Drawn w), Failing := [True], Targets := (Targets w)(TargetID b \<mapsto> b)\<rparr>)" for Q E
    using assms(1,2) b by (simp add: InsertNote_def)
  have refs: "countReferences e u None None = then_act (ret ()) (ret ())" by (simp add: countReferences_def)
  have poll: "wp (storePoll u inp b) Q E v = E (Err ErrDatabase) (v\<lparr>Failing := []\<rparr>)" if "Failing v = [True]" for Q E v
    using that p by (simp add: storePoll_def CreatePoll_def)
  show ?thesis unfolding storeNote_def Let_def wp_bind [of "draw (NewNoteID e)"] wp_draw b(1) [symmetric] wp_then [of "InsertNote b"] ins
    using h by (simp add: refs poll del: wp_attempt)
qed

section \<open>Who is told at once\<close>

definition told_readers :: "create_wiring \<Rightarrow> poster \<Rightarrow> target \<Rightarrow> note_effect \<Rightarrow> bool" where
  "told_readers e u t x = (case x of MainEvent m kind i \<Rightarrow> i = TargetID t \<and> m \<noteq> accountID u
       \<and> CanSeeNote (Some (stream_viewer m)) (Some (note_row.truncate t)) (Follows e) | _ \<Rightarrow> False)"

definition told_only :: "(note_effect \<Rightarrow> bool) \<Rightarrow> note_store \<Rightarrow> note_store \<Rightarrow> bool" where
  "told_only P w w' = (\<exists>xs. NoteOutbox w' = NoteOutbox w @ xs \<and> (\<forall>x \<in> set xs. P x))"

interpretation telling: transition "told_only P" for P
proof unfold_locales
  show "told_only P s s" for s by (simp add: told_only_def)
  show "told_only P s u" if "told_only P s t" "told_only P t u" for s t u
    using that unfolding told_only_def by (metis append_assoc set_append Un_iff)
qed

lemma push_gate: "pushable e m t \<Longrightarrow> CanSeeNote (Some (stream_viewer m)) (Some (note_row.truncate t)) (Follows e)"
  by (auto simp: pushable_def canSeeNoteForStream_def CanSeeNote_def CanSeeNoteFunc_def followsFunc_def split: if_splits option.splits sum.splits)

lemma told_emit: "P x \<Longrightarrow> always (told_only P) (emit x)"
  unfolding emit_def by (rule telling.always_change) (simp add: told_only_def)

lemma told_perform: "(b \<Longrightarrow> always (told_only P) m) \<Longrightarrow> always (told_only P) (perform b m)"
  by (simp add: perform_def telling.always_ret)

lemma told_mentions: "always (told_only (told_readers e u t)) (mainMentions e u t ms)"
  by (induction ms) (auto simp: told_readers_def push_gate intro!: telling.always_rules told_perform told_emit)

text \<open>C22. The realtime stream pushes a new note only to people who may read it, never to its author.\<close>

theorem pushed_to_readers:
  "wp (publishNoteMainEvents e u t reply renote) (\<lambda>_. told_only (told_readers e u t) w) (\<lambda>_ _. False) w"
proof (rule always_wp)
  show "always (told_only (told_readers e u t)) (publishNoteMainEvents e u t reply renote)"
    unfolding publishNoteMainEvents_def mainTo_def
    by (auto simp: told_readers_def push_gate intro!: telling.always_rules told_perform told_emit told_mentions)
qed

end
