(* ===== verification/Note_Runs.thy ===== *)
theory Note_Runs imports Note_Claims begin

text \<open>
  Runs of posts and deletions in which any statement may fail: the types of the stored rows, what two
  concurrent deletions do to a counter, and the instances on which the properties are evaluated.
\<close>

section \<open>Well-formed tables\<close>

definition counter_ok :: "int \<Rightarrow> bool" where
  "counter_ok x = (0 \<le> x \<and> int2 x)"

definition typed_note :: "string \<Rightarrow> target \<Rightarrow> bool" where
  "typed_note i t = (TargetID t = i \<and> row_fits t \<and> counter_ok (RepliesCount t) \<and> counter_ok (RenoteCount t))"

definition typed_notes :: "note_store \<Rightarrow> bool" where
  "typed_notes w = (\<forall>i t. Targets w i = Some t \<longrightarrow> typed_note i t)"

definition typed_polls :: "note_store \<Rightarrow> bool" where
  \<comment> \<open>one poll per note, of an existing note, with a counter for every choice\<close>
  "typed_polls w = (distinct (map PollNoteID (Polls w)) \<and> (\<forall>p \<in> set (Polls w).
     Targets w (PollNoteID p) \<noteq> None \<and> length (Votes p) = length (Choices p) \<and> all_fit 256 (Choices p)))"

definition typed :: "note_store \<Rightarrow> bool" where
  "typed w = (typed_notes w \<and> typed_polls w)"

definition typing :: "note_store \<Rightarrow> note_store \<Rightarrow> bool" where
  "typing w w' = (typed w \<longrightarrow> typed w')"

interpretation typings: transition typing
  by unfold_locales (simp_all add: typing_def)

definition promotes_typed :: "gate \<Rightarrow> bool" where
  "promotes_typed g = (\<forall>f i t. Promoter g = Some f \<longrightarrow> f i = Some t \<longrightarrow> typed_note i t)"

section \<open>Statements keep the types\<close>

lemma typing_same: "Targets w' = Targets w \<Longrightarrow> Polls w' = Polls w \<Longrightarrow> typing w w'"
  by (simp add: typing_def typed_def typed_notes_def typed_polls_def)

lemma typing_insert:
  assumes "typed_note i t"
  shows "typing w (w\<lparr>Targets := (Targets w)(i \<mapsto> t)\<rparr>)"
  using assms by (auto simp: typing_def typed_def typed_notes_def typed_polls_def)

lemma typing_db: "moves typing db"
  by (auto simp: moves_def db_def typing_same split: list.splits)

lemma typing_draw: "moves typing (draw f)"
  unfolding draw_def by (intro typings.moves_rules typings.moves_change typing_same) simp_all

lemma typing_emit: "moves typing (emit x)"
  unfolding emit_def by (intro typings.moves_change typing_same) simp_all

lemma typing_perform: "moves typing m \<Longrightarrow> moves typing (perform b m)"
  by (simp add: perform_def typings.moves_ret)

lemma typing_ignore: "moves typing m \<Longrightarrow> moves typing (ignore_error m)"
  unfolding ignore_error_def by (intro typings.moves_rules)

lemma typing_FindNote: "moves typing (FindNote i)"
  unfolding FindNote_def read_row_def by (intro typings.moves_rules typing_db)

lemmas typing_rules = typings.moves_rules typing_db typing_draw typing_emit typing_perform typing_ignore typing_FindNote

lemma typed_noteD: "typed w \<Longrightarrow> Targets w i = Some t \<Longrightarrow> typed_note i t"
  by (simp add: typed_def typed_notes_def)

lemma typing_update:
  assumes "\<And>t. typed_note i t \<Longrightarrow> typed_note i (f t)"
  shows "typing w (w\<lparr>Targets := (Targets w)(i := map_option f (Targets w i))\<rparr>)"
  using assms by (auto simp: typing_def typed_def typed_notes_def typed_polls_def)

lemma typing_wp:
  assumes "\<And>w. wp m (\<lambda>_ w'. typing w w') (\<lambda>_ w'. typing w w') w"
  shows "moves typing m"
  using assms by (simp add: moves_def wp_state)

lemma typing_counter:
  assumes "\<And>t x. typed_note i t \<Longrightarrow> counter_ok x \<Longrightarrow> typed_note i (put x t)" "\<And>t. typed_note i t \<Longrightarrow> counter_ok (read t)"
  shows "moves typing (then_act db (bind_act (query (\<lambda>w. case Targets w i of None \<Rightarrow> False | Some t \<Rightarrow> \<not> int2 (stepped (read t) d)))
     (\<lambda>bad. then_act (reject_if bad ErrDatabase) (update_note i (\<lambda>t. put (stepped (read t) d) t)))))"
proof (intro typings.moves_then typing_db typing_wp)
  fix w
  have ok: "counter_ok (stepped x d)" if "counter_ok x" "int2 (stepped x d)" for x
    using that by (auto simp: counter_ok_def stepped_def)
  show "wp (bind_act (query (\<lambda>w. case Targets w i of None \<Rightarrow> False | Some t \<Rightarrow> \<not> int2 (stepped (read t) d)))
     (\<lambda>bad. then_act (reject_if bad ErrDatabase) (update_note i (\<lambda>t. put (stepped (read t) d) t)))) (\<lambda>_. typing w) (\<lambda>_. typing w) w"
  proof (cases "Targets w i")
    case None
    then have "(Targets w)(i := None) = Targets w" by (simp add: fun_upd_idem)
    with None show ?thesis by (simp add: update_note_def typing_def)
  next
    case (Some t)
    have "typing w (w\<lparr>Targets := (Targets w)(i \<mapsto> put (stepped (read t) d) t)\<rparr>)" if "int2 (stepped (read t) d)"
      using assms ok [OF _ that] typed_noteD [OF _ Some] typing_insert unfolding typing_def by blast
    then show ?thesis using Some by (simp add: update_note_def typings.refl_R)
  qed
qed

lemma typed_note_sets:
  "typed_note i t \<Longrightarrow> counter_ok x \<Longrightarrow> typed_note i (t\<lparr>RepliesCount := x\<rparr>)"
  "typed_note i t \<Longrightarrow> counter_ok x \<Longrightarrow> typed_note i (t\<lparr>RenoteCount := x\<rparr>)"
  "typed_note i t \<Longrightarrow> typed_note i (t\<lparr>TargetHasPoll := b\<rparr>)"
  "typed_note i t \<Longrightarrow> counter_ok (RepliesCount t)" "typed_note i t \<Longrightarrow> counter_ok (RenoteCount t)"
  by (auto simp: typed_note_def row_fits_def)

lemma typing_counts: "moves typing (IncrementReplies i d)" "moves typing (IncrementRenotes i d)"
  unfolding IncrementReplies_def IncrementRenotes_def
  by (rule typing_counter [where put = "\<lambda>x t. t\<lparr>RepliesCount := x\<rparr>"], (erule typed_note_sets, assumption?)+)
    (rule typing_counter [where put = "\<lambda>x t. t\<lparr>RenoteCount := x\<rparr>"], (erule typed_note_sets, assumption?)+)

lemma typing_flag: "moves typing (update_note i (\<lambda>t. t\<lparr>TargetHasPoll := b\<rparr>))"
  unfolding update_note_def by (intro typings.moves_change typing_update typed_note_sets)

lemma typing_InsertNote:
  assumes "RepliesCount t = 0" "RenoteCount t = 0"
  shows "moves typing (InsertNote t)"
proof -
  have "typed_note (TargetID t) t" if "row_fits t" using that assms by (simp add: typed_note_def counter_ok_def int2_def)
  then show ?thesis unfolding InsertNote_def
    by (intro typings.moves_then [OF typing_db] typing_wp) (simp add: typing_insert typings.refl_R)
qed

lemma typing_CreatePoll:
  assumes "length (Votes p) = length (Choices p)"
  shows "moves typing (CreatePoll p)"
  unfolding CreatePoll_def
proof (intro typings.moves_then [OF typing_db] typing_wp, goal_cases)
  case (1 w)
  show ?case using assms by (auto simp: typing_def typed_def typed_notes_def typed_polls_def)
qed

lemma typing_DeleteNote: "moves typing (DeleteNote i)"
  unfolding DeleteNote_def
  by (intro typings.moves_then typing_db typings.moves_change)
    (auto simp: typing_def typed_def typed_notes_def typed_polls_def distinct_map inj_on_def)

section \<open>So do posts and deletions\<close>

lemma typing_loadRef:
  assumes "promotes_typed g"
  shows "moves typing (loadRef g i)"
proof -
  have "moves typing (materializeIfMissing g j)" for j
    using assms unfolding materializeIfMissing_def promotes_typed_def
    by (auto intro!: typing_rules typings.moves_change typing_insert split: option.splits)
  then show ?thesis unfolding loadRef_def loadTarget_def by (intro typing_rules)
qed

lemma typing_report: "moves typing (report x r)"
  by (auto simp: report_def intro!: typing_rules split: res.splits stop.splits note_error.splits)

lemma typing_blocks: "moves typing (checkAuthorBlocks g u t)"
  unfolding checkAuthorBlocks_def by (intro typing_rules) (auto intro!: typing_rules split: sum.splits)

lemma typing_checkNote: "moves typing (checkNote e u inp reply renote)"
proof -
  have "moves typing (checkChannel e inp)" unfolding checkChannel_def
    by (intro typing_rules) (auto intro!: typing_rules split: sum.splits)
  moreover have "moves typing (checkFileIDs e x ids)" for x ids unfolding checkFileIDs_def by (intro typing_rules)
  moreover have "moves typing (checkContent e u inp vis t)" for vis t unfolding checkContent_def by (intro typing_rules)
  moreover have "moves typing (checkPoll inp)" unfolding checkPoll_def by (intro typing_rules)
  moreover have "moves typing (renoteGate e u inp c vl renote)" for c vl
    unfolding renoteGate_def checkRenoteOutsideOfChannel_def by (intro typing_rules typing_report typing_blocks)
  moreover have "moves typing (replyGate e u c vl reply)" for c vl
    unfolding replyGate_def by (intro typing_rules typing_report typing_blocks)
  ultimately show ?thesis unfolding checkNote_def Let_def by (intro typing_rules)
qed

lemma typing_mainMentions: "moves typing (mainMentions e u t ms)"
  by (induction ms) (auto intro!: typing_rules)

lemma typing_notes_count: "moves typing (IncrementNotesCount u d)"
  unfolding IncrementNotesCount_def by (intro typings.moves_then [OF typing_db] typings.moves_change typing_same) simp_all

lemma typing_runHooks: "moves typing (runHooks e u c t reply renote)"
  unfolding runHooks_def publishNoteMainEvents_def mainTo_def hook_def Let_def
  by (intro typing_rules typing_mainMentions typing_notes_count)

lemma typing_storeNote: "moves typing (storeNote e u inp vl rs reply renote)"
proof -
  have "moves typing (updateFeaturedOnRenote e t)" for t unfolding updateFeaturedOnRenote_def by (intro typing_rules)
  then have "moves typing (countReferences e u reply renote)" unfolding countReferences_def by (intro typing_rules typing_counts)
  moreover have "moves typing (storePoll u inp t)" for t
    unfolding storePoll_def by (intro typing_rules typing_flag typing_CreatePoll) (simp add: newPoll_def)
  moreover have "moves typing (InsertNote (buildNote e u inp c vl reply renote rs i))" for c i
    by (rule typing_InsertNote) (simp_all add: buildNote_def Let_def)
  ultimately show ?thesis unfolding storeNote_def Let_def by (intro typing_rules typing_runHooks)
qed

lemma typing_CreateNote: "promotes_typed (gate.truncate e) \<Longrightarrow> moves typing (CreateNote e u inp)"
  unfolding CreateNote_def
  by (intro typing_rules typing_loadRef) (auto intro!: typing_rules typing_checkNote typing_storeNote)

lemma typing_DeleteAs: "moves typing (DeleteAs d actor b i)"
  unfolding DeleteAs_def findOwnNote_def resolveAuthor_def removeNote_def announceDeletion_def Let_def
  by (intro typing_rules typing_counts typing_DeleteNote)

datatype note_event = Post poster create_input | Remove string bool string

fun note_step :: "create_wiring \<Rightarrow> delete_wiring \<Rightarrow> note_store \<Rightarrow> note_event \<Rightarrow> note_store" where
  "note_step e d w (Post u inp) = snd (CreateNote e u inp w)"
| "note_step e d w (Remove actor b i) = snd (DeleteAs d actor b i w)"

definition typed_run :: "create_wiring \<Rightarrow> note_store \<Rightarrow> bool" where
  "typed_run e w = (typed w \<and> promotes_typed (gate.truncate e))"

interpretation note_runs: stepping "note_step e d" "typed_run e" for e d
proof unfold_locales
  fix w x
  assume "typed_run e w"
  then show "typed_run e (note_step e d w x)"
    using typing_CreateNote typing_DeleteAs by (cases x) (simp_all add: typed_run_def moves_def typing_def)
qed

text \<open>C10. The tables stay well typed through any run of posts and deletions, whichever statements fail: a row is stored
  under its id and fits its columns, its visibility is one of the four words, its counters are never negative
  and stay within 16 bits, no note has two polls, and a poll belongs to a note and has a counter for every choice.\<close>

theorem notes_stay_typed:
  assumes "typed w" "promotes_typed (gate.truncate e)"
  shows "typed (run_steps (note_step e d) w es)"
  using note_runs.run_keeps [of e w d es] assms by (simp add: typed_run_def)

section \<open>Two deletions at once\<close>

definition deletes_twice :: "string \<Rightarrow> string \<Rightarrow> string \<Rightarrow> unit create_act" where
  \<comment> \<open>the deletion of an author and of a moderator, both past the lookup before either deletes\<close>
  "deletes_twice a m i = bind_act (findOwnNote a False i) (\<lambda>t. bind_act (findOwnNote m True i) (\<lambda>t'.
     then_act (removeNote t) (removeNote t')))"

lemma wp_removeReply:
  assumes "intact w" "TargetReplyID t = Some p" "p \<noteq> TargetID t" "Targets w p = Some x" "int2 (RepliesCount x)" "0 \<le> RepliesCount x"
  shows "wp (removeNote t) (\<lambda>_ w'. intact w' \<and> Targets w' =
     (Targets w)(TargetID t := None, p \<mapsto> x\<lparr>RepliesCount := max (RepliesCount x - 1) 0\<rparr>)) (\<lambda>_ _. False) w"
proof -
  have "int2 (stepped (RepliesCount x) (- 1))" "stepped (RepliesCount x) (- 1) = max (RepliesCount x - 1) 0"
    using assms(5,6) by (auto simp: int2_def stepped_def)
  then show ?thesis using assms(1-4) by (simp add: removeNote_def DeleteNote_def IncrementReplies_def update_note_def intact_def)
qed

text \<open>C39. When two deletions of one reply are both past the lookup before either deletes, both succeed and each counts the reply
  off its parent: the statement that deletes does not say whether there was a row.\<close>

theorem double_delete:
  assumes "intact w" "Storable i" "Targets w i = Some t" "TargetID t = i" "noteUserID t = a" "TargetReplyID t = Some p"
    and "p \<noteq> i" "Targets w p = Some x" "int2 (RepliesCount x)" "2 \<le> RepliesCount x"
  shows "wp (deletes_twice a m i) (\<lambda>_ w'. Targets w' i = None \<and> Targets w' p = Some (x\<lparr>RepliesCount := RepliesCount x - 2\<rparr>)) (\<lambda>_ _. False) w"
proof -
  have f: "wp (findOwnNote x b i) Q E w = Q t w" if "b \<or> x = a" for x b Q E
    using assms(1-5) that by (auto simp: findOwnNote_def wp_FindNote)
  have again: "wp (removeNote t) (\<lambda>_ w'. Targets w' i = None \<and> Targets w' p = Some (x\<lparr>RepliesCount := RepliesCount x - 2\<rparr>)) (\<lambda>_ _. False) v"
    if "intact v" "Targets v = (Targets w)(i := None, p \<mapsto> x\<lparr>RepliesCount := RepliesCount x - 1\<rparr>)" for v
    by (rule wp_mono [OF wp_removeReply [OF that(1), of t p "x\<lparr>RepliesCount := RepliesCount x - 1\<rparr>"]])
      (use assms that in \<open>auto simp: int2_def max_def\<close>)
  have "wp (then_act (removeNote t) (removeNote t))
      (\<lambda>_ w'. Targets w' i = None \<and> Targets w' p = Some (x\<lparr>RepliesCount := RepliesCount x - 2\<rparr>)) (\<lambda>_ _. False) w"
    unfolding wp_then
    by (rule wp_mono [OF wp_removeReply [OF assms(1,6) _ assms(8,9)]], use assms in simp_all)
      (rule again, use assms in \<open>simp_all add: max_def\<close>)
  then show ?thesis by (simp add: deletes_twice_def f del: wp_then)
qed

section \<open>A request that passes is stored\<close>

definition present :: "note_store \<Rightarrow> string option \<Rightarrow> target option \<Rightarrow> bool" where
  \<comment> \<open>the note a request names is in the database\<close>
  "present w i t = (case i of None \<Rightarrow> t = None | Some j \<Rightarrow> Storable j \<and> t \<noteq> None \<and> t = Targets w j)"

lemma wp_loadRef_present:
  assumes "intact w" "present w i t"
  shows "wp (loadRef g i) Q E w = Q (map_option Val t) w"
  using assms by (auto simp: loadRef_def present_def loadTarget_def wp_FindNote split: option.splits)

lemma wp_checkNote_passed:
  assumes "intact w" "passed e u inp (Now w) reply renote rs"
  shows "wp (checkNote e u inp (map_option Val reply) (map_option Val renote)) Q E w
    = Q ((finalVisibility e u inp reply renote, finalLocalOnly inp reply renote), rs) w"
proof -
  let ?c = "effectiveChannel inp reply" let ?v = "startVisibility e u inp ?c"
  let ?v1 = "case renote of None \<Rightarrow> ?v | Some t \<Rightarrow> narrowForRenote (noteVisibility t) ?v"
  let ?l1 = "(InLocalOnly inp \<or> ?c \<noteq> None) \<or> (\<exists>t \<in> set_option renote. LocalOnly t \<and> ?c = None)"
  have f: "found (map_option Val reply) = reply" for reply :: "target option" by (cases reply) simp_all
  have files: "wp (checkFileIDs e (accountID u) (InFileIDs inp)) Q E w = Q () w" for Q E
    using assms by (auto simp: checkFileIDs_def passed_def own_files_def intact_def split: option.splits)
  have renote: "wp (renoteGate e u inp ?c (?v, InLocalOnly inp \<or> ?c \<noteq> None) (map_option Val renote)) Q E w = Q (?v1, ?l1) w" for Q E
    using assms(2) by (cases renote)
      (auto simp: renoteGate_def report_def passed_def renote_allowed_def open_to_def wp_checkAuthorBlocks checkRenoteOutsideOfChannel_def
        sameChannel_def split: option.splits)
  have reply: "wp (replyGate e u ?c (?v1, ?l1) (map_option Val reply)) Q E w
      = Q (finalVisibility e u inp reply renote, finalLocalOnly inp reply renote) w" for Q E
  proof (cases reply)
    case None
    have "finalVisibility e u inp reply renote = ?v1" by (simp only: None finalVisibility_def Let_def option.case)
    moreover have "finalLocalOnly inp reply renote = ?l1" by (auto simp: None finalLocalOnly_def)
    ultimately show ?thesis by (simp only: None replyGate_def option.case list.map option.map wp_ret)
  next
    case (Some t)
    have a: "reply_allowed e u ?v1 t"
      using assms(2)[unfolded passed_def Let_def] unfolding Some by (simp only: option.set insert_iff simp_thms ball_simps)
    have "finalVisibility e u inp reply renote = ClampVisibilityForReply (noteVisibility t) ?v1"
      by (simp only: Some finalVisibility_def Let_def option.case)
    moreover have "finalLocalOnly inp reply renote = (?l1 \<or> LocalOnly t \<and> ?c = None)"
      by (auto simp: Some finalLocalOnly_def)
    ultimately show ?thesis using a
      by (auto simp: Some replyGate_def report_def reply_allowed_def open_to_def wp_checkAuthorBlocks split: option.splits)
  qed
  have poll: "wp (checkPoll inp) Q E w = Q () w" for Q E
    using assms(2) by (auto simp: checkPoll_def passed_def poll_open_def split: option.splits)
  have channel: "wp (checkChannel e inp) Q E w = Q () w" for Q E
    using assms(2) by (auto simp: checkChannel_def passed_def channel_exists_def split: option.splits)
  have content: "wp (checkContent e u inp (finalVisibility e u inp reply renote) reply) Q E w = Q rs w" for Q E
    using assms(2) by (simp add: checkContent_def passed_def content_allowed_def)
  show ?thesis unfolding checkNote_def Let_def f wp_then wp_bind files renote reply poll channel content fst_conv wp_ret ..
qed

lemma storeNote_proceeds:
  fixes e u inp vl reply renote rs and w :: note_store
  defines "b \<equiv> buildNote e u inp (effectiveChannel inp reply) vl reply renote rs (NewNoteID e (Drawn w))"
  assumes "intact w" "poll_choices inp = []" "Targets w (NewNoteID e (Drawn w)) = None" "row_fits b"
  shows "wp (storeNote e u inp vl rs reply renote) (\<lambda>_ _. True) (\<lambda>_ _. False) w"
proof -
  have any: "wp m (\<lambda>_ _. True) (\<lambda>_ _. False) v" if "always same_notes m" for v and m :: "'a create_act"
    by (rule wp_mono [OF always_wp [OF that]]) simp_all
  have ins: "wp (InsertNote b) Q E (w\<lparr>Drawn := n\<rparr>) = Q () (w\<lparr>Drawn := n, Targets := (Targets w)(TargetID b \<mapsto> b)\<rparr>)" for Q E n
    using assms(2,4,5) by (simp add: InsertNote_def intact_def b_def)
  have poll: "storePoll u inp b = ret b" using assms(3) by (simp add: storePoll_def poll_choices_def split: option.splits)
  have hooks: "wp (then_act (runHooks e u c t reply renote) (ret t)) (\<lambda>_ _. True) (\<lambda>_ _. False) v" for c t v
    unfolding wp_then wp_ret by (rule any [OF keeps_runHooks])
  have "wp (bind_act (storePoll u inp b) (\<lambda>t1. bind_act (attempt (FindNote i)) (\<lambda>r.
      let final = (case r of Val (Some t2) \<Rightarrow> t2 | _ \<Rightarrow> t1) in then_act (runHooks e u c final reply renote) (ret final))))
      (\<lambda>_ _. True) (\<lambda>_ _. False) v" for c i v
    unfolding poll Let_def wp_bind wp_ret wp_attempt by (rule wp_mono [OF FindNote_result]) (auto intro!: hooks simp del: wp_then)
  then show ?thesis
    unfolding storeNote_def Let_def wp_bind [of "draw (NewNoteID e)"] wp_draw b_def [symmetric] wp_then [of "InsertNote b"] ins
      wp_then [of "countReferences e u reply renote"]
    by (intro wp_mono [OF any [OF keeps_countReferences]]) (simp_all only: Let_def)
qed

text \<open>C15. A request without a poll that passes every guard is stored when the database answers, its id is new and its row fits the
  columns: no other guard can refuse it, none of the hooks and counters behind the insertion can fail it, the note
  that is returned and the row that is then in the table under the new id are the one built from the request (but for its
  counters), and every other note is left alone (but for its counters).\<close>

theorem CreateNote_succeeds:
  assumes "intact w" "present w (InReplyID inp) reply" "present w (InRenoteID inp) renote" "passed e u inp (Now w) reply renote rs"
    and "poll_choices inp = []" "Targets w (NewNoteID e (Drawn w)) = None" "row_fits (the_note e u inp reply renote rs (NewNoteID e (Drawn w)))"
  shows "wp (CreateNote e u inp) (\<lambda>t w'. TargetID t = NewNoteID e (Drawn w)
      \<and> same_note (the_note e u inp reply renote rs (NewNoteID e (Drawn w))) t
      \<and> (\<exists>row. Targets w' (NewNoteID e (Drawn w)) = Some row \<and> same_note (the_note e u inp reply renote rs (NewNoteID e (Drawn w))) row)
      \<and> (\<forall>i. i \<noteq> NewNoteID e (Drawn w) \<longrightarrow> rel_option same_note (Targets w i) (Targets w' i))) (\<lambda>_ _. False) w"
    (is "wp _ ?Q _ w")
proof -
  let ?vl = "(finalVisibility e u inp reply renote, finalLocalOnly inp reply renote)"
  let ?b = "the_note e u inp reply renote rs (NewNoteID e (Drawn w))"
  have f: "found (map_option Val t) = t" for t :: "target option" by (cases t) simp_all
  have "wp (storeNote e u inp ?vl rs reply renote) (\<lambda>_ _. True) (\<lambda>_ _. False) w"
    by (rule storeNote_proceeds) (use assms in \<open>simp_all add: the_note_def\<close>)
  then have "wp (storeNote e u inp ?vl rs reply renote) (\<lambda>t w'. same_note ?b t \<and> stored ?b w w') (\<lambda>_ _. False) w"
    using storeNote_result [of e u inp ?vl rs reply renote w] unfolding the_note_def
    by (auto simp: wp_def split: prod.splits res.splits)
  moreover have "TargetID t = NewNoteID e (Drawn w)" if "same_note ?b t" for t
    using arg_cong [OF that [unfolded same_note_def], of TargetID] by (simp add: the_note_def)
  moreover have "TargetID ?b = NewNoteID e (Drawn w)" by (simp add: the_note_def)
  then have "(\<exists>row. Targets w' (NewNoteID e (Drawn w)) = Some row \<and> same_note ?b row)
      \<and> (\<forall>i. i \<noteq> NewNoteID e (Drawn w) \<longrightarrow> rel_option same_note (Targets w i) (Targets w' i))" if s: "stored ?b w w'" for w'
    using stored_row [OF s] s by (simp add: stored_def same_notes_def) metis
  ultimately have "wp (storeNote e u inp ?vl rs reply renote) ?Q (\<lambda>_ _. False) w"
    by (auto elim: wp_mono)
  moreover have "hasContent inp" using assms(4) by (simp add: passed_def)
  ultimately show ?thesis
    by (simp add: CreateNote_def wp_loadRef_present [OF assms(1,2)] wp_loadRef_present [OF assms(1,3)]
      wp_checkNote_passed [OF assms(1,4)] f)
qed

section \<open>Instances\<close>

definition some_post :: create_input where
  \<comment> \<open>a file for c, in reply to n\<close>
  "some_post = \<lparr>InText = None, InCW = None, InVisibility = NoteVisibilitySpecified, InVisibleUserIDs = [''c''], InLocalOnly = False,
     InReactionAcceptance = None, InFileIDs = [''f''], InReplyID = Some ''n'', InRenoteID = None, InChannelID = None, InPoll = None,
     NoExtractMentions = True, NoExtractHashtags = True, NoExtractEmojis = True\<rparr>"

definition some_poster :: poster where
  "some_poster = \<lparr>accountID = ''b'', accountRequireSignin = False, accountHiddenBefore = None,
     accountFollowersOnlyBefore = None, reactorHost = None, IsBot = False\<rparr>"

definition first_note :: target where
  "first_note = \<lparr>noteUserID = ''a'', noteVisibility = NoteVisibilityPublic, noteReplyUserID = None, noteMentions = [],
     noteVisibleUserIDs = [], noteUser = None, TargetID = ''n'', TargetUserHost = None, TargetReplyID = None,
     TargetRenoteID = None, TargetChannelID = None, TargetText = Some ''hi'', TargetCW = None, TargetFileIDs = [],
     TargetHasPoll = False, ReactionAcceptance = None, LocalOnly = False, ThreadID = None, ReplyUserHost = None,
     RenoteUserID = None, RenoteUserHost = None, RenoteChannelID = None, NoteTags = [], NoteEmojis = [],
     MentionedRemoteUsers = [], RepliesCount = 2, RenoteCount = 0\<rparr>"

definition some_notes :: "bool list \<Rightarrow> note_store" where
  "some_notes fs = \<lparr>Failing = fs, Targets = [''n'' \<mapsto> first_note, ''r'' \<mapsto> first_note\<lparr>TargetID := ''r'', TargetReplyID := Some ''n''\<rparr>], Drawn = 0,
     Now = 0, Polls = [], VoteRows = [], UserHosts = (\<lambda>_. None), PollOutbox = [], NotesCount = (\<lambda>_. 0), NoteOutbox = []\<rparr>"

definition bare_notes :: create_wiring where
  "bare_notes = \<lparr>Follows = None, BlockChecker = Some (\<lambda>a b. Inr False), Promoter = None, Silenced = Some (\<lambda>_. True),
     Meta = Some \<lparr>SensitiveWords = [''hi''], ProhibitedWords = []\<rparr>, Regexps = (\<lambda>_. None), DriveFiles = Some (\<lambda>_. Some (Some ''b'')), ChannelCheck = None,
     ChannelAllowsRenote = None, Mentioning = some_mentions, RemoteRows = None, HashtagsIn = id, SearchNorm = id,
     EmojiCodes = (\<lambda>_ _. []), NewNoteID = show_nat, NoteHooks = {}, RenoteRanking = False, RenoteSampled = (\<lambda>_. False),
     RenoteAge = (\<lambda>_. None), ThreadMutes = None, HostOf = (\<lambda>_. None)\<rparr>"

lemma bare_promotes: "promotes_itself (gate.truncate bare_notes)" "promotes_typed (gate.truncate bare_notes)"
  by (simp_all add: promotes_itself_def promotes_typed_def bare_notes_def gate.truncate_def)

lemma first_fits [simp]:
  "Storable ''n''" "Storable ''r''" "Fits ''n'' 32" "Fits ''r'' 32" "Fits ''a'' 32" "Fits ''b'' 32" "Fits ''c'' 32" "Fits ''f'' 32" "Fits ''0'' 32" "Storable ''hi''" "Fits ''n'' 256"
  by (simp_all add: Fits_def Storable_def bytes_def valid_utf8.simps(2) rune_at.simps(2) rune_count_def runes.simps(2))

lemma present_texts_simps [simp]:
  "present_texts [] = []" "present_texts (None # xs) = present_texts xs" "present_texts (Some x # xs) = x # present_texts xs"
  by (simp_all add: present_texts_def List.map_filter_simps)

lemma first_note_fits: "row_fits (first_note\<lparr>TargetID := i, TargetReplyID := p\<rparr>)" if "Fits i 32" "p = None \<or> p = Some ''n''"
  using that by (auto simp: row_fits_def all_fit_def first_note_def)

lemma some_notes_typed: "typed (some_notes fs)"
proof -
  have "typed_note ''n'' first_note" using first_note_fits [of "''n''" None]
    by (simp add: typed_note_def counter_ok_def int2_def first_note_def)
  moreover have "typed_note ''r'' (first_note\<lparr>TargetID := ''r'', TargetReplyID := Some ''n''\<rparr>)"
    using first_note_fits [of "''r''" "Some ''n''"] by (simp add: typed_note_def counter_ok_def int2_def) (simp add: first_note_def)
  ultimately show ?thesis by (simp add: typed_def typed_notes_def typed_polls_def some_notes_def)
qed

lemma some_notes_worded: "worded (gate.truncate bare_notes) (some_notes fs)"
  by (simp add: worded_def some_notes_def promotes_def bare_notes_def gate.truncate_def visibility_word_def first_note_def)

theorem notes_stay_typed_witness:
  "typed (run_steps (note_step bare_notes \<lparr>DeleteHooks = {''stream''}, AuthorLookup = True\<rparr>) (some_notes [False, False, True])
     [Post some_poster some_post, Remove ''a'' False ''n'', Remove ''m'' True ''r''])"
  by (rule notes_stay_typed [OF some_notes_typed bare_promotes(2)])

theorem double_delete_witness:
  "wp (deletes_twice ''a'' ''m'' ''r'') (\<lambda>_ w'. Targets w' ''r'' = None \<and> Targets w' ''n'' = Some (first_note\<lparr>RepliesCount := 0\<rparr>)) (\<lambda>_ _. False)
     (some_notes [])"
  using double_delete [of "some_notes []" "''r''" "first_note\<lparr>TargetID := ''r'', TargetReplyID := Some ''n''\<rparr>" "''a''" "''n''" first_note "''m''"]
  by (simp add: some_notes_def intact_def int2_def) (simp add: first_note_def)

theorem CreateNote_allowed_witness:
  "wp (CreateNote bare_notes some_poster some_post) (\<lambda>t w'. \<exists>reply renote rs i.
        referenced (gate.truncate bare_notes) (some_notes []) (InReplyID some_post) reply
        \<and> referenced (gate.truncate bare_notes) (some_notes []) (InRenoteID some_post) renote
        \<and> passed bare_notes some_poster some_post (Now (some_notes [])) reply renote rs
        \<and> same_note (the_note bare_notes some_poster some_post reply renote rs i) t
        \<and> (\<exists>y. Targets w' i = Some y \<and> same_note (the_note bare_notes some_poster some_post reply renote rs i) y))
     (\<lambda>_ _. True) (some_notes [])"
  by (rule CreateNote_allowed [OF bare_promotes(1)])

theorem refused_leaves_nothing_witness:
  "wp (CreateNote bare_notes some_poster some_post) (\<lambda>_ _. True)
     (\<lambda>_ w'. \<exists>v. grown (gate.truncate bare_notes) (some_notes [False, True]) v \<and> idle v w') (some_notes [False, True])"
  by (rule refused_leaves_nothing [OF bare_promotes(1)]) (simp add: some_post_def poll_choices_def)

theorem Compile_refines_filters_witness:
  "Match [Regex (contains ''x'')] ''axb'' = IsKeyWordIncluded (\<lambda>p. Some (contains p)) ''axb'' [[], ''/x/'']"
  by (rule Compile_refines_filters) (simp add: regexpFilterRe_def compileRegex_def newline_def Let_def)

theorem NormalizeNoteTags_fit_witness:
  "list_all (\<lambda>n. n \<noteq> [] \<and> Fits n 128) (NormalizeNoteTags (\<lambda>_. ''hi'') [''x'', ''y''])"
  using NormalizeNoteTags_fit [of "\<lambda>_. ''hi''" "[''x'', ''y'']"] first_fits(10) by (simp add: Storable_def)

theorem CreateNote_visibility_witness:
  "wp (CreateNote bare_notes some_poster some_post) (\<lambda>t w'. \<exists>reply renote.
      referenced (gate.truncate bare_notes) (some_notes []) (InReplyID some_post) reply
      \<and> referenced (gate.truncate bare_notes) (some_notes []) (InRenoteID some_post) renote
      \<and> (\<forall>r \<in> set_option reply \<union> set_option renote. at_most (noteVisibility t) (noteVisibility r))
      \<and> (effectiveChannel some_post reply = None \<longrightarrow> at_most (noteVisibility t) (requested some_post)
          \<and> (restrained bare_notes some_poster some_post \<longrightarrow> at_most (noteVisibility t) NoteVisibilityHome))) (\<lambda>_ _. True) (some_notes [])"
  by (rule CreateNote_visibility [OF bare_promotes(1) some_notes_worded])

theorem direct_note_readers_witness:
  "wp (CreateNote bare_notes some_poster some_post) (\<lambda>t w'. \<exists>reply. referenced (gate.truncate bare_notes) (some_notes []) (InReplyID some_post) reply
      \<and> (noteVisibility t = NoteVisibilitySpecified \<longrightarrow> (\<forall>v F. CanSeeNote (Some v) (Some (note_row.truncate t)) F =
          (accountID v = accountID some_poster \<or> accountID v \<in> set (InVisibleUserIDs some_post)
             \<or> (\<exists>r. reply = Some r \<and> accountID v = noteUserID r)))))
    (\<lambda>_ _. True) (some_notes [])"
  by (rule direct_note_readers [OF bare_promotes(1)])

lemmas some_instances = some_post_def some_poster_def bare_notes_def some_notes_def first_note_def

lemma bare_final:
  "finalVisibility bare_notes some_poster some_post (Some first_note) None = NoteVisibilitySpecified"
  "effectiveChannel some_post (Some first_note) = None"
  by (simp_all add: some_instances finalVisibility_def startVisibility_def effectiveChannel_def normalizeChannelID_def demote_if_def
    ClampVisibilityForReply_def visibility_names Let_def)

lemma bare_passed: "passed bare_notes some_poster some_post 0 (Some first_note) None []"
proof -
  have "CanSeeNote (Some v) (Some (note_row.truncate first_note)) F" for v F
    by (simp add: CanSeeNote_def CanSeeNoteFunc_def first_note_def note_row.truncate_def visibility_names)
  then have "reply_allowed bare_notes some_poster v first_note" for v
    by (simp add: reply_allowed_def open_to_def may_read_def IsPureRenote_def) (simp add: some_instances gate.truncate_def visibility_names)
  moreover have "content_allowed bare_notes some_poster some_post NoteVisibilitySpecified (Some first_note) []"
  proof -
    have "resolveMentions some_mentions ''b'' None [''c''] NoteVisibilitySpecified (Some first_note) [] = Some []" by code_simp
    then show ?thesis
      by (simp add: content_allowed_def checkProhibitedWords_def note_mentions_def poll_choices_def hits_words_def trimText_def
        some_post_def some_poster_def bare_notes_def)
  qed
  ultimately show ?thesis
    by (simp add: passed_def bare_final Let_def) (simp add: hasContent_def own_files_def poll_open_def channel_exists_def normalizeChannelID_def some_instances)
qed

theorem CreateNote_succeeds_witness:
  "wp (CreateNote bare_notes some_poster some_post) (\<lambda>t w'. TargetID t = ''0''
      \<and> same_note (the_note bare_notes some_poster some_post (Some first_note) None [] ''0'') t \<and> Targets w' ''0'' \<noteq> None) (\<lambda>_ _. False) (some_notes [])"
proof -
  have id: "NewNoteID bare_notes (Drawn (some_notes [])) = ''0''" by (simp add: bare_notes_def some_notes_def) code_simp
  have "storedMentions bare_notes some_poster some_post NoteVisibilitySpecified [''c'', ''a''] (Some first_note) [] = [''a'', ''c'']" by code_simp
  moreover have "recipients some_poster some_post None NoteVisibilitySpecified (Some first_note) = [''c'', ''a'']" by code_simp
  moreover have "noteTags bare_notes some_post = []" "noteEmojis bare_notes some_post = []" "trimText (InText some_post) = None"
    by (simp_all add: noteTags_def noteEmojis_def trimText_def some_post_def)
  ultimately have fits: "row_fits (the_note bare_notes some_poster some_post (Some first_note) None [] ''0'')"
    by (simp add: the_note_def buildNote_def bare_final row_fits_def all_fit_def Let_def) (simp add: some_post_def some_poster_def first_note_def threadOf_def)
  show ?thesis
    by (rule wp_mono [OF CreateNote_succeeds [of "some_notes []" some_post "Some first_note" None bare_notes some_poster "[]", unfolded id]])
      (use bare_passed fits in \<open>auto simp: some_notes_def some_post_def intact_def present_def poll_choices_def\<close>)
qed

definition poll_post :: create_input where
  "poll_post = some_post\<lparr>InReplyID := None, InPoll := Some \<lparr>InChoices = [''x'', ''y''], InMultiple = False, InExpiresAt = None\<rparr>\<rparr>"

theorem failed_poll_leaves_note_witness:
  "wp (storeNote bare_notes some_poster poll_post (NoteVisibilityPublic, False) [] None None) (\<lambda>_ _. False)
     (\<lambda>x w'. x = Err ErrDatabase \<and> Targets w' ''0'' \<noteq> None \<and> NoteOutbox w' = []) (some_notes [False, True])"
proof -
  let ?b = "buildNote bare_notes some_poster poll_post (effectiveChannel poll_post None) (NoteVisibilityPublic, False) None None [] ''0''"
  have id: "NewNoteID bare_notes (Drawn (some_notes [False, True])) = ''0''" by (simp add: bare_notes_def some_notes_def) code_simp
  have "storedMentions bare_notes some_poster poll_post NoteVisibilityPublic [] None [] = []" by code_simp
  moreover have "recipients some_poster poll_post (effectiveChannel poll_post None) NoteVisibilityPublic None = []" by code_simp
  moreover have "noteTags bare_notes poll_post = []" "noteEmojis bare_notes poll_post = []" "trimText (InText poll_post) = None"
    by (simp_all add: noteTags_def noteEmojis_def trimText_def some_post_def poll_post_def)
  ultimately have fits: "row_fits ?b"
    by (simp add: buildNote_def row_fits_def all_fit_def Let_def)
      (simp add: poll_post_def some_post_def some_poster_def effectiveChannel_def normalizeChannelID_def)
  have p: "poll_choices poll_post \<noteq> []" by (simp add: poll_choices_def poll_post_def)
  have s: "Failing (some_notes [False, True]) = [False, True]" "Targets (some_notes [False, True]) ''0'' = None"
      "NoteOutbox (some_notes [False, True]) = []"
    by (simp_all add: some_notes_def)
  show ?thesis
    using failed_poll_leaves_note [of "some_notes [False, True]" bare_notes poll_post ?b some_poster "(NoteVisibilityPublic, False)" "[]",
        unfolded id s(3)] s(1,2) p fits
    by (auto elim!: wp_mono)
qed

end
