(* ===== verification/Fed_Rule.thy ===== *)
theory Fed_Rule imports Note_Text "HOL-Library.Sublist" begin

text \<open>
  Federation rules (core/fedrule): the validation of a rule (rule.go), the host patterns it uses
  (misc/idnhost/gate.go), and the evaluation of compiled rules on an inbound activity or note
  (engine.go).

  The environment \<open>fed_env\<close> holds what is not modelled: Go's \<open>regexp\<close>, \<open>strings.ToLower\<close> and \<open>EqualFold\<close> on
  Unicode text, NFKC, and the IDNA conversion.  Times are nanoseconds; \<open>None\<close> is Go's zero time.
\<close>

section \<open>Environment and hosts\<close>

record fed_env =
  RuleRegexps :: regexps
  ToLower :: "string \<Rightarrow> string"
  EqualFold :: "string \<Rightarrow> string \<Rightarrow> bool"
  TagNorm :: "string \<Rightarrow> string"
  IDNA :: "string \<Rightarrow> string"

definition ascii_char :: "char \<Rightarrow> bool" where
  "ascii_char c = ((of_char c :: nat) < 0x80)"

definition isASCII :: "string \<Rightarrow> bool" where
  "isASCII s = list_all ascii_char s"

definition lower_char :: "char \<Rightarrow> char" where
  "lower_char c = (let n = (of_char c :: nat) in if between 65 90 n then char_of (n + 32) else c)"

definition digit_char :: "char \<Rightarrow> bool" where
  "digit_char c = between 48 57 (of_char c)"

definition isDigits :: "string \<Rightarrow> bool" where
  "isDigits s = list_all digit_char s"

definition before_char :: "char \<Rightarrow> string \<Rightarrow> string" where
  "before_char c s = takeWhile (\<lambda>d. d \<noteq> c) s"

definition after_char :: "char \<Rightarrow> string \<Rightarrow> string" where
  "after_char c s = tl (dropWhile (\<lambda>d. d \<noteq> c) s)"

definition splitGatePort :: "string \<Rightarrow> string \<times> string" where
  \<comment> \<open>an IPv6 address without brackets has no port\<close>
  "splitGatePort s =
     (if prefix ''['' s then
        (if CHR '']'' \<notin> set s then (s, [])
         else let rest = after_char CHR '']'' s in
           if rest \<noteq> [] \<and> hd rest = CHR '':'' \<and> isDigits (tl rest) then (before_char CHR '']'' s @ '']'', tl rest) else (s, []))
      else if count_list s CHR '':'' \<noteq> 1 \<or> \<not> isDigits (after_char CHR '':'' s) then (s, [])
      else (before_char CHR '':'' s, after_char CHR '':'' s))"

definition TrimRight :: "char \<Rightarrow> string \<Rightarrow> string" where
  "TrimRight c s = rev (dropWhile (\<lambda>d. d = c) (rev s))"

definition gateForms :: "fed_env \<Rightarrow> string \<Rightarrow> string \<times> string" where
  \<comment> \<open>with and without the port\<close>
  "gateForms e s0 = (let s1 = TrimSpace s0 in
     if s1 = [] then ([], [])
     else let s = (if isASCII s1 then map lower_char s1 else IDNA e s1);
              (name0, port) = splitGatePort s;
              name = (if prefix ''['' name0 then name0 else TrimRight CHR ''.'' name0) in
       if name = [] then ([], []) else if port \<noteq> [] then (name @ '':'' @ port, name) else (name, name))"

definition gateSuffixMatch :: "string \<Rightarrow> string \<Rightarrow> bool" where
  "gateSuffixMatch host pattern = suffix (CHR ''.'' # pattern) (CHR ''.'' # host)"

definition MatchesBlockList :: "fed_env \<Rightarrow> string list \<Rightarrow> string \<Rightarrow> bool" where
  "MatchesBlockList e patterns host = (let (full, bare) = gateForms e host in
     full \<noteq> [] \<and> (\<exists>p \<in> set patterns. let pat = fst (gateForms e p) in
       pat \<noteq> [] \<and> (gateSuffixMatch full pat \<or> gateSuffixMatch bare pat)))"

definition MatchesAllowList :: "fed_env \<Rightarrow> string list \<Rightarrow> string \<Rightarrow> bool" where
  "MatchesAllowList e patterns host = (let full = fst (gateForms e host) in
     full \<noteq> [] \<and> (\<exists>p \<in> set patterns. let pat = fst (gateForms e p) in pat \<noteq> [] \<and> gateSuffixMatch full pat))"

definition BareHost :: "fed_env \<Rightarrow> string \<Rightarrow> string" where
  "BareHost e host = snd (gateForms e host)"

section \<open>Rules\<close>

definition MaxRules :: int where "MaxRules = 100"
definition MaxNameLength :: int where "MaxNameLength = 128"
definition MaxListItems :: nat where "MaxListItems = 100"
definition MaxPatternLength :: int where "MaxPatternLength = 1024"
definition MaxRuleTagLength :: int where "MaxRuleTagLength = 128"
definition MaxCWLength :: int where "MaxCWLength = 512"
definition MaxNewWithinHours :: int where "MaxNewWithinHours = 24 * 365"
definition MaxPosition :: int where "MaxPosition = 1000000"

definition ModeDisabled :: string where "ModeDisabled = ''disabled''"
definition ModeRecord :: string where "ModeRecord = ''record''"
definition ModeEnforce :: string where "ModeEnforce = ''enforce''"
definition TargetNote :: string where "TargetNote = ''note''"
definition TargetActivity :: string where "TargetActivity = ''activity''"

definition ActivityTypes :: "string list" where
  "ActivityTypes = [''Follow'', ''Undo'', ''Accept'', ''Reject'', ''Create'', ''Update'', ''Delete'',
     ''Like'', ''EmojiReact'', ''Announce'', ''Block'', ''Flag'', ''Move'', ''Add'', ''Remove'']"

record fed_rule =
  RuleID :: string
  RuleCreatedAt :: int
  RuleUpdatedAt :: int
  RuleName :: string
  RuleMode :: string
  RuleTarget :: string
  RulePosition :: int
  RuleHosts :: "string list"
  RuleTypes :: "string list"
  RuleIsBot :: "bool option"
  NewWithinHours :: "int option"
  RulePatterns :: "string list"
  HasAttachment :: "bool option"
  RuleTags :: "string list"
  Reject :: bool
  StripMedia :: bool
  Sensitive :: bool
  Unlist :: bool
  RuleCW :: "string option"

datatype fed_error = InvalidRule string | NoSuchRule | TooManyRules | StoreFailed

section \<open>Validation\<close>

fun normalize_from :: "string \<Rightarrow> int \<Rightarrow> (string \<Rightarrow> string) \<Rightarrow> string list \<Rightarrow> string list \<Rightarrow> fed_error + string list" where
  "normalize_from field maxLen f out [] = (if MaxListItems < length out then Inl (InvalidRule field) else Inr out)"
| "normalize_from field maxLen f out (v # vs) = (let x = f v in
     if x = [] \<or> x \<in> set out then normalize_from field maxLen f out vs
     else if maxLen < rune_count x \<or> \<not> Storable x then Inl (InvalidRule field)
     else normalize_from field maxLen f (out @ [x]) vs)"

definition normalizeList :: "string \<Rightarrow> string list \<Rightarrow> int \<Rightarrow> (string \<Rightarrow> string) \<Rightarrow> fed_error + string list" where
  "normalizeList field xs maxLen f = normalize_from field maxLen f [] xs"

definition canonicalActivityType :: "fed_env \<Rightarrow> string \<Rightarrow> string option" where
  "canonicalActivityType e t = find (\<lambda>known. EqualFold e known t) ActivityTypes"

definition after_scheme :: "string \<Rightarrow> string" where
  "after_scheme s = (case find (\<lambda>i. prefix ''://'' (drop i s)) [0..<length s] of None \<Rightarrow> s | Some i \<Rightarrow> drop (i + 3) s)"

definition normalizeHostPattern :: "fed_env \<Rightarrow> string \<Rightarrow> string" where
  "normalizeHostPattern e s = (let h = takeWhile (\<lambda>c. c \<notin> {CHR ''/'', CHR ''?'', CHR ''#''}) (after_scheme (ToLower e (TrimSpace s))) in
     rev (takeWhile (\<lambda>c. c \<noteq> CHR ''@'') (rev h)))"

definition normalize_tag :: "fed_env \<Rightarrow> string \<Rightarrow> string" where
  "normalize_tag e s = (let t = TrimSpace s in TagNorm e (if prefix ''#'' t then tl t else t))"

definition bad :: "bool \<Rightarrow> string \<Rightarrow> fed_error + unit" where
  "bad b field = (if b then Inl (InvalidRule field) else Inr ())"

definition also_ok :: "'e + 'a \<Rightarrow> ('a \<Rightarrow> 'e + 'b) \<Rightarrow> 'e + 'b" where
  "also_ok m f = (case m of Inl x \<Rightarrow> Inl x | Inr a \<Rightarrow> f a)"

fun canonical_types :: "fed_env \<Rightarrow> string list \<Rightarrow> fed_error + string list" where
  "canonical_types e [] = Inr []"
| "canonical_types e (t # ts) = (case canonicalActivityType e t of None \<Rightarrow> Inl (InvalidRule ''activityTypes'')
     | Some c \<Rightarrow> also_ok (canonical_types e ts) (\<lambda>cs. Inr (c # cs)))"

definition normalize_cw :: "string option \<Rightarrow> fed_error + string option" where
  "normalize_cw cw = (case cw of None \<Rightarrow> Inr None
     | Some s \<Rightarrow> let t = TrimSpace s in
         if t = [] then Inr None else if MaxCWLength < rune_count t \<or> \<not> Storable t then Inl (InvalidRule ''cw'') else Inr (Some t))"

definition check_target :: "fed_rule \<Rightarrow> fed_error + unit" where
  \<comment> \<open>an activity rule only rejects and knows no contents; a note rule has a condition and an action\<close>
  "check_target r =
     (if RuleTarget r = TargetActivity then
        also_ok (bad (RuleTypes r = []) ''activityTypes'') (\<lambda>_.
        also_ok (bad (RulePatterns r \<noteq> [] \<or> RuleTags r \<noteq> [] \<or> HasAttachment r \<noteq> None) ''target'') (\<lambda>_.
        bad (\<not> Reject r \<or> StripMedia r \<or> Sensitive r \<or> Unlist r \<or> RuleCW r \<noteq> None) ''target''))
      else if RuleTarget r = TargetNote then
        also_ok (bad (RuleTypes r \<noteq> []) ''activityTypes'') (\<lambda>_.
        also_ok (bad (RuleHosts r = [] \<and> RuleIsBot r = None \<and> NewWithinHours r = None \<and> RulePatterns r = [] \<and> RuleTags r = []
          \<and> HasAttachment r = None) ''target'') (\<lambda>_.
        bad (\<not> Reject r \<and> \<not> StripMedia r \<and> \<not> Sensitive r \<and> \<not> Unlist r \<and> RuleCW r = None) ''target''))
      else Inl (InvalidRule ''target''))"

definition Normalize :: "fed_env \<Rightarrow> fed_rule \<Rightarrow> fed_error + fed_rule" where
  "Normalize e r = (let name = TrimSpace (RuleName r) in
     also_ok (bad (MaxNameLength < rune_count name \<or> \<not> Storable name) ''name'') (\<lambda>_.
     also_ok (bad (RulePosition r < 0 \<or> MaxPosition < RulePosition r) ''position'') (\<lambda>_.
     also_ok (bad (RuleMode r \<notin> {ModeDisabled, ModeRecord, ModeEnforce}) ''mode'') (\<lambda>_.
     also_ok (normalizeList ''hosts'' (RuleHosts r) 128 (normalizeHostPattern e)) (\<lambda>hosts.
     also_ok (normalizeList ''patterns'' (RulePatterns r) MaxPatternLength TrimSpace) (\<lambda>patterns.
     also_ok (bad (Compile (RuleRegexps e) patterns = None) ''patterns'') (\<lambda>_.
     also_ok (normalizeList ''tags'' (RuleTags r) MaxRuleTagLength (normalize_tag e)) (\<lambda>tags.
     also_ok (normalizeList ''activityTypes'' (RuleTypes r) 64 TrimSpace) (\<lambda>types0.
     also_ok (canonical_types e types0) (\<lambda>types.
     also_ok (bad (case NewWithinHours r of None \<Rightarrow> False | Some h \<Rightarrow> h < 1 \<or> MaxNewWithinHours < h) ''newWithinHours'') (\<lambda>_.
     also_ok (normalize_cw (RuleCW r)) (\<lambda>cw.
     let r' = r\<lparr>RuleName := name, RuleHosts := hosts, RulePatterns := patterns, RuleTags := tags, RuleTypes := types, RuleCW := cw\<rparr> in
     also_ok (check_target r') (\<lambda>_. Inr r')))))))))))))"

section \<open>Evaluation\<close>

record fed_actor =
  Known :: bool
  IsBotActor :: bool
  FirstSeen :: "int option"

record activity_input =
  ActHost :: string
  ActType :: string
  ActActor :: fed_actor
  ActSubject :: string

record note_input =
  NoteHost :: string
  NoteActor :: fed_actor
  NoteTextIn :: string
  NoteCWIn :: string
  PollChoicesIn :: "string list"
  NoteTagsIn :: "string list"
  NoteHasAttachment :: bool
  NoteSubject :: string
  NoteUpdate :: bool
  NoteAt :: "int option"

record fed_decision =
  DReject :: bool
  DStripMedia :: bool
  DSensitive :: bool
  DUnlist :: bool
  DCW :: "string option"

record compiled_rule =
  TheRule :: fed_rule
  PatternMatcher :: "matcher_entry list"
  TypeSet :: "string set"
  TagSet :: "string set"

record rule_set =
  NoteRules :: "compiled_rule list"
  ActivityRules :: "compiled_rule list"

definition no_decision :: fed_decision where
  "no_decision = \<lparr>DReject = False, DStripMedia = False, DSensitive = False, DUnlist = False, DCW = None\<rparr>"

definition no_rules :: rule_set where
  "no_rules = \<lparr>NoteRules = [], ActivityRules = []\<rparr>"

definition AnyEffect :: "fed_decision \<Rightarrow> bool" where
  "AnyEffect d = (DReject d \<or> DStripMedia d \<or> DSensitive d \<or> DUnlist d \<or> DCW d \<noteq> None)"

definition compile_rule :: "fed_env \<Rightarrow> fed_rule \<Rightarrow> compiled_rule option" where
  "compile_rule e r = (if RuleMode r \<notin> {ModeRecord, ModeEnforce} then None
     else map_option (\<lambda>m. \<lparr>TheRule = r, PatternMatcher = m, TypeSet = ToLower e ` set (RuleTypes r), TagSet = set (RuleTags r)\<rparr>)
       (Compile (RuleRegexps e) (RulePatterns r)))"

definition compileRules :: "fed_env \<Rightarrow> fed_rule list \<Rightarrow> rule_set" where
  \<comment> \<open>a rule whose patterns do not compile is left out as a whole\<close>
  "compileRules e rs = (let cs = List.map_filter (compile_rule e) rs in
     \<lparr>NoteRules = filter (\<lambda>c. RuleTarget (TheRule c) = TargetNote) cs,
      ActivityRules = filter (\<lambda>c. RuleTarget (TheRule c) = TargetActivity) cs\<rparr>)"

definition canonicalType :: "fed_env \<Rightarrow> string \<Rightarrow> string" where
  "canonicalType e t = (let l = ToLower e t in if l = ''emojireaction'' then ''emojireact'' else l)"

definition hour_ns :: int where "hour_ns = 3600 * 1000000000"

definition matchesActor :: "fed_env \<Rightarrow> compiled_rule \<Rightarrow> string \<Rightarrow> fed_actor \<Rightarrow> int \<Rightarrow> bool" where
  \<comment> \<open>an actor not seen before is new and neither a bot nor none\<close>
  "matchesActor e c host a now = (let r = TheRule c in
     (RuleHosts r = [] \<or> (host \<noteq> [] \<and> MatchesBlockList e (RuleHosts r) host))
     \<and> (case RuleIsBot r of None \<Rightarrow> True | Some b \<Rightarrow> Known a \<and> IsBotActor a = b)
     \<and> (case NewWithinHours r of None \<Rightarrow> True | Some h \<Rightarrow> \<not> Known a
          \<or> (case FirstSeen a of None \<Rightarrow> False | Some t \<Rightarrow> now - t < h * hour_ns)))"

definition matchesActivity :: "fed_env \<Rightarrow> compiled_rule \<Rightarrow> activity_input \<Rightarrow> int \<Rightarrow> bool" where
  "matchesActivity e c inp now = (canonicalType e (ActType inp) \<in> TypeSet c \<and> matchesActor e c (ActHost inp) (ActActor inp) now)"

definition matchesNote :: "fed_env \<Rightarrow> compiled_rule \<Rightarrow> note_input \<Rightarrow> int \<Rightarrow> bool" where
  "matchesNote e c inp now = (let r = TheRule c; m = PatternMatcher c in
     matchesActor e c (NoteHost inp) (NoteActor inp) now
     \<and> (case HasAttachment r of None \<Rightarrow> True | Some b \<Rightarrow> NoteHasAttachment inp = b)
     \<and> (TagSet c = {} \<or> (\<exists>t \<in> set (NoteTagsIn inp). t \<in> TagSet c))
     \<and> (m = [] \<or> Match m (NoteTextIn inp) \<or> Match m (NoteCWIn inp) \<or> (\<exists>t \<in> set (PollChoicesIn inp). Match m t)))"

definition merge_rule :: "fed_rule \<Rightarrow> fed_decision \<Rightarrow> fed_decision" where
  \<comment> \<open>the first content warning stays\<close>
  "merge_rule r d = \<lparr>DReject = DReject d \<or> Reject r, DStripMedia = DStripMedia d \<or> StripMedia r, DSensitive = DSensitive d \<or> Sensitive r,
     DUnlist = DUnlist d \<or> Unlist r, DCW = (if DCW d = None then RuleCW r else DCW d)\<rparr>"

definition enforced :: "compiled_rule \<Rightarrow> bool" where
  "enforced c = (RuleMode (TheRule c) = ModeEnforce)"

definition note_time :: "note_input \<Rightarrow> int \<Rightarrow> int" where
  \<comment> \<open>an edit is measured at the time of the post, a post from before the first sight of its author at the present\<close>
  "note_time inp now = (case NoteAt inp of None \<Rightarrow> now
     | Some t \<Rightarrow> (case FirstSeen (NoteActor inp) of None \<Rightarrow> t | Some s \<Rightarrow> if t < s then now else t))"

end
