(* ===== verification/Fed_Service.thy ===== *)
theory Fed_Service imports Fed_Rule "HOL-Library.Char_ord" "HOL-Library.List_Lexorder" "HOL-Library.Product_Lexorder" begin

text \<open>
  The federation rules at work: the snapshot of the compiled rules that every evaluation uses and its
  reloads (core/fedrule/service.go), the admin's changes (core/fedrule/manager.go), and the table
  (repository/federation_rule.go).

  \<open>RuleFaults\<close> holds for each coming statement whether it fails, \<open>Clock\<close> is the time in nanoseconds, and \<open>RuleLog\<close> is what
  has gone out: recorded hits, forgotten hits, and notices to the other processes.  \<open>Invalidate\<close> is such a notice
  arriving.  An evaluation and an admin's change are one step each (the locks of the code).
\<close>

section \<open>State\<close>

datatype fed_event =
    RecordHit string string string string bool int
  | ForgetHits string
  | NotifyProcesses

record fed_state =
  RuleFaults :: "bool list"
  RuleRows :: "fed_rule list"
  Snapshot :: rule_set
  Stale :: bool
  NextLoad :: int
  Clock :: int
  RuleSerial :: nat
  RuleLog :: "fed_event list"

type_synonym 'a fed_act = "(fed_state, fed_error, 'a) act"

record fed_wiring = fed_env +
  Evaluator :: bool
  Recorder :: bool
  HitReader :: bool
  Notifier :: bool
  NewRuleID :: "nat \<Rightarrow> string"
  SeenAt :: "(string \<Rightarrow> int option) option"

definition log_event :: "bool \<Rightarrow> fed_event \<Rightarrow> unit fed_act" where
  "log_event b x = (if b then change (\<lambda>w. w\<lparr>RuleLog := RuleLog w @ [x]\<rparr>) else ret ())"

definition rule_db :: "unit fed_act" where
  "rule_db = bind_act (query (\<lambda>w. RuleFaults w \<noteq> [] \<and> hd (RuleFaults w))) (\<lambda>fails.
     then_act (change (\<lambda>w. w\<lparr>RuleFaults := tl (RuleFaults w)\<rparr>)) (reject_if fails StoreFailed))"

section \<open>Table\<close>

definition in_order :: "fed_rule list \<Rightarrow> fed_rule list" where
  "in_order rs = sort_key (\<lambda>r. (RulePosition r, RuleID r)) rs"

definition ListRules :: "fed_rule list fed_act" where
  "ListRules = then_act rule_db (query (\<lambda>w. in_order (RuleRows w)))"

definition FindRule :: "string \<Rightarrow> fed_rule fed_act" where
  "FindRule i = (if \<not> Storable i then stop_with (Err NoSuchRule)
     else then_act rule_db (bind_act (query (\<lambda>w. find (\<lambda>r. RuleID r = i) (RuleRows w))) (\<lambda>r.
       case r of None \<Rightarrow> stop_with (Err NoSuchRule) | Some r \<Rightarrow> ret r)))"

definition CountRules :: "int fed_act" where
  "CountRules = then_act rule_db (query (\<lambda>w. int (length (RuleRows w))))"

definition InsertRule :: "fed_rule \<Rightarrow> unit fed_act" where
  "InsertRule r = then_act rule_db (bind_act (query (\<lambda>w. RuleID r \<in> RuleID ` set (RuleRows w))) (\<lambda>dup.
     then_act (reject_if (dup \<or> \<not> Fits (RuleID r) 32) StoreFailed) (change (\<lambda>w. w\<lparr>RuleRows := RuleRows w @ [r]\<rparr>))))"

definition OverwriteRule :: "fed_rule \<Rightarrow> unit fed_act" where
  \<comment> \<open>the id and the time of creation stay\<close>
  "OverwriteRule r = then_act rule_db (bind_act (query (\<lambda>w. RuleID r \<in> RuleID ` set (RuleRows w))) (\<lambda>there.
     then_act (reject_if (\<not> there) NoSuchRule)
     (change (\<lambda>w. w\<lparr>RuleRows := map (\<lambda>x. if RuleID x = RuleID r then r\<lparr>RuleCreatedAt := RuleCreatedAt x\<rparr> else x) (RuleRows w)\<rparr>))))"

definition RemoveRule :: "string \<Rightarrow> unit fed_act" where
  "RemoveRule i = (if \<not> Storable i then stop_with (Err NoSuchRule)
     else then_act rule_db (bind_act (query (\<lambda>w. i \<in> RuleID ` set (RuleRows w))) (\<lambda>there.
       then_act (reject_if (\<not> there) NoSuchRule) (change (\<lambda>w. w\<lparr>RuleRows := filter (\<lambda>x. RuleID x \<noteq> i) (RuleRows w)\<rparr>)))))"

section \<open>The snapshot\<close>

definition reloadInterval :: int where "reloadInterval = 5 * 60 * 1000000000"
definition retryInterval :: int where "retryInterval = 30 * 1000000000"

definition loadRules :: "fed_wiring \<Rightarrow> unit fed_act" where
  \<comment> \<open>a failing load keeps the snapshot and is tried again after \<open>retryInterval\<close>\<close>
  "loadRules e = then_act (change (\<lambda>w. w\<lparr>Stale := False\<rparr>)) (bind_act (attempt ListRules) (\<lambda>r. case r of
       Stop x \<Rightarrow> then_act (change (\<lambda>w. w\<lparr>NextLoad := Clock w + retryInterval\<rparr>)) (stop_with x)
     | Val rs \<Rightarrow> change (\<lambda>w. w\<lparr>Snapshot := compileRules (fed_env.truncate e) rs, NextLoad := Clock w + reloadInterval\<rparr>)))"

definition reload :: "fed_wiring \<Rightarrow> unit fed_act" where
  "reload e = bind_act (attempt (loadRules e)) (\<lambda>_. ret ())"

definition currentRules :: "fed_wiring \<Rightarrow> rule_set fed_act" where
  "currentRules e = bind_act (query (\<lambda>w. Stale w \<or> NextLoad w \<le> Clock w)) (\<lambda>old.
     then_act (if old then reload e else ret ()) (query Snapshot))"

definition Invalidate :: "unit fed_act" where
  "Invalidate = change (\<lambda>w. w\<lparr>Stale := True\<rparr>)"

definition new_service :: "fed_state \<Rightarrow> fed_state" where
  "new_service w = w\<lparr>Snapshot := no_rules, Stale := False, NextLoad := 0\<rparr>"

definition NewService :: "fed_wiring \<Rightarrow> unit fed_act" where
  "NewService e = then_act (change new_service) (reload e)"

definition ActorFacts :: "fed_wiring \<Rightarrow> (string \<times> bool) option \<Rightarrow> fed_actor" where
  \<comment> \<open>a user is its id and whether it is a bot\<close>
  "ActorFacts e u = (case u of None \<Rightarrow> \<lparr>Known = False, IsBotActor = False, FirstSeen = None\<rparr>
     | Some (i, b) \<Rightarrow> \<lparr>Known = True, IsBotActor = b, FirstSeen = (case SeenAt e of None \<Rightarrow> None | Some f \<Rightarrow> f i)\<rparr>)"

section \<open>Evaluation\<close>

fun apply_rules :: "fed_wiring \<Rightarrow> (compiled_rule \<Rightarrow> bool) \<Rightarrow> (compiled_rule \<Rightarrow> fed_event) \<Rightarrow> compiled_rule list \<Rightarrow> fed_decision \<Rightarrow> fed_decision fed_act" where
  "apply_rules e hits hit [] d = ret d"
| "apply_rules e hits hit (c # cs) d = (if \<not> hits c then apply_rules e hits hit cs d
     else then_act (log_event (Recorder e) (hit c))
       (apply_rules e hits hit cs (if enforced c then merge_rule (TheRule c) d else d)))"

definition EvaluateActivity :: "fed_wiring \<Rightarrow> activity_input \<Rightarrow> fed_decision fed_act" where
  "EvaluateActivity e inp = bind_act (currentRules e) (\<lambda>s. bind_act (query Clock) (\<lambda>now.
     apply_rules e (\<lambda>c. matchesActivity (fed_env.truncate e) c inp now)
       (\<lambda>c. RecordHit (RuleID (TheRule c)) (ActHost inp) (ActSubject inp) (ActType inp) (enforced c) now) (ActivityRules s) no_decision))"

definition EvaluateNote :: "fed_wiring \<Rightarrow> note_input \<Rightarrow> fed_decision fed_act" where
  "EvaluateNote e inp = bind_act (currentRules e) (\<lambda>s. bind_act (query Clock) (\<lambda>now.
     apply_rules e (\<lambda>c. matchesNote (fed_env.truncate e) c inp (note_time inp now))
       (\<lambda>c. RecordHit (RuleID (TheRule c)) (NoteHost inp) (NoteSubject inp) (if NoteUpdate inp then ''Update'' else ''Note'') (enforced c) now)
       (NoteRules s) no_decision))"

section \<open>Changes\<close>

definition changed :: "fed_wiring \<Rightarrow> unit fed_act" where
  "changed e = then_act (if \<not> Evaluator e then ret ()
       else bind_act (attempt (loadRules e)) (\<lambda>r. case r of Val _ \<Rightarrow> ret () | Stop _ \<Rightarrow> Invalidate))
     (log_event (Notifier e) NotifyProcesses)"

definition sameConditions :: "fed_rule \<Rightarrow> fed_rule \<Rightarrow> bool" where
  "sameConditions a b = (RuleTarget a = RuleTarget b \<and> RuleHosts a = RuleHosts b \<and> RuleTypes a = RuleTypes b
     \<and> RulePatterns a = RulePatterns b \<and> RuleTags a = RuleTags b \<and> RuleIsBot a = RuleIsBot b
     \<and> NewWithinHours a = NewWithinHours b \<and> HasAttachment a = HasAttachment b)"

definition validated :: "fed_wiring \<Rightarrow> fed_rule \<Rightarrow> fed_rule fed_act" where
  "validated e r = (case Normalize (fed_env.truncate e) r of Inl x \<Rightarrow> stop_with (Err x) | Inr r' \<Rightarrow> ret r')"

definition CreateRule :: "fed_wiring \<Rightarrow> fed_rule \<Rightarrow> fed_rule fed_act" where
  "CreateRule e r = bind_act (validated e r) (\<lambda>r1.
     bind_act CountRules (\<lambda>n.
     then_act (reject_if (MaxRules \<le> n) TooManyRules)
     (bind_act (query Clock) (\<lambda>now.
     bind_act (query RuleSerial) (\<lambda>k.
     let r2 = r1\<lparr>RuleID := NewRuleID e k, RuleCreatedAt := now, RuleUpdatedAt := now\<rparr> in
     then_act (change (\<lambda>w. w\<lparr>RuleSerial := Suc k\<rparr>))
     (then_act (InsertRule r2) (then_act (changed e) (ret r2))))))))"

definition UpdateRule :: "fed_wiring \<Rightarrow> fed_rule \<Rightarrow> (fed_rule \<times> fed_rule) fed_act" where
  "UpdateRule e r = bind_act (validated e r) (\<lambda>r1.
     bind_act (FindRule (RuleID r1)) (\<lambda>before.
     bind_act (query Clock) (\<lambda>now.
     let r2 = r1\<lparr>RuleCreatedAt := RuleCreatedAt before, RuleUpdatedAt := now\<rparr> in
     then_act (OverwriteRule r2)
     (then_act (log_event (HitReader e \<and> \<not> sameConditions before r2) (ForgetHits (RuleID r2)))
     (then_act (changed e) (ret (before, r2)))))))"

definition DeleteRule :: "fed_wiring \<Rightarrow> string \<Rightarrow> fed_rule fed_act" where
  "DeleteRule e i = bind_act (FindRule i) (\<lambda>before.
     then_act (RemoveRule i) (then_act (log_event (HitReader e) (ForgetHits i)) (then_act (changed e) (ret before))))"

end
