(* ===== verification/Fed_Claims.thy ===== *)
theory Fed_Claims imports Fed_Service begin

text \<open>
  Properties of federation rules: what a stored rule looks like, what an evaluation decides and
  records, and that the rules in force keep up with the rules in the table.
\<close>

section \<open>Stored rules\<close>

definition list_ok :: "int \<Rightarrow> string list \<Rightarrow> bool" where
  "list_ok n xs = (distinct xs \<and> length xs \<le> MaxListItems \<and> (\<forall>x \<in> set xs. x \<noteq> [] \<and> Fits x n))"

definition types_ok :: "string list \<Rightarrow> bool" where
  "types_ok ts = (length ts \<le> MaxListItems \<and> set ts \<subseteq> set ActivityTypes)"

definition cw_ok :: "string option \<Rightarrow> bool" where
  "cw_ok cw = (case cw of None \<Rightarrow> True | Some t \<Rightarrow> t \<noteq> [] \<and> Fits t MaxCWLength)"

definition hours_ok :: "int option \<Rightarrow> bool" where
  "hours_ok h = (case h of None \<Rightarrow> True | Some h \<Rightarrow> 1 \<le> h \<and> h \<le> MaxNewWithinHours)"

definition normal_rule :: "fed_env \<Rightarrow> fed_rule \<Rightarrow> bool" where
  \<comment> \<open>every text fits its column, the patterns compile, and the rule has a condition and an action\<close>
  "normal_rule e r = (Fits (RuleName r) MaxNameLength \<and> 0 \<le> RulePosition r \<and> RulePosition r \<le> MaxPosition
     \<and> RuleMode r \<in> {ModeDisabled, ModeRecord, ModeEnforce} \<and> list_ok 128 (RuleHosts r) \<and> list_ok MaxPatternLength (RulePatterns r)
     \<and> Compile (RuleRegexps e) (RulePatterns r) \<noteq> None \<and> list_ok MaxRuleTagLength (RuleTags r) \<and> types_ok (RuleTypes r)
     \<and> hours_ok (NewWithinHours r) \<and> cw_ok (RuleCW r) \<and> check_target r = Inr ())"

lemma also_ok_Inr: "also_ok m f = Inr y \<longleftrightarrow> (\<exists>x. m = Inr x \<and> f x = Inr y)"
  by (cases m) (simp_all add: also_ok_def)

lemma bad_Inr: "bad b x = Inr y \<longleftrightarrow> \<not> b"
  by (simp add: bad_def)

lemma normalize_from_ok:
  assumes "normalize_from field n f out vs = Inr ys" "distinct out" "\<forall>x \<in> set out. x \<noteq> [] \<and> Fits x n"
  shows "list_ok n ys"
  using assms
proof (induction vs arbitrary: out)
  case Nil
  then show ?case by (auto simp: list_ok_def split: if_splits)
next
  case (Cons v vs)
  show ?case
  proof (cases "f v = [] \<or> f v \<in> set out")
    case True
    then show ?thesis using Cons by (simp add: Let_def)
  next
    case False
    then have "Fits (f v) n" "normalize_from field n f (out @ [f v]) vs = Inr ys"
      using Cons.prems(1) by (auto simp: Let_def Fits_def split: if_splits)
    then show ?thesis using Cons.IH [of "out @ [f v]"] Cons.prems(2,3) False by auto
  qed
qed

lemma normalizeList_ok: "normalizeList field xs n f = Inr ys \<Longrightarrow> list_ok n ys"
  unfolding normalizeList_def by (erule normalize_from_ok) simp_all

lemma canonical_types_ok: "canonical_types e ts = Inr cs \<Longrightarrow> length cs = length ts \<and> set cs \<subseteq> set ActivityTypes"
proof (induction ts arbitrary: cs)
  case (Cons t ts)
  then obtain c ds where "canonicalActivityType e t = Some c" "canonical_types e ts = Inr ds" "cs = c # ds"
    by (auto simp: also_ok_Inr split: option.splits)
  moreover from this(1) have "c \<in> set ActivityTypes"
    unfolding canonicalActivityType_def by (auto simp: find_Some_iff)
  ultimately show ?case using Cons.IH by simp
qed simp

lemma normalize_cw_ok: "normalize_cw cw = Inr cw' \<Longrightarrow> cw_ok cw'"
  by (auto simp: normalize_cw_def cw_ok_def Let_def Fits_def split: option.splits if_splits)

lemma Normalize_cases:
  assumes "Normalize e r = Inr r'"
  shows "normal_rule e r' \<and> RuleID r' = RuleID r"
  using assms unfolding Normalize_def Let_def also_ok_Inr bad_Inr
proof (elim exE conjE, goal_cases)
  case (1 _ _ _ hosts patterns _ tags types0 types _ cw)
  have "list_ok 128 hosts" "list_ok MaxPatternLength patterns" "list_ok MaxRuleTagLength tags" "list_ok 64 types0"
    using 1 by (simp_all add: normalizeList_ok)
  moreover have "length types = length types0 \<and> set types \<subseteq> set ActivityTypes" "cw_ok cw"
    using 1 by (simp_all add: canonical_types_ok normalize_cw_ok)
  moreover have "hours_ok (NewWithinHours r)" using 1 by (auto simp: hours_ok_def split: option.splits)
  ultimately show ?case using 1 by (auto simp: normal_rule_def types_ok_def list_ok_def Fits_def)
qed

text \<open>A rule that passes validation is normal: each of its texts fits its column, so no statement can fail over it, its patterns compile,
  an activity rule does nothing but reject, and a note rule has at least one condition and one action.\<close>

theorem Normalize_normal:
  assumes "Normalize e r = Inr r'"
  shows "normal_rule e r'"
  using Normalize_cases [OF assms] by simp

section \<open>What an evaluation decides\<close>

definition first_cw :: "compiled_rule list \<Rightarrow> string option" where
  "first_cw cs = (case List.map_filter (RuleCW \<circ> TheRule) cs of [] \<Rightarrow> None | t # _ \<Rightarrow> Some t)"

definition combined :: "compiled_rule list \<Rightarrow> fed_decision" where
  \<comment> \<open>the effects of all rules, and the first content warning\<close>
  "combined cs = \<lparr>DReject = (\<exists>c \<in> set cs. Reject (TheRule c)), DStripMedia = (\<exists>c \<in> set cs. StripMedia (TheRule c)),
     DSensitive = (\<exists>c \<in> set cs. Sensitive (TheRule c)), DUnlist = (\<exists>c \<in> set cs. Unlist (TheRule c)), DCW = first_cw cs\<rparr>"

definition join_decision :: "fed_decision \<Rightarrow> fed_decision \<Rightarrow> fed_decision" where
  "join_decision d x = \<lparr>DReject = DReject d \<or> DReject x, DStripMedia = DStripMedia d \<or> DStripMedia x, DSensitive = DSensitive d \<or> DSensitive x,
     DUnlist = DUnlist d \<or> DUnlist x, DCW = (if DCW d = None then DCW x else DCW d)\<rparr>"

lemma join_none: "join_decision no_decision d = d" "join_decision d (combined []) = d"
  by (simp_all add: join_decision_def no_decision_def combined_def first_cw_def)

lemma first_cw_Cons: "first_cw (c # cs) = (if RuleCW (TheRule c) = None then first_cw cs else RuleCW (TheRule c))"
  by (auto simp: first_cw_def List.map_filter_simps split: option.splits)

lemma join_merge: "join_decision (merge_rule (TheRule c) d) (combined cs) = join_decision d (combined (c # cs))"
  by (auto simp: join_decision_def merge_rule_def combined_def first_cw_Cons)

definition logged :: "bool \<Rightarrow> fed_event list \<Rightarrow> fed_state \<Rightarrow> fed_state" where
  "logged b xs w = w\<lparr>RuleLog := RuleLog w @ (if b then xs else [])\<rparr>"

lemma wp_log_event [simp]: "wp (log_event b x) Q E w = Q () (logged b [x] w)"
  by (simp add: log_event_def logged_def)

lemma logged_logged: "logged b ys (logged b xs w) = logged b (xs @ ys) w"
  by (simp add: logged_def)

lemma wp_apply_rules:
  "wp (apply_rules e hits hit cs d) Q E w
    = Q (join_decision d (combined (filter (\<lambda>c. hits c \<and> enforced c) cs))) (logged (Recorder e) (map hit (filter hits cs)) w)"
proof (induction cs arbitrary: d w)
  case Nil
  then show ?case by (simp add: join_none logged_def)
next
  case (Cons c cs)
  then show ?case by (simp add: logged_logged join_merge)
qed

definition stored_rules :: "fed_wiring \<Rightarrow> fed_state \<Rightarrow> rule_set" where
  "stored_rules e w = compileRules (fed_env.truncate e) (in_order (RuleRows w))"

definition beside_snapshot :: "fed_state \<Rightarrow> fed_state \<Rightarrow> bool" where
  "beside_snapshot w w' = (RuleRows w' = RuleRows w \<and> Clock w' = Clock w \<and> RuleLog w' = RuleLog w \<and> RuleSerial w' = RuleSerial w)"

lemma wp_rule_db [simp]:
  "wp rule_db Q E w = (if RuleFaults w \<noteq> [] \<and> hd (RuleFaults w) then E (Err StoreFailed) (w\<lparr>RuleFaults := tl (RuleFaults w)\<rparr>)
     else Q () (w\<lparr>RuleFaults := tl (RuleFaults w)\<rparr>))"
  by (simp add: rule_db_def)

lemma wp_loadRules:
  "wp (loadRules e)
     (\<lambda>_ w'. beside_snapshot w w' \<and> Snapshot w' = stored_rules e w \<and> \<not> Stale w' \<and> NextLoad w' = Clock w + reloadInterval)
     (\<lambda>x w'. x = Err StoreFailed \<and> beside_snapshot w w' \<and> Snapshot w' = Snapshot w \<and> \<not> Stale w' \<and> NextLoad w' = Clock w + retryInterval
        \<and> RuleFaults w \<noteq> []) w"
  by (simp add: loadRules_def ListRules_def beside_snapshot_def stored_rules_def)

definition refreshed :: "fed_wiring \<Rightarrow> fed_state \<Rightarrow> fed_state \<Rightarrow> bool" where
  \<comment> \<open>what an evaluation does to the snapshot before it looks at it\<close>
  "refreshed e w w' = (beside_snapshot w w' \<and>
     (if Stale w \<or> NextLoad w \<le> Clock w
      then \<not> Stale w' \<and> ((Snapshot w' = stored_rules e w \<and> NextLoad w' = Clock w + reloadInterval)
         \<or> (RuleFaults w \<noteq> [] \<and> Snapshot w' = Snapshot w \<and> NextLoad w' = Clock w + retryInterval))
      else w' = w))"

lemma wp_currentRules: "wp (currentRules e) (\<lambda>s w'. s = Snapshot w' \<and> refreshed e w w') (\<lambda>_ _. False) w"
proof -
  have "wp (reload e) (\<lambda>_ w'. beside_snapshot w w' \<and> \<not> Stale w' \<and> ((Snapshot w' = stored_rules e w \<and> NextLoad w' = Clock w + reloadInterval)
         \<or> (RuleFaults w \<noteq> [] \<and> Snapshot w' = Snapshot w \<and> NextLoad w' = Clock w + retryInterval))) (\<lambda>_ _. False) w"
    unfolding reload_def wp_bind wp_attempt wp_ret by (rule wp_mono [OF wp_loadRules]) auto
  then show ?thesis
    by (auto simp: currentRules_def refreshed_def beside_snapshot_def elim!: wp_mono)
qed

definition note_verdict :: "fed_env \<Rightarrow> rule_set \<Rightarrow> note_input \<Rightarrow> int \<Rightarrow> fed_decision" where
  "note_verdict e s inp now = combined (filter (\<lambda>c. matchesNote e c inp (note_time inp now) \<and> enforced c) (NoteRules s))"

definition activity_verdict :: "fed_env \<Rightarrow> rule_set \<Rightarrow> activity_input \<Rightarrow> int \<Rightarrow> fed_decision" where
  "activity_verdict e s inp now = combined (filter (\<lambda>c. matchesActivity e c inp now \<and> enforced c) (ActivityRules s))"

definition note_hit :: "note_input \<Rightarrow> int \<Rightarrow> compiled_rule \<Rightarrow> fed_event" where
  "note_hit inp now c = RecordHit (RuleID (TheRule c)) (NoteHost inp) (NoteSubject inp) (if NoteUpdate inp then ''Update'' else ''Note'') (enforced c) now"

definition activity_hit :: "activity_input \<Rightarrow> int \<Rightarrow> compiled_rule \<Rightarrow> fed_event" where
  "activity_hit inp now c = RecordHit (RuleID (TheRule c)) (ActHost inp) (ActSubject inp) (ActType inp) (enforced c) now"

lemma wp_EvaluateNote:
  "wp (EvaluateNote e inp) (\<lambda>d w'. \<exists>v. refreshed e w v \<and> d = note_verdict (fed_env.truncate e) (Snapshot v) inp (Clock w)
      \<and> w' = logged (Recorder e) (map (note_hit inp (Clock w))
          (filter (\<lambda>c. matchesNote (fed_env.truncate e) c inp (note_time inp (Clock w))) (NoteRules (Snapshot v)))) v) (\<lambda>_ _. False) w"
  unfolding EvaluateNote_def wp_bind wp_query wp_apply_rules join_none
  by (rule wp_mono [OF wp_currentRules]) (auto simp: note_verdict_def note_hit_def [abs_def] refreshed_def beside_snapshot_def)

lemma wp_EvaluateActivity:
  "wp (EvaluateActivity e inp) (\<lambda>d w'. \<exists>v. refreshed e w v \<and> d = activity_verdict (fed_env.truncate e) (Snapshot v) inp (Clock w)
      \<and> w' = logged (Recorder e) (map (activity_hit inp (Clock w))
          (filter (\<lambda>c. matchesActivity (fed_env.truncate e) c inp (Clock w)) (ActivityRules (Snapshot v)))) v) (\<lambda>_ _. False) w"
  unfolding EvaluateActivity_def wp_bind wp_query wp_apply_rules join_none
  by (rule wp_mono [OF wp_currentRules]) (auto simp: activity_verdict_def activity_hit_def [abs_def] refreshed_def beside_snapshot_def)

lemma rules_restrict:
  assumes "set rs \<subseteq> set rs'"
  shows "let d = note_verdict e (compileRules e rs) inp now; d' = note_verdict e (compileRules e rs') inp now in
      (DReject d \<longrightarrow> DReject d') \<and> (DStripMedia d \<longrightarrow> DStripMedia d') \<and> (DSensitive d \<longrightarrow> DSensitive d') \<and> (DUnlist d \<longrightarrow> DUnlist d')
      \<and> (DCW d \<noteq> None \<longrightarrow> DCW d' \<noteq> None)
      \<and> note_verdict e (compileRules e (filter (\<lambda>r. RuleMode r = ModeEnforce) rs)) inp now = d"
proof -
  let ?t = "note_time inp now"
  let ?on = "\<lambda>rs. filter (\<lambda>c. matchesNote e c inp ?t \<and> enforced c) (NoteRules (compileRules e rs))"
  have sub: "set (?on rs) \<subseteq> set (?on rs')" using assms by (auto simp: compileRules_def List.map_filter_def Let_def)
  have cw: "DCW (combined cs) \<noteq> None \<longleftrightarrow> (\<exists>c \<in> set cs. RuleCW (TheRule c) \<noteq> None)" for cs
    by (induction cs) (auto simp: combined_def first_cw_Cons, simp add: first_cw_def)
  have rec: "?on (filter (\<lambda>r. RuleMode r = ModeEnforce) rs) = ?on rs"
    by (induction rs) (auto simp: compileRules_def List.map_filter_simps compile_rule_def enforced_def Let_def
      ModeRecord_def ModeEnforce_def split: option.splits)
  have "DCW (combined (?on rs)) \<noteq> None \<Longrightarrow> DCW (combined (?on rs')) \<noteq> None" unfolding cw using sub by blast
  moreover have "(DReject (combined (?on rs)) \<longrightarrow> DReject (combined (?on rs'))) \<and> (DStripMedia (combined (?on rs)) \<longrightarrow> DStripMedia (combined (?on rs')))
      \<and> (DSensitive (combined (?on rs)) \<longrightarrow> DSensitive (combined (?on rs'))) \<and> (DUnlist (combined (?on rs)) \<longrightarrow> DUnlist (combined (?on rs')))"
    using sub unfolding combined_def by auto
  ultimately show ?thesis using rec by (simp add: note_verdict_def Let_def)
qed

definition under_rules :: "fed_wiring \<Rightarrow> fed_rule list \<Rightarrow> fed_state \<Rightarrow> fed_state" where
  \<comment> \<open>with the compilation of these rules as an up-to-date snapshot\<close>
  "under_rules e rs w = w\<lparr>Snapshot := compileRules (fed_env.truncate e) rs, Stale := False, NextLoad := Clock w + 1\<rparr>"

lemma EvaluateNote_under:
  "fst (EvaluateNote e inp (under_rules e rs w)) = Val (note_verdict (fed_env.truncate e) (compileRules (fed_env.truncate e) rs) inp (Clock w))"
proof -
  have "Clock (under_rules e rs w) = Clock w" "Snapshot (under_rules e rs w) = compileRules (fed_env.truncate e) rs"
    "\<not> (Stale (under_rules e rs w) \<or> NextLoad (under_rules e rs w) \<le> Clock (under_rules e rs w))" by (simp_all add: under_rules_def)
  then show ?thesis using wp_EvaluateNote [of e inp "under_rules e rs w"]
    by (auto simp: wp_def refreshed_def split: prod.splits res.splits)
qed

text \<open>C40. Rules only restrict, and only in force: for \<open>EvaluateNote\<close> with an up-to-date snapshot, a rule that records or is disabled
  changes no decision, and adding rules, in whatever place, never lifts a rejection, a stripped
  attachment, a sensitivity mark, an unlisting or a content warning.\<close>

theorem rules_only_restrict:
  assumes "set rs \<subseteq> set rs'"
  shows "\<exists>d d'. fst (EvaluateNote e inp (under_rules e rs w)) = Val d \<and> fst (EvaluateNote e inp (under_rules e rs' w)) = Val d'
      \<and> (DReject d \<longrightarrow> DReject d') \<and> (DStripMedia d \<longrightarrow> DStripMedia d') \<and> (DSensitive d \<longrightarrow> DSensitive d') \<and> (DUnlist d \<longrightarrow> DUnlist d')
      \<and> (DCW d \<noteq> None \<longrightarrow> DCW d' \<noteq> None)
      \<and> fst (EvaluateNote e inp (under_rules e (filter (\<lambda>r. RuleMode r = ModeEnforce) rs) w)) = Val d"
  using rules_restrict [OF assms, of "fed_env.truncate e" inp "Clock w"] unfolding EvaluateNote_under by (auto simp: Let_def)

section \<open>Runs\<close>

datatype fed_call =
    AdminCreate fed_rule
  | AdminUpdate fed_rule
  | AdminDelete string
  | InboundNote note_input
  | InboundActivity activity_input
  | Notified
  | Wait nat

fun fed_step :: "fed_wiring \<Rightarrow> fed_state \<Rightarrow> fed_call \<Rightarrow> fed_state" where
  "fed_step e w (AdminCreate r) = snd (CreateRule e r w)"
| "fed_step e w (AdminUpdate r) = snd (UpdateRule e r w)"
| "fed_step e w (AdminDelete i) = snd (DeleteRule e i w)"
| "fed_step e w (InboundNote inp) = snd (EvaluateNote e inp w)"
| "fed_step e w (InboundActivity inp) = snd (EvaluateActivity e inp w)"
| "fed_step e w Notified = snd (Invalidate w)"
| "fed_step e w (Wait d) = w\<lparr>Clock := Clock w + int d\<rparr>"

definition table_ok :: "fed_wiring \<Rightarrow> fed_state \<Rightarrow> bool" where
  "table_ok e w = ((\<forall>r \<in> set (RuleRows w). normal_rule (fed_env.truncate e) r) \<and> distinct (map RuleID (RuleRows w))
     \<and> int (length (RuleRows w)) \<le> MaxRules)"

definition keeps_up :: "fed_wiring \<Rightarrow> fed_state \<Rightarrow> bool" where
  \<comment> \<open>the rules in force are the stored ones, or are about to be read again\<close>
  "keeps_up e w = (Snapshot w = stored_rules e w \<or> Stale w \<or> NextLoad w \<le> Clock w + retryInterval)"

definition fed_ok :: "fed_wiring \<Rightarrow> fed_state \<Rightarrow> bool" where
  "fed_ok e w = (table_ok e w \<and> keeps_up e w)"

definition fed_keeps :: "fed_wiring \<Rightarrow> fed_state \<Rightarrow> fed_state \<Rightarrow> bool" where
  "fed_keeps e w w' = (fed_ok e w \<longrightarrow> fed_ok e w')"

lemma refreshed_ok: "refreshed e w w' \<Longrightarrow> fed_ok e w \<Longrightarrow> fed_ok e w'"
  by (auto simp: refreshed_def fed_ok_def keeps_up_def table_ok_def stored_rules_def beside_snapshot_def split: if_splits)

lemma fed_ok_logged [simp]: "fed_ok e (logged b xs w) = fed_ok e w"
  by (simp add: fed_ok_def table_ok_def keeps_up_def stored_rules_def logged_def)

lemma changed_ok:
  assumes "table_ok e w" "Evaluator e"
  shows "wp (changed e) (\<lambda>_. fed_ok e) (\<lambda>_ _. False) w"
proof -
  have "wp (bind_act (attempt (loadRules e)) (\<lambda>r. case r of Val _ \<Rightarrow> ret () | Stop _ \<Rightarrow> Invalidate)) (\<lambda>_. fed_ok e) (\<lambda>_ _. False) w"
    unfolding wp_bind wp_attempt
    by (rule wp_mono [OF wp_loadRules])
      (use assms(1) in \<open>auto simp: Invalidate_def fed_ok_def table_ok_def keeps_up_def stored_rules_def beside_snapshot_def\<close>)
  moreover have "wp (log_event b x) (\<lambda>_. fed_ok e) E = fed_ok e" for b x E by (rule ext) simp
  ultimately show ?thesis by (simp only: changed_def assms(2) simp_thms if_False wp_then)
qed

lemma validated_result:
  "wp (validated e r) (\<lambda>r' w'. w' = w \<and> normal_rule (fed_env.truncate e) r' \<and> RuleID r' = RuleID r) (\<lambda>_ w'. w' = w) w"
  by (auto simp: validated_def dest: Normalize_cases split: sum.splits)

lemma normal_rule_stamps [simp]:
  "normal_rule e (r\<lparr>RuleID := i\<rparr>) = normal_rule e r" "normal_rule e (r\<lparr>RuleCreatedAt := a\<rparr>) = normal_rule e r"
  "normal_rule e (r\<lparr>RuleUpdatedAt := a\<rparr>) = normal_rule e r"
  by (simp_all add: normal_rule_def check_target_def)

lemma fed_ok_beside:
  "fed_ok e (w\<lparr>RuleFaults := fs\<rparr>) = fed_ok e w" "fed_ok e (w\<lparr>RuleSerial := k\<rparr>) = fed_ok e w"
  "table_ok e (w\<lparr>RuleFaults := fs\<rparr>) = table_ok e w" "table_ok e (w\<lparr>RuleSerial := k\<rparr>) = table_ok e w"
  "table_ok e (logged b xs w) = table_ok e w"
  by (simp_all add: fed_ok_def table_ok_def keeps_up_def stored_rules_def logged_def)

definition kept_or_changed :: "fed_wiring \<Rightarrow> fed_state \<Rightarrow> fed_state \<Rightarrow> bool" where
  \<comment> \<open>a statement on the table: either all is well or only the snapshot is behind\<close>
  "kept_or_changed e w w' = (fed_ok e w \<longrightarrow> table_ok e w')"

lemma InsertRule_ok:
  assumes "fed_ok e w" "normal_rule (fed_env.truncate e) r" "int (length (RuleRows w)) < MaxRules"
  shows "wp (InsertRule r) (\<lambda>_. table_ok e) (\<lambda>_. fed_ok e) w"
  using assms by (auto simp: InsertRule_def fed_ok_beside) (auto simp: fed_ok_def table_ok_def)

lemma OverwriteRule_ok:
  assumes "fed_ok e w" "normal_rule (fed_env.truncate e) r"
  shows "wp (OverwriteRule r) (\<lambda>_. table_ok e) (\<lambda>_. fed_ok e) w"
proof -
  have "map (RuleID \<circ> (\<lambda>x. if RuleID x = RuleID r then r\<lparr>RuleCreatedAt := RuleCreatedAt x\<rparr> else x)) xs = map RuleID xs" for xs
    by simp
  then have "table_ok e (w\<lparr>RuleRows := map (\<lambda>x. if RuleID x = RuleID r then r\<lparr>RuleCreatedAt := RuleCreatedAt x\<rparr> else x) (RuleRows w)\<rparr>)"
    using assms by (auto simp: fed_ok_def table_ok_def simp del: map_eq_conv)
  then show ?thesis using assms(1) by (auto simp: OverwriteRule_def fed_ok_beside) (auto simp: table_ok_def)
qed

lemma RemoveRule_ok:
  assumes "fed_ok e w"
  shows "wp (RemoveRule i) (\<lambda>_. table_ok e) (\<lambda>_. fed_ok e) w"
proof -
  have "int (length (filter P (RuleRows w))) \<le> MaxRules" if "int (length (RuleRows w)) \<le> MaxRules" for P
    using that length_filter_le [of P "RuleRows w"] by linarith
  then have "table_ok e (w\<lparr>RuleRows := filter (\<lambda>x. RuleID x \<noteq> i) (RuleRows w)\<rparr>)"
    using assms by (auto simp: fed_ok_def table_ok_def distinct_map_filter)
  then show ?thesis using assms by (auto simp: RemoveRule_def fed_ok_beside) (auto simp: table_ok_def)
qed

lemma FindRule_ok: "fed_ok e w \<Longrightarrow> wp (FindRule i) (\<lambda>_. fed_ok e) (\<lambda>_. fed_ok e) w"
  by (auto simp: FindRule_def fed_ok_beside split: option.splits)

lemma CreateRule_ok:
  assumes "fed_ok e w" "Evaluator e"
  shows "wp (CreateRule e r) (\<lambda>_. fed_ok e) (\<lambda>_. fed_ok e) w"
proof -
  have store: "wp (then_act (InsertRule r2) (then_act (changed e) (ret r2))) (\<lambda>_. fed_ok e) (\<lambda>_. fed_ok e) v"
    if "fed_ok e v" "normal_rule (fed_env.truncate e) r2" "int (length (RuleRows v)) < MaxRules" for r2 v
    unfolding wp_then wp_ret
    by (rule wp_mono [OF InsertRule_ok [OF that]]) (auto intro: wp_mono [OF changed_ok [OF _ assms(2)]])
  show ?thesis unfolding CreateRule_def wp_bind Let_def
  proof (rule wp_mono [OF validated_result], goal_cases)
    case (1 r1 v)
    have count: "wp CountRules Q E v = (if RuleFaults v \<noteq> [] \<and> hd (RuleFaults v) then E (Err StoreFailed) (v\<lparr>RuleFaults := tl (RuleFaults v)\<rparr>)
        else Q (int (length (RuleRows v))) (v\<lparr>RuleFaults := tl (RuleFaults v)\<rparr>))" for Q E
      by (simp add: CountRules_def)
    show ?case
      unfolding count wp_then [of "reject_if b x" for b x] wp_reject_if wp_query wp_then [of "change f" for f] wp_change
      using 1 assms(1) by (auto simp: fed_ok_beside wp_then [of "change f" for f] simp del: wp_then intro!: store)
  qed (use assms(1) in simp)
qed

lemma UpdateRule_ok:
  assumes "fed_ok e w" "Evaluator e"
  shows "wp (UpdateRule e r) (\<lambda>_. fed_ok e) (\<lambda>_. fed_ok e) w"
proof -
  have store: "wp (then_act (OverwriteRule r2) (then_act (log_event b x) (then_act (changed e) (ret y)))) (\<lambda>_. fed_ok e) (\<lambda>_. fed_ok e) v"
    if "fed_ok e v" "normal_rule (fed_env.truncate e) r2" for r2 v b x and y :: "fed_rule \<times> fed_rule"
    unfolding wp_then wp_ret
    by (rule wp_mono [OF OverwriteRule_ok [OF that]]) (auto simp: fed_ok_beside intro: wp_mono [OF changed_ok [OF _ assms(2)]])
  show ?thesis unfolding UpdateRule_def wp_bind Let_def
  proof (rule wp_mono [OF validated_result], goal_cases)
    case (1 r1 v)
    then have v: "fed_ok e v" and n: "normal_rule (fed_env.truncate e) r1" using assms(1) by simp_all
    show ?case unfolding wp_query
      by (rule wp_mono [OF FindRule_ok [OF v]]) (auto simp: n simp del: wp_then intro!: store)
  qed (use assms(1) in simp)
qed

lemma DeleteRule_ok:
  assumes "fed_ok e w" "Evaluator e"
  shows "wp (DeleteRule e i) (\<lambda>_. fed_ok e) (\<lambda>_. fed_ok e) w"
  unfolding DeleteRule_def wp_bind
proof (rule wp_mono [OF FindRule_ok [OF assms(1)]], goal_cases)
  case (1 before v)
  show ?case unfolding wp_then wp_ret
    by (rule wp_mono [OF RemoveRule_ok [OF 1]]) (auto simp: fed_ok_beside intro: wp_mono [OF changed_ok [OF _ assms(2)]])
qed

lemma evaluations_ok:
  assumes "fed_ok e w"
  shows "wp (EvaluateNote e inp) (\<lambda>_. fed_ok e) (\<lambda>_ _. False) w" "wp (EvaluateActivity e act) (\<lambda>_. fed_ok e) (\<lambda>_ _. False) w"
  by (rule wp_mono [OF wp_EvaluateNote], use refreshed_ok [OF _ assms] in auto)
    (rule wp_mono [OF wp_EvaluateActivity], use refreshed_ok [OF _ assms] in auto)

lemma after_wp: "wp m (\<lambda>_. P) (\<lambda>_. P) w \<Longrightarrow> P (snd (m w))"
  by (simp add: wp_state)

lemma fed_ok_step:
  assumes "fed_ok e w" "Evaluator e"
  shows "fed_ok e (fed_step e w x)"
proof (cases x)
  case (AdminCreate r)
  then show ?thesis using after_wp [OF CreateRule_ok [OF assms]] by simp
next
  case (AdminUpdate r)
  then show ?thesis using after_wp [OF UpdateRule_ok [OF assms]] by simp
next
  case (AdminDelete i)
  then show ?thesis using after_wp [OF DeleteRule_ok [OF assms]] by simp
next
  case (InboundNote inp)
  have "wp (EvaluateNote e inp) (\<lambda>_. fed_ok e) (\<lambda>_. fed_ok e) w" by (rule wp_mono [OF evaluations_ok(1) [OF assms(1)]]) simp_all
  then show ?thesis using after_wp InboundNote by simp
next
  case (InboundActivity inp)
  have "wp (EvaluateActivity e inp) (\<lambda>_. fed_ok e) (\<lambda>_. fed_ok e) w" by (rule wp_mono [OF evaluations_ok(2) [OF assms(1)]]) simp_all
  then show ?thesis using after_wp InboundActivity by simp
qed (use assms(1) in \<open>auto simp: Invalidate_def change_def fed_ok_def table_ok_def keeps_up_def stored_rules_def\<close>)

interpretation fed_runs: stepping "fed_step e" "\<lambda>w. fed_ok e w \<and> Evaluator e" for e
  by unfold_locales (auto intro: fed_ok_step)

lemma new_service_ok:
  assumes "table_ok e w"
  shows "fed_ok e (snd (NewService e w))"
proof -
  have "wp (NewService e) (\<lambda>_. fed_ok e) (\<lambda>_. fed_ok e) w"
    unfolding NewService_def reload_def wp_then wp_change wp_bind wp_attempt wp_ret
    by (rule wp_mono [OF wp_loadRules])
      (use assms in \<open>auto simp: new_service_def fed_ok_def keeps_up_def table_ok_def stored_rules_def beside_snapshot_def\<close>)
  then show ?thesis by (simp add: wp_state)
qed

text \<open>C12. Whatever the admins do, whatever comes in and whichever statements fail, every stored rule is normal, the ids are distinct,
  and there are at most a hundred rules.\<close>

theorem fed_table_run:
  assumes "table_ok e w" "Evaluator e"
  shows "table_ok e (run_steps (fed_step e) (snd (NewService e w)) calls)"
  using fed_runs.run_keeps [of e "snd (NewService e w)" calls] new_service_ok [OF assms(1)] assms(2) by (simp add: fed_ok_def)

section \<open>The evaluator and the table\<close>

definition note_rule_applies :: "fed_env \<Rightarrow> fed_rule \<Rightarrow> note_input \<Rightarrow> int \<Rightarrow> bool" where
  \<comment> \<open>the conditions of a note rule, all of them; an absent one holds\<close>
  "note_rule_applies e r inp t = ((RuleHosts r = [] \<or> NoteHost inp \<noteq> [] \<and> MatchesBlockList e (RuleHosts r) (NoteHost inp))
     \<and> (\<forall>b \<in> set_option (RuleIsBot r). Known (NoteActor inp) \<and> IsBotActor (NoteActor inp) = b)
     \<and> (\<forall>h \<in> set_option (NewWithinHours r). Known (NoteActor inp) \<longrightarrow> (\<exists>s \<in> set_option (FirstSeen (NoteActor inp)). t - s < h * hour_ns))
     \<and> (\<forall>b \<in> set_option (HasAttachment r). NoteHasAttachment inp = b)
     \<and> (RuleTags r = [] \<or> (\<exists>x \<in> set (NoteTagsIn inp). x \<in> set (RuleTags r)))
     \<and> (Compile (RuleRegexps e) (RulePatterns r) = Some []
        \<or> (\<exists>x \<in> {NoteTextIn inp, NoteCWIn inp} \<union> set (PollChoicesIn inp). IsKeyWordIncluded (RuleRegexps e) x (RulePatterns r))))"

definition table_decision :: "fed_env \<Rightarrow> fed_rule list \<Rightarrow> note_input \<Rightarrow> int \<Rightarrow> fed_decision" where
  \<comment> \<open>over the rules in their order, without snapshots and compilation\<close>
  "table_decision e rs inp now = (let rs' = filter (\<lambda>r. RuleMode r = ModeEnforce \<and> RuleTarget r = TargetNote
        \<and> note_rule_applies e r inp (note_time inp now)) rs in
     \<lparr>DReject = (\<exists>r \<in> set rs'. Reject r), DStripMedia = (\<exists>r \<in> set rs'. StripMedia r), DSensitive = (\<exists>r \<in> set rs'. Sensitive r),
      DUnlist = (\<exists>r \<in> set rs'. Unlist r), DCW = (case List.map_filter RuleCW rs' of [] \<Rightarrow> None | t # _ \<Rightarrow> Some t)\<rparr>)"

lemma matches_applies:
  assumes "compile_rule e r = Some c"
  shows "matchesNote e c inp t = note_rule_applies e r inp t"
proof -
  have m: "Compile (RuleRegexps e) (RulePatterns r) = Some (PatternMatcher c)" and c: "TheRule c = r" "TagSet c = set (RuleTags r)"
    using assms by (auto simp: compile_rule_def split: if_splits)
  show ?thesis unfolding matchesNote_def note_rule_applies_def matchesActor_def Let_def c m Compile_matches [OF m]
    by (auto split: option.splits)
qed

lemma verdict_table:
  assumes "\<forall>r \<in> set rs. normal_rule e r"
  shows "note_verdict e (compileRules e rs) inp now = table_decision e rs inp now"
proof -
  let ?t = "note_time inp now"
  let ?on = "filter (\<lambda>c. matchesNote e c inp ?t \<and> enforced c) (NoteRules (compileRules e rs))"
  have on: "map TheRule ?on = filter (\<lambda>r. RuleMode r = ModeEnforce \<and> RuleTarget r = TargetNote \<and> note_rule_applies e r inp ?t) rs"
    using assms
  proof (induction rs)
    case (Cons r rs)
    obtain m where m: "Compile (RuleRegexps e) (RulePatterns r) = Some m" using Cons.prems by (auto simp: normal_rule_def)
    show ?case
    proof (cases "compile_rule e r")
      case None
      then show ?thesis using Cons m by (auto simp: compileRules_def List.map_filter_simps compile_rule_def Let_def split: if_splits)
    next
      case (Some c)
      then have "TheRule c = r" by (auto simp: compile_rule_def split: if_splits)
      then show ?thesis using Cons Some matches_applies [OF Some]
        by (auto simp: compileRules_def List.map_filter_simps enforced_def Let_def)
    qed
  qed (simp add: compileRules_def List.map_filter_simps)
  have "combined cs = \<lparr>DReject = (\<exists>r \<in> set (map TheRule cs). Reject r), DStripMedia = (\<exists>r \<in> set (map TheRule cs). StripMedia r),
      DSensitive = (\<exists>r \<in> set (map TheRule cs). Sensitive r), DUnlist = (\<exists>r \<in> set (map TheRule cs). Unlist r),
      DCW = (case List.map_filter RuleCW (map TheRule cs) of [] \<Rightarrow> None | t # _ \<Rightarrow> Some t)\<rparr>" for cs
    by (simp add: combined_def first_cw_def List.map_filter_def comp_def filter_map)
  then show ?thesis unfolding note_verdict_def table_decision_def Let_def on [symmetric] .
qed

text \<open>C11. The evaluator follows the table: after any run of changes, evaluations and failing statements, once the
  database answers and half a minute has passed, a note is decided by exactly the stored rules in force, in their
  order, without one of them being lost to a stale snapshot or to a pattern that does not compile.\<close>

theorem evaluation_follows_table:
  assumes "table_ok e w0" "Evaluator e" "w = run_steps (fed_step e) (snd (NewService e w0)) calls"
    and "RuleFaults w = []" "retryInterval \<le> d" "v = w\<lparr>Clock := Clock w + d\<rparr>"
  shows "wp (EvaluateNote e inp) (\<lambda>dec _. dec = table_decision (fed_env.truncate e) (in_order (RuleRows w)) inp (Clock v)) (\<lambda>_ _. False) v"
proof (rule wp_mono [OF wp_EvaluateNote], elim exE conjE, goal_cases)
  case (1 dec w' v')
  have ok: "fed_ok e w" using fed_runs.run_keeps [of e "snd (NewService e w0)" calls] new_service_ok [OF assms(1)] assms(2,3) by simp
  have "stored_rules e v = stored_rules e w" by (simp add: stored_rules_def assms(6))
  moreover have "Snapshot v' = stored_rules e v"
    using 1(1) ok assms(4-6) by (auto simp: refreshed_def fed_ok_def keeps_up_def stored_rules_def split: if_splits)
  moreover have "\<forall>r \<in> set (in_order (RuleRows w)). normal_rule (fed_env.truncate e) r"
    using ok by (simp add: fed_ok_def table_ok_def in_order_def)
  ultimately show ?case using 1(2) by (simp add: stored_rules_def verdict_table)
qed simp

section \<open>Instances\<close>

definition bot_rule :: fed_rule where
  "bot_rule = \<lparr>RuleID = ''r'', RuleCreatedAt = 0, RuleUpdatedAt = 0, RuleName = [], RuleMode = ModeEnforce, RuleTarget = TargetNote, RulePosition = 0,
     RuleHosts = [], RuleTypes = [], RuleIsBot = Some True, NewWithinHours = None, RulePatterns = [], HasAttachment = None, RuleTags = [],
     Reject = True, StripMedia = False, Sensitive = False, Unlist = False, RuleCW = None\<rparr>"

definition some_fed :: fed_wiring where
  "some_fed = \<lparr>RuleRegexps = (\<lambda>_. None), ToLower = id, EqualFold = (=), TagNorm = id, IDNA = id, Evaluator = True, Recorder = True,
     HitReader = True, Notifier = True, NewRuleID = show_nat, SeenAt = None\<rparr>"

definition bot_state :: fed_state where
  "bot_state = \<lparr>RuleFaults = [], RuleRows = [bot_rule], Snapshot = no_rules, Stale = False, NextLoad = 0, Clock = 0, RuleSerial = 0, RuleLog = []\<rparr>"

definition bot_note :: note_input where
  "bot_note = \<lparr>NoteHost = ''x'', NoteActor = \<lparr>Known = True, IsBotActor = True, FirstSeen = None\<rparr>, NoteTextIn = [], NoteCWIn = [], PollChoicesIn = [],
     NoteTagsIn = [], NoteHasAttachment = False, NoteSubject = ''s'', NoteUpdate = False, NoteAt = None\<rparr>"

lemma bot_normalizes: "Normalize (fed_env.truncate some_fed) bot_rule = Inr bot_rule"
  by (simp add: Normalize_def bot_rule_def TrimSpace_def bytes_def trim_def unchunk_def text_of_def rune_count_def Storable_def normalizeList_def
    also_ok_def bad_def normalize_cw_def check_target_def MaxNameLength_def MaxPosition_def MaxListItems_def ModeEnforce_def TargetNote_def
    TargetActivity_def Let_def)

theorem Normalize_normal_witness: "normal_rule (fed_env.truncate some_fed) bot_rule"
  by (rule Normalize_normal [OF bot_normalizes])

lemma bot_table: "table_ok some_fed bot_state"
  using Normalize_cases [OF bot_normalizes] by (simp add: table_ok_def bot_state_def MaxRules_def)

theorem fed_table_run_witness:
  "table_ok some_fed (run_steps (fed_step some_fed) (snd (NewService some_fed bot_state))
     [AdminCreate bot_rule, Wait 7, InboundNote bot_note, AdminUpdate bot_rule, AdminDelete ''r''])"
  by (rule fed_table_run [OF bot_table]) (simp add: some_fed_def)

theorem rules_only_restrict_witness:
  "\<exists>d. fst (EvaluateNote some_fed bot_note (under_rules some_fed [bot_rule\<lparr>RuleMode := ModeRecord\<rparr>, bot_rule] bot_state)) = Val d \<and> DReject d"
proof -
  have "DReject (note_verdict (fed_env.truncate some_fed) (compileRules (fed_env.truncate some_fed) [bot_rule]) bot_note (Clock bot_state))"
    by (simp add: note_verdict_def compileRules_def List.map_filter_def compile_rule_def bot_rule_def bot_note_def some_fed_def
      fed_env.defs combined_def enforced_def matchesNote_def matchesActor_def Let_def)
  then show ?thesis
    using rules_only_restrict [of "[bot_rule]" "[bot_rule\<lparr>RuleMode := ModeRecord\<rparr>, bot_rule]" some_fed bot_note bot_state]
    by (auto simp: EvaluateNote_under)
qed

theorem evaluation_follows_table_witness:
  "\<exists>v. wp (EvaluateNote some_fed bot_note) (\<lambda>dec _. dec = table_decision (fed_env.truncate some_fed) [bot_rule] bot_note retryInterval) (\<lambda>_ _. False) v"
proof -
  define w where "w = run_steps (fed_step some_fed) (snd (NewService some_fed bot_state)) [Notified]"
  have "RuleFaults w = [] \<and> RuleRows w = [bot_rule] \<and> Clock w = 0"
    by (simp add: w_def bot_state_def NewService_def reload_def loadRules_def ListRules_def rule_db_def Invalidate_def new_service_def act_defs)
  moreover have "Evaluator some_fed" by (simp add: some_fed_def)
  moreover have "in_order [bot_rule] = [bot_rule]" by (simp add: in_order_def)
  ultimately show ?thesis
    using evaluation_follows_table [OF bot_table _ w_def _ order_refl refl, of bot_note] by auto
qed

end
