(* ===== verification/Deliver.thy ===== *)
theory Deliver imports Delivery_Breaker Misc_Id Note_Text begin

text \<open>
  The worker of outbound deliveries, \<open>internal/queue/processors/deliver.go\<close> and \<open>deliver_keysource.go\<close>, over the
  circuit breaker of \<open>Delivery_Breaker\<close>.

  One delivery is \<open>Handle\<close>: deadline, gates, the choice of the signature, the breaker's check, one or two
  signed POSTs, the switch on the answer.  \<open>DeliverOut\<close> is what has gone out, in order: the requests with the key that
  signed them, and the calls of the hooks.  \<open>Answers\<close> is what the coming requests meet: the answer, or the error of the
  client, and what the other workers do to the breaker of the same host in the meantime, time included.  \<open>RedisFaults\<close>
  and \<open>DbFaults\<close> say of each coming Redis command and key lookup whether it fails.  Times are Unix milliseconds.

  Arguments (\<open>processor\<close>): the host of an inbox URL (\<open>NormalizeGateHost\<close>), the JSON decoder, the two hashes, the PEM
  and HTTP date parsers, the jitter and the LRU cache, a third-party library: its two calls on a state of its own.
  A parsed key is known by its kind, its key id and the PEM it was parsed from.  An error carries what
  \<open>errors.Is\<close> and \<open>errors.As\<close> find in it; its cause stands for its message.  Closing of bodies and logging are left out.
\<close>

section \<open>State\<close>

datatype key_kind = KindRSA | KindEd25519

record private_key =
  KeyKind :: key_kind
  KeyName :: string
  KeyText :: string

record deliver_payload =
  Inbox :: string
  Body :: string
  KeyID :: string
  KeyPEM :: string
  Ed25519KeyID :: string
  Ed25519PrivPEM :: string
  IsSharedInbox :: bool
  SignerUserID :: string
  NotAfter :: int

datatype cause = BadPayload | PastDeadline | HeldBack | KeyUnparsable | KeyMissing | KeySourceFailed
  | PostFailed string | TargetGone int | RateLimited | ClientError int | ServerError int

record deliver_error =
  Cause :: cause
  SkipRetry :: bool
  DelayFor :: "int option"
  LocalSend :: bool

definition plain :: "cause \<Rightarrow> deliver_error" where
  "plain c = \<lparr>Cause = c, SkipRetry = False, DelayFor = None, LocalSend = False\<rparr>"

datatype outcome_class = ClassSuccess | ClassGone | ClassRateLimited | ClassClientError | ClassServerError | ClassTransport

datatype deliver_effect =
    Posted string string private_key
  | ResponseSuccess string
  | ResponseError string
  | MarkedGone string
  | OnDelivered string bool
  | Telemetry string outcome_class int int "cause option"
  | Accepted string

datatype reply = NoResponse string | Response int string

record answer =
  Meanwhile :: "breaker_event list"
  Reply :: reply

record 'c deliver_state =
  Time :: int
  Hosts :: "string \<Rightarrow> host_state"
  HostIndex :: "string \<Rightarrow> int option"
  DegradedTill :: "string \<Rightarrow> int option"
  FailCount :: "string \<Rightarrow> (int \<times> int option) option"
  KeyRows :: "string \<Rightarrow> string option"
  ExtraKeyRows :: "string \<Rightarrow> string option"
  Cache :: 'c
  Answers :: "answer list"
  RedisFaults :: "bool list"
  DbFaults :: "bool list"
  DeliverOut :: "deliver_effect list"

type_synonym ('c, 'a) deliver_act = "('c deliver_state, deliver_error, 'a) act"

record key_source =
  HasKeypair :: bool
  HasKeypairExtra :: bool

record 'c lru =
  CacheGet :: "'c \<Rightarrow> string \<Rightarrow> private_key option \<times> 'c"
  CacheAdd :: "'c \<Rightarrow> string \<Rightarrow> private_key \<Rightarrow> 'c"

record 'c processor =
  HostOf :: "string \<Rightarrow> string"
  Decode :: "string \<Rightarrow> deliver_payload option"
  JobHash :: "string \<Rightarrow> string"
  KeyHash :: "string \<Rightarrow> string"
  Parses :: "key_kind \<Rightarrow> string \<Rightarrow> bool"
  HTTPDate :: "string \<Rightarrow> int option"
  Jitter :: "int \<Rightarrow> int"
  KeyCache :: "'c lru option"
  KeySource :: "key_source option"
  HasResponseHook :: bool
  HasChartHook :: bool
  HasTelemetry :: bool
  HasBreaker :: bool
  SuspendedChecker :: "(string \<Rightarrow> bool) option"
  DeliveryGate :: "(string \<Rightarrow> bool) option"
  HasCapabilities :: bool
  HasRedis :: bool

section \<open>Statements\<close>

definition emit :: "deliver_effect \<Rightarrow> ('c, unit) deliver_act" where
  "emit x = change (\<lambda>s. s\<lparr>DeliverOut := DeliverOut s @ [x]\<rparr>)"

definition whenever :: "bool \<Rightarrow> ('c, unit) deliver_act \<Rightarrow> ('c, unit) deliver_act" where
  "whenever b m = (if b then m else ret ())"

definition goes_through :: "bool list \<Rightarrow> bool" where
  "goes_through faults = (case faults of [] \<Rightarrow> True | f # _ \<Rightarrow> \<not> f)"

definition redis :: "('c, bool) deliver_act" where
  \<comment> \<open>whether the next command reaches Redis\<close>
  "redis s = (Val (goes_through (RedisFaults s)), s\<lparr>RedisFaults := tl (RedisFaults s)\<rparr>)"

definition key_row :: "('c deliver_state \<Rightarrow> string \<Rightarrow> string option) \<Rightarrow> string \<Rightarrow> ('c, string option) deliver_act" where
  \<comment> \<open>\<open>FindByUserID\<close>; \<open>None\<close> is not found\<close>
  "key_row rows userID s = (if goes_through (DbFaults s) then Val (rows s userID) else Stop (Err (plain KeySourceFailed)),
     s\<lparr>DbFaults := tl (DbFaults s)\<rparr>)"

section \<open>Signing keys\<close>

definition SigningKeyPEM :: "key_source \<Rightarrow> string \<Rightarrow> key_kind \<Rightarrow> ('c, string) deliver_act" where
  \<comment> \<open>\<open>repoSigningKeySource\<close>: not found and empty are missing, a failed lookup and a missing repository are not\<close>
  "SigningKeyPEM src userID kind =
     (let found = (\<lambda>r. case r of None \<Rightarrow> stop_with (Err (plain KeyMissing))
            | Some pem \<Rightarrow> if pem = '''' then stop_with (Err (plain KeyMissing)) else ret pem) in
      if kind = KindEd25519
      then (if \<not> HasKeypairExtra src then stop_with (Err (plain KeyMissing)) else bind_act (key_row ExtraKeyRows userID) found)
      else (if \<not> HasKeypair src then stop_with (Err (plain KeySourceFailed)) else bind_act (key_row KeyRows userID) found))"

fun kind_text :: "key_kind \<Rightarrow> string" where
  "kind_text KindRSA = ''rsa''"
| "kind_text KindEd25519 = ''ed''"

abbreviation nul :: char where "nul \<equiv> CHR 0x00"

definition inline_entry :: "'c processor \<Rightarrow> key_kind \<Rightarrow> string \<Rightarrow> string \<Rightarrow> string" where
  "inline_entry p kind keyID pem = kind_text kind @ nul # KeyHash p (keyID @ nul # pem)"

definition source_entry :: "key_kind \<Rightarrow> string \<Rightarrow> string \<Rightarrow> string" where
  "source_entry kind userID keyID = kind_text kind @ nul # ''uid'' @ nul # userID @ nul # keyID"

definition memoized :: "'c processor \<Rightarrow> string \<Rightarrow> ('c, private_key) deliver_act \<Rightarrow> ('c, private_key) deliver_act" where
  "memoized p ck m = (case KeyCache p of None \<Rightarrow> m
     | Some c \<Rightarrow> bind_act (query (\<lambda>s. CacheGet c (Cache s) ck)) (\<lambda>r.
         then_act (change (\<lambda>s. s\<lparr>Cache := snd r\<rparr>))
         (case fst r of Some k \<Rightarrow> ret k
          | None \<Rightarrow> bind_act m (\<lambda>k. then_act (change (\<lambda>s. s\<lparr>Cache := CacheAdd c (Cache s) ck k\<rparr>)) (ret k)))))"

definition parse_key :: "'c processor \<Rightarrow> key_kind \<Rightarrow> string \<Rightarrow> string \<Rightarrow> ('c, private_key) deliver_act" where
  "parse_key p kind keyID pem = (if Parses p kind pem then ret \<lparr>KeyKind = kind, KeyName = keyID, KeyText = pem\<rparr>
     else stop_with (Err (plain KeyUnparsable)))"

definition signingKey :: "'c processor \<Rightarrow> key_kind \<Rightarrow> string \<Rightarrow> string \<Rightarrow> ('c, private_key) deliver_act" where
  "signingKey p kind keyID pem = memoized p (inline_entry p kind keyID pem) (parse_key p kind keyID pem)"

fun key_id :: "key_kind \<Rightarrow> deliver_payload \<Rightarrow> string" where
  "key_id KindRSA pl = KeyID pl"
| "key_id KindEd25519 pl = Ed25519KeyID pl"

fun inline_pem :: "key_kind \<Rightarrow> deliver_payload \<Rightarrow> string" where
  "inline_pem KindRSA pl = KeyPEM pl"
| "inline_pem KindEd25519 pl = Ed25519PrivPEM pl"

definition resolveSigningKey :: "'c processor \<Rightarrow> key_kind \<Rightarrow> deliver_payload \<Rightarrow> ('c, private_key) deliver_act" where
  "resolveSigningKey p kind pl =
     (if inline_pem kind pl \<noteq> '''' then signingKey p kind (key_id kind pl) (inline_pem kind pl)
      else case KeySource p of
          None \<Rightarrow> stop_with (Err (plain KeySourceFailed))
        | Some src \<Rightarrow> memoized p (source_entry kind (SignerUserID pl) (key_id kind pl))
            (bind_act (SigningKeyPEM src (SignerUserID pl) kind) (\<lambda>pem. parse_key p kind (key_id kind pl) pem)))"

definition isPermanentSigningKeyError :: "deliver_error \<Rightarrow> bool" where
  "isPermanentSigningKeyError e \<longleftrightarrow> Cause e = KeyMissing \<or> Cause e = KeyUnparsable"

section \<open>Sending\<close>

definition others :: "'c processor \<Rightarrow> string \<Rightarrow> breaker_event list \<Rightarrow> 'c deliver_state \<Rightarrow> 'c deliver_state" where
  \<comment> \<open>what the other workers do to the breaker of the host\<close>
  "others p host evs s =
     (let r = run_steps (breaker_step host (Jitter p)) \<lparr>Clock = Time s, Up = True, HState = Hosts s host\<rparr> evs
      in s\<lparr>Time := Clock r, Hosts := (Hosts s)(host := HState r)\<rparr>)"

definition no_answer :: answer where
  "no_answer = \<lparr>Meanwhile = [], Reply = NoResponse ''''\<rparr>"

definition PostSigned :: "'c processor \<Rightarrow> deliver_payload \<Rightarrow> private_key \<Rightarrow> ('c, int \<times> string) deliver_act" where
  "PostSigned p pl key = then_act (emit (Posted (Inbox pl) (Body pl) key))
     (bind_act (query (\<lambda>s. case Answers s of [] \<Rightarrow> no_answer | a # _ \<Rightarrow> a)) (\<lambda>a.
     then_act (change (\<lambda>s. others p (HostOf p (Inbox pl)) (Meanwhile a) (s\<lparr>Answers := tl (Answers s)\<rparr>)))
     (case Reply a of NoResponse m \<Rightarrow> stop_with (Err (plain (PostFailed m))) | Response status retryAfter \<Rightarrow> ret (status, retryAfter))))"

record response =
  Status :: int
  RetryAfter :: string
  SignedEd25519 :: bool

definition post_with :: "'c processor \<Rightarrow> deliver_payload \<Rightarrow> private_key \<Rightarrow> bool \<Rightarrow> ('c, response) deliver_act" where
  "post_with p pl key ed = bind_act (PostSigned p pl key) (\<lambda>r.
     ret \<lparr>Status = fst r, RetryAfter = snd r, SignedEd25519 = ed\<rparr>)"

definition send_rsa :: "'c processor \<Rightarrow> deliver_payload \<Rightarrow> ('c, response) deliver_act" where
  "send_rsa p pl = bind_act (attempt (resolveSigningKey p KindRSA pl)) (\<lambda>r. case r of
       Val key \<Rightarrow> post_with p pl key False
     | Stop (Err e) \<Rightarrow> stop_with (Err (e\<lparr>LocalSend := True, SkipRetry := isPermanentSigningKeyError e\<rparr>))
     | Stop x \<Rightarrow> stop_with x)"

definition sendOnce :: "'c processor \<Rightarrow> deliver_payload \<Rightarrow> bool \<Rightarrow> ('c, response) deliver_act" where
  "sendOnce p pl useEd25519 =
     (if useEd25519 then bind_act (attempt (resolveSigningKey p KindEd25519 pl)) (\<lambda>r. case r of
         Val key \<Rightarrow> post_with p pl key True
       | Stop _ \<Rightarrow> send_rsa p pl)
      else send_rsa p pl)"

section \<open>Ed25519 degradation\<close>

definition ed25519DegradeTTL :: int where "ed25519DegradeTTL = 300000"
definition ed25519FailWindow :: int where "ed25519FailWindow = 60000"
definition ed25519FailThreshold :: int where "ed25519FailThreshold = 3"

lemmas degrade_constants = ed25519DegradeTTL_def ed25519FailWindow_def ed25519FailThreshold_def

definition degraded :: "string \<Rightarrow> 'c deliver_state \<Rightarrow> bool" where
  "degraded host s = (case DegradedTill s host of None \<Rightarrow> False | Some e \<Rightarrow> live (Time s) e)"

definition isEd25519Degraded :: "'c processor \<Rightarrow> string \<Rightarrow> ('c, bool) deliver_act" where
  \<comment> \<open>a failing Redis counts as not degraded\<close>
  "isEd25519Degraded p host = (if \<not> HasRedis p \<or> host = '''' then ret False
     else bind_act redis (\<lambda>up. if up then query (degraded host) else ret False))"

definition markEd25519Degraded :: "'c processor \<Rightarrow> string \<Rightarrow> ('c, unit) deliver_act" where
  "markEd25519Degraded p host = whenever (HasRedis p \<and> host \<noteq> '''') (bind_act redis (\<lambda>up.
     whenever up (change (\<lambda>s. s\<lparr>DegradedTill := (DegradedTill s)(host \<mapsto> Time s + ed25519DegradeTTL)\<rparr>))))"

definition incremented :: "string \<Rightarrow> 'c deliver_state \<Rightarrow> int \<times> int option" where
  \<comment> \<open>\<open>INCR\<close> keeps the expiry\<close>
  "incremented host s = (case FailCount s host of None \<Rightarrow> (1, None)
     | Some (n, None) \<Rightarrow> (n + 1, None)
     | Some (n, Some e) \<Rightarrow> if live (Time s) e then (n + 1, Some e) else (1, None))"

definition recordEd25519Failure :: "'c processor \<Rightarrow> string \<Rightarrow> ('c, unit) deliver_act" where
  "recordEd25519Failure p host = whenever (HasRedis p \<and> host \<noteq> '''') (bind_act redis (\<lambda>up.
     whenever up (bind_act (query (incremented host)) (\<lambda>c.
       then_act (change (\<lambda>s. s\<lparr>FailCount := (FailCount s)(host \<mapsto> c)\<rparr>))
       (then_act (whenever (fst c = 1) (bind_act redis (\<lambda>up.
          whenever up (change (\<lambda>s. s\<lparr>FailCount := (FailCount s)(host \<mapsto> (1, Some (Time s + ed25519FailWindow)))\<rparr>)))))
       (whenever (ed25519FailThreshold \<le> fst c) (markEd25519Degraded p host)))))))"

definition recordEd25519Accepted :: "'c processor \<Rightarrow> string \<Rightarrow> ('c, unit) deliver_act" where
  "recordEd25519Accepted p host = whenever (HasCapabilities p \<and> host \<noteq> '''') (emit (Accepted host))"

section \<open>The breaker\<close>

definition set_host :: "string \<Rightarrow> index_op \<Rightarrow> host_state \<Rightarrow> ('c, unit) deliver_act" where
  "set_host host op h = change (\<lambda>s. s\<lparr>Hosts := (Hosts s)(host := h), HostIndex := index_apply op (Time s) host (HostIndex s)\<rparr>)"

definition breaker_check :: "'c processor \<Rightarrow> string \<Rightarrow> string \<Rightarrow> string \<Rightarrow> ('c, check_result) deliver_act" where
  "breaker_check p token host job = (if HasBreaker p \<and> host \<noteq> '''' then
     bind_act redis (\<lambda>up. bind_act (query (\<lambda>s. Check up (Jitter p) token host job (Time s) (Hosts s host))) (\<lambda>r.
     then_act (set_host host IndexKeep (snd r)) (ret (fst r))))
     else ret \<lparr>Decision = BreakerAllow, Delay = 0, HasState = False, ProbeToken = ''''\<rparr>)"

definition breaker_failure :: "string \<Rightarrow> string \<Rightarrow> ('c, bool \<times> int) deliver_act" where
  "breaker_failure host token = bind_act redis (\<lambda>up.
     bind_act (query (\<lambda>s. RecordFailure up host token (Time s) (Hosts s host))) (\<lambda>r.
     then_act (set_host host (fst (snd r)) (snd (snd r))) (ret (fst r))))"

definition breaker_success :: "string \<Rightarrow> ('c, unit) deliver_act" where
  "breaker_success host = bind_act redis (\<lambda>up. bind_act (query (\<lambda>s. RecordSuccess up host (Time s) (Hosts s host))) (\<lambda>r.
     set_host host (fst r) (snd r)))"

definition breaker_release :: "string \<Rightarrow> string \<Rightarrow> ('c, unit) deliver_act" where
  \<comment> \<open>without a token there is no command\<close>
  "breaker_release host token = whenever (token \<noteq> '''') (bind_act redis (\<lambda>up.
     bind_act (query (\<lambda>s. ReleaseProbe up host token (Time s) (Hosts s host))) (\<lambda>h. set_host host IndexKeep h)))"

definition breaker_throttle :: "string \<Rightarrow> int \<Rightarrow> ('c, unit) deliver_act" where
  "breaker_throttle host retryAfter = bind_act redis (\<lambda>up.
     bind_act (query (\<lambda>s. Throttle up host retryAfter (Time s) (Hosts s host))) (\<lambda>r. set_host host (fst r) (snd r)))"

section \<open>Recording an attempt\<close>

record attempt_info =
  AttemptHost :: string
  StartedAt :: int
  BreakerState :: bool
  ProbeHeld :: string

definition recordSuccess :: "'c processor \<Rightarrow> string \<Rightarrow> ('c, unit) deliver_act" where
  "recordSuccess p inbox = (let host = HostOf p inbox in
     then_act (whenever (HasResponseHook p \<and> host \<noteq> '''') (emit (ResponseSuccess host)))
       (whenever (HasChartHook p) (emit (OnDelivered host True))))"

definition recordGoneSuspended :: "'c processor \<Rightarrow> string \<Rightarrow> ('c, unit) deliver_act" where
  "recordGoneSuspended p inbox = (let host = HostOf p inbox in
     whenever (HasResponseHook p \<and> host \<noteq> '''') (emit (MarkedGone host)))"

definition recordError :: "'c processor \<Rightarrow> string \<Rightarrow> ('c, unit) deliver_act" where
  "recordError p inbox = (let host = HostOf p inbox in
     then_act (whenever (HasResponseHook p \<and> host \<noteq> '''') (emit (ResponseError host)))
       (whenever (HasChartHook p) (emit (OnDelivered host False))))"

definition recordAttempt ::
  "'c processor \<Rightarrow> attempt_info \<Rightarrow> bool \<Rightarrow> outcome_class \<Rightarrow> int \<Rightarrow> cause option \<Rightarrow> ('c, int option) deliver_act" where
  \<comment> \<open>\<open>Some d\<close>: the breaker is open, hold the job for \<open>d\<close>\<close>
  "recordAttempt p a here class status msg =
     (let host = AttemptHost a in
      if host = '''' then ret None
      else then_act (whenever (HasTelemetry p) (bind_act (query Time) (\<lambda>now.
             emit (Telemetry host class status (now - StartedAt a) msg))))
        (if \<not> HasBreaker p then ret None
         else if here then then_act (breaker_release host (ProbeHeld a)) (ret None)
         else if class = ClassTransport \<or> class = ClassServerError
         then bind_act (breaker_failure host (ProbeHeld a)) (\<lambda>r.
                ret (if fst r then Some (HoldFor (Jitter p) (snd r)) else None))
         else then_act (whenever (BreakerState a) (breaker_success host)) (ret None)))"

definition holdOrDrop :: "deliver_payload \<Rightarrow> deliver_error \<Rightarrow> int \<Rightarrow> deliver_error" where
  "holdOrDrop pl e d = (if NotAfter pl \<noteq> 0 then e\<lparr>SkipRetry := True\<rparr> else e\<lparr>DelayFor := Some d\<rparr>)"

definition held_or :: "deliver_payload \<Rightarrow> deliver_error \<Rightarrow> int option \<Rightarrow> ('c, 'a) deliver_act" where
  "held_or pl e hold = stop_with (Err (case hold of Some d \<Rightarrow> holdOrDrop pl e d | None \<Rightarrow> e))"

fun scan_uint :: "nat \<Rightarrow> string \<Rightarrow> nat option" where
  \<comment> \<open>\<open>strconv.ParseUint\<close>: an overflow answers the largest value at once\<close>
  "scan_uint n [] = Some n"
| "scan_uint n (c # cs) = (case digit_val c of None \<Rightarrow> None
     | Some d \<Rightarrow> if 10 \<le> d then None
         else if 1844674407370955162 \<le> n \<or> 2 ^ 64 \<le> n * 10 + d then Some (2 ^ 64 - 1)
         else scan_uint (n * 10 + d) cs)"

definition clipped_int :: "string \<Rightarrow> int option" where
  \<comment> \<open>\<open>strconv.ParseInt\<close> with an out of range error accepted\<close>
  "clipped_int s = (let (neg, ds) = (if s \<noteq> [] \<and> hd s = CHR ''-'' then (True, tl s)
        else if s \<noteq> [] \<and> hd s = CHR ''+'' then (False, tl s) else (False, s)) in
     if ds = [] then None
     else map_option (\<lambda>n. if neg then - min (int n) (2 ^ 63) else min (int n) (2 ^ 63 - 1)) (scan_uint 0 ds))"

definition parseRetryAfter :: "'c processor \<Rightarrow> string \<Rightarrow> int \<Rightarrow> int" where
  "parseRetryAfter p v0 now = (let v = TrimSpace v0 in
     if v = '''' then 0
     else case clipped_int v of
         Some secs \<Rightarrow> if secs \<le> 0 then 0 else min secs (24 * 60 * 60) * 1000
       | None \<Rightarrow> (case HTTPDate p v of None \<Rightarrow> 0 | Some t \<Rightarrow> if t - now > 0 then t - now else 0))"

section \<open>A delivery\<close>

definition failed_send :: "'c processor \<Rightarrow> deliver_payload \<Rightarrow> attempt_info \<Rightarrow> deliver_error \<Rightarrow> ('c, 'a) deliver_act" where
  "failed_send p pl a e = then_act (recordError p (Inbox pl))
     (bind_act (recordAttempt p a (LocalSend e) ClassTransport 0 (Some (Cause e))) (held_or pl e))"

definition send_or_fail :: "'c processor \<Rightarrow> deliver_payload \<Rightarrow> attempt_info \<Rightarrow> bool \<Rightarrow> ('c, response) deliver_act" where
  "send_or_fail p pl a useEd25519 = bind_act (attempt (sendOnce p pl useEd25519)) (\<lambda>r. case r of
       Val x \<Rightarrow> ret x
     | Stop (Err e) \<Rightarrow> failed_send p pl a e
     | Stop x \<Rightarrow> stop_with x)"

definition blames_ed25519 :: "int \<Rightarrow> bool" where
  "blames_ed25519 status \<longleftrightarrow> 400 \<le> status \<and> status < 500 \<and> status \<noteq> 410 \<and> status \<noteq> 404 \<and> status \<noteq> 429"

definition settle :: "'c processor \<Rightarrow> deliver_payload \<Rightarrow> attempt_info \<Rightarrow> response \<Rightarrow> ('c, unit) deliver_act" where
  \<comment> \<open>the switch on the status\<close>
  "settle p pl a resp = (let st = Status resp; host = AttemptHost a;
       answered = (\<lambda>class msg. then_act (recordSuccess p (Inbox pl))
          (bind_act (recordAttempt p a False class st msg) (\<lambda>_. ret ()))) in
     if 200 \<le> st \<and> st < 300 then
       then_act (answered ClassSuccess None) (whenever (SignedEd25519 resp) (recordEd25519Accepted p host))
     else if st = 410 \<or> st = 404 then
       then_act (answered ClassGone None)
       (then_act (whenever (IsSharedInbox pl \<and> st = 410) (recordGoneSuspended p (Inbox pl)))
       (stop_with (Err ((plain (TargetGone st))\<lparr>SkipRetry := True\<rparr>))))
     else if st = 429 then
       then_act (answered ClassRateLimited None)
       (then_act (whenever (HasBreaker p \<and> host \<noteq> '''') (bind_act (query Time) (\<lambda>now.
          breaker_throttle host (parseRetryAfter p (RetryAfter resp) now))))
       (stop_with (Err (plain RateLimited))))
     else if 400 \<le> st \<and> st < 500 then
       then_act (answered ClassClientError (Some (ClientError st)))
       (stop_with (Err ((plain (ClientError st))\<lparr>SkipRetry := True\<rparr>)))
     else
       then_act (recordError p (Inbox pl))
       (bind_act (recordAttempt p a False ClassServerError st (Some (ServerError st))) (held_or pl (plain (ServerError st)))))"

definition try_send :: "'c processor \<Rightarrow> deliver_payload \<Rightarrow> attempt_info \<Rightarrow> bool \<Rightarrow> ('c, unit) deliver_act" where
  "try_send p pl a useEd25519 = bind_act (send_or_fail p pl a useEd25519) (\<lambda>resp.
     if useEd25519 \<and> blames_ed25519 (Status resp)
     then then_act (recordEd25519Failure p (AttemptHost a))
       (bind_act (send_or_fail p pl a False) (settle p pl a))
     else settle p pl a resp)"

definition job_expired :: "deliver_payload \<Rightarrow> int \<Rightarrow> bool" where
  "job_expired pl now \<longleftrightarrow> NotAfter pl \<noteq> 0 \<and> now > NotAfter pl"

definition gated :: "'c processor \<Rightarrow> string \<Rightarrow> bool" where
  "gated p host \<longleftrightarrow> host \<noteq> '''' \<and> ((case DeliveryGate p of None \<Rightarrow> False | Some skips \<Rightarrow> skips host)
     \<or> (case SuspendedChecker p of None \<Rightarrow> False | Some suspended \<Rightarrow> suspended host))"

definition wants_ed25519 :: "'c processor \<Rightarrow> deliver_payload \<Rightarrow> ('c, bool) deliver_act" where
  "wants_ed25519 p pl = (if Ed25519KeyID pl \<noteq> '''' \<or> Ed25519PrivPEM pl \<noteq> ''''
     then bind_act (isEd25519Degraded p (HostOf p (Inbox pl))) (\<lambda>d. ret (\<not> d)) else ret False)"

definition attempt_of :: "string \<Rightarrow> int \<Rightarrow> check_result \<Rightarrow> attempt_info" where
  "attempt_of host now r = \<lparr>AttemptHost = host, StartedAt = now,
     BreakerState = (HasState r \<or> Decision r = BreakerProbe), ProbeHeld = ProbeToken r\<rparr>"

definition deliver :: "'c processor \<Rightarrow> string \<Rightarrow> string \<Rightarrow> deliver_payload \<Rightarrow> ('c, unit) deliver_act" where
  \<comment> \<open>\<open>Handle\<close> past its gates\<close>
  "deliver p token raw pl = (let host = HostOf p (Inbox pl) in
     bind_act (wants_ed25519 p pl) (\<lambda>useEd25519.
     bind_act (breaker_check p token host (JobHash p raw)) (\<lambda>r.
       if Decision r = BreakerDelay then stop_with (Err (holdOrDrop pl (plain HeldBack) (Delay r)))
       else bind_act (query Time) (\<lambda>now. try_send p pl (attempt_of host now r) useEd25519))))"

definition Handle :: "'c processor \<Rightarrow> string \<Rightarrow> string \<Rightarrow> ('c, unit) deliver_act" where
  "Handle p token raw = (case Decode p raw of
       None \<Rightarrow> stop_with (Err ((plain BadPayload)\<lparr>SkipRetry := True\<rparr>))
     | Some pl \<Rightarrow> bind_act (query Time) (\<lambda>now.
         if job_expired pl now then stop_with (Err ((plain PastDeadline)\<lparr>SkipRetry := True\<rparr>))
         else if gated p (HostOf p (Inbox pl)) then ret ()
         else deliver p token raw pl))"

datatype native = NativeDelay int | NativeUnrecoverable | NativeRetry

definition nativeError :: "deliver_error \<Rightarrow> native" where
  \<comment> \<open>a delay takes precedence\<close>
  "nativeError e = (case DelayFor e of Some d \<Rightarrow> NativeDelay d
     | None \<Rightarrow> if SkipRetry e then NativeUnrecoverable else NativeRetry)"

end
