(* ===== verification/Deliver_Claims.thy ===== *)
theory Deliver_Claims imports Deliver begin

text \<open>
  Properties of the delivery worker: every request is signed with a key of its own payload's signer, whatever the
  shared key cache holds; a probe of the breaker is given back; which jobs lose an attempt, which are dropped and which wait; and
  what a refusal of an RSA signature does to the Ed25519 counter.
\<close>

section \<open>Keys\<close>

definition lru_ok :: "'c lru \<Rightarrow> ('c \<Rightarrow> string \<Rightarrow> private_key option) \<Rightarrow> bool" where
  \<comment> \<open>a cache answers what was added last under that key, or nothing\<close>
  "lru_ok c content \<longleftrightarrow> (\<forall>x ck. (case fst (CacheGet c x ck) of None \<Rightarrow> True | Some k \<Rightarrow> content x ck = Some k)
     \<and> content (snd (CacheGet c x ck)) \<subseteq>\<^sub>m content x
     \<and> (\<forall>k. content (CacheAdd c x ck k) \<subseteq>\<^sub>m (content x)(ck \<mapsto> k)))"

definition key_rows :: "key_kind \<Rightarrow> 'c deliver_state \<Rightarrow> string \<Rightarrow> string option" where
  "key_rows kind s = (if kind = KindEd25519 then ExtraKeyRows s else KeyRows s)"

definition own_key :: "'c processor \<Rightarrow> (key_kind \<Rightarrow> string \<Rightarrow> string option) \<Rightarrow> deliver_payload \<Rightarrow> key_kind \<Rightarrow> private_key \<Rightarrow> bool" where
  \<comment> \<open>the key in the payload, or else the one its signer has in the tables\<close>
  "own_key p rows pl kind k \<longleftrightarrow> KeyKind k = kind \<and> KeyName k = key_id kind pl \<and> Parses p kind (KeyText k) \<and> KeyText k \<noteq> ''''
     \<and> (if inline_pem kind pl \<noteq> '''' then KeyText k = inline_pem kind pl else rows kind (SignerUserID pl) = Some (KeyText k))"

definition cached_ok :: "'c processor \<Rightarrow> (key_kind \<Rightarrow> string \<Rightarrow> string option) \<Rightarrow> string \<Rightarrow> private_key \<Rightarrow> bool" where
  "cached_ok p rows ck k \<longleftrightarrow> Parses p (KeyKind k) (KeyText k) \<and> KeyText k \<noteq> ''''
     \<and> (nul \<notin> set (KeyName k) \<and> ck = inline_entry p (KeyKind k) (KeyName k) (KeyText k)
        \<or> (\<exists>u. nul \<notin> set u \<and> ck = source_entry (KeyKind k) u (KeyName k) \<and> rows (KeyKind k) u = Some (KeyText k)))"

definition keys_ok :: "'c processor \<Rightarrow> ('c \<Rightarrow> string \<Rightarrow> private_key option) \<Rightarrow> (key_kind \<Rightarrow> string \<Rightarrow> string option) \<Rightarrow> 'c deliver_state \<Rightarrow> bool" where
  "keys_ok p content rows s \<longleftrightarrow> (\<lambda>kind. key_rows kind s) = rows \<and> (\<forall>ck k. content (Cache s) ck = Some k \<longrightarrow> cached_ok p rows ck k)"

definition no_collision :: "'c processor \<Rightarrow> bool" where
  "no_collision p \<longleftrightarrow> inj (KeyHash p) \<and> (\<forall>x. nul \<notin> set (KeyHash p x))"

definition plain_payload :: "deliver_payload \<Rightarrow> bool" where
  "plain_payload pl \<longleftrightarrow> nul \<notin> set (KeyID pl) \<and> nul \<notin> set (Ed25519KeyID pl) \<and> nul \<notin> set (SignerUserID pl)"

lemma split_at_nul: "nul \<notin> set x \<Longrightarrow> nul \<notin> set y \<Longrightarrow> x @ nul # u = y @ nul # v \<longleftrightarrow> x = y \<and> u = v"
proof (induction x arbitrary: y)
  case Nil
  then show ?case by (cases y) auto
next
  case (Cons a x)
  then show ?case by (cases y) auto
qed

lemma kind_text_nul [simp]: "nul \<notin> set (kind_text kind)" "kind_text a = kind_text b \<longleftrightarrow> a = b"
  by (cases kind; simp) (cases a; cases b; simp)

lemma inline_entry_eq:
  assumes "no_collision p" "nul \<notin> set i" "nul \<notin> set j"
  shows "inline_entry p a i x = inline_entry p b j y \<longleftrightarrow> a = b \<and> i = j \<and> x = y"
  using assms unfolding inline_entry_def no_collision_def by (auto simp: split_at_nul inj_eq)

lemma source_entry_eq:
  assumes "nul \<notin> set u" "nul \<notin> set v"
  shows "source_entry a u i = source_entry b v j \<longleftrightarrow> a = b \<and> u = v \<and> i = j"
proof -
  have "nul \<notin> set ''uid''" by simp
  then show ?thesis using assms unfolding source_entry_def by (simp add: split_at_nul del: append.simps)
qed

lemma entries_differ:
  assumes "no_collision p"
  shows "inline_entry p a i x \<noteq> source_entry b u j"
proof
  assume "inline_entry p a i x = source_entry b u j"
  then have "KeyHash p (i @ nul # x) = ''uid'' @ nul # u @ nul # j"
    unfolding inline_entry_def source_entry_def by (simp add: split_at_nul del: append.simps)
  then show False using assms unfolding no_collision_def by (metis in_set_conv_decomp)
qed

definition wanted_entry :: "'c processor \<Rightarrow> key_kind \<Rightarrow> deliver_payload \<Rightarrow> string" where
  "wanted_entry p kind pl = (if inline_pem kind pl \<noteq> '''' then inline_entry p kind (key_id kind pl) (inline_pem kind pl)
     else source_entry kind (SignerUserID pl) (key_id kind pl))"

lemma plain_key_id: "plain_payload pl \<Longrightarrow> nul \<notin> set (key_id kind pl) \<and> nul \<notin> set (SignerUserID pl)"
  by (cases kind) (simp_all add: plain_payload_def)

lemma cached_is_own:
  assumes "no_collision p" "plain_payload pl"
  shows "cached_ok p rows (wanted_entry p kind pl) k \<longleftrightarrow> own_key p rows pl kind k"
  using plain_key_id [OF assms(2), of kind] entries_differ [OF assms(1)] entries_differ [OF assms(1), THEN not_sym]
  by (auto simp: cached_ok_def own_key_def wanted_entry_def inline_entry_eq [OF assms(1)] source_entry_eq)

definition cache_ok :: "'c processor \<Rightarrow> ('c \<Rightarrow> string \<Rightarrow> private_key option) \<Rightarrow> bool" where
  "cache_ok p content \<longleftrightarrow> (case KeyCache p of None \<Rightarrow> True | Some c \<Rightarrow> lru_ok c content)"

definition still :: "'c processor \<Rightarrow> ('c \<Rightarrow> string \<Rightarrow> private_key option) \<Rightarrow> (key_kind \<Rightarrow> string \<Rightarrow> string option) \<Rightarrow> 'c deliver_state \<Rightarrow> 'c deliver_state \<Rightarrow> bool" where
  "still p content rows s s' \<longleftrightarrow> keys_ok p content rows s' \<and> DeliverOut s' = DeliverOut s"

lemma keys_ok_frame [simp]:
  "keys_ok p content rows (s\<lparr>DbFaults := d\<rparr>) = keys_ok p content rows s"
  "keys_ok p content rows (s\<lparr>RedisFaults := d\<rparr>) = keys_ok p content rows s"
  "keys_ok p content rows (s\<lparr>DeliverOut := x\<rparr>) = keys_ok p content rows s"
  "keys_ok p content rows (s\<lparr>Hosts := h, HostIndex := i\<rparr>) = keys_ok p content rows s"
  "keys_ok p content rows (s\<lparr>Hosts := h\<rparr>) = keys_ok p content rows s"
  "keys_ok p content rows (s\<lparr>Time := t\<rparr>) = keys_ok p content rows s"
  "keys_ok p content rows (s\<lparr>Answers := a\<rparr>) = keys_ok p content rows s"
  "keys_ok p content rows (s\<lparr>FailCount := f\<rparr>) = keys_ok p content rows s"
  "keys_ok p content rows (s\<lparr>DegradedTill := dt\<rparr>) = keys_ok p content rows s"
  by (simp_all add: keys_ok_def key_rows_def cong: if_cong)

lemma keys_ok_get:
  "lru_ok c content \<Longrightarrow> keys_ok p content rows s \<Longrightarrow> keys_ok p content rows (s\<lparr>Cache := snd (CacheGet c (Cache s) ck)\<rparr>)"
proof -
  assume a: "lru_ok c content" "keys_ok p content rows s"
  then have "content (snd (CacheGet c (Cache s) ck)) \<subseteq>\<^sub>m content (Cache s)" by (simp add: lru_ok_def)
  then have "content (Cache s) i = Some k" if "content (snd (CacheGet c (Cache s) ck)) i = Some k" for i k
    using that by (metis domI map_le_def)
  then show ?thesis using a(2) by (simp add: keys_ok_def key_rows_def cong: if_cong)
qed

lemma keys_ok_add:
  assumes "lru_ok c content" "keys_ok p content rows s" "cached_ok p rows ck k"
  shows "keys_ok p content rows (s\<lparr>Cache := CacheAdd c (Cache s) ck k\<rparr>)"
proof -
  have le: "content (CacheAdd c (Cache s) ck k) \<subseteq>\<^sub>m (content (Cache s))(ck \<mapsto> k)"
    using assms(1) by (simp add: lru_ok_def)
  have "cached_ok p rows i j" if "content (CacheAdd c (Cache s) ck k) i = Some j" for i j
  proof -
    have "((content (Cache s))(ck \<mapsto> k)) i = Some j" using le that by (metis domI map_le_def)
    then show ?thesis using assms(2,3) by (auto simp: keys_ok_def split: if_splits)
  qed
  then show ?thesis using assms(2) by (simp add: keys_ok_def key_rows_def cong: if_cong)
qed

lemma wp_memoized:
  assumes "cache_ok p content" "keys_ok p content rows s"
    and "\<And>t. keys_ok p content rows t \<Longrightarrow> wp m (\<lambda>k t'. still p content rows t t' \<and> cached_ok p rows ck k) (\<lambda>_. still p content rows t) t"
  shows "wp (memoized p ck m) (\<lambda>k s'. still p content rows s s' \<and> cached_ok p rows ck k) (\<lambda>_. still p content rows s) s"
proof (cases "KeyCache p")
  case None
  then show ?thesis using assms(2,3) by (simp add: memoized_def)
next
  case (Some c)
  then have c: "lru_ok c content" using assms(1) by (simp add: cache_ok_def)
  let ?t = "s\<lparr>Cache := snd (CacheGet c (Cache s) ck)\<rparr>"
  have t: "keys_ok p content rows ?t" by (rule keys_ok_get [OF c assms(2)])
  show ?thesis
  proof (cases "fst (CacheGet c (Cache s) ck)")
    case None
    have "wp m (\<lambda>k. wp (then_act (change (\<lambda>s. s\<lparr>Cache := CacheAdd c (Cache s) ck k\<rparr>)) (ret k))
        (\<lambda>k s'. still p content rows s s' \<and> cached_ok p rows ck k) (\<lambda>_. still p content rows s))
        (\<lambda>_. still p content rows s) ?t"
      by (rule wp_mono [OF assms(3) [OF t]]) (simp_all add: still_def keys_ok_add [OF c])
    then show ?thesis by (simp only: memoized_def Some None option.case wp_bind wp_query wp_then wp_change)
  next
    case (Some k)
    have "case fst (CacheGet c (Cache s) ck) of None \<Rightarrow> True | Some k \<Rightarrow> content (Cache s) ck = Some k"
      using c by (simp add: lru_ok_def)
    then have "cached_ok p rows ck k" using Some assms(2) by (simp add: keys_ok_def)
    then show ?thesis using Some \<open>KeyCache p = Some c\<close> t by (simp add: memoized_def still_def)
  qed
qed

lemma wp_key_row:
  "wp (key_row rs u) Q E s = (let s' = s\<lparr>DbFaults := tl (DbFaults s)\<rparr>
     in if goes_through (DbFaults s) then Q (rs s u) s' else E (Err (plain KeySourceFailed)) s')"
  by (simp add: wp_def key_row_def)

lemma wp_SigningKeyPEM:
  assumes "keys_ok p content rows s"
  shows "wp (SigningKeyPEM src u kind) (\<lambda>pem s'. still p content rows s s' \<and> pem \<noteq> '''' \<and> rows kind u = Some pem)
    (\<lambda>_. still p content rows s) s"
proof -
  have r: "ExtraKeyRows s u = rows KindEd25519 u" "KeyRows s u = rows KindRSA u"
    using assms by (auto simp: keys_ok_def key_rows_def)
  have f: "wp (case r of None \<Rightarrow> stop_with (Err (plain KeyMissing))
            | Some pem \<Rightarrow> if pem = '''' then stop_with (Err (plain KeyMissing)) else ret pem) Q E t
       = (case r of None \<Rightarrow> E (Err (plain KeyMissing)) t | Some pem \<Rightarrow> if pem = '''' then E (Err (plain KeyMissing)) t else Q pem t)"
    for r Q E t by (cases r) simp_all
  show ?thesis using assms r
    by (cases kind) (auto simp: SigningKeyPEM_def Let_def wp_key_row f still_def split: option.splits)
qed

lemma wp_parse_key:
  "wp (parse_key p kind i pem) Q E s =
     (if Parses p kind pem then Q \<lparr>KeyKind = kind, KeyName = i, KeyText = pem\<rparr> s else E (Err (plain KeyUnparsable)) s)"
  by (simp add: parse_key_def)

lemma wp_resolve:
  assumes "cache_ok p content" "no_collision p" "plain_payload pl" "keys_ok p content rows s"
  shows "wp (resolveSigningKey p kind pl) (\<lambda>k s'. still p content rows s s' \<and> own_key p rows pl kind k) (\<lambda>_. still p content rows s) s"
proof -
  have n: "nul \<notin> set (key_id kind pl)" "nul \<notin> set (SignerUserID pl)" using plain_key_id [OF assms(3)] by simp_all
  note own = cached_is_own [OF assms(2,3), where kind = kind and rows = rows, symmetric]
  show ?thesis
  proof (cases "inline_pem kind pl = ''''")
    case False
    then show ?thesis unfolding resolveSigningKey_def signingKey_def own
      using wp_memoized [OF assms(1,4), where ck = "wanted_entry p kind pl" and m = "parse_key p kind (key_id kind pl) (inline_pem kind pl)"] n
      by (simp add: wp_parse_key wanted_entry_def still_def cached_ok_def)
  next
    case True
    show ?thesis
    proof (cases "KeySource p")
      case None
      then show ?thesis using True assms(4) by (simp add: resolveSigningKey_def still_def)
    next
      case (Some src)
      let ?m = "bind_act (SigningKeyPEM src (SignerUserID pl) kind) (\<lambda>pem. parse_key p kind (key_id kind pl) pem)"
      have "wp ?m (\<lambda>k t'. still p content rows t t' \<and> cached_ok p rows (wanted_entry p kind pl) k) (\<lambda>_. still p content rows t) t"
        if "keys_ok p content rows t" for t
        unfolding wp_bind wp_parse_key
        by (rule wp_mono [OF wp_SigningKeyPEM [OF that]]) (use True n in \<open>auto simp: cached_ok_def wanted_entry_def still_def\<close>)
      from wp_memoized [OF assms(1,4) this] show ?thesis
        using True Some unfolding own by (simp add: resolveSigningKey_def wanted_entry_def)
    qed
  qed
qed

section \<open>What is posted\<close>

definition fine_effect :: "'c processor \<Rightarrow> (key_kind \<Rightarrow> string \<Rightarrow> string option) \<Rightarrow> deliver_payload \<Rightarrow> deliver_effect \<Rightarrow> bool" where
  "fine_effect p rows pl x = (case x of
       Posted url body k \<Rightarrow> url = Inbox pl \<and> body = Body pl \<and> own_key p rows pl (KeyKind k) k
     | _ \<Rightarrow> True)"

definition own_posts ::
  "'c processor \<Rightarrow> ('c \<Rightarrow> string \<Rightarrow> private_key option) \<Rightarrow> (key_kind \<Rightarrow> string \<Rightarrow> string option) \<Rightarrow> deliver_payload
    \<Rightarrow> 'c deliver_state \<Rightarrow> 'c deliver_state \<Rightarrow> bool" where
  "own_posts p content rows pl s s' \<longleftrightarrow> (if keys_ok p content rows s
     then keys_ok p content rows s' \<and> (\<forall>x \<in> set (DeliverOut s'). x \<in> set (DeliverOut s) \<or> fine_effect p rows pl x) else True)"

interpretation posting: transition "own_posts p content rows pl" for p content rows pl
  by unfold_locales (auto simp: own_posts_def split: if_splits)

lemma own_posts_frame [simp]:
  "own_posts p content rows pl s (s\<lparr>RedisFaults := d\<rparr>)" "own_posts p content rows pl s (s\<lparr>Hosts := h, HostIndex := i\<rparr>)"
  "own_posts p content rows pl s (s\<lparr>FailCount := f\<rparr>)" "own_posts p content rows pl s (s\<lparr>DegradedTill := dt\<rparr>)"
  by (simp_all add: own_posts_def)

lemma moves_emit: "fine_effect p rows pl x \<Longrightarrow> moves (own_posts p content rows pl) (emit x)"
  unfolding emit_def by (rule posting.moves_change) (auto simp: own_posts_def)

lemma moves_set_host: "moves (own_posts p content rows pl) (set_host host i h)"
  unfolding set_host_def by (rule posting.moves_change) simp

lemma moves_redis: "moves (own_posts p content rows pl) redis"
  by (simp add: moves_def redis_def)

lemma moves_whenever: "(b \<Longrightarrow> moves (own_posts p content rows pl) m) \<Longrightarrow> moves (own_posts p content rows pl) (whenever b m)"
  by (simp add: whenever_def posting.moves_ret)

lemmas moves_deliver = posting.moves_rules moves_set_host moves_redis moves_whenever

lemma moves_hooks:
  "moves (own_posts p content rows pl) (recordSuccess q inbox)"
  "moves (own_posts p content rows pl) (recordError q inbox)"
  "moves (own_posts p content rows pl) (recordGoneSuspended q inbox)"
  "moves (own_posts p content rows pl) (recordEd25519Accepted q host)"
  unfolding recordSuccess_def recordError_def recordGoneSuspended_def recordEd25519Accepted_def Let_def
  by (intro moves_deliver moves_emit; simp add: fine_effect_def)+

lemma moves_breaker:
  "moves (own_posts p content rows pl) (breaker_check q token host job)"
  "moves (own_posts p content rows pl) (breaker_failure host token)"
  "moves (own_posts p content rows pl) (breaker_success host)"
  "moves (own_posts p content rows pl) (breaker_release host token)"
  "moves (own_posts p content rows pl) (breaker_throttle host d)"
  unfolding breaker_check_def breaker_failure_def breaker_success_def breaker_release_def breaker_throttle_def
  by (intro moves_deliver)+

lemma moves_degrade:
  "moves (own_posts p content rows pl) (isEd25519Degraded q host)"
  "moves (own_posts p content rows pl) (recordEd25519Failure q host)"
  unfolding isEd25519Degraded_def recordEd25519Failure_def markEd25519Degraded_def
  by (intro moves_deliver posting.moves_change own_posts_frame)+

lemma moves_recordAttempt: "moves (own_posts p content rows pl) (recordAttempt q a here class st msg)"
  unfolding recordAttempt_def Let_def
  by (intro moves_deliver moves_breaker moves_emit) (simp add: fine_effect_def)

lemma moves_held: "moves (own_posts p content rows pl) (held_or q e hold)"
  unfolding held_or_def by (rule posting.moves_stop)

lemma moves_failed_send: "moves (own_posts p content rows pl) (failed_send q pl' a e)"
  unfolding failed_send_def by (intro moves_deliver moves_hooks moves_recordAttempt moves_held)

lemma moves_settle: "moves (own_posts p content rows pl) (settle q pl' a resp)"
  unfolding settle_def Let_def
  by (intro moves_deliver moves_hooks moves_breaker moves_recordAttempt moves_held)

lemma moves_others: "moves (own_posts p content rows pl) (change (\<lambda>s. others q host evs (s\<lparr>Answers := tl (Answers s)\<rparr>)))"
  by (rule posting.moves_change) (simp add: own_posts_def others_def Let_def)

lemma moves_case_reply: "moves R m \<Longrightarrow> (\<And>m. moves R (f m)) \<Longrightarrow> (\<And>st ra. moves R (g st ra)) \<Longrightarrow>
    moves R (case x of NoResponse m \<Rightarrow> f m | Response st ra \<Rightarrow> g st ra)"
  by (cases x) simp_all

lemma moves_post_with:
  assumes "own_key p rows pl (KeyKind k) k"
  shows "moves (own_posts p content rows pl) (post_with q pl k ed)"
proof -
  have "moves (own_posts p content rows pl) (emit (Posted (Inbox pl) (Body pl) k))"
    using assms by (intro moves_emit) (simp add: fine_effect_def)
  then show ?thesis unfolding post_with_def PostSigned_def
    by (intro moves_deliver moves_others) (auto intro: posting.moves_rules split: reply.split)
qed

definition resolving :: "'c processor \<Rightarrow> ('c \<Rightarrow> string \<Rightarrow> private_key option) \<Rightarrow> deliver_payload \<Rightarrow> bool" where
  "resolving p content pl \<longleftrightarrow> cache_ok p content \<and> no_collision p \<and> plain_payload pl"

lemma own_postsI: "(keys_ok p content rows s \<Longrightarrow> own_posts p content rows pl s s') \<Longrightarrow> own_posts p content rows pl s s'"
  by (simp add: own_posts_def split: if_splits)

lemma still_own: "still p content rows s s' \<Longrightarrow> own_posts p content rows pl s' t \<Longrightarrow> own_posts p content rows pl s t"
  by (simp add: still_def own_posts_def split: if_splits)

lemma moves_resolved:
  assumes "resolving p content pl"
    and "\<And>k. own_key p rows pl kind k \<Longrightarrow> moves (own_posts p content rows pl) (f (Val k))"
    and "\<And>x. moves (own_posts p content rows pl) (f (Stop x))"
  shows "moves (own_posts p content rows pl) (bind_act (attempt (resolveSigningKey p kind pl)) f)"
  unfolding moves_def
proof (rule allI, rule own_postsI)
  fix s
  assume k: "keys_ok p content rows s"
  let ?P = "\<lambda>_. own_posts p content rows pl s"
  have m: "wp m ?P ?P t" if "moves (own_posts p content rows pl) m" "still p content rows s t" for m :: "('a, 'b) deliver_act" and t
    using that still_own unfolding wp_state moves_def by blast
  have r: "wp (resolveSigningKey p kind pl) (\<lambda>k s'. still p content rows s s' \<and> own_key p rows pl kind k) (\<lambda>_. still p content rows s) s"
    using assms(1) k by (intro wp_resolve) (simp_all add: resolving_def)
  have "wp (resolveSigningKey p kind pl) (\<lambda>a. wp (f (Val a)) ?P ?P) (\<lambda>e s'. case e of Err x \<Rightarrow> wp (f (Stop (Err x))) ?P ?P s' | _ \<Rightarrow> ?P e s') s"
  proof (rule wp_mono [OF r])
    fix e t
    assume t: "still p content rows s t"
    have "own_posts p content rows pl s t" by (rule still_own [OF t posting.refl_R])
    then show "case e of Err x \<Rightarrow> wp (f (Stop (Err x))) ?P ?P t | _ \<Rightarrow> ?P e t" using m [OF assms(3) t] by (cases e) simp_all
  next
    fix a t
    assume "still p content rows s t \<and> own_key p rows pl kind a"
    then show "wp (f (Val a)) ?P ?P t" using m [OF assms(2)] by blast
  qed
  then show "own_posts p content rows pl s (snd (bind_act (attempt (resolveSigningKey p kind pl)) f s))"
    unfolding wp_state [symmetric] by simp
qed

lemma moves_sendOnce:
  assumes "resolving p content pl"
  shows "moves (own_posts p content rows pl) (sendOnce p pl ed)"
proof -
  have k: "own_key p rows pl kind k \<Longrightarrow> own_key p rows pl (KeyKind k) k" for kind k by (simp add: own_key_def)
  have s: "moves (own_posts p content rows pl) (case x of Err e \<Rightarrow> stop_with (f e) | Panicked \<Rightarrow> stop_with g | Hung \<Rightarrow> stop_with h)" for x f g h
    by (cases x) (simp_all add: posting.moves_stop)
  have "moves (own_posts p content rows pl) (send_rsa p pl)"
    unfolding send_rsa_def
    by (rule moves_resolved [OF assms]) (auto intro: moves_post_with k posting.moves_stop split: stop.split)
  then show ?thesis unfolding sendOnce_def
    by (intro posting.moves_if moves_resolved [OF assms]) (auto intro: moves_post_with k)
qed

lemma moves_send_or_fail:
  "resolving p content pl \<Longrightarrow> moves (own_posts p content rows pl) (send_or_fail p pl a ed)"
  unfolding send_or_fail_def
  by (intro posting.moves_bind posting.moves_attempt moves_sendOnce)
     (auto intro: posting.moves_rules moves_failed_send split: res.split stop.split)

lemma moves_deliver_job:
  assumes "resolving p content pl"
  shows "moves (own_posts p content rows pl) (deliver p token raw pl)"
proof -
  have "moves (own_posts p content rows pl) (try_send p pl a ed)" for a ed
    unfolding try_send_def
    by (intro moves_deliver moves_send_or_fail [OF assms] moves_degrade moves_settle)
  moreover have "moves (own_posts p content rows pl) (wants_ed25519 p pl)"
    unfolding wants_ed25519_def by (intro moves_deliver moves_degrade)
  ultimately show ?thesis unfolding deliver_def Let_def by (intro moves_deliver moves_breaker)
qed

section \<open>Runs of jobs\<close>

datatype deliver_event = Job string string | Later nat | Answering "answer list" | Failing "bool list" "bool list"

fun deliver_step :: "'c processor \<Rightarrow> 'c deliver_state \<Rightarrow> deliver_event \<Rightarrow> 'c deliver_state" where
  "deliver_step p s (Job token raw) = snd (Handle p token raw s)"
| "deliver_step p s (Later d) = s\<lparr>Time := Time s + int d\<rparr>"
| "deliver_step p s (Answering as) = s\<lparr>Answers := as\<rparr>"
| "deliver_step p s (Failing rs ds) = s\<lparr>RedisFaults := rs, DbFaults := ds\<rparr>"

definition queued :: "'c processor \<Rightarrow> deliver_event list \<Rightarrow> deliver_payload set" where
  "queued p evs = {pl. \<exists>token raw. Job token raw \<in> set evs \<and> Decode p raw = Some pl}"

definition signed_properly :: "'c processor \<Rightarrow> (key_kind \<Rightarrow> string \<Rightarrow> string option) \<Rightarrow> deliver_payload set \<Rightarrow> deliver_effect \<Rightarrow> bool" where
  "signed_properly p rows pls x = (case x of
       Posted url body k \<Rightarrow> (\<exists>pl \<in> pls. url = Inbox pl \<and> body = Body pl \<and> \<not> gated p (HostOf p url) \<and> own_key p rows pl (KeyKind k) k)
     | _ \<Rightarrow> True)"

lemma handle_posts:
  assumes "cache_ok p content" "no_collision p" "\<And>pl. Decode p raw = Some pl \<Longrightarrow> plain_payload pl"
    and "keys_ok p content rows s" "s' = snd (Handle p token raw s)"
  shows "keys_ok p content rows s' \<and> (\<forall>x \<in> set (DeliverOut s'). x \<in> set (DeliverOut s) \<or> signed_properly p rows {pl. Decode p raw = Some pl} x)"
proof (cases "Decode p raw")
  case None
  then show ?thesis using assms(4,5) by (simp add: Handle_def stop_with_def)
next
  case (Some pl)
  have m: "moves (own_posts p content rows pl) (deliver p token raw pl)"
    using assms(1-3) Some by (intro moves_deliver_job) (simp add: resolving_def)
  show ?thesis
  proof (cases "job_expired pl (Time s) \<or> gated p (HostOf p (Inbox pl))")
    case True
    then show ?thesis using assms(4,5) Some by (auto simp: Handle_def act_defs)
  next
    case False
    then have "s' = snd (deliver p token raw pl s)" using assms(5) Some by (simp add: Handle_def bind_act_def query_def)
    then have "own_posts p content rows pl s s'" using m by (simp add: moves_def)
    moreover have "signed_properly p rows {pl. Decode p raw = Some pl} x" if "fine_effect p rows pl x" for x
      using that False Some by (cases x) (auto simp: fine_effect_def signed_properly_def)
    ultimately show ?thesis using assms(4) by (auto simp: own_posts_def)
  qed
qed

section \<open>What a request fails with\<close>

definition fails_with :: "('e \<Rightarrow> bool) \<Rightarrow> ('s, 'e, 'a) act \<Rightarrow> bool" where
  \<comment> \<open>it returns a value or such an error; it does not panic\<close>
  "fails_with P m \<longleftrightarrow> (\<forall>s. wp m (\<lambda>_ _. True) (\<lambda>e _. \<exists>x. e = Err x \<and> P x) s)"

lemma fails_basic: "fails_with P (ret a)" "P x \<Longrightarrow> fails_with P (stop_with (Err x))" "fails_with P (query f)" "fails_with P (change g)"
  by (simp_all add: fails_with_def)

lemma fails_bind: "fails_with P m \<Longrightarrow> (\<And>a. fails_with P (f a)) \<Longrightarrow> fails_with P (bind_act m f)"
  unfolding fails_with_def wp_bind by (blast intro: wp_mono)

lemma fails_then: "fails_with P m \<Longrightarrow> fails_with P n \<Longrightarrow> fails_with P (then_act m n)"
  unfolding then_act_def by (rule fails_bind)

lemma fails_try:
  assumes "fails_with R m" "\<And>a. fails_with P (f (Val a))" "\<And>x. R x \<Longrightarrow> fails_with P (f (Stop (Err x)))"
  shows "fails_with P (bind_act (attempt m) f)"
  unfolding fails_with_def wp_bind wp_attempt
proof
  fix s
  let ?E = "\<lambda>e _. \<exists>x. e = Err x \<and> P x"
  have m: "wp m (\<lambda>_ _. True) (\<lambda>e _. \<exists>x. e = Err x \<and> R x) s" using assms(1) by (simp add: fails_with_def)
  show "wp m (\<lambda>a. wp (f (Val a)) (\<lambda>_ _. True) ?E)
     (\<lambda>e s'. case e of Err x \<Rightarrow> wp (f (Stop (Err x))) (\<lambda>_ _. True) ?E s' | _ \<Rightarrow> ?E e s') s"
    by (rule wp_mono [OF m]) (use assms(2,3) in \<open>auto simp: fails_with_def\<close>)
qed

lemma fails_if: "(b \<Longrightarrow> fails_with P m) \<Longrightarrow> (\<not> b \<Longrightarrow> fails_with P n) \<Longrightarrow> fails_with P (if b then m else n)"
  by simp

lemma fails_option: "fails_with P m \<Longrightarrow> (\<And>a. fails_with P (f a)) \<Longrightarrow> fails_with P (case x of None \<Rightarrow> m | Some a \<Rightarrow> f a)"
  by (cases x) simp_all

lemma fails_reply: "(\<And>m. P (f m)) \<Longrightarrow> fails_with P (case x of NoResponse m \<Rightarrow> stop_with (Err (f m)) | Response st ra \<Rightarrow> ret (g st ra))"
  by (cases x) (simp_all add: fails_basic)

lemma fails_statements: "P (plain KeySourceFailed) \<Longrightarrow> fails_with P (key_row rs u)" "fails_with P (emit x)"
  by (simp_all add: fails_with_def emit_def wp_key_row Let_def)

lemmas fails_rules = fails_basic fails_bind fails_then fails_if fails_option fails_statements

definition key_error :: "deliver_error \<Rightarrow> bool" where
  "key_error e \<longleftrightarrow> e = plain KeyMissing \<or> e = plain KeyUnparsable \<or> e = plain KeySourceFailed"

definition send_error :: "deliver_error \<Rightarrow> bool" where
  \<comment> \<open>the client failed, or there is no key: for good or not\<close>
  "send_error e \<longleftrightarrow> (\<exists>m. e = plain (PostFailed m))
     \<or> (\<exists>c. key_error (plain c) \<and> e = (plain c)\<lparr>LocalSend := True, SkipRetry := (c \<noteq> KeySourceFailed)\<rparr>)"

lemma fails_resolve: "fails_with key_error (resolveSigningKey p kind pl)"
  unfolding resolveSigningKey_def signingKey_def memoized_def parse_key_def SigningKeyPEM_def Let_def
  by (intro fails_rules; simp add: key_error_def)

lemma fails_sendOnce: "fails_with send_error (sendOnce p pl ed)"
proof -
  have w: "fails_with send_error (post_with p pl k b)" for k b
    unfolding post_with_def PostSigned_def by (intro fails_rules fails_reply) (auto simp: send_error_def)
  have "fails_with send_error (send_rsa p pl)" unfolding send_rsa_def
    by (rule fails_try [OF fails_resolve])
       (auto simp: w send_error_def key_error_def plain_def isPermanentSigningKeyError_def intro!: fails_basic)
  then show ?thesis unfolding sendOnce_def
    by (intro fails_if fails_try [OF fails_resolve]) (simp_all add: w)
qed

section \<open>The probe slot\<close>

definition slot_free :: "string \<Rightarrow> int \<Rightarrow> host_state \<Rightarrow> bool" where
  "slot_free token now hs \<longleftrightarrow> map_option fst (probe_of now hs) \<noteq> Some token"

definition probe_safe :: "string \<Rightarrow> int \<Rightarrow> host_state \<Rightarrow> bool" where
  \<comment> \<open>while the token holds the slot, the breaker is open and its record outlives the lock\<close>
  "probe_safe token now hs \<longleftrightarrow> (\<forall>e. Probe hs = Some (token, e) \<longrightarrow> e < now \<or> (e \<le> now + breakerProbeLockTTL
     \<and> (\<exists>h x. Breaker hs = Some (h, x) \<and> OpenedAt h > 0 \<and> (case x of None \<Rightarrow> True | Some y \<Rightarrow> e \<le> y))))"

definition foreign :: "string \<Rightarrow> breaker_event \<Rightarrow> bool" where
  \<comment> \<open>another worker's event: tokens are drawn once\<close>
  "foreign token ev \<longleftrightarrow> (\<forall>job. ev \<noteq> DoCheck token job)"

lemma Check_other_probe:
  assumes "Probe (snd (Check up j t host job now hs)) = Some (token, e)" "t \<noteq> token"
  shows "Probe hs = Some (token, e)"
  using assms
  by (auto simp: Check_def check_script_def half_open_check_def drop_reservation_def take_slot_def Let_def
      split: if_splits prod.splits option.splits)

lemma Check_breaker [simp]: "Breaker (snd (Check up j t host job now hs)) = Breaker hs"
  by (auto simp: Check_def check_script_def half_open_check_def drop_reservation_def take_slot_def Let_def
      split: if_splits prod.splits option.splits)

lemma failure_probe:
  "Probe (snd (snd (RecordFailure up host t now hs))) = Some x \<Longrightarrow> Probe hs = Some x"
  by (auto simp: RecordFailure_def failure_script_def Let_def split: if_splits)

lemma failure_still_open:
  assumes "Breaker hs = Some (h, x)" "OpenedAt h > 0" "case x of None \<Rightarrow> True | Some y \<Rightarrow> e \<le> y" "now \<le> e" "e \<le> now + breakerProbeLockTTL"
  shows "\<exists>h x. Breaker (snd (snd (RecordFailure up host t now hs))) = Some (h, x) \<and> OpenedAt h > 0
    \<and> (case x of None \<Rightarrow> True | Some y \<Rightarrow> e \<le> y)"
proof -
  have "hash_of now hs = Some h" using assms(1,3,4) by (auto simp: hash_of_def live_def split: option.splits)
  then show ?thesis using assms(1-5)
    by (auto simp: RecordFailure_def failure_script_def counted_def Let_def breaker_constants)
qed

lemma probe_safe_step:
  assumes "probe_safe token (Clock r) (HState r)" "foreign token ev"
  shows "probe_safe token (Clock (breaker_step host j r ev)) (HState (breaker_step host j r ev))"
proof (cases ev)
  case (DoCheck t job)
  then show ?thesis using assms Check_other_probe [of "Up r" j t host job "Clock r" "HState r" token]
    by (auto simp: breaker_step_def probe_safe_def foreign_def)
next
  case (DoFailure t)
  have "e < Clock r \<or> (e \<le> Clock r + breakerProbeLockTTL
     \<and> (\<exists>h x. Breaker (snd (snd (RecordFailure (Up r) host t (Clock r) (HState r)))) = Some (h, x) \<and> OpenedAt h > 0
        \<and> (case x of None \<Rightarrow> True | Some y \<Rightarrow> e \<le> y)))"
    if p: "Probe (snd (snd (RecordFailure (Up r) host t (Clock r) (HState r)))) = Some (token, e)" for e
  proof (cases "e < Clock r")
    case False
    then obtain h x where "e \<le> Clock r + breakerProbeLockTTL" "Breaker (HState r) = Some (h, x)" "OpenedAt h > 0"
      "case x of None \<Rightarrow> True | Some y \<Rightarrow> e \<le> y"
      using assms(1) failure_probe [OF p] unfolding probe_safe_def by blast
    then show ?thesis using failure_still_open [of "HState r" h x e "Clock r" "Up r" host t] False by auto
  qed simp
  then show ?thesis using DoFailure by (simp add: breaker_step_def probe_safe_def)
next
  case (Advance n)
  then show ?thesis using assms(1) by (fastforce simp: breaker_step_def probe_safe_def)
qed (use assms(1) in \<open>auto simp: breaker_step_def probe_safe_def RecordSuccess_def Close_def close_script_def ReleaseProbe_def
      Throttle_def Let_def split: if_splits\<close>)

definition not_ours :: "string \<Rightarrow> host_state \<Rightarrow> bool" where
  "not_ours token hs \<longleftrightarrow> map_option fst (Probe hs) \<noteq> Some token"

lemma not_ours_step:
  assumes "not_ours token (HState r)" "foreign token ev"
  shows "not_ours token (HState (breaker_step host j r ev))"
proof (cases ev)
  case (DoCheck t job)
  then show ?thesis using assms Check_other_probe [of "Up r" j t host job "Clock r" "HState r" token]
    by (auto simp: breaker_step_def not_ours_def foreign_def)
next
  case (DoFailure t)
  then show ?thesis using assms(1) failure_probe [of "Up r" host t "Clock r" "HState r"]
    by (auto simp: breaker_step_def not_ours_def)
qed (use assms(1) in \<open>auto simp: breaker_step_def not_ours_def RecordSuccess_def Close_def close_script_def ReleaseProbe_def
      Throttle_def Let_def split: if_splits\<close>)

lemma not_ours_free: "not_ours token hs \<Longrightarrow> slot_free token now hs"
  by (auto simp: not_ours_def slot_free_def probe_of_def split: option.splits if_splits)

lemma failure_frees:
  assumes "probe_safe token now hs" "host \<noteq> ''''" "token \<noteq> ''''"
  shows "slot_free token now (snd (snd (RecordFailure True host token now hs)))"
  unfolding slot_free_def
proof
  assume "map_option fst (probe_of now (snd (snd (RecordFailure True host token now hs)))) = Some token"
  then obtain e where e: "Probe (snd (snd (RecordFailure True host token now hs))) = Some (token, e)" "now \<le> e"
    by (auto simp: probe_of_def live_def split: option.splits if_splits)
  have p: "Probe hs = Some (token, e)" by (rule failure_probe [OF e(1)])
  then obtain h x where b: "Breaker hs = Some (h, x)" "OpenedAt h > 0" "case x of None \<Rightarrow> True | Some y \<Rightarrow> e \<le> y"
    using assms(1) e(2) unfolding probe_safe_def by fastforce
  then have "hash_of now hs = Some h" using e(2) by (auto simp: hash_of_def live_def split: option.splits)
  moreover have "owns_probe now token hs" using p e(2) assms(3) by (simp add: owns_probe_def probe_of_def live_def)
  ultimately show False using e(1) b(2) assms(2) by (simp add: RecordFailure_def failure_script_def counted_def Let_def)
qed

lemma failure_keeps_free: "not_ours token hs \<Longrightarrow> slot_free token now (snd (snd (RecordFailure up host t now hs)))"
  using failure_probe [of up host t now hs] by (intro not_ours_free) (auto simp: not_ours_def)

lemma success_frees: "host \<noteq> '''' \<Longrightarrow> slot_free token now (snd (RecordSuccess True host now hs))"
  by (simp add: slot_free_def probe_of_def RecordSuccess_def close_script_def Let_def)

lemma release_frees: "host \<noteq> '''' \<Longrightarrow> token \<noteq> '''' \<Longrightarrow> slot_free token now (ReleaseProbe True host token now hs)"
  by (simp add: slot_free_def probe_of_def ReleaseProbe_def)

definition holds :: "attempt_info \<Rightarrow> string \<Rightarrow> int \<Rightarrow> host_state \<Rightarrow> bool" where
  "holds a token now hs \<longleftrightarrow> (if BreakerState a \<and> ProbeHeld a = token then probe_safe token now hs else not_ours token hs)"

lemma holds_run:
  "holds a token (Clock r) (HState r) \<Longrightarrow> list_all (foreign token) evs \<Longrightarrow>
   holds a token (Clock (run_steps (breaker_step host j) r evs)) (HState (run_steps (breaker_step host j) r evs))"
proof (induction evs arbitrary: r)
  case (Cons ev evs)
  have "holds a token (Clock (breaker_step host j r ev)) (HState (breaker_step host j r ev))"
    using Cons.prems probe_safe_step not_ours_step by (auto simp: holds_def split: if_splits)
  then show ?case using Cons by simp
qed simp

definition pending :: "attempt_info \<Rightarrow> string \<Rightarrow> 'c deliver_state \<Rightarrow> bool" where
  "pending a token s \<longleftrightarrow> RedisFaults s = [] \<and> (\<forall>x \<in> set (Answers s). list_all (foreign token) (Meanwhile x))
     \<and> holds a token (Time s) (Hosts s (AttemptHost a))"

definition freed :: "attempt_info \<Rightarrow> string \<Rightarrow> 'c deliver_state \<Rightarrow> bool" where
  "freed a token s \<longleftrightarrow> RedisFaults s = [] \<and> slot_free token (Time s) (Hosts s (AttemptHost a))"

interpretation keeping: transition "\<lambda>s s'. P s \<longrightarrow> P s'" for P
  by unfold_locales auto

lemma keeps_wp: "moves (\<lambda>s s'. P s \<longrightarrow> P s') m \<Longrightarrow> P s \<Longrightarrow> wp m (\<lambda>_. P) (\<lambda>_. P) s"
  unfolding wp_state moves_def by blast

lemma pending_frame [simp]:
  "pending a token (s\<lparr>DeliverOut := x\<rparr>) = pending a token s" "pending a token (s\<lparr>DbFaults := d\<rparr>) = pending a token s"
  "pending a token (s\<lparr>Cache := c\<rparr>) = pending a token s" "pending a token (s\<lparr>FailCount := fc\<rparr>) = pending a token s"
  "pending a token (s\<lparr>DegradedTill := dt\<rparr>) = pending a token s" "pending a token s \<Longrightarrow> pending a token (s\<lparr>RedisFaults := tl (RedisFaults s)\<rparr>)"
  "freed a token (s\<lparr>DeliverOut := x\<rparr>) = freed a token s"
  by (simp_all add: pending_def freed_def)

lemma keeps_whenever: "moves (\<lambda>s s'. P s \<longrightarrow> P s') m \<Longrightarrow> moves (\<lambda>s s'. P s \<longrightarrow> P s') (whenever b m)"
  by (simp add: whenever_def keeping.moves_ret)

lemma pending_statements:
  "moves (\<lambda>s s'. pending a token s \<longrightarrow> pending a token s') redis"
  "moves (\<lambda>s s'. pending a token s \<longrightarrow> pending a token s') (key_row rs u)"
  "moves (\<lambda>s s'. pending a token s \<longrightarrow> pending a token s') (emit x)"
  "moves (\<lambda>s s'. freed a token s \<longrightarrow> freed a token s') (emit x)"
  by (simp_all add: moves_def redis_def key_row_def emit_def change_def)

lemmas keeps_rules = keeping.moves_rules keeps_whenever pending_statements

lemma pending_changes:
  "moves (\<lambda>s s'. pending a token s \<longrightarrow> pending a token s') (change (\<lambda>s. s\<lparr>Cache := f s\<rparr>))"
  "moves (\<lambda>s s'. pending a token s \<longrightarrow> pending a token s') (change (\<lambda>s. s\<lparr>FailCount := g s\<rparr>))"
  "moves (\<lambda>s s'. pending a token s \<longrightarrow> pending a token s') (change (\<lambda>s. s\<lparr>DegradedTill := h s\<rparr>))"
  by (intro keeping.moves_change, simp)+

lemma pending_others:
  "pending a token s \<Longrightarrow> Answers s = x # xs \<Longrightarrow>
   pending a token (others p (AttemptHost a) (Meanwhile x) (s\<lparr>Answers := xs\<rparr>))"
  using holds_run [of a token "\<lparr>Clock = Time s, Up = True, HState = Hosts s (AttemptHost a)\<rparr>" "Meanwhile x" "AttemptHost a" "Jitter p"]
  by (simp add: pending_def others_def Let_def)

lemma pending_PostSigned:
  assumes "AttemptHost a = HostOf p (Inbox pl)"
  shows "moves (\<lambda>s s'. pending a token s \<longrightarrow> pending a token s') (PostSigned p pl k)"
proof -
  have "wp (PostSigned p pl k) (\<lambda>_. pending a token) (\<lambda>_. pending a token) s" if "pending a token s" for s
    using that pending_others [of a token s _ _ p] unfolding PostSigned_def assms [symmetric]
    by (cases "Answers s")
      (auto simp: emit_def no_answer_def others_def Let_def pending_def split: reply.split)
  then show ?thesis unfolding moves_def wp_state by blast
qed

lemma pending_resolve: "moves (\<lambda>s s'. pending a token s \<longrightarrow> pending a token s') (resolveSigningKey p kind pl)"
  unfolding resolveSigningKey_def signingKey_def memoized_def parse_key_def SigningKeyPEM_def Let_def
  by (intro keeps_rules pending_changes)

lemma pending_sendOnce:
  assumes "AttemptHost a = HostOf p (Inbox pl)"
  shows "moves (\<lambda>s s'. pending a token s \<longrightarrow> pending a token s') (sendOnce p pl ed)"
proof -
  have w: "moves (\<lambda>s s'. pending a token s \<longrightarrow> pending a token s') (post_with p pl k b)" for k b
    unfolding post_with_def by (intro keeps_rules pending_PostSigned [OF assms])
  have "moves (\<lambda>s s'. pending a token s \<longrightarrow> pending a token s') (send_rsa p pl)" unfolding send_rsa_def
    by (intro keeping.moves_bind keeping.moves_attempt pending_resolve) (auto intro: w keeping.moves_stop split: res.split stop.split)
  then show ?thesis unfolding sendOnce_def by (intro keeps_rules pending_resolve w)
qed

lemma wp_redis [simp]: "wp redis Q E s = Q (goes_through (RedisFaults s)) (s\<lparr>RedisFaults := tl (RedisFaults s)\<rparr>)"
  by (simp add: wp_def redis_def)

lemma wp_set_host [simp]: "wp (set_host host op h) Q E s =
    Q () (s\<lparr>Hosts := (Hosts s)(host := h), HostIndex := index_apply op (Time s) host (HostIndex s)\<rparr>)"
  by (simp add: set_host_def)

lemma wp_whenever [simp]: "wp (whenever b m) Q E s = (if b then wp m Q E s else Q () s)"
  by (simp add: whenever_def)

lemma wp_goes_out [simp]: "wp (emit x) Q E s = Q () (s\<lparr>DeliverOut := DeliverOut s @ [x]\<rparr>)"
  by (simp add: emit_def)

lemma wp_recordAttempt_frees:
  assumes "pending a token s" "HasBreaker p" "AttemptHost a \<noteq> ''''" "token \<noteq> ''''"
  shows "wp (recordAttempt p a here class st msg) (\<lambda>_. freed a token) (\<lambda>_. freed a token) s"
proof -
  let ?h = "AttemptHost a"
  have f: "holds a token (Time s) (Hosts s ?h) \<Longrightarrow> slot_free token (Time s) (snd (snd (RecordFailure True ?h (ProbeHeld a) (Time s) (Hosts s ?h))))"
    using assms(3,4) failure_frees failure_keeps_free by (auto simp: holds_def split: if_splits)
  have r: "holds a token (Time s) (Hosts s ?h) \<Longrightarrow> slot_free token (Time s) (ReleaseProbe True ?h (ProbeHeld a) (Time s) (Hosts s ?h))"
    using assms(3,4) release_frees not_ours_free by (auto simp: holds_def not_ours_def ReleaseProbe_def slot_free_def split: if_splits)
  have n: "holds a token (Time s) (Hosts s ?h) \<Longrightarrow> \<not> BreakerState a \<or> ProbeHeld a \<noteq> token \<Longrightarrow> slot_free token (Time s) (Hosts s ?h)"
    using not_ours_free by (auto simp: holds_def split: if_splits)
  note up = success_frees [OF assms(3)] f r n
  show ?thesis
    using assms up unfolding recordAttempt_def breaker_failure_def breaker_success_def breaker_release_def Let_def
    by (auto simp: pending_def freed_def goes_through_def)
qed

lemma freed_throttle: "moves (\<lambda>s s'. freed a token s \<longrightarrow> freed a token s') (breaker_throttle (AttemptHost a) d)"
proof -
  have "slot_free token now (snd (Throttle up host d now hs)) = slot_free token now hs" for up host now hs
    by (simp add: slot_free_def probe_of_def Throttle_def Let_def)
  then show ?thesis unfolding moves_wp breaker_throttle_def by (simp add: freed_def)
qed

lemma freed_hooks:
  "moves (\<lambda>s s'. freed a token s \<longrightarrow> freed a token s') (recordGoneSuspended p i)"
  "moves (\<lambda>s s'. freed a token s \<longrightarrow> freed a token s') (recordEd25519Accepted p h)"
  "moves (\<lambda>s s'. freed a token s \<longrightarrow> freed a token s') (held_or pl e hold)"
  unfolding recordGoneSuspended_def recordEd25519Accepted_def held_or_def Let_def by (intro keeps_rules)+

lemma pending_hooks:
  "moves (\<lambda>s s'. pending a token s \<longrightarrow> pending a token s') (recordSuccess p i)"
  "moves (\<lambda>s s'. pending a token s \<longrightarrow> pending a token s') (recordError p i)"
  "moves (\<lambda>s s'. pending a token s \<longrightarrow> pending a token s') (recordEd25519Failure p h)"
  unfolding recordSuccess_def recordError_def recordEd25519Failure_def markEd25519Degraded_def Let_def
  by (intro keeps_rules pending_changes)+

definition frees :: "attempt_info \<Rightarrow> string \<Rightarrow> ('c, 'a) deliver_act \<Rightarrow> bool" where
  \<comment> \<open>started while pending, it ends with the slot free\<close>
  "frees a token m \<longleftrightarrow> (\<forall>s. pending a token s \<longrightarrow> wp m (\<lambda>_. freed a token) (\<lambda>_. freed a token) s)"


lemma frees_then:
  fixes m :: "('c, unit) deliver_act"
  assumes "always (\<lambda>s s'. pending a token s \<longrightarrow> pending a token s') m" "frees a token n"
  shows "frees a token (then_act m n)"
  unfolding frees_def wp_then
proof (intro allI impI)
  fix s :: "'c deliver_state"
  assume p: "pending a token s"
  show "wp m (\<lambda>_. wp n (\<lambda>_. freed a token) (\<lambda>_. freed a token)) (\<lambda>_. freed a token) s"
    by (rule wp_mono [OF always_wp [OF assms(1)]]) (use p assms(2) in \<open>simp_all add: frees_def\<close>)
qed

lemma frees_more:
  fixes m :: "('c, 'a) deliver_act"
  assumes "frees a token m" "\<And>x. moves (\<lambda>s s'. freed a token s \<longrightarrow> freed a token s') (f x)"
  shows "frees a token (bind_act m f)"
  unfolding frees_def wp_bind
proof (intro allI impI)
  fix s :: "'c deliver_state"
  assume "pending a token s"
  then have m: "wp m (\<lambda>_. freed a token) (\<lambda>_. freed a token) s" using assms(1) by (simp add: frees_def)
  show "wp m (\<lambda>x. wp (f x) (\<lambda>_. freed a token) (\<lambda>_. freed a token)) (\<lambda>_. freed a token) s"
    by (rule wp_mono [OF m]) (use keeps_wp [OF assms(2)] in simp_all)
qed

lemma always_emit: "always (\<lambda>s s'. pending a token s \<longrightarrow> pending a token s') (emit x)"
  unfolding emit_def by (rule keeping.always_change) simp

lemma always_whenever: "always (\<lambda>s s'. P s \<longrightarrow> P s') m \<Longrightarrow> always (\<lambda>s s'. P s \<longrightarrow> P s') (whenever b m)"
  by (simp add: whenever_def keeping.always_ret)

lemma always_records:
  "always (\<lambda>s s'. pending a token s \<longrightarrow> pending a token s') (recordSuccess p i)"
  "always (\<lambda>s s'. pending a token s \<longrightarrow> pending a token s') (recordError p i)"
  unfolding recordSuccess_def recordError_def Let_def by (intro keeping.always_rules always_emit always_whenever)+

lemma frees_recordAttempt:
  "HasBreaker p \<Longrightarrow> AttemptHost a \<noteq> '''' \<Longrightarrow> token \<noteq> '''' \<Longrightarrow> frees a token (recordAttempt p a here class st msg)"
  by (simp add: frees_def wp_recordAttempt_frees)

lemma frees_settle:
  fixes p :: "'c processor"
  assumes "HasBreaker p" "AttemptHost a \<noteq> ''''" "token \<noteq> ''''"
  shows "frees a token (settle p pl a resp)"
proof -
  have r: "frees a token (then_act (recordSuccess p i) (bind_act (recordAttempt p a False cl st msg) (\<lambda>_. ret ())) :: ('c, unit) deliver_act)" for i cl st msg
    by (intro frees_then frees_more always_records frees_recordAttempt assms keeping.moves_ret)
  have m: "frees a token (m :: ('c, unit) deliver_act) \<Longrightarrow> moves (\<lambda>s s'. freed a token s \<longrightarrow> freed a token s') n \<Longrightarrow> frees a token (then_act m n)" for m n
    unfolding then_act_def by (rule frees_more)
  have e: "frees a token (then_act (recordError p i) (bind_act (recordAttempt p a False cl st msg) (held_or pl e)) :: ('c, unit) deliver_act)" for i cl st msg e
    by (intro frees_then frees_more always_records frees_recordAttempt assms freed_hooks)
  show ?thesis unfolding settle_def Let_def
    by (simp add: r e m keeping.moves_rules keeps_whenever freed_hooks freed_throttle)
qed

lemma wp_held_or [simp]: "wp (held_or pl e hold) Q E s = E (Err (case hold of Some d \<Rightarrow> holdOrDrop pl e d | None \<Rightarrow> e)) s"
  by (simp add: held_or_def)

lemma frees_failed_send:
  fixes p :: "'c processor"
  assumes "HasBreaker p" "AttemptHost a \<noteq> ''''" "token \<noteq> ''''" "pending a token s"
  shows "wp (failed_send p pl a e) Q (\<lambda>_. freed a token) s"
  unfolding failed_send_def wp_then
proof (rule wp_mono [OF always_wp [OF always_records(2) [where a = a and token = token]]])
  fix s' :: "'c deliver_state"
  assume "pending a token s \<longrightarrow> pending a token s'"
  with assms(4) have p: "pending a token s'" by simp
  show "wp (bind_act (recordAttempt p a (LocalSend e) ClassTransport 0 (Some (Cause e))) (held_or pl e)) Q (\<lambda>_. freed a token) s'"
    unfolding wp_bind by (rule wp_mono [OF wp_recordAttempt_frees [OF p assms(1-3)]]) simp_all
qed simp

lemma frees_try_send:
  fixes p :: "'c processor"
  assumes "HasBreaker p" "AttemptHost a = HostOf p (Inbox pl)" "AttemptHost a \<noteq> ''''" "token \<noteq> ''''" "pending a token s"
  shows "wp (try_send p pl a ed) (\<lambda>_. freed a token) (\<lambda>_. freed a token) s"
proof -
  have send: "wp (send_or_fail p pl a b) (\<lambda>_. pending a token) (\<lambda>_. freed a token) s" if "pending a token s" for b and s :: "'c deliver_state"
  proof -
    have r: "wp (sendOnce p pl b) (\<lambda>_ _. True) (\<lambda>e _. \<exists>x. e = Err x \<and> send_error x) s" using fails_sendOnce unfolding fails_with_def by blast
    show ?thesis unfolding send_or_fail_def wp_bind wp_attempt
      by (rule wp_mono [OF wp_conj [OF keeps_wp [OF pending_sendOnce [OF assms(2)] that] r]])
        (auto simp: frees_failed_send [OF assms(1,3,4)])
  qed
  have settle: "pending a token s \<Longrightarrow> wp (settle p pl a x) (\<lambda>_. freed a token) (\<lambda>_. freed a token) s" for x and s :: "'c deliver_state"
    using frees_settle [OF assms(1,3,4)] by (simp add: frees_def)
  have rec: "always (\<lambda>s s'. pending a token s \<longrightarrow> pending a token s') (recordEd25519Failure p h)" for h
    unfolding recordEd25519Failure_def markEd25519Degraded_def
    by (intro keeping.always_rules always_whenever keeping.always_change) (simp_all add: always_def)
  have again: "wp (then_act (recordEd25519Failure p (AttemptHost a)) (bind_act (send_or_fail p pl a False) (settle p pl a)))
     (\<lambda>_. freed a token) (\<lambda>_. freed a token) s" if "pending a token s" for s :: "'c deliver_state"
    unfolding wp_then wp_bind
    by (rule wp_mono [OF always_wp [OF rec]], rule wp_mono [OF send]) (use that settle in auto)
  show ?thesis unfolding try_send_def wp_bind
    by (rule wp_mono [OF send [OF assms(5)]]) (auto simp: again settle simp del: wp_then wp_bind)
qed

definition ready :: "string \<Rightarrow> string \<Rightarrow> 'c deliver_state \<Rightarrow> bool" where
  \<comment> \<open>the token is new, and the record of failures is not about to expire\<close>
  "ready token host s \<longleftrightarrow> RedisFaults s = [] \<and> (\<forall>x \<in> set (Answers s). list_all (foreign token) (Meanwhile x))
     \<and> not_ours token (Hosts s host)
     \<and> (case Breaker (Hosts s host) of Some (h, Some e) \<Rightarrow> Time s + breakerProbeLockTTL \<le> e | _ \<Rightarrow> True)"

lemma Check_decides:
  assumes "host \<noteq> ''''" "not_ours token hs" "token \<noteq> ''''"
    and "case Breaker hs of Some (h, Some e) \<Rightarrow> now + breakerProbeLockTTL \<le> e | _ \<Rightarrow> True"
    and "r = Check True j token host job now hs"
  shows "if Decision (fst r) = BreakerProbe then probe_safe token now (snd r) \<and> ProbeToken (fst r) = token
    else not_ours token (snd r) \<and> ProbeToken (fst r) = ''''"
proof (cases "Decision (fst r) = BreakerProbe")
  case True
  then have p: "Probe (snd r) = Some (token, now + breakerProbeLockTTL)" "ProbeToken (fst r) = token"
    using Check_probe [of True j token host job now hs] assms(5) by simp_all
  have "fst (fst (check_script now breakerProbeLockTTL token throttleSpacing job hs)) = CheckProbe"
    using True assms(1,5) check_outcome_probe by (simp add: Check_def split: prod.splits)
  then have "opened now hs > 0"
    by (auto simp: check_script_def half_open_check_def drop_reservation_def Let_def split: if_splits option.splits)
  then obtain h x where b: "Breaker hs = Some (h, x)" "OpenedAt h > 0"
    by (auto simp: opened_def hash_of_def split: option.splits if_splits)
  have "Breaker (snd r) = Some (h, x)" using b assms(5) by simp
  then have "probe_safe token now (snd r)" using p(1) b assms(4) by (auto simp: probe_safe_def split: option.splits)
  then show ?thesis using True p(2) by simp
next
  case False
  then have c: "fst (fst (check_script now breakerProbeLockTTL token throttleSpacing job hs)) \<noteq> CheckProbe"
    using assms(1,5) check_outcome_probe by (simp add: Check_def split: prod.splits)
  then have "Probe (snd r) = Probe hs"
    using assms(1,5) by (auto simp: Check_def check_script_def half_open_check_def drop_reservation_def take_slot_def Let_def
      split: if_splits prod.splits option.splits)
  moreover have "ProbeToken (fst r) = ''''"
    using False c assms(1,5) by (auto simp: Check_def check_outcome_def Let_def split: prod.splits check_kind.splits)
  ultimately show ?thesis using False assms(2) by (simp add: not_ours_def)
qed

lemma ready_checked:
  assumes "host \<noteq> ''''" "token \<noteq> ''''" "HasBreaker p" "ready token host s"
  shows "wp (breaker_check p token host job) (\<lambda>r s'. Time s' = Time s \<and> (if Decision r = BreakerDelay
     then freed (attempt_of host (Time s) r) token s' else pending (attempt_of host (Time s) r) token s')) (\<lambda>_ _. False) s"
proof -
  define r where "r = Check True (Jitter p) token host job (Time s) (Hosts s host)"
  have d: "if Decision (fst r) = BreakerProbe then probe_safe token (Time s) (snd r) \<and> ProbeToken (fst r) = token
    else not_ours token (snd r) \<and> ProbeToken (fst r) = ''''"
    using Check_decides [OF assms(1) _ assms(2) _ r_def] assms(4) by (simp add: ready_def)
  have "wp (breaker_check p token host job) Q E s =
      Q (fst r) (s\<lparr>RedisFaults := [], Hosts := (Hosts s)(host := snd r), HostIndex := index_apply IndexKeep (Time s) host (HostIndex s)\<rparr>)" for Q E
    using assms unfolding breaker_check_def ready_def by (simp add: r_def goes_through_def)
  then show ?thesis using d assms(2,4) not_ours_free
    by (auto simp: ready_def pending_def freed_def holds_def attempt_of_def split: if_splits)
qed

lemma ready_wants: "wp (wants_ed25519 p pl) (\<lambda>_ s'. ready token host s \<longrightarrow> ready token host s') (\<lambda>_ _. False) s"
  unfolding wants_ed25519_def isEd25519Degraded_def by (auto simp: ready_def split: option.splits)

text \<open>C18. A probe is given back.  Whatever happens to a delivery that was let through as the probe of a half-open
  breaker (any answer, a failure of the client, a missing key, a second request without Ed25519, and whatever the other
  workers do to the same host meanwhile), its token does not hold the probe slot when \<open>Handle\<close> ends, so the next probe
  need not wait for the lock to expire.  Redis must answer, tokens are drawn once, and the record of failures must not
  expire within the next five minutes.\<close>

theorem probe_slot_returned:
  fixes p :: "'c processor"
  assumes "Decode p raw = Some pl" "HostOf p (Inbox pl) = host" "host \<noteq> ''''" "token \<noteq> ''''" "HasBreaker p" "ready token host s"
  shows "map_option fst (probe_of (Time (snd (Handle p token raw s))) (Hosts (snd (Handle p token raw s)) host)) \<noteq> Some token"
proof -
  let ?F = "\<lambda>s'. slot_free token (Time s') (Hosts s' host)"
  have f: "freed (attempt_of host now r) token t \<Longrightarrow> ?F t" for now r and t :: "'c deliver_state"
    by (simp add: freed_def attempt_of_def)
  have n: "ready token host t \<Longrightarrow> ?F t" for t :: "'c deliver_state" by (simp add: ready_def not_ours_free)
  have send: "wp (try_send p pl (attempt_of host now r) ed) (\<lambda>_. ?F) (\<lambda>_. ?F) t"
    if "pending (attempt_of host now r) token t" for now r ed and t :: "'c deliver_state"
    by (rule wp_mono [OF frees_try_send [OF assms(5) _ _ assms(4) that]]) (use assms(2,3) f in \<open>auto simp: attempt_of_def\<close>)
  have "wp (deliver p token raw pl) (\<lambda>_. ?F) (\<lambda>_. ?F) s"
    unfolding deliver_def Let_def assms(2) wp_bind
  proof (rule wp_mono [OF ready_wants [where token = token and host = host]])
    fix ed and t :: "'c deliver_state"
    assume "ready token host s \<longrightarrow> ready token host t"
    then have t: "ready token host t" using assms(6) by simp
    show "wp (breaker_check p token host (JobHash p raw)) (\<lambda>r. wp (if Decision r = BreakerDelay
          then stop_with (Err (holdOrDrop pl (plain HeldBack) (Delay r)))
          else bind_act (query Time) (\<lambda>now. try_send p pl (attempt_of host now r) ed)) (\<lambda>_. ?F) (\<lambda>_. ?F)) (\<lambda>_. ?F) t"
      by (rule wp_mono [OF ready_checked [OF assms(3,4,5) t]]) (auto simp: send split: if_splits, metis f)
  qed simp
  then have "wp (Handle p token raw) (\<lambda>_. ?F) (\<lambda>_. ?F) s"
    using assms(1) n [OF assms(6)] by (simp add: Handle_def)
  then show ?thesis unfolding wp_state slot_free_def .
qed

section \<open>Which jobs lose an attempt\<close>

definition unhelpful :: "cause \<Rightarrow> bool" where
  \<comment> \<open>what no retry can change\<close>
  "unhelpful c \<longleftrightarrow> (case c of BadPayload \<Rightarrow> True | PastDeadline \<Rightarrow> True | KeyUnparsable \<Rightarrow> True | KeyMissing \<Rightarrow> True
     | TargetGone _ \<Rightarrow> True | ClientError _ \<Rightarrow> True | _ \<Rightarrow> False)"

definition fair_end :: "deliver_payload \<Rightarrow> string \<Rightarrow> deliver_error \<Rightarrow> 'c deliver_state \<Rightarrow> bool" where
  "fair_end pl host e s \<longleftrightarrow> (case nativeError e of
       NativeDelay d \<Rightarrow> NotAfter pl = 0 \<and> 1 \<le> d \<and> d \<le> 330000
     | NativeUnrecoverable \<Rightarrow> unhelpful (Cause e) \<or> NotAfter pl \<noteq> 0
     | NativeRetry \<Rightarrow> Cause e = RateLimited \<or> Cause e = KeySourceFailed \<or> opened (Time s) (Hosts s host) \<le> 0)"

abbreviation undisturbed :: "'c deliver_state \<Rightarrow> bool" where
  "undisturbed s \<equiv> RedisFaults s = []"

lemma undisturbed_statements:
  "moves (\<lambda>s s'. undisturbed s \<longrightarrow> undisturbed s') redis"
  "moves (\<lambda>s s'. undisturbed s \<longrightarrow> undisturbed s') (key_row rs u)"
  "moves (\<lambda>s s'. undisturbed s \<longrightarrow> undisturbed s') (emit x)"
  "moves (\<lambda>s s'. undisturbed s \<longrightarrow> undisturbed s') (set_host h i hs)"
  by (simp_all add: moves_def redis_def key_row_def emit_def change_def set_host_def)

lemmas undisturbed_rules = keeping.moves_rules keeps_whenever undisturbed_statements

lemma undisturbed_sendOnce: "moves (\<lambda>s s'. undisturbed s \<longrightarrow> undisturbed s') (sendOnce p pl ed)"
proof -
  have k: "moves (\<lambda>s s'. undisturbed s \<longrightarrow> undisturbed s') (resolveSigningKey p kind pl)" for kind
    unfolding resolveSigningKey_def signingKey_def memoized_def parse_key_def SigningKeyPEM_def Let_def
    by (intro undisturbed_rules keeping.moves_change) simp_all
  have "moves (\<lambda>s s'. undisturbed s \<longrightarrow> undisturbed s') (PostSigned p pl k)" for k
    unfolding PostSigned_def
    by (intro undisturbed_rules keeping.moves_change) (auto simp: others_def Let_def keeping.moves_rules split: reply.split)
  then have w: "moves (\<lambda>s s'. undisturbed s \<longrightarrow> undisturbed s') (post_with p pl k b)" for k b
    unfolding post_with_def by (intro undisturbed_rules)
  have "moves (\<lambda>s s'. undisturbed s \<longrightarrow> undisturbed s') (send_rsa p pl)" unfolding send_rsa_def
    by (intro keeping.moves_bind keeping.moves_attempt k) (auto intro: w keeping.moves_stop split: res.split stop.split)
  then show ?thesis unfolding sendOnce_def by (intro undisturbed_rules k w)
qed

lemma failure_not_open:
  "host \<noteq> '''' \<Longrightarrow> \<not> fst (fst (RecordFailure True host t now hs)) \<Longrightarrow> opened now (snd (snd (RecordFailure True host t now hs))) \<le> 0"
  by (auto simp: RecordFailure_def failure_script_def Let_def opened_def hash_of_def live_def breaker_constants split: if_splits)

lemma HoldFor_bounds: "good_jitter j \<Longrightarrow> 1000 \<le> HoldFor j d \<and> HoldFor j d \<le> 330000"
  using hold_bounds [of j 0] by blast

definition hold_means :: "string \<Rightarrow> int option \<Rightarrow> 'c deliver_state \<Rightarrow> bool" where
  "hold_means host hold s \<longleftrightarrow> (case hold of None \<Rightarrow> opened (Time s) (Hosts s host) \<le> 0 | Some d \<Rightarrow> 1000 \<le> d \<and> d \<le> 330000)"

lemma wp_recordAttempt_failed:
  assumes "undisturbed s" "HasBreaker p" "AttemptHost a \<noteq> ''''" "good_jitter (Jitter p)" "c = ClassTransport \<or> c = ClassServerError"
  shows "wp (recordAttempt p a False c st msg) (hold_means (AttemptHost a)) E s"
  using assms failure_not_open [OF assms(3)] HoldFor_bounds [OF assms(4)] unfolding recordAttempt_def breaker_failure_def Let_def
  by (auto simp: goes_through_def hold_means_def)

lemma wp_recordAttempt_local:
  "wp (recordAttempt p a True c st msg) (\<lambda>hold _. hold = None) E s"
  unfolding recordAttempt_def breaker_release_def Let_def by simp

definition ends_fairly :: "deliver_payload \<Rightarrow> string \<Rightarrow> deliver_error stop \<Rightarrow> 'c deliver_state \<Rightarrow> bool" where
  "ends_fairly pl host x s \<longleftrightarrow> (case x of Err e \<Rightarrow> fair_end pl host e s | _ \<Rightarrow> True)"

lemma held_fairly:
  assumes "hold_means host hold s" "e = plain c"
  shows "fair_end pl host (case hold of Some d \<Rightarrow> holdOrDrop pl e d | None \<Rightarrow> e) s"
  using assms by (auto simp: hold_means_def fair_end_def nativeError_def holdOrDrop_def plain_def split: option.splits)

lemma always_undisturbed:
  "always (\<lambda>s s'. undisturbed s \<longrightarrow> undisturbed s') (recordSuccess p i)"
  "always (\<lambda>s s'. undisturbed s \<longrightarrow> undisturbed s') (recordError p i)"
  "always (\<lambda>s s'. undisturbed s \<longrightarrow> undisturbed s') (recordEd25519Failure p h)"
  "always (\<lambda>s s'. undisturbed s \<longrightarrow> undisturbed s') (wants_ed25519 p pl)"
  unfolding recordSuccess_def recordError_def recordEd25519Failure_def markEd25519Degraded_def wants_ed25519_def
    isEd25519Degraded_def Let_def
  by (simp_all add: always_def)

lemma local_fairly: "send_error e \<Longrightarrow> LocalSend e \<Longrightarrow> fair_end pl host e s"
  by (auto simp: send_error_def key_error_def fair_end_def nativeError_def plain_def unhelpful_def)

lemma failed_send_fairly:
  fixes p :: "'c processor"
  assumes "undisturbed s" "HasBreaker p" "AttemptHost a \<noteq> ''''" "good_jitter (Jitter p)" "send_error e"
  shows "wp (failed_send p pl a e) Q (ends_fairly pl (AttemptHost a)) s"
  unfolding failed_send_def wp_then
proof (rule wp_mono [OF always_wp [OF always_undisturbed(2)]])
  fix t :: "'c deliver_state"
  assume "undisturbed s \<longrightarrow> undisturbed t"
  with assms(1) have t: "undisturbed t" by simp
  show "wp (bind_act (recordAttempt p a (LocalSend e) ClassTransport 0 (Some (Cause e))) (held_or pl e)) Q (ends_fairly pl (AttemptHost a)) t"
  proof (cases "LocalSend e")
    case True
    then have l: "LocalSend e = True" by simp
    show ?thesis unfolding l wp_bind
      by (rule wp_mono [OF wp_recordAttempt_local [where E = "\<lambda>_ _. False"]])
        (simp_all add: ends_fairly_def local_fairly [OF assms(5) True])
  next
    case False
    then obtain m where e: "e = plain (PostFailed m)" using assms(5) by (auto simp: send_error_def)
    have l: "LocalSend e = False" using False by simp
    show ?thesis unfolding l wp_bind
      by (rule wp_mono [OF wp_recordAttempt_failed [OF t assms(2-4), where E = "\<lambda>_ _. False"]])
        (auto simp: ends_fairly_def held_fairly [OF _ e])
  qed
qed simp

lemma send_or_fail_fairly:
  assumes "undisturbed s" "HasBreaker p" "AttemptHost a \<noteq> ''''" "good_jitter (Jitter p)"
  shows "wp (send_or_fail p pl a ed) (\<lambda>_ s'. undisturbed s') (ends_fairly pl (AttemptHost a)) s"
proof -
  have r: "wp (sendOnce p pl ed) (\<lambda>_ _. True) (\<lambda>e _. \<exists>x. e = Err x \<and> send_error x) s"
    using fails_sendOnce unfolding fails_with_def by blast
  show ?thesis unfolding send_or_fail_def wp_bind wp_attempt
    by (rule wp_mono [OF wp_conj [OF keeps_wp [OF undisturbed_sendOnce assms(1)] r]])
      (auto simp: failed_send_fairly [OF _ assms(2-4)])
qed


lemma fails_mono:
  assumes "fails_with P m" "\<And>x. P x \<Longrightarrow> Q x"
  shows "fails_with Q m"
  unfolding fails_with_def
proof
  fix s
  have m: "wp m (\<lambda>_ _. True) (\<lambda>e _. \<exists>x. e = Err x \<and> P x) s" using assms(1) by (simp add: fails_with_def)
  show "wp m (\<lambda>_ _. True) (\<lambda>e _. \<exists>x. e = Err x \<and> Q x) s" by (rule wp_mono [OF m]) (use assms(2) in auto)
qed

lemma fails_wp:
  assumes "fails_with P m" "\<And>e s. P e \<Longrightarrow> E (Err e) s"
  shows "wp m (\<lambda>_ _. True) E s"
proof -
  have m: "wp m (\<lambda>_ _. True) (\<lambda>e _. \<exists>x. e = Err x \<and> P x) s" using assms(1) by (simp add: fails_with_def)
  show ?thesis by (rule wp_mono [OF m]) (use assms(2) in auto)
qed

lemma fails_records:
  "fails_with P (recordSuccess p i)" "fails_with P (recordAttempt p a False c st msg)"
  "fails_with P (breaker_throttle h d)" "fails_with P (recordGoneSuspended p i)" "fails_with P (recordEd25519Accepted p h)"
  unfolding recordSuccess_def recordAttempt_def breaker_throttle_def recordGoneSuspended_def recordEd25519Accepted_def
    breaker_failure_def breaker_success_def breaker_release_def Let_def
  by (simp_all add: fails_with_def)

lemma fails_whenever: "fails_with P m \<Longrightarrow> fails_with P (whenever b m)"
  by (simp add: whenever_def fails_basic)

definition answer_error :: "deliver_error \<Rightarrow> bool" where
  "answer_error e \<longleftrightarrow> e = plain RateLimited \<or> (\<exists>st. e = (plain (TargetGone st))\<lparr>SkipRetry := True\<rparr> \<or> e = (plain (ClientError st))\<lparr>SkipRetry := True\<rparr>)"

lemma answer_fairly: "answer_error e \<Longrightarrow> fair_end pl h e s"
  by (auto simp: answer_error_def fair_end_def nativeError_def plain_def unhelpful_def)

lemma settle_fairly:
  fixes p :: "'c processor"
  assumes "undisturbed s" "HasBreaker p" "AttemptHost a \<noteq> ''''" "good_jitter (Jitter p)"
  shows "wp (settle p pl a resp) (\<lambda>_ _. True) (ends_fairly pl (AttemptHost a)) s"
proof (cases "200 \<le> Status resp \<and> Status resp < 500 \<and> \<not> (300 \<le> Status resp \<and> Status resp < 400)")
  case True
  then have "fails_with answer_error (settle p pl a resp)"
    unfolding settle_def Let_def
    by (intro fails_if fails_then fails_bind fails_whenever fails_records fails_basic) (auto simp: answer_error_def)
  then show ?thesis by (rule fails_wp) (simp add: ends_fairly_def answer_fairly)
next
  case False
  then have e: "settle p pl a resp = then_act (recordError p (Inbox pl))
     (bind_act (recordAttempt p a False ClassServerError (Status resp) (Some (ServerError (Status resp)))) (held_or pl (plain (ServerError (Status resp)))))"
    by (auto simp: settle_def Let_def)
  show ?thesis unfolding e wp_then
  proof (rule wp_mono [OF always_wp [OF always_undisturbed(2)]])
    fix t :: "'c deliver_state"
    assume "undisturbed s \<longrightarrow> undisturbed t"
    with assms(1) have t: "undisturbed t" by simp
    show "wp (bind_act (recordAttempt p a False ClassServerError (Status resp) (Some (ServerError (Status resp))))
        (held_or pl (plain (ServerError (Status resp))))) (\<lambda>_ _. True) (ends_fairly pl (AttemptHost a)) t"
      unfolding wp_bind
      by (rule wp_mono [OF wp_recordAttempt_failed [OF t assms(2-4), where E = "\<lambda>_ _. False"]])
        (auto simp: ends_fairly_def held_fairly)
  qed simp
qed

lemma try_send_fairly:
  fixes p :: "'c processor"
  assumes "undisturbed s" "HasBreaker p" "AttemptHost a \<noteq> ''''" "good_jitter (Jitter p)"
  shows "wp (try_send p pl a ed) (\<lambda>_ _. True) (ends_fairly pl (AttemptHost a)) s"
proof -
  have again: "wp (then_act (recordEd25519Failure p (AttemptHost a)) (bind_act (send_or_fail p pl a False) (settle p pl a)))
     (\<lambda>_ _. True) (ends_fairly pl (AttemptHost a)) t" if "undisturbed t" for t :: "'c deliver_state"
    unfolding wp_then wp_bind
    by (rule wp_mono [OF always_wp [OF always_undisturbed(3)]], rule wp_mono [OF send_or_fail_fairly [OF _ assms(2-4)]])
       (use that settle_fairly [OF _ assms(2-4)] in auto)
  show ?thesis unfolding try_send_def wp_bind
    by (rule wp_mono [OF send_or_fail_fairly [OF assms]]) (auto simp: again settle_fairly [OF _ assms(2-4)] simp del: wp_then wp_bind)
qed

lemma deliver_fairly:
  fixes p :: "'c processor"
  assumes "undisturbed s" "HasBreaker p" "HostOf p (Inbox pl) = host" "host \<noteq> ''''" "good_jitter (Jitter p)"
  shows "wp (deliver p token raw pl) (\<lambda>_ _. True) (ends_fairly pl host) s"
  unfolding deliver_def Let_def assms(3) wp_bind
proof (rule wp_mono [OF always_wp [OF always_undisturbed(4)]])
  fix ed and t :: "'c deliver_state"
  assume "undisturbed s \<longrightarrow> undisturbed t"
  with assms(1) have t: "undisturbed t" by simp
  have send: "wp (try_send p pl (attempt_of host now r) ed) (\<lambda>_ _. True) (ends_fairly pl host) u" if "undisturbed u"
    for now r and u :: "'c deliver_state"
    using try_send_fairly [OF that assms(2) _ assms(5), of "attempt_of host now r"] assms(4) by (simp add: attempt_of_def)
  have "if Decision (fst (Check up (Jitter p) token host job now hs)) = BreakerDelay
     then 1 \<le> Delay (fst (Check up (Jitter p) token host job now hs)) \<and> Delay (fst (Check up (Jitter p) token host job now hs)) \<le> 330000
     else True" for up job now hs
    using outcome_delay [OF assms(5), of token "fst (check_script now breakerProbeLockTTL token throttleSpacing job hs)"] check_open_positive
    by (fastforce simp: Check_def split: prod.splits)
  then have held: "Decision (fst (Check up (Jitter p) token host job now hs)) = BreakerDelay \<Longrightarrow>
     fair_end pl host (holdOrDrop pl (plain HeldBack) (Delay (fst (Check up (Jitter p) token host job now hs)))) u" for up job now hs and u :: "'c deliver_state"
    by (auto simp: fair_end_def nativeError_def holdOrDrop_def plain_def split: if_splits)
  show "wp (breaker_check p token host (JobHash p raw)) (\<lambda>r. wp (if Decision r = BreakerDelay
        then stop_with (Err (holdOrDrop pl (plain HeldBack) (Delay r)))
        else bind_act (query Time) (\<lambda>now. try_send p pl (attempt_of host now r) ed)) (\<lambda>_ _. True) (ends_fairly pl host))
      (ends_fairly pl host) t"
    using t assms(2,4) send held unfolding breaker_check_def by (simp add: ends_fairly_def)
qed simp

text \<open>C19. Which jobs lose an attempt, which are thrown away and which wait, with the breaker wired and Redis up.  A job
  costs one of its attempts only on a 429, when the key lookup failed, or when the breaker of its host is not open
  afterwards: while it is open, no failure consumes an attempt.  A job is given up only for a reason no retry can change,
  or because it has a deadline and would have had to wait.  A job with a deadline is never put back to wait, and any wait
  is at least a millisecond and at most five and a half minutes.\<close>

theorem attempts_are_spared:
  assumes "Decode p raw = Some pl" "HasBreaker p" "HostOf p (Inbox pl) \<noteq> ''''" "good_jitter (Jitter p)" "RedisFaults s = []"
    and "Handle p token raw s = (Stop (Err e), s')"
  shows "case nativeError e of
       NativeDelay d \<Rightarrow> NotAfter pl = 0 \<and> 1 \<le> d \<and> d \<le> 330000
     | NativeUnrecoverable \<Rightarrow> unhelpful (Cause e) \<or> NotAfter pl \<noteq> 0
     | NativeRetry \<Rightarrow> Cause e = RateLimited \<or> Cause e = KeySourceFailed
         \<or> opened (Time s') (Hosts s' (HostOf p (Inbox pl))) \<le> 0"
proof -
  have "wp (Handle p token raw) (\<lambda>_ _. True) (ends_fairly pl (HostOf p (Inbox pl))) s"
    using assms(1) deliver_fairly [OF assms(5,2) refl assms(3,4)]
    by (simp add: Handle_def ends_fairly_def fair_end_def nativeError_def plain_def unhelpful_def)
  then show ?thesis using assms(6) by (simp add: wp_def ends_fairly_def fair_end_def)
qed

section \<open>Every request is its signer's\<close>

lemma run_signed:
  assumes "cache_ok p content" "no_collision p" "\<forall>pl \<in> queued p evs. plain_payload pl" "keys_ok p content rows s"
  shows "keys_ok p content rows (run_steps (deliver_step p) s evs)
    \<and> (\<forall>x \<in> set (DeliverOut (run_steps (deliver_step p) s evs)). x \<in> set (DeliverOut s) \<or> signed_properly p rows (queued p evs) x)"
  using assms(3,4)
proof (induction evs arbitrary: s)
  case (Cons ev evs)
  have q: "queued p evs \<subseteq> queued p (ev # evs)" by (auto simp: queued_def)
  have up: "signed_properly p rows A x \<Longrightarrow> A \<subseteq> B \<Longrightarrow> signed_properly p rows B x" for A B x
    by (cases x) (auto simp: signed_properly_def)
  have step: "keys_ok p content rows (deliver_step p s ev) \<and> (\<forall>x \<in> set (DeliverOut (deliver_step p s ev)).
      x \<in> set (DeliverOut s) \<or> signed_properly p rows (queued p (ev # evs)) x)"
  proof (cases ev)
    case (Job token raw)
    have sub: "{pl. Decode p raw = Some pl} \<subseteq> queued p (ev # evs)" using Job by (auto simp: queued_def)
    then have "keys_ok p content rows (deliver_step p s ev) \<and> (\<forall>x \<in> set (DeliverOut (deliver_step p s ev)).
        x \<in> set (DeliverOut s) \<or> signed_properly p rows {pl. Decode p raw = Some pl} x)"
      using handle_posts [OF assms(1,2) _ Cons.prems(2) refl, of raw token] Cons.prems(1) Job by auto
    then show ?thesis using up sub by blast
  next
    case (Failing rs ds)
    then show ?thesis using Cons.prems(2) by (simp add: keys_ok_def key_rows_def cong: if_cong)
  qed (use Cons.prems(2) in simp_all)
  have "\<forall>pl \<in> queued p evs. plain_payload pl" using Cons.prems(1) q by blast
  from Cons.IH [OF this conjunct1 [OF step]] step up [OF _ q] show ?case by auto
qed simp

text \<open>C13. No delivery is signed with a foreign key, although all jobs share one cache of parsed keys.  In a run of jobs
  with any answers, any failures of Redis and of the key tables and any evictions, from an empty log and a sound cache, every
  request that goes out is addressed to the inbox of a queued job that no gate stops, carries its body, and is
  signed under its key id with the key that the payload holds or, if it holds none, with the one that the tables hold for
  its signer.  The hash must not collide, and the ids in the payloads hold no NUL.\<close>

theorem posts_signed_by_owner:
  assumes "cache_ok p content" "no_collision p" "\<forall>pl \<in> queued p evs. plain_payload pl"
    and "keys_ok p content (\<lambda>kind. key_rows kind s) s" "DeliverOut s = []"
    and "Posted url body k \<in> set (DeliverOut (run_steps (deliver_step p) s evs))"
  shows "\<exists>pl \<in> queued p evs. url = Inbox pl \<and> body = Body pl \<and> \<not> gated p (HostOf p url)
    \<and> KeyName k = key_id (KeyKind k) pl
    \<and> (if inline_pem (KeyKind k) pl \<noteq> '''' then KeyText k = inline_pem (KeyKind k) pl
       else key_rows (KeyKind k) s (SignerUserID pl) = Some (KeyText k))"
  using run_signed [OF assms(1-4)] assms(5,6) unfolding signed_properly_def own_key_def by fastforce

section \<open>Instances\<close>

definition map_cache :: "(string \<Rightarrow> private_key option) lru" where
  "map_cache = \<lparr>CacheGet = (\<lambda>c ck. (c ck, c)), CacheAdd = (\<lambda>c ck k. c(ck \<mapsto> k))\<rparr>"

definition hex :: "string \<Rightarrow> string" where
  "hex s = concat (map (\<lambda>c. [char_of (65 + of_char c div 16 :: nat), char_of (65 + of_char c mod 16 :: nat)]) s)"

definition note_job :: deliver_payload where
  "note_job = \<lparr>Inbox = ''i'', Body = ''b'', KeyID = ''k'', KeyPEM = '''', Ed25519KeyID = ''e'', Ed25519PrivPEM = '''',
     IsSharedInbox = False, SignerUserID = ''u'', NotAfter = 0\<rparr>"

definition worker :: "bool \<Rightarrow> (string \<Rightarrow> private_key option) processor" where
  "worker breaker = \<lparr>HostOf = (\<lambda>_. ''h''), Decode = (\<lambda>_. Some note_job), JobHash = id, KeyHash = hex, Parses = (\<lambda>_ _. True),
     HTTPDate = (\<lambda>_. None), Jitter = (\<lambda>_. 0), KeyCache = Some map_cache, KeySource = Some \<lparr>HasKeypair = True, HasKeypairExtra = True\<rparr>,
     HasResponseHook = False, HasChartHook = False, HasTelemetry = False, HasBreaker = breaker, SuspendedChecker = None,
     DeliveryGate = None, HasCapabilities = False, HasRedis = True\<rparr>"

definition idle_worker :: "(string \<Rightarrow> private_key option) deliver_state" where
  "idle_worker = \<lparr>Time = 1000, Hosts = (\<lambda>_. empty_host), HostIndex = Map.empty, DegradedTill = Map.empty, FailCount = Map.empty,
     KeyRows = [''u'' \<mapsto> ''rsa''], ExtraKeyRows = Map.empty, Cache = Map.empty, Answers = [], RedisFaults = [], DbFaults = [], DeliverOut = []\<rparr>"

lemma hex_ok: "inj hex" "nul \<notin> set (hex s)"
proof -
  have r: "(of_char (char_of (65 + n) :: char) :: nat) = 65 + n" if "n < 16" for n :: nat
    using that by simp
  have h: "(of_char c :: nat) div 16 < 16" for c :: char using nat_of_char_less_256 [of c] by linarith
  have m: "(65 + of_char c div 16) mod 256 = 65 + (of_char c div 16 :: nat)" for c :: char using h [of c] by simp
  have c: "(of_char x :: nat) div 16 = of_char y div 16 \<Longrightarrow> (of_char x :: nat) mod 16 = of_char y mod 16 \<Longrightarrow> x = y" for x y :: char
    by (metis div_mult_mod_eq of_char_eq_iff)
  show "inj hex"
  proof (rule injI)
    fix x y
    show "hex x = hex y \<Longrightarrow> x = y"
    proof (induction x arbitrary: y)
      case Nil
      then show ?case by (cases y) (simp_all add: hex_def)
    next
      case (Cons a x)
      then show ?case by (cases y) (auto simp: hex_def m intro: c)
    qed
  qed
  have n: "n < 16 \<Longrightarrow> (char_of (65 + n) :: char) \<noteq> nul" for n :: nat
  proof
    assume a: "n < 16" "(char_of (65 + n) :: char) = nul"
    show False using r [OF a(1)] unfolding a(2) by simp
  qed
  show "nul \<notin> set (hex s)" by (auto simp: hex_def h n [THEN not_sym])
qed


lemma worker_resolves: "cache_ok (worker b) (\<lambda>c. c)" "no_collision (worker b)" "plain_payload note_job"
  using hex_ok by (simp_all add: cache_ok_def worker_def lru_ok_def map_cache_def no_collision_def plain_payload_def note_job_def
    split: option.split)

lemmas eval_worker = worker_def note_job_def Handle_def deliver_def wants_ed25519_def isEd25519Degraded_def
  degraded_def job_expired_def gated_def breaker_check_def try_send_def attempt_of_def send_or_fail_def failed_send_def sendOnce_def send_rsa_def
  resolveSigningKey_def memoized_def map_cache_def SigningKeyPEM_def key_row_def parse_key_def post_with_def PostSigned_def
  no_answer_def others_def recordError_def recordAttempt_def held_or_def
  emit_def redis_def goes_through_def set_host_def whenever_def act_defs Let_def plain_def

lemma idle_posts:
  "DeliverOut (run_steps (deliver_step (worker False)) idle_worker [Job ''t'' ''j''])
     = [Posted ''i'' ''b'' \<lparr>KeyKind = KindRSA, KeyName = ''k'', KeyText = ''rsa''\<rparr>]"
  by (simp add: eval_worker idle_worker_def)

theorem posts_signed_by_owner_witness:
  "\<exists>pl \<in> queued (worker False) [Job ''t'' ''j'']. ''i'' = Inbox pl \<and> key_rows KindRSA idle_worker (SignerUserID pl) = Some ''rsa''"
proof -
  let ?k = "\<lparr>KeyKind = KindRSA, KeyName = ''k'', KeyText = ''rsa''\<rparr>"
  have q: "\<forall>pl \<in> queued (worker False) [Job ''t'' ''j'']. plain_payload pl \<and> inline_pem KindRSA pl = ''''"
    using worker_resolves(3) by (auto simp: queued_def worker_def note_job_def)
  have "keys_ok (worker False) (\<lambda>c. c) (\<lambda>kind. key_rows kind idle_worker) idle_worker" "DeliverOut idle_worker = []"
    by (simp_all add: keys_ok_def idle_worker_def)
  moreover have "Posted ''i'' ''b'' ?k \<in> set (DeliverOut (run_steps (deliver_step (worker False)) idle_worker [Job ''t'' ''j'']))"
    by (simp only: idle_posts) simp
  ultimately show ?thesis
    using posts_signed_by_owner [OF worker_resolves(1,2), of False "[Job ''t'' ''j'']" idle_worker "''i''" "''b''" ?k] q by fastforce
qed

definition down_host :: "int \<Rightarrow> host_state" where
  "down_host nextProbe = empty_host\<lparr>Breaker := Some (\<lparr>Failures = 5, OpenedAt = 900000, Interval = Some 60000, NextProbe = nextProbe\<rparr>, None)\<rparr>"

definition down_worker :: "int \<Rightarrow> (string \<Rightarrow> private_key option) deliver_state" where
  \<comment> \<open>while the probe is out, other workers fail, check and let time pass\<close>
  "down_worker nextProbe = idle_worker\<lparr>Time := 1000000, Hosts := (\<lambda>_. down_host nextProbe),
     Answers := [\<lparr>Meanwhile = [DoFailure ''o'', Advance 2000, DoCheck ''o'' ''x''], Reply = Response 503 ''''\<rparr>]\<rparr>"

lemma worker_host: "Decode (worker b) raw = Some note_job" "HostOf (worker b) u = ''h''" "HasBreaker (worker True)"
  by (simp_all add: worker_def)

lemmas eval_check = Check_def check_script_def Let_def empty_host_def my_reservation_def reserved_def reservations_def live_def
  drop_reservation_def pttl_throttle_def half_open_check_def opened_def hash_of_def probe_of_def check_outcome_def down_host_def

theorem probe_slot_returned_witness:
  "Decision (fst (Check True (\<lambda>_. 0) ''t'' ''h'' ''j'' 1000000 (down_host 960000))) = BreakerProbe
   \<and> map_option fst (probe_of (Time (snd (Handle (worker True) ''t'' ''j'' (down_worker 960000))))
       (Hosts (snd (Handle (worker True) ''t'' ''j'' (down_worker 960000))) ''h'')) \<noteq> Some ''t''"
proof -
  have "ready ''t'' ''h'' (down_worker 960000)"
    by (simp add: ready_def down_worker_def idle_worker_def foreign_def not_ours_def down_host_def empty_host_def)
  then show ?thesis
    using probe_slot_returned [OF worker_host(1,2) _ _ worker_host(3), of "''t''" "down_worker 960000" "''j''"]
    by (simp add: eval_check)
qed

theorem attempts_are_spared_witness:
  "fst (Handle (worker True) ''t'' ''j'' (down_worker 1060000)) = Stop (Err ((plain HeldBack)\<lparr>DelayFor := Some 60000\<rparr>))
   \<and> nativeError ((plain HeldBack)\<lparr>DelayFor := Some 60000\<rparr>) = NativeDelay 60000 \<and> (60000 :: int) \<le> 330000"
proof -
  have h: "fst (Handle (worker True) ''t'' ''j'' (down_worker 1060000)) = Stop (Err ((plain HeldBack)\<lparr>DelayFor := Some 60000\<rparr>))"
    by (simp add: eval_worker down_worker_def idle_worker_def holdOrDrop_def eval_check breaker_constants)
  have n: "nativeError ((plain HeldBack)\<lparr>DelayFor := Some 60000\<rparr>) = NativeDelay 60000" by (simp add: nativeError_def)
  have "good_jitter (Jitter (worker True))" by (simp add: worker_def good_jitter_def)
  then show ?thesis
    using attempts_are_spared [OF worker_host(1,3), where s = "down_worker 1060000" and token = "''t''" and raw = "''j''"
        and e = "(plain HeldBack)\<lparr>DelayFor := Some 60000\<rparr>" and s' = "snd (Handle (worker True) ''t'' ''j'' (down_worker 1060000))"]
      h n by (simp add: worker_host(2) down_worker_def idle_worker_def prod_eq_iff)
qed

section \<open>Whose refusal counts\<close>

definition refused :: answer where
  "refused = \<lparr>Meanwhile = [], Reply = Response 401 ''''\<rparr>"

definition rsa_post :: deliver_effect where
  "rsa_post = Posted ''i'' ''b'' \<lparr>KeyKind = KindRSA, KeyName = ''k'', KeyText = ''rsa''\<rparr>"

definition refusing :: "nat \<Rightarrow> (string \<Rightarrow> private_key option) deliver_state \<Rightarrow> bool" where
  \<comment> \<open>after that many refused jobs of a signer without an Ed25519 key\<close>
  "refusing n s \<longleftrightarrow> Answers s = replicate (6 - 2 * n) refused \<and> RedisFaults s = [] \<and> DbFaults s = []
     \<and> KeyRows s = [''u'' \<mapsto> ''rsa''] \<and> ExtraKeyRows s = Map.empty \<and> Time s = 1000
     \<and> FailCount s ''h'' = (if n = 0 then None else Some (int n, Some 61000))
     \<and> DegradedTill s ''h'' = (if n < 3 then None else Some 301000) \<and> DeliverOut s = replicate (2 * n) rsa_post"

lemmas wp_refusal = Handle_def deliver_def wants_ed25519_def isEd25519Degraded_def
  degraded_def job_expired_def gated_def breaker_check_def try_send_def attempt_of_def send_or_fail_def sendOnce_def send_rsa_def
  resolveSigningKey_def memoized_def SigningKeyPEM_def wp_key_row wp_parse_key post_with_def PostSigned_def
  others_def recordAttempt_def goes_through_def Let_def settle_def recordSuccess_def blames_ed25519_def recordEd25519Failure_def
  incremented_def markEd25519Degraded_def degrade_constants live_def

lemma refused_simps [simp]: "Meanwhile refused = []" "Reply refused = Response 401 ''''"
  by (simp_all add: refused_def)

definition no_cache :: "(string \<Rightarrow> private_key option) processor" where
  "no_cache = (worker False)\<lparr>KeyCache := None\<rparr>"

lemma refused_job:
  assumes "refusing n s" "n < 3"
  shows "refusing (Suc n) (snd (Handle no_cache t r s))"
proof -
  have a: "Answers s = refused # refused # replicate (4 - 2 * n) refused" "4 - 2 * n = 6 - 2 * Suc n" "2 * Suc n = Suc (Suc (2 * n))"
    using assms by (auto simp: refusing_def numeral_eq_Suc less_Suc_eq)
  have f: "RedisFaults s = []" "DbFaults s = []" "KeyRows s = [''u'' \<mapsto> ''rsa'']" "ExtraKeyRows s = Map.empty" "Time s = 1000"
    "FailCount s ''h'' = (if n = 0 then None else Some (int n, Some 61000))" "DegradedTill s ''h'' = None" "DeliverOut s = replicate (2 * n) rsa_post"
    using assms by (simp_all add: refusing_def)
  have "n = 0 \<or> n = 1 \<or> n = 2" using assms(2) by auto
  then have "wp (Handle no_cache t r) (\<lambda>_. refusing (Suc n)) (\<lambda>_. refusing (Suc n)) s"
    by (elim disjE; simp add: wp_refusal no_cache_def worker_def note_job_def a(1) f)
       (simp_all add: refusing_def rsa_post_def numeral_eq_Suc f)
  then show ?thesis unfolding wp_state .
qed

text \<open>A host that never saw an Ed25519 signature is degraded for its refusals of RSA: the signer has no Ed25519 key, so each of three jobs is
  signed with RSA, refused, counted against Ed25519 and sent once more with the same signature, and after the third
  the host's Ed25519 is off for five minutes.  The test is on the request for Ed25519, not on what was signed with.\<close>

theorem rsa_refusals_degrade:
  "let s = run_steps (deliver_step no_cache) (idle_worker\<lparr>Answers := replicate 6 refused\<rparr>) [Job ''t'' ''a'', Job ''u'' ''b'', Job ''v'' ''c'']
   in DeliverOut s = replicate 6 (Posted ''i'' ''b'' \<lparr>KeyKind = KindRSA, KeyName = ''k'', KeyText = ''rsa''\<rparr>)
     \<and> DegradedTill s ''h'' = Some 301000"
proof -
  let ?s = "idle_worker\<lparr>Answers := replicate 6 refused\<rparr>"
  have "refusing 0 ?s" by (simp add: refusing_def idle_worker_def)
  then have "refusing 3 (run_steps (deliver_step no_cache) ?s [Job ''t'' ''a'', Job ''u'' ''b'', Job ''v'' ''c''])"
    using refused_job by (simp add: numeral_eq_Suc)
  then show ?thesis by (simp add: Let_def refusing_def rsa_post_def)
qed

text \<open>The failures are counted in a fixed window, from the first on, not in a sliding one: of four failures after 0, 40, 61 and 90
  seconds the last three are within a minute, and the host is not degraded.\<close>

theorem fixed_window_misses:
  "let at = (\<lambda>t s. snd (recordEd25519Failure (worker False) ''h'' (s\<lparr>Time := t\<rparr>)))
   in DegradedTill (at 90000 (at 61000 (at 40000 (at 0 idle_worker)))) = Map.empty"
  by (simp add: eval_worker idle_worker_def recordEd25519Failure_def incremented_def markEd25519Degraded_def degrade_constants live_def)

end
