(* ===== verification/Spec2Isabelle.thy ===== *)
theory Spec2Isabelle imports Reversi_Rules Reversi_Claims Reversi_Race Col_Fit Autoscale Safe_Math Go_Float Delivery_Breaker Note_Visibility Role_Cond Role_Policy Misc_Id Rate_Limit Social_Claims Poll_Claims Reaction_Claims Note_Runs Fed_Claims Deliver_Claims begin
text \<open>
  Verification of the core logic of elythia, a Misskey-compatible server written in Go (internal/).

  THE PROGRAM.  Handlers under internal/api and internal/server, the inbox of internal/core/federation and the
  command line call services under internal/core.  A service checks its guards, runs single
  SQL statements through internal/repository (there is hardly a transaction), and then calls best-effort hooks: stream
  events, notifications, deliveries, charts.  Workers of internal/queue deliver to remote servers behind a
  circuit breaker and are scaled by a controller.  The development models services with the statements and hooks
  they use; the hooks' own work and the transport are outside.

  HOW A SERVICE IS MODELLED.  A method is an action \<open>('s, 'e, 'a) act\<close> (\<open>Prelude\<close>): a function from a state record to a
  value or an error (\<open>res\<close>) and the next state.  \<open>wp m Q E s\<close> is its weakest precondition, with one simplification rule per
  combinator.  The state holds the rows of the tables, the clock and what has gone out; a list in the state says
  for each coming statement whether it fails, so the error branches are reachable.  What is wired into a service
  is a record of options (\<open>None\<close> or \<open>False\<close>: a nil dependency); code of other packages and third-party libraries is
  a field of it.  Code that can panic or loop is modelled with the outcomes \<open>Ok\<close>, \<open>Panic\<close> and \<open>Hang\<close>.
  \<open>transition\<close> lifts a preorder on states from statements to methods, \<open>stepping\<close> an invariant from one
  event to every run of events.

  THE PARTS, in the order in which they build on each other.

  \<^item> \<open>Prelude\<close>, \<open>Go_Text\<close>, \<open>Go_Float\<close>, \<open>Safe_Math\<close>: outcomes, actions, runs; UTF-8 as Go decodes it; float64 conversions and
    saturating int64 arithmetic (safemath/safemath.go).
  \<^item> \<open>Col_Fit\<close> (misc/colfit): remote text against PostgreSQL columns.  The escape scan of JSON accepts exactly what jsonb
    accepts.
  \<^item> \<open>Misc_Id\<close> (misc/id): identifiers that carry their time; parsing returns the time that was generated.
  \<^item> \<open>Reversi_Game\<close>, \<open>Reversi_Rules\<close> (core/reversi/game.go): the engine and the rules it implements: the unbounded scan
    returns and computes the outflanked stones on a rectangular board, a game ends, and on a ragged looped board the scan
    does not return.
  \<^item> \<open>Reversi_Row\<close>, \<open>Reversi_Service\<close>, \<open>Reversi_Lifecycle\<close>, \<open>Reversi_Claims\<close>, \<open>Reversi_Race\<close> (core/reversi/service.go,
    repository/reversi.go): the match as a row and its state machine under requests, failures and evictions; the stored log
    replays to the engine's state; two players who become ready at once, statement by statement.
  \<^item> \<open>Autoscale\<close> (queue/autoscale): the worker pool controller.  A backlog fills the pool.
  \<^item> \<open>Delivery_Breaker\<close> (core/deliveryhealth/breaker.go): the Redis scripts of the circuit breaker as atomic steps; their
    invariant, one probe at a time, bounded waiting.
  \<^item> \<open>Deliver\<close>, \<open>Deliver_Claims\<close> (queue/processors/deliver.go, deliver_keysource.go): one delivery job over the breaker:
    gates, signing keys and their shared cache, the requests, the switch on the answer, the error the queue acts on.
    Requests are signed with the key of their own job's signer, a probe is given back, attempts are not lost while a host is down.
  \<^item> \<open>Role_Cond\<close>, \<open>Role_Policy\<close> (core/role): the evaluator of conditional roles, the soundness of the two guards against
    indirect privileges, and the aggregation of policies, which does not depend on the order of the roles.
  \<^item> \<open>Rate_Limit\<close> (server/middleware/ratelimit.go): the sliding window on Redis and the middleware over it.
  \<^item> \<open>Social_Graph\<close>, \<open>Following\<close>, \<open>Blocking\<close>, \<open>Social_Runs\<close>, \<open>Social_Claims\<close> (core/following, core/blocking): the graph of
    followings, requests and blocks, and the two services on it, which meet through the locales \<open>blocking_guard\<close> and
    \<open>severance\<close>.  Counters count the rows, a block severs every tie, and no tie arises across a block.
  \<^item> \<open>Note_Visibility\<close> (core/note/visibility.go, hide_embed.go): who may read a note; the gates of the read paths, the
    stream, embeds and public pages, and how they contain each other.
  \<^item> \<open>Note_Store\<close>: the notes table, the statements and the gate that posting, voting and reacting share.
  \<^item> \<open>Poll_Service\<close>, \<open>Poll_Claims\<close> (core/poll): voting and the worker that announces endings: counters are the numbers
    of votes, every ending is announced exactly once; two concurrent votes on a single-choice poll both count.
  \<^item> \<open>Reaction_Text\<close>, \<open>Reaction_Service\<close>, \<open>Reaction_Claims\<close> (core/reaction): reactions, their text, and both ways of counting,
    one of which refines the other.
  \<^item> \<open>Note_Text\<close>, \<open>Note_Mentions\<close>, \<open>Note_Create\<close>, \<open>Note_Claims\<close>, \<open>Note_Runs\<close> (misc/keyword, misc/hashtag,
    core/note/note_create_service.go, note_delete_service.go): posting and deleting.  The whole of \<open>Create\<close> is one action:
    the two lookups, every guard in the order in which errors are reported, the mentions, the row, the counters, the
    poll, the hooks.  A note is stored only past every guard, and is stored when it passes them; how wide it is and who
    reads it; what a refused request leaves; well-typed tables in every run with failing statements.
  \<^item> \<open>Fed_Rule\<close>, \<open>Fed_Service\<close>, \<open>Fed_Claims\<close> (core/fedrule, misc/idnhost/gate.go): the administrators' rules for inbound notes and
    activities: their normal form, what matches, the merged verdict, the service's table and its cached compilation.  In
    every run the table holds normal rules only, and once a retry interval has passed without faults the verdict is the table's.

  HOW THE COMPONENTS MEET.  Posting uses \<open>CanSeeNote\<close> and \<open>ClampVisibilityForReply\<close> of \<open>Note_Visibility\<close> and the
  columns of \<open>Col_Fit\<close>; the word filters of posting and the patterns of federation rules are one matcher, in \<open>Note_Text\<close>; what \<open>IsBlocked\<close> and the policies answer reaches it as arguments.  Polls and reactions act on the
  same notes through \<open>Note_Store\<close>, and blocking reaches following through its interface.
  A property that starts from a service's store holds for any answers of its parameters unless it names a hypothesis.

  BOUNDS.  Loops are structural recursion or \<open>function\<close>s with a measure, except two.  The board scan
  (\<open>effects_loop\<close>) is a \<open>partial_function\<close> whose \<open>None\<close> is a loop that never returns; on rectangular boards it is
  shown to return.  The paging of \<open>AcceptAllRequests\<close> (\<open>receivedPages\<close>) takes fuel, and any fuel above the number of requests
  is enough (\<open>AcceptAllRequests_drains\<close>).  int64 is \<open>64 word\<close> where the code can wrap (\<open>Safe_Math\<close>, durations in \<open>Role_Cond\<close>), and a mathematical
  integer with the database's range check where the column decides (16 bits for a note's reply and renote counters, 32 for poll
  counters).  Floats are exact rationals where the operands stay below \<open>2 ^ 53\<close>, otherwise rounded by an argument.

  WHAT THE FINDINGS SHOW.  \<open>NewGame_ragged\<close>, \<open>unlimited_match_times_out\<close>, \<open>single_choice_race\<close>, \<open>lost_decrement\<close>,
  \<open>failed_poll_leaves_note\<close>, \<open>double_delete\<close>, \<open>overflowing_age_matches_everybody\<close>, \<open>scaledMax_divides\<close>, \<open>rsa_refusals_degrade\<close> and
  \<open>fixed_window_misses\<close> are theorems about the code as it is, where it does not do what it means to.

  LIMITS OF THE RUNS.  The runs of the social graph start where no user has moved to another account, and migration is no
  step of them, so the branches that spare a moved user's counters are in the definitions and in \<open>new_ties_are_unblocked\<close>, but not
  in \<open>social_graph_runs\<close>.  The counts of a remote poll, which \<open>UpdateVotes\<close> overwrites, are outside the runs of polls.

  NOT MODELLED.  HTTP handlers and routing (internal/api, internal/server outside the rate limiter), which decode
  requests and call the services; SQL and Redis themselves and the other repositories, whose statements are modelled
  where a service uses them; federation (internal/core/federation, internal/activitypub: signatures, JSON-LD, rendering, the MFM parser),
  where most of the work is in parsers and cryptography of other packages; the realtime stream, the queue drivers (but for \<open>nativeError\<close>), chart
  storage, drive, search, backup, the command line and the plugins, which are input and output around the core.
  Goroutines are modelled where an interleaving matters (\<open>Reversi_Race\<close>, the races on polls, reactions and
  deletion); the hooks after the last statement of a method run in the order in which they are started.
\<close>
end
